(* ===== verification/Broker_Prelude.thy ===== *)
theory Broker_Prelude
  imports Main "HOL-Library.Sublist" "HOL-Library.AList"
begin

text \<open>
  Shared vocabulary of the development: the fragment of Go's type system and standard
  library that the broker's sources use, and the generic lemmas the component theories
  share.

  \<^item> Times are integers, nanoseconds since Go's zero time, so that
    \<open>time.Time{}\<close> is \<open>0\<close> and \<open>t.IsZero()\<close> is \<open>t = 0\<close>; durations are
    integers in nanoseconds. \<open>t.Sub(u)\<close> saturates at the int64 range as in Go.
  \<^item> Strings and byte slices are byte lists (\<open>string\<close>). \<open>strings.TrimSpace\<close> and
    \<open>strings.Fields\<close> recognise every Unicode white-space rune by its UTF-8 encoding;
    \<open>strings.ToLower\<close> and \<open>strings.EqualFold\<close> act on the ASCII letters and leave
    every other byte alone (the broker only ever compares their results with ASCII
    literals).
  \<^item> JSON values are a datatype with one constructor per dynamic Go type that the
    sources distinguish; an object is an association list, the order of which stands for
    the iteration order of a Go map.
\<close>

section \<open>Named theorem collections\<close>

named_theorems go_defs \<open>definitions of the modelled Go library that proofs unfold together\<close>
named_theorems op_simps \<open>field equations of the state-changing operations\<close>

section \<open>Integers and time\<close>

type_synonym gotime = int
type_synonym duration = int

definition wrap64 :: "int \<Rightarrow> int" where
  "wrap64 x = (x + 2 ^ 63) mod 2 ^ 64 - 2 ^ 63"

abbreviation nanos_per_second :: int where
  "nanos_per_second \<equiv> 1000000000"

abbreviation seconds :: "int \<Rightarrow> duration" where
  "seconds n \<equiv> n * 1000000000"

abbreviation minutes :: "int \<Rightarrow> duration" where
  "minutes n \<equiv> n * 60000000000"

abbreviation hours :: "int \<Rightarrow> duration" where
  "hours n \<equiv> n * 3600000000000"

definition time_sub :: "gotime \<Rightarrow> gotime \<Rightarrow> duration" where
  "time_sub t u = max (- (2 ^ 63)) (min (2 ^ 63 - 1) (t - u))"

text \<open>\<open>time.Unix(sec, 0)\<close>: the internal second counter is an int64 that wraps.\<close>

definition time_Unix :: "int \<Rightarrow> gotime" where
  "time_Unix s = seconds (wrap64 (s + 62135596800))"

section \<open>Byte strings\<close>

definition ascii_lower :: "char \<Rightarrow> char" where
  "ascii_lower c =
     (if 65 \<le> (of_char c :: nat) \<and> (of_char c :: nat) \<le> 90 then char_of (of_char c + 32 :: nat) else c)"

definition ToLower :: "string \<Rightarrow> string" where
  "ToLower s = map ascii_lower s"

definition EqualFold :: "string \<Rightarrow> string \<Rightarrow> bool" where
  "EqualFold s t \<longleftrightarrow> ToLower s = ToLower t"

abbreviation HasPrefix :: "string \<Rightarrow> string \<Rightarrow> bool" where
  "HasPrefix s p \<equiv> prefix p s"

abbreviation HasSuffix :: "string \<Rightarrow> string \<Rightarrow> bool" where
  "HasSuffix s p \<equiv> suffix p s"

definition TrimPrefix :: "string \<Rightarrow> string \<Rightarrow> string" where
  "TrimPrefix s p = (if prefix p s then drop (length p) s else s)"

definition TrimSuffix :: "string \<Rightarrow> string \<Rightarrow> string" where
  "TrimSuffix s p = (if suffix p s then take (length s - length p) s else s)"

fun Contains :: "string \<Rightarrow> string \<Rightarrow> bool" where
  "Contains [] sub \<longleftrightarrow> sub = []"
| "Contains (c # s) sub \<longleftrightarrow> prefix sub (c # s) \<or> Contains s sub"

text \<open>\<open>strings.Split\<close> with a one-byte separator, the only form the sources use.\<close>

fun Split :: "char \<Rightarrow> string \<Rightarrow> string list" where
  "Split sep [] = [[]]"
| "Split sep (c # s) =
     (if c = sep then [] # Split sep s
      else (case Split sep s of [] \<Rightarrow> [[c]] | p # ps \<Rightarrow> (c # p) # ps))"

fun Join :: "string list \<Rightarrow> string \<Rightarrow> string" where
  "Join [] sep = []"
| "Join [s] sep = s"
| "Join (s # t # ss) sep = s @ sep @ Join (t # ss) sep"

text \<open>\<open>strings.Cut\<close> with a one-byte separator: text before, text after, found.\<close>

definition Cut :: "char \<Rightarrow> string \<Rightarrow> string \<times> string \<times> bool" where
  "Cut sep s =
     (if sep \<in> set s then (takeWhile (\<lambda>c. c \<noteq> sep) s, tl (dropWhile (\<lambda>c. c \<noteq> sep) s), True)
      else (s, [], False))"

text \<open>\<open>strings.Trim\<close> with an ASCII cutset.\<close>

definition TrimCut :: "string \<Rightarrow> string \<Rightarrow> string" where
  "TrimCut s cs = rev (dropWhile (\<lambda>c. c \<in> set cs) (rev (dropWhile (\<lambda>c. c \<in> set cs) s)))"

fun ReplaceFirst :: "string \<Rightarrow> string \<Rightarrow> string \<Rightarrow> string" where
  "ReplaceFirst [] old new = (if old = [] then new else [])"
| "ReplaceFirst (c # s) old new =
     (if prefix old (c # s) then new @ drop (length old) (c # s) else c # ReplaceFirst s old new)"

subsection \<open>White space\<close>

text \<open>The UTF-8 encodings of the runes with \<open>unicode.IsSpace\<close>.\<close>

definition space_runes :: "string list" where
  "space_runes =
     [[CHR 0x20], [CHR 0x09], [CHR 0x0A], [CHR 0x0B], [CHR 0x0C], [CHR 0x0D],
      [CHR 0xC2, CHR 0x85], [CHR 0xC2, CHR 0xA0], [CHR 0xE1, CHR 0x9A, CHR 0x80],
      [CHR 0xE2, CHR 0x80, CHR 0x80], [CHR 0xE2, CHR 0x80, CHR 0x81], [CHR 0xE2, CHR 0x80, CHR 0x82],
      [CHR 0xE2, CHR 0x80, CHR 0x83], [CHR 0xE2, CHR 0x80, CHR 0x84], [CHR 0xE2, CHR 0x80, CHR 0x85],
      [CHR 0xE2, CHR 0x80, CHR 0x86], [CHR 0xE2, CHR 0x80, CHR 0x87], [CHR 0xE2, CHR 0x80, CHR 0x88],
      [CHR 0xE2, CHR 0x80, CHR 0x89], [CHR 0xE2, CHR 0x80, CHR 0x8A], [CHR 0xE2, CHR 0x80, CHR 0xA8],
      [CHR 0xE2, CHR 0x80, CHR 0xA9], [CHR 0xE2, CHR 0x80, CHR 0xAF], [CHR 0xE2, CHR 0x81, CHR 0x9F],
      [CHR 0xE3, CHR 0x80, CHR 0x80]]"

definition leading :: "string list \<Rightarrow> string \<Rightarrow> string option" where
  "leading rs s = find (\<lambda>r. r \<noteq> [] \<and> prefix r s) rs"

lemma leading_Some:
  "leading rs s = Some r \<Longrightarrow> r \<noteq> [] \<and> prefix r s \<and> r \<in> set rs"
  by (auto simp: leading_def find_Some_iff)

lemma leading_shorter:
  assumes "leading rs s = Some r"
  shows "length (drop (length r) s) < length s"
proof -
  have "r \<noteq> []" "prefix r s" using leading_Some [OF assms] by simp_all
  then show ?thesis by (cases r; cases s) auto
qed

function trim_runes :: "string list \<Rightarrow> string \<Rightarrow> string" where
  "trim_runes rs s =
     (case leading rs s of None \<Rightarrow> s | Some r \<Rightarrow> trim_runes rs (drop (length r) s))"
  by pat_completeness auto
termination
  by (relation "measure (\<lambda>(rs, s). length s)") (simp_all only: in_measure case_prod_conv leading_shorter wf_measure)

declare trim_runes.simps [simp del]

definition TrimSpace :: "string \<Rightarrow> string" where
  "TrimSpace s = rev (trim_runes (map rev space_runes) (rev (trim_runes space_runes s)))"

function fields_from :: "string \<Rightarrow> string \<Rightarrow> string list" where
  "fields_from cur s =
     (case s of
        [] \<Rightarrow> (if cur = [] then [] else [rev cur])
      | c # cs \<Rightarrow>
          (case leading space_runes s of
             Some r \<Rightarrow>
               (if cur = [] then [] else [rev cur]) @ fields_from [] (drop (length r) s)
           | None \<Rightarrow> fields_from (c # cur) cs))"
  by pat_completeness auto
termination
  by (relation "measure (\<lambda>(cur, s). length s)") (auto dest: leading_shorter)

declare fields_from.simps [simp del]

text \<open>\<open>strings.Fields\<close>\<close>

definition Fields :: "string \<Rightarrow> string list" where
  "Fields s = fields_from [] s"

subsection \<open>Decimal integers\<close>

definition digit_char :: "nat \<Rightarrow> char" where
  "digit_char d = char_of (48 + d)"

definition is_digit :: "char \<Rightarrow> bool" where
  "is_digit c \<longleftrightarrow> 48 \<le> (of_char c :: nat) \<and> (of_char c :: nat) \<le> 57"

definition digit_val :: "char \<Rightarrow> nat" where
  "digit_val c = of_char c - 48"

text \<open>\<open>strconv.Itoa\<close> on non-negative integers\<close>

fun itoa :: "nat \<Rightarrow> string" where
  "itoa n = (if n < 10 then [digit_char n] else itoa (n div 10) @ [digit_char (n mod 10)])"

declare itoa.simps [simp del]

definition Itoa :: "int \<Rightarrow> string" where
  "Itoa n = (if n < 0 then CHR ''-'' # itoa (nat (- n)) else itoa (nat n))"

fun decimal_val :: "nat \<Rightarrow> string \<Rightarrow> nat option" where
  "decimal_val acc [] = Some acc"
| "decimal_val acc (c # s) = (if is_digit c then decimal_val (acc * 10 + digit_val c) s else None)"

text \<open>\<open>strconv.Atoi\<close> and \<open>strconv.ParseInt(s, 10, 64)\<close>: an optional sign, at least one
  digit, a value in the int64 range.\<close>

definition Atoi :: "string \<Rightarrow> int option" where
  "Atoi s =
     (let neg = HasPrefix s ''-'';
          ds = (if HasPrefix s ''-'' \<or> HasPrefix s ''+'' then tl s else s)
      in if ds = [] then None
         else (case decimal_val 0 ds of
                 None \<Rightarrow> None
               | Some n \<Rightarrow>
                   (let v = (if neg then - int n else int n)
                    in if - (2 ^ 63) \<le> v \<and> v < 2 ^ 63 then Some v else None)))"

section \<open>Lemmas\<close>

subsection \<open>Time and integers\<close>

lemma wrap64_range: "- (2 ^ 63) \<le> wrap64 x \<and> wrap64 x < 2 ^ 63"
  by (simp add: wrap64_def)

lemma wrap64_id: "- (2 ^ 63) \<le> x \<Longrightarrow> x < 2 ^ 63 \<Longrightarrow> wrap64 x = x"
  by (simp add: wrap64_def)

lemma wrap64_add: "wrap64 (wrap64 a + b) = wrap64 (a + b)"
  unfolding wrap64_def using mod_add_left_eq [of "a + 2 ^ 63" "2 ^ 64" b] by (simp add: algebra_simps)

lemma time_sub_range: "- (2 ^ 63) \<le> time_sub t u \<and> time_sub t u \<le> 2 ^ 63 - 1"
  by (simp add: time_sub_def)

lemma time_sub_exact: "- (2 ^ 63) \<le> t - u \<Longrightarrow> t - u \<le> 2 ^ 63 - 1 \<Longrightarrow> time_sub t u = t - u"
  by (simp add: time_sub_def)

lemma mod_in_range [simp]: "(d::nat) < n \<Longrightarrow> m mod n < n"
  by simp

subsection \<open>Lists\<close>

text \<open>The last \<open>n\<close> elements of a list: what every bounded history of the broker keeps.\<close>

definition lastn :: "nat \<Rightarrow> 'a list \<Rightarrow> 'a list" where
  "lastn n xs = drop (length xs - n) xs"

lemma length_lastn [simp]: "length (lastn n xs) = min n (length xs)"
  by (simp add: lastn_def)

lemma lastn_all: "length xs \<le> n \<Longrightarrow> lastn n xs = xs"
  by (simp add: lastn_def)

lemma lastn_append_lastn: "lastn n (lastn n xs @ ys) = lastn n (xs @ ys)"
  by (cases "length xs \<le> n") (auto simp: lastn_def add.commute)

lemma suffix_lastn: "suffix (lastn n xs) xs"
  by (simp add: lastn_def suffix_drop)

lemma set_lastn_subset: "set (lastn n xs) \<subseteq> set xs"
  by (simp add: lastn_def set_drop_subset)

lemma lastn_map: "lastn n (map f xs) = map f (lastn n xs)"
  by (simp add: lastn_def drop_map)

lemma lastn_snoc: "0 < n \<Longrightarrow> lastn n (xs @ [x]) = lastn (n - 1) xs @ [x]"
  by (simp add: lastn_def)

lemma map_of_update [simp]: "map_of (AList.update k v al) = (map_of al)(k \<mapsto> v)"
  by (rule update_conv')

lemma map_of_delete [simp]: "map_of (AList.delete k al) = (map_of al)(k := None)"
  by (rule delete_conv')

subsection \<open>Strings\<close>

lemma ToLower_Nil [simp]: "ToLower [] = []"
  by (simp add: ToLower_def)

lemma length_ToLower [simp]: "length (ToLower s) = length s"
  by (simp add: ToLower_def)

lemma ascii_lower_idem [simp]: "ascii_lower (ascii_lower c) = ascii_lower c"
proof (cases "65 \<le> (of_char c :: nat) \<and> (of_char c :: nat) \<le> 90")
  case True
  then have "(of_char (char_of (of_char c + 32 :: nat) :: char) :: nat) = of_char c + 32"
    by simp
  with True show ?thesis by (simp add: ascii_lower_def)
qed (auto simp: ascii_lower_def)

lemma ToLower_idem [simp]: "ToLower (ToLower s) = ToLower s"
  by (simp add: ToLower_def)

lemma Split_neq_Nil [simp]: "Split sep s \<noteq> []"
  by (induction s) (auto split: list.splits)

lemma Split_sep:
  "sep \<notin> set l \<Longrightarrow> Split sep (l @ sep # s) = l # Split sep s"
  "sep \<notin> set l \<Longrightarrow> Split sep l = [l]"
  by (induction l) auto

lemma leading_None: "leading rs s = None \<longleftrightarrow> (\<forall>r \<in> set rs. r \<noteq> [] \<longrightarrow> \<not> prefix r s)"
  by (auto simp: leading_def find_None_iff)

lemma leading_None_prefix: "leading rs s = None \<Longrightarrow> prefix t s \<Longrightarrow> leading rs t = None"
  by (auto simp: leading_None dest: prefix_order.trans)

lemma leading_Nil [simp]: "leading rs [] = None"
  by (simp add: leading_None)

lemma trim_runes_leading: "leading rs (trim_runes rs s) = None"
proof (induction rs s rule: trim_runes.induct)
  case (1 rs s)
  then show ?case
    by (cases "leading rs s") (simp_all add: trim_runes.simps [of rs s])
qed

lemma trim_runes_id: "leading rs s = None \<Longrightarrow> trim_runes rs s = s"
  by (simp add: trim_runes.simps [of rs s])

lemma trim_runes_Nil [simp]: "trim_runes rs [] = []"
  by (simp add: trim_runes_id)

lemma suffix_trim_runes: "suffix (trim_runes rs s) s"
proof (induction rs s rule: trim_runes.induct)
  case (1 rs s)
  then show ?case
    by (cases "leading rs s")
      (auto simp: trim_runes.simps [of rs s] intro: suffix_order.trans suffix_drop)
qed

lemma TrimSpace_Nil [simp]: "TrimSpace [] = []"
  by (simp add: TrimSpace_def)

lemma TrimSpace_clean_left: "leading space_runes (TrimSpace s) = None"
proof -
  have "prefix (TrimSpace s) (trim_runes space_runes s)"
    using suffix_trim_runes [of "map rev space_runes" "rev (trim_runes space_runes s)"]
    by (simp add: TrimSpace_def suffix_to_prefix)
  with trim_runes_leading show ?thesis by (rule leading_None_prefix)
qed

lemma TrimSpace_clean_right: "leading (map rev space_runes) (rev (TrimSpace s)) = None"
  by (simp add: TrimSpace_def trim_runes_leading)

lemma TrimSpace_idem [simp]: "TrimSpace (TrimSpace s) = TrimSpace s"
  by (subst TrimSpace_def)
    (simp add: trim_runes_id TrimSpace_clean_left TrimSpace_clean_right)

lemma length_TrimSpace: "length (TrimSpace s) \<le> length s"
  using suffix_length_le [OF suffix_trim_runes [of "map rev space_runes" "rev (trim_runes space_runes s)"]]
    suffix_length_le [OF suffix_trim_runes [of space_runes s]]
  by (simp add: TrimSpace_def)

lemma space_runes_space: "r \<in> set space_runes \<Longrightarrow> CHR 0x20 \<in> set r \<Longrightarrow> r = [CHR 0x20]"
  by (auto simp: space_runes_def)

lemma leading_space [simp]: "leading space_runes (CHR 0x20 # s) = Some [CHR 0x20]"
  by (simp add: leading_def space_runes_def)

lemma leading_append_space:
  assumes "leading space_runes w = None" and "w \<noteq> []"
  shows "leading space_runes (w @ CHR 0x20 # t) = None"
proof -
  { fix r
    assume r: "r \<in> set space_runes" "r \<noteq> []" "prefix r (w @ CHR 0x20 # t)"
    have "\<not> prefix r w" using assms(1) r(1,2) by (auto simp: leading_None)
    then obtain us where us: "r = w @ us" "prefix us (CHR 0x20 # t)"
      using r(3) by (auto simp: prefix_append)
    with \<open>\<not> prefix r w\<close> have "CHR 0x20 \<in> set r" by (auto simp: prefix_Cons)
    then have "r = [CHR 0x20]" using r(1) space_runes_space by blast
    with us assms(2) \<open>\<not> prefix r w\<close> have False by (cases w) auto }
  then show ?thesis by (auto simp: leading_None)
qed

text \<open>A word without white space anywhere.\<close>

fun spaceless :: "string \<Rightarrow> bool" where
  "spaceless [] \<longleftrightarrow> True"
| "spaceless (c # w) \<longleftrightarrow> leading space_runes (c # w) = None \<and> spaceless w"

lemma fields_from_word:
  assumes "spaceless w" and "w \<noteq> [] \<or> cur \<noteq> []"
  shows "fields_from cur (w @ CHR 0x20 # t) = (rev cur @ w) # fields_from [] t"
  using assms
proof (induction w arbitrary: cur)
  case Nil
  then show ?case by (simp add: fields_from.simps [of cur])
next
  case (Cons c w)
  then have "leading space_runes (c # w @ CHR 0x20 # t) = None"
    using leading_append_space [of "c # w" t] by simp
  with Cons show ?case by (simp add: fields_from.simps [of cur])
qed

lemma fields_from_last:
  assumes "spaceless w" and "w \<noteq> [] \<or> cur \<noteq> []"
  shows "fields_from cur w = [rev cur @ w]"
  using assms by (induction w arbitrary: cur) (simp_all add: fields_from.simps)

lemma Fields_Join:
  assumes "\<forall>f \<in> set fs. f \<noteq> [] \<and> spaceless f"
  shows "Fields (Join fs '' '') = fs"
  using assms
proof (induction fs "'' ''" rule: Join.induct)
  case 1
  then show ?case by (simp add: Fields_def fields_from.simps)
next
  case (2 s)
  then show ?case by (simp add: Fields_def fields_from_last)
next
  case (3 s t ss)
  then show ?case by (simp add: Fields_def fields_from_word)
qed

lemma fields_from_words:
  assumes "\<forall>i < length cur. leading space_runes (drop i (rev cur @ s)) = None"
    and "f \<in> set (fields_from cur s)"
  shows "f \<noteq> [] \<and> (\<forall>i < length f. leading space_runes (drop i f) = None)"
  using assms
proof (induction cur s rule: fields_from.induct)
  case (1 cur s)
  have word: "\<forall>i < length cur. leading space_runes (drop i (rev cur)) = None"
    using "1.prems"(1) by (auto intro: leading_None_prefix)
  show ?case
  proof (cases s)
    case Nil
    with "1.prems"(2) word show ?thesis
      by (auto simp: fields_from.simps [of cur] split: if_splits)
  next
    case (Cons c cs)
    show ?thesis
    proof (cases "leading space_runes s")
      case None
      have "\<forall>i < length (c # cur). leading space_runes (drop i (rev (c # cur) @ cs)) = None"
        using "1.prems"(1) None Cons by (auto simp: less_Suc_eq)
      moreover have "f \<in> set (fields_from (c # cur) cs)"
        using "1.prems"(2) None Cons by (simp add: fields_from.simps [of cur])
      ultimately show ?thesis using "1.IH"(1) [OF Cons None] by blast
    next
      case (Some r)
      then have "f \<in> set (if cur = [] then [] else [rev cur]) \<or>
          f \<in> set (fields_from [] (drop (length r) s))"
        using "1.prems"(2) Cons by (auto simp: fields_from.simps [of cur])
      then show ?thesis using "1.IH"(2) [OF Cons Some] word by (auto split: if_splits)
    qed
  qed
qed

lemma spaceless_drop:
  "(\<forall>i < length f. leading space_runes (drop i f) = None) \<Longrightarrow> spaceless f"
proof (induction f)
  case (Cons c f)
  have "leading space_runes (c # f) = None" using Cons.prems [rule_format, of 0] by simp
  moreover have "\<forall>i < length f. leading space_runes (drop i f) = None"
    using Cons.prems by (metis Suc_less_eq drop_Suc_Cons length_Cons)
  ultimately show ?case using Cons.IH by simp
qed simp

lemma Fields_words: "f \<in> set (Fields s) \<Longrightarrow> f \<noteq> [] \<and> spaceless f"
  unfolding Fields_def using fields_from_words [of "[]" s f] spaceless_drop by simp

subsection \<open>Decimal integers\<close>

lemma of_char_digit: "d < 10 \<Longrightarrow> (of_char (digit_char d) :: nat) = 48 + d"
  by (simp add: digit_char_def)

lemma is_digit_char [simp]: "d < 10 \<Longrightarrow> is_digit (digit_char d)"
  by (simp add: is_digit_def of_char_digit)

lemma digit_val_char [simp]: "d < 10 \<Longrightarrow> digit_val (digit_char d) = d"
  by (simp add: digit_val_def of_char_digit)

lemma decimal_val_snoc:
  "decimal_val acc (s @ [c]) =
     (case decimal_val acc s of None \<Rightarrow> None
      | Some v \<Rightarrow> if is_digit c then Some (v * 10 + digit_val c) else None)"
  by (induction s arbitrary: acc) auto

lemma decimal_val_itoa: "decimal_val 0 (itoa n) = Some n"
proof (induction n rule: itoa.induct)
  case (1 n)
  then show ?case
    by (cases "n < 10") (simp_all add: itoa.simps [of n] decimal_val_snoc)
qed

lemma itoa_inject [simp]: "itoa m = itoa n \<longleftrightarrow> m = n"
  using decimal_val_itoa by (metis option.inject)

lemma itoa_neq_Nil [simp]: "itoa n \<noteq> []"
  by (subst itoa.simps) simp

lemma itoa_digits: "c \<in> set (itoa n) \<Longrightarrow> is_digit c"
proof (induction n rule: itoa.induct)
  case (1 n)
  then show ?case by (cases "n < 10") (auto simp: itoa.simps [of n])
qed

section \<open>Machines\<close>

text \<open>
  Components with state are step functions: \<open>step e s\<close> is the state after event \<open>e\<close>, or
  \<open>None\<close> where the event cannot happen. A run is a list of events that all can happen.
\<close>

fun run_steps :: "('e \<Rightarrow> 's \<Rightarrow> 's option) \<Rightarrow> 'e list \<Rightarrow> 's \<Rightarrow> 's option" where
  "run_steps step [] s = Some s"
| "run_steps step (e # es) s = (case step e s of None \<Rightarrow> None | Some t \<Rightarrow> run_steps step es t)"

locale machine_invariant =
  fixes step :: "'e \<Rightarrow> 's \<Rightarrow> 's option"
    and inv :: "'s \<Rightarrow> bool"
  assumes step_inv: "inv s \<Longrightarrow> step e s = Some t \<Longrightarrow> inv t"
begin

lemma run_inv: "inv s \<Longrightarrow> run_steps step es s = Some t \<Longrightarrow> inv t"
proof (induction es arbitrary: s)
  case (Cons e es)
  then show ?case by (auto split: option.splits dest: step_inv)
qed simp

text \<open>An invariant also holds at every intermediate state of a run.\<close>

lemma run_inv_prefix:
  "inv s \<Longrightarrow> run_steps step (es @ fs) s = Some t \<Longrightarrow> \<exists>u. run_steps step es s = Some u \<and> inv u"
proof (induction es arbitrary: s)
  case (Cons e es)
  then show ?case by (auto split: option.splits dest: step_inv)
qed auto

end

lemma run_steps_append:
  "run_steps step (es @ fs) s =
     (case run_steps step es s of None \<Rightarrow> None | Some t \<Rightarrow> run_steps step fs t)"
  by (induction es arbitrary: s) (auto split: option.splits)

text \<open>Induction on a run with its last event, for properties that relate the state to the events so far.\<close>

lemma run_steps_induct [consumes 1, case_names start step]:
  assumes "run_steps step es s0 = Some s" "P [] s0"
    and "\<And>es s e t. run_steps step es s0 = Some s \<Longrightarrow> P es s \<Longrightarrow> step e s = Some t \<Longrightarrow> P (es @ [e]) t"
  shows "P es s"
  using assms(1)
proof (induction es arbitrary: s rule: rev_induct)
  case (snoc e es)
  then show ?case using assms(3) by (auto simp: run_steps_append split: option.splits)
qed (use assms(2) in simp)

end
