(* ===== verification/Broker_Json.thy ===== *)
theory Broker_Json
  imports Broker_Prelude Complex_Main
begin

text \<open>
  Dynamic values and the decoders of the Go library. A value of type \<open>any\<close> that the
  broker inspects is a \<open>json\<close>: the constructors are the dynamic types its type switches
  distinguish (\<open>float64\<close> for numbers decoded without \<open>UseNumber\<close>, \<open>json.Number\<close> for
  numbers decoded with it, Go integers that the broker itself stores). A finite
  \<open>float64\<close> is the rational number it denotes.

  Decoders whose result the broker only consumes (number, time and JSON parsing, digests)
  are the fields of the record \<open>golib\<close>, an argument of every definition that calls them:
  the theorems hold for every such decoder.
\<close>

section \<open>JSON values\<close>

datatype json =
    JNull
  | JBool bool
  | JFloat rat
  | JNumber string
  | JInt int
  | JInt64 int
  | JStr string
  | JStrs "string list"
  | JArr "json list"
  | JObj "(string \<times> json) list"

type_synonym obj = "(string \<times> json) list"

text \<open>An IEEE double as the broker's comparisons see it.\<close>

datatype gofloat = NaN | PosInf | NegInf | Fin rat

record golib =
  lib_ParseFloat :: "string \<Rightarrow> gofloat option"
  lib_ParseHTTPTime :: "string \<Rightarrow> gotime option"
  lib_ParseRFC3339 :: "string \<Rightarrow> gotime option"
  lib_ParseRFC3339Nano :: "string \<Rightarrow> gotime option"
  lib_ParseDuration :: "string \<Rightarrow> duration option"
  lib_Unmarshal :: "string \<Rightarrow> json option"
  lib_Marshal :: "json \<Rightarrow> string option"
  lib_sha256_hex :: "string \<Rightarrow> string"
  lib_Sprint :: "json \<Rightarrow> string"
  lib_IsLetterOrNumber :: "string \<Rightarrow> bool"

text \<open>Map access as Go has it: a missing key reads as \<open>nil\<close>.\<close>

definition oget :: "obj \<Rightarrow> string \<Rightarrow> json" where
  "oget m k = (case map_of m k of None \<Rightarrow> JNull | Some v \<Rightarrow> v)"

definition ohas :: "obj \<Rightarrow> string \<Rightarrow> bool" where
  "ohas m k \<longleftrightarrow> map_of m k \<noteq> None"

abbreviation oset :: "obj \<Rightarrow> string \<Rightarrow> json \<Rightarrow> obj" where
  "oset m k v \<equiv> AList.update k v m"

abbreviation odel :: "obj \<Rightarrow> string \<Rightarrow> obj" where
  "odel m k \<equiv> AList.delete k m"

text \<open>Type assertions \<open>v.(map[string]any)\<close>, \<open>v.([]any)\<close>, \<open>v.(string)\<close>, \<open>v.(bool)\<close>.\<close>

definition as_obj :: "json \<Rightarrow> obj option" where
  "as_obj v = (case v of JObj m \<Rightarrow> Some m | _ \<Rightarrow> None)"

definition as_arr :: "json \<Rightarrow> json list option" where
  "as_arr v = (case v of JArr xs \<Rightarrow> Some xs | _ \<Rightarrow> None)"

definition as_str :: "json \<Rightarrow> string option" where
  "as_str v = (case v of JStr s \<Rightarrow> Some s | _ \<Rightarrow> None)"

definition as_bool :: "json \<Rightarrow> bool option" where
  "as_bool v = (case v of JBool b \<Rightarrow> Some b | _ \<Rightarrow> None)"

text \<open>\<open>int64(f)\<close> for a float: truncation; out of range, and for NaN, the amd64 result.\<close>

definition trunc_rat :: "rat \<Rightarrow> int" where
  "trunc_rat q = (if q < 0 then - \<lfloor>- q\<rfloor> else \<lfloor>q\<rfloor>)"

fun int64_of_float :: "gofloat \<Rightarrow> int" where
  "int64_of_float (Fin q) =
     (if - (2 ^ 63) \<le> trunc_rat q \<and> trunc_rat q < 2 ^ 63 then trunc_rat q else - (2 ^ 63))"
| "int64_of_float _ = - (2 ^ 63)"

fun float_le :: "gofloat \<Rightarrow> rat \<Rightarrow> bool" where
  "float_le (Fin q) r \<longleftrightarrow> q \<le> r"
| "float_le NegInf r \<longleftrightarrow> True"
| "float_le _ r \<longleftrightarrow> False"

fun float_ge :: "gofloat \<Rightarrow> rat \<Rightarrow> bool" where
  "float_ge (Fin q) r \<longleftrightarrow> q \<ge> r"
| "float_ge PosInf r \<longleftrightarrow> True"
| "float_ge _ r \<longleftrightarrow> False"

lemma oget_update [simp]: "oget (oset m k v) k' = (if k' = k then v else oget m k')"
  by (simp add: oget_def)

lemma oget_delete [simp]: "oget (odel m k) k' = (if k' = k then JNull else oget m k')"
  by (simp add: oget_def)

lemma ohas_update [simp]: "ohas (oset m k v) k' \<longleftrightarrow> k' = k \<or> ohas m k'"
  by (simp add: ohas_def)

lemma ohas_delete [simp]: "ohas (odel m k) k' \<longleftrightarrow> k' \<noteq> k \<and> ohas m k'"
  by (simp add: ohas_def)

lemma int64_of_float_range: "- (2 ^ 63) \<le> int64_of_float f \<and> int64_of_float f < 2 ^ 63"
  by (cases f) auto

lemma as_obj_simps [simp]:
  "as_obj (JObj m) = Some m" "as_obj JNull = None" "as_obj (JStr s) = None"
  "as_obj (JArr xs) = None" "as_obj (JBool b) = None"
  by (simp_all add: as_obj_def)

lemma as_obj_Some [simp]: "as_obj v = Some m \<longleftrightarrow> v = JObj m"
  by (cases v) (simp_all add: as_obj_def)

lemma as_arr_Some [simp]: "as_arr v = Some xs \<longleftrightarrow> v = JArr xs"
  by (cases v) (simp_all add: as_arr_def)

lemma as_str_Some [simp]: "as_str v = Some s \<longleftrightarrow> v = JStr s"
  by (cases v) (simp_all add: as_str_def)

lemma as_bool_Some [simp]: "as_bool v = Some b \<longleftrightarrow> v = JBool b"
  by (cases v) (simp_all add: as_bool_def)

section \<open>A concrete decoder\<close>

text \<open>Witnesses instantiate the library with this decoder: it reads decimal numbers, one
  completed response event and one rate-limit body.\<close>

definition witness_lib :: golib where
  "witness_lib =
     \<lparr>lib_ParseFloat = \<lambda>s. map_option (\<lambda>n. Fin (of_nat n)) (if s = [] then None else decimal_val 0 s),
      lib_ParseHTTPTime = \<lambda>_. None, lib_ParseRFC3339 = \<lambda>_. None, lib_ParseRFC3339Nano = \<lambda>_. None,
      lib_ParseDuration = \<lambda>_. None,
      lib_Unmarshal =
        (\<lambda>s. if s = ''done'' then Some (JObj [(''type'', JStr ''response.completed'')])
             else if s = ''limited'' then
               Some (JObj [(''resets_in'', JFloat 90), (''error'', JObj [(''reset'', JFloat 60)])])
             else None),
      lib_Marshal = \<lambda>_. Some ''{}'', lib_sha256_hex = \<lambda>s. replicate 64 CHR ''0'',
      lib_Sprint = \<lambda>_. [], lib_IsLetterOrNumber = \<lambda>r. length r = 1\<rparr>"

end
