(* ===== verification/Util.thy ===== *)
theory Util
  imports Broker_Json
begin

text \<open>
  Text helpers every component calls: \<^verbatim>\<open>src/util.go\<close> (field access, secret redaction),
  \<^verbatim>\<open>src/main.go\<close> (\<open>splitCSV\<close>, \<open>valueOr\<close>), the log-field and user sanitisers of
  \<^verbatim>\<open>src/requests.go\<close> and the error-attribute filter of \<^verbatim>\<open>src/proxy.go\<close>. The lemmas show
  that redaction leaves no credential-shaped word and is idempotent, and that a sanitised
  log field is bounded and free of control bytes.
\<close>

section \<open>Definitions\<close>

subsection \<open>Runes\<close>

abbreviation byte :: "char \<Rightarrow> nat" where
  "byte c \<equiv> of_char c"

definition is_cont :: "char \<Rightarrow> bool" where
  "is_cont c \<longleftrightarrow> 128 \<le> byte c \<and> byte c \<le> 191"

definition valid2 :: "char \<Rightarrow> char \<Rightarrow> bool" where
  "valid2 a b \<longleftrightarrow> 194 \<le> byte a \<and> byte a \<le> 223 \<and> is_cont b"

definition valid3 :: "char \<Rightarrow> char \<Rightarrow> char \<Rightarrow> bool" where
  "valid3 a b c \<longleftrightarrow> 224 \<le> byte a \<and> byte a \<le> 239 \<and> is_cont b \<and> is_cont c \<and>
     (byte a = 224 \<longrightarrow> 160 \<le> byte b) \<and> (byte a = 237 \<longrightarrow> byte b \<le> 159)"

definition valid4 :: "char \<Rightarrow> char \<Rightarrow> char \<Rightarrow> char \<Rightarrow> bool" where
  "valid4 a b c d \<longleftrightarrow> 240 \<le> byte a \<and> byte a \<le> 244 \<and> is_cont b \<and> is_cont c \<and> is_cont d \<and>
     (byte a = 240 \<longrightarrow> 144 \<le> byte b) \<and> (byte a = 244 \<longrightarrow> byte b \<le> 143)"

text \<open>Length of the valid UTF-8 rune a string starts with; 0 if its first byte is invalid.\<close>

fun rune_len :: "string \<Rightarrow> nat" where
  "rune_len [] = 0"
| "rune_len [a] = (if byte a < 128 then 1 else 0)"
| "rune_len [a, b] = (if byte a < 128 then 1 else if valid2 a b then 2 else 0)"
| "rune_len [a, b, c] =
     (if byte a < 128 then 1 else if valid2 a b then 2 else if valid3 a b c then 3 else 0)"
| "rune_len (a # b # c # d # s) =
     (if byte a < 128 then 1 else if valid2 a b then 2 else if valid3 a b c then 3
      else if valid4 a b c d then 4 else 0)"

text \<open>\<open>range\<close> over a string: the encodings of its runes, an invalid byte as U+FFFD.\<close>

function runes :: "string \<Rightarrow> string list" where
  "runes s =
     (if s = [] then []
      else if rune_len s = 0 then [CHR 0xEF, CHR 0xBF, CHR 0xBD] # runes (tl s)
      else take (rune_len s) s # runes (drop (rune_len s) s))"
  by pat_completeness auto
termination
  by (relation "measure length") auto

declare runes.simps [simp del]

text \<open>\<open>strings.Map\<close>; the mapping returns the encoding of the new rune, or \<open>[]\<close> for -1.\<close>

definition MapRunes :: "(string \<Rightarrow> string) \<Rightarrow> string \<Rightarrow> string" where
  "MapRunes f s = concat (map f (runes s))"

definition control_rune :: "string \<Rightarrow> bool" where
  "control_rune r \<longleftrightarrow>
     (case r of
        [a] \<Rightarrow> byte a < 32 \<or> byte a = 127
      | [a, b] \<Rightarrow> byte a = 194 \<and> byte b \<le> 159
      | _ \<Rightarrow> False)"

subsection \<open>Fields and defaults\<close>

definition stringField :: "obj \<Rightarrow> string \<Rightarrow> string" where
  "stringField m key = (case oget m key of JStr s \<Rightarrow> TrimSpace s | _ \<Rightarrow> [])"

definition chatPayloadString :: "obj \<Rightarrow> string \<Rightarrow> string" where
  "chatPayloadString m key = (case oget m key of JStr s \<Rightarrow> s | _ \<Rightarrow> [])"

definition numericField :: "golib \<Rightarrow> obj \<Rightarrow> string \<Rightarrow> gofloat option" where
  "numericField lib m key =
     (case oget m key of
        JFloat q \<Rightarrow> Some (Fin q)
      | JInt64 i \<Rightarrow> Some (Fin (of_int i))
      | JNumber s \<Rightarrow> lib_ParseFloat lib s
      | _ \<Rightarrow> None)"

definition intField :: "golib \<Rightarrow> obj \<Rightarrow> string \<Rightarrow> int" where
  "intField lib m key = (case numericField lib m key of Some f \<Rightarrow> int64_of_float f | None \<Rightarrow> 0)"

definition valueOr :: "string \<Rightarrow> string \<Rightarrow> string" where
  "valueOr value fallback = (if TrimSpace value = [] then fallback else value)"

definition splitCSV :: "string \<Rightarrow> string list" where
  "splitCSV value = filter (\<lambda>t. t \<noteq> []) (map TrimSpace (Split CHR '','' value))"

definition secondsUntil :: "gotime \<Rightarrow> gotime \<Rightarrow> int" where
  "secondsUntil t now =
     (let secs = (let d = time_sub t now in sgn d * (\<bar>d\<bar> div nanos_per_second))
      in if secs < 0 then 0 else secs)"

definition secretFingerprint :: "golib \<Rightarrow> string \<Rightarrow> string" where
  "secretFingerprint lib secret = take 12 (lib_sha256_hex lib (TrimSpace secret))"

subsection \<open>Redaction\<close>

definition redact_cutset :: string where
  "redact_cutset = [CHR 0x22, CHR 0x27] @ ''.,;:()[]{}<>''"

definition token_char :: "char \<Rightarrow> bool" where
  "token_char c \<longleftrightarrow>
     c \<in> set ''-_.~+/='' \<or> (48 \<le> byte c \<and> byte c \<le> 57) \<or> (65 \<le> byte c \<and> byte c \<le> 90) \<or>
     (97 \<le> byte c \<and> byte c \<le> 122)"

definition jwt_like :: "string \<Rightarrow> bool" where
  "jwt_like w \<longleftrightarrow> count_list w CHR ''.'' = 2 \<and> length w > 40"

definition token_like :: "string \<Rightarrow> bool" where
  "token_like w \<longleftrightarrow> length w > 60 \<and> list_all token_char w"

definition redact_field :: "string \<Rightarrow> string" where
  "redact_field field =
     (let trimmed = TrimCut field redact_cutset
      in if jwt_like trimmed then ReplaceFirst field trimmed ''[redacted-jwt]''
         else if token_like trimmed then ReplaceFirst field trimmed ''[redacted-token]''
         else field)"

definition redactTokenLikeText :: "string \<Rightarrow> string" where
  "redactTokenLikeText value = Join (map redact_field (Fields value)) '' ''"

subsection \<open>Log fields\<close>

definition truncateLogField :: "string \<Rightarrow> nat \<Rightarrow> string" where
  "truncateLogField value mx =
     (let v = TrimSpace (MapRunes (\<lambda>r. if control_rune r then '' '' else r) value)
      in if mx = 0 \<or> length v \<le> mx then v
         else if mx \<le> 3 then replicate mx CHR ''.''
         else take (mx - 3) v @ ''...'')"

definition maxBrokerUserLen :: nat where
  "maxBrokerUserLen = 128"

definition sanitizeBrokerUser :: "string \<Rightarrow> string" where
  "sanitizeBrokerUser value =
     (let v = TrimSpace (MapRunes (\<lambda>r. if (case r of [a] \<Rightarrow> byte a < 32 \<or> byte a = 127 | _ \<Rightarrow> False)
                                      then [] else r) value);
          w = (if length v > maxBrokerUserLen then take maxBrokerUserLen v else v)
      in redactTokenLikeText w)"

definition extractBrokerUser :: "string \<Rightarrow> string \<Rightarrow> string" where
  "extractBrokerUser header promptCacheKey =
     (let user = sanitizeBrokerUser header
      in if user \<noteq> [] then user
         else if HasPrefix promptCacheKey ''user:'' then sanitizeBrokerUser (drop 5 promptCacheKey)
         else [])"

subsection \<open>Error attributes\<close>

definition attribute_char :: "char \<Rightarrow> bool" where
  "attribute_char c \<longleftrightarrow>
     (97 \<le> byte c \<and> byte c \<le> 122) \<or> (65 \<le> byte c \<and> byte c \<le> 90) \<or>
     (48 \<le> byte c \<and> byte c \<le> 57) \<or> c \<in> set ''-_.''"

text \<open>The argument is \<open>fmt.Sprint(value)\<close>.\<close>

definition safeErrorAttribute :: "string \<Rightarrow> string" where
  "safeErrorAttribute printed =
     (let text = TrimSpace printed
      in if text = [] \<or> length text > 64 then []
         else if list_all attribute_char text then text else [])"

definition safeErrorAttributes :: "(json \<Rightarrow> string) \<Rightarrow> obj \<Rightarrow> string" where
  "safeErrorAttributes sprint errorBody =
     Join (concat (map (\<lambda>key. let value = safeErrorAttribute (sprint (oget errorBody key))
                              in if value \<noteq> [] then [key @ ''='' @ value] else [])
                   [''type'', ''code''])) '' ''"

definition isRequestLogFingerprint :: "string \<Rightarrow> bool" where
  "isRequestLogFingerprint value \<longleftrightarrow>
     length value = 19 \<and> HasPrefix value ''sha256:'' \<and>
     list_all (\<lambda>c. (48 \<le> byte c \<and> byte c \<le> 57) \<or> (97 \<le> byte c \<and> byte c \<le> 102)) (drop 7 value)"

section \<open>Redaction leaves no credential-shaped word\<close>

definition credential_like :: "string \<Rightarrow> bool" where
  "credential_like w \<longleftrightarrow>
     jwt_like (TrimCut w redact_cutset) \<or> token_like (TrimCut w redact_cutset)"

lemma TrimCut_split:
  obtains a b where "s = a @ TrimCut s cs @ b" and "set a \<subseteq> set cs" and "set b \<subseteq> set cs"
proof -
  let ?P = "\<lambda>c. c \<in> set cs"
  let ?m = "dropWhile ?P s"
  have "s = takeWhile ?P s @ ?m" by simp
  moreover have "?m = TrimCut s cs @ rev (takeWhile ?P (rev ?m))"
    unfolding TrimCut_def by (metis rev_append rev_rev_ident takeWhile_dropWhile_id)
  ultimately have "s = takeWhile ?P s @ TrimCut s cs @ rev (takeWhile ?P (rev ?m))" by metis
  then show thesis by (rule that) (auto dest: set_takeWhileD)
qed

lemma TrimCut_hd: "TrimCut s cs \<noteq> [] \<Longrightarrow> hd (TrimCut s cs) \<notin> set cs"
proof -
  let ?P = "\<lambda>c. c \<in> set cs"
  let ?m = "dropWhile ?P s"
  assume ne: "TrimCut s cs \<noteq> []"
  have m: "?m = TrimCut s cs @ rev (takeWhile ?P (rev ?m))"
    unfolding TrimCut_def by (metis rev_append rev_rev_ident takeWhile_dropWhile_id)
  with ne have "?m \<noteq> []" "hd ?m = hd (TrimCut s cs)" by (metis append_is_Nil_conv, metis hd_append2)
  with hd_dropWhile [of ?P s] show ?thesis by simp
qed

lemma ReplaceFirst_skip:
  "w \<noteq> [] \<Longrightarrow> hd w \<notin> set a \<Longrightarrow> ReplaceFirst (a @ w @ b) w new = a @ new @ b"
proof (induction a)
  case Nil
  then show ?case by (cases w) auto
next
  case (Cons x a)
  then have "\<not> prefix w (x # a @ w @ b)" by (cases w) auto
  with Cons show ?case by simp
qed

lemma TrimCut_around:
  assumes "set a \<subseteq> set cs" and "set b \<subseteq> set cs" and "w \<noteq> []" and "hd w \<notin> set cs" and "last w \<notin> set cs"
  shows "TrimCut (a @ w @ b) cs = w"
proof -
  have "dropWhile (\<lambda>c. c \<in> set cs) (a @ w @ b) = w @ b"
    using assms by (cases w) (auto simp: subset_iff dropWhile_append3)
  moreover have "dropWhile (\<lambda>c. c \<in> set cs) (rev b @ rev w) = rev w"
    using assms(2,3,5) by (cases "rev w") (auto simp: subset_iff dropWhile_append3 last_rev [symmetric] hd_rev)
  ultimately show ?thesis by (simp add: TrimCut_def)
qed

text \<open>What a field turns into: itself, or punctuation around a placeholder.\<close>

definition placeholder :: "string \<Rightarrow> bool" where
  "placeholder w \<longleftrightarrow> w = ''[redacted-jwt]'' \<or> w = ''[redacted-token]''"

lemma redact_field_cases:
  obtains "redact_field f = f" and "\<not> credential_like f"
  | a b w where "redact_field f = a @ w @ b" and "placeholder w" and "credential_like f"
      and "set a \<subseteq> set redact_cutset" and "set b \<subseteq> set redact_cutset"
proof (cases "credential_like f")
  case False
  then show ?thesis
    by (intro that(1)) (auto simp: credential_like_def redact_field_def Let_def)
next
  case True
  let ?t = "TrimCut f redact_cutset"
  obtain a b where f: "f = a @ ?t @ b" and ab: "set a \<subseteq> set redact_cutset" "set b \<subseteq> set redact_cutset"
    by (rule TrimCut_split)
  have ne: "?t \<noteq> []" using True by (auto simp: credential_like_def jwt_like_def token_like_def)
  then have hd: "hd ?t \<notin> set a" using TrimCut_hd [of f redact_cutset] ab by blast
  have rep: "ReplaceFirst f ?t new = a @ new @ b" for new
    using ReplaceFirst_skip [OF ne hd, of b new] f by simp
  show ?thesis
  proof (cases "jwt_like ?t")
    case True
    show ?thesis
      by (rule that(2) [of a "''[redacted-jwt]''" b])
        (use True rep ab in \<open>simp_all add: redact_field_def Let_def placeholder_def credential_like_def\<close>)
  next
    case False
    then have "token_like ?t" using \<open>credential_like f\<close> by (simp add: credential_like_def)
    then show ?thesis
      by (intro that(2) [of a "''[redacted-token]''" b])
        (use False rep ab in \<open>simp_all add: redact_field_def Let_def placeholder_def credential_like_def\<close>)
  qed
qed

lemma TrimCut_placeholder:
  assumes "placeholder w" and "set a \<subseteq> set redact_cutset" and "set b \<subseteq> set redact_cutset"
  shows "TrimCut (a @ w @ b) redact_cutset = butlast (tl w)"
proof -
  have eq: "a @ w @ b = (a @ ''['') @ butlast (tl w) @ ('']'' @ b)"
    using assms(1) by (auto simp: placeholder_def)
  show ?thesis unfolding eq
    by (rule TrimCut_around) (use assms in \<open>auto simp: placeholder_def redact_cutset_def\<close>)
qed

lemma placeholder_not_credential:
  assumes "placeholder w" and "set a \<subseteq> set redact_cutset" and "set b \<subseteq> set redact_cutset"
  shows "\<not> credential_like (a @ w @ b)"
  using assms(1) unfolding credential_like_def TrimCut_placeholder [OF assms]
  by (auto simp: placeholder_def jwt_like_def token_like_def)

lemma redact_field_clean: "\<not> credential_like (redact_field f)"
  by (rule redact_field_cases [of f]) (auto dest: placeholder_not_credential)

lemma redact_field_id: "\<not> credential_like f \<Longrightarrow> redact_field f = f"
  by (simp add: redact_field_def credential_like_def Let_def)

lemma spaceless_plain: "\<forall>c \<in> set w. c \<notin> set (map hd space_runes) \<Longrightarrow> spaceless w"
proof (induction w)
  case (Cons c w)
  have "leading space_runes (c # w) = None"
    using Cons.prems by (force simp: leading_None prefix_Cons neq_Nil_conv)
  with Cons show ?case by simp
qed simp

lemma plain_cutset: "c \<in> set redact_cutset \<Longrightarrow> c \<notin> set (map hd space_runes)"
  by (auto simp: redact_cutset_def space_runes_def)

lemma plain_placeholder: "placeholder w \<Longrightarrow> c \<in> set w \<Longrightarrow> c \<notin> set (map hd space_runes)"
  by (auto simp: placeholder_def space_runes_def)

lemma redact_field_word:
  assumes "f \<noteq> []" and "spaceless f"
  shows "redact_field f \<noteq> [] \<and> spaceless (redact_field f)"
proof (rule redact_field_cases [of f])
  assume "redact_field f = f"
  with assms show ?thesis by simp
next
  fix a b w
  assume *: "redact_field f = a @ w @ b" "placeholder w" "set a \<subseteq> set redact_cutset" "set b \<subseteq> set redact_cutset"
  then have "\<forall>c \<in> set (a @ w @ b). c \<notin> set (map hd space_runes)"
    unfolding set_append ball_Un using plain_cutset plain_placeholder by (meson subsetD)
  then have "spaceless (a @ w @ b)" by (rule spaceless_plain)
  with * show ?thesis by (auto simp: placeholder_def)
qed

lemma Fields_redact: "Fields (redactTokenLikeText v) = map redact_field (Fields v)"
  unfolding redactTokenLikeText_def
  by (rule Fields_Join) (auto dest: Fields_words redact_field_word)

lemma redact_no_credential: "f \<in> set (Fields (redactTokenLikeText v)) \<Longrightarrow> \<not> credential_like f"
  by (auto simp: Fields_redact redact_field_clean)

lemma redact_idem: "redactTokenLikeText (redactTokenLikeText v) = redactTokenLikeText v"
proof -
  have "redactTokenLikeText (redactTokenLikeText v) = Join (map redact_field (map redact_field (Fields v))) '' ''"
    unfolding redactTokenLikeText_def [of "redactTokenLikeText v"] Fields_redact ..
  also have "map redact_field (map redact_field (Fields v)) = map redact_field (Fields v)"
    by (simp add: redact_field_id redact_field_clean)
  finally show ?thesis by (simp add: redactTokenLikeText_def)
qed

section \<open>Sanitised log fields are bounded and printable\<close>

definition printable :: "char \<Rightarrow> bool" where
  "printable c \<longleftrightarrow> 32 \<le> byte c \<and> byte c \<noteq> 127"

lemma rune_len_le: "rune_len s \<le> length s"
  by (cases s rule: rune_len.cases) simp_all

lemma valid_bytes:
  "valid2 a b \<Longrightarrow> 128 \<le> byte a \<and> 128 \<le> byte b"
  "valid3 a b c \<Longrightarrow> 128 \<le> byte a \<and> 128 \<le> byte b \<and> 128 \<le> byte c"
  "valid4 a b c d \<Longrightarrow> 128 \<le> byte a \<and> 128 \<le> byte b \<and> 128 \<le> byte c \<and> 128 \<le> byte d"
  by (simp_all add: valid2_def valid3_def valid4_def is_cont_def)

lemma rune_bytes:
  assumes "0 < rune_len s" and "c \<in> set (take (rune_len s) s)"
  shows "rune_len s = 1 \<or> 128 \<le> byte c"
  using assms
  by (cases s rule: rune_len.cases)
    (auto simp: take_Cons' dest: valid_bytes split: if_splits)

lemma runes_cons:
  "s \<noteq> [] \<Longrightarrow> runes s =
     (if rune_len s = 0 then [CHR 0xEF, CHR 0xBF, CHR 0xBD] # runes (tl s)
      else take (rune_len s) s # runes (drop (rune_len s) s))"
  by (subst runes.simps) simp

lemma rune_shape:
  assumes "0 < rune_len s" and "r = take (rune_len s) s"
  shows "length r = 1 \<or> (\<forall>c \<in> set r. 128 \<le> byte c)"
  using assms rune_bytes [of s] rune_len_le [of s] by (cases "rune_len s = 1") auto

lemma runes_shape: "r \<in> set (runes s) \<Longrightarrow> length r = 1 \<or> (\<forall>c \<in> set r. 128 \<le> byte c)"
proof (induction s rule: runes.induct)
  case (1 s)
  show ?case
  proof (cases "s = []")
    case True
    with "1.prems" show ?thesis by (simp add: runes.simps [of "[]"])
  next
    case False
    show ?thesis
    proof (cases "rune_len s = 0")
      case True
      then have "r = [CHR 0xEF, CHR 0xBF, CHR 0xBD] \<or> r \<in> set (runes (tl s))"
        using "1.prems" by (simp add: runes_cons [OF False])
      then show ?thesis using "1.IH"(1) [OF False True] by auto
    next
      case pos: False
      then have "r = take (rune_len s) s \<or> r \<in> set (runes (drop (rune_len s) s))"
        using "1.prems" by (simp add: runes_cons [OF False])
      then show ?thesis using "1.IH"(2) [OF False pos] rune_shape [of s r] pos by auto
    qed
  qed
qed

lemma MapRunes_printable:
  assumes "\<And>r. r \<in> set (runes s) \<Longrightarrow> \<forall>c \<in> set (f r). printable c"
  shows "\<forall>c \<in> set (MapRunes f s). printable c"
  using assms by (auto simp: MapRunes_def)

lemma set_TrimSpace: "set (TrimSpace s) \<subseteq> set s"
  using set_mono_suffix [OF suffix_trim_runes [of "map rev space_runes" "rev (trim_runes space_runes s)"]]
    set_mono_suffix [OF suffix_trim_runes [of space_runes s]]
  by (simp add: TrimSpace_def)

lemma control_rune_printable:
  assumes "r \<in> set (runes s)"
  shows "\<forall>c \<in> set (if control_rune r then '' '' else r). printable c"
  using runes_shape [OF assms]
  by (auto simp: control_rune_def printable_def length_Suc_conv split: if_splits)

lemma truncateLogField_printable: "\<forall>c \<in> set (truncateLogField v mx). printable c"
proof -
  let ?w = "TrimSpace (MapRunes (\<lambda>r. if control_rune r then '' '' else r) v)"
  have w: "\<forall>c \<in> set ?w. printable c"
    using MapRunes_printable [of v "\<lambda>r. if control_rune r then '' '' else r"]
      control_rune_printable set_TrimSpace by blast
  have "\<forall>c \<in> set (take (mx - 3) ?w @ ''...''). printable c"
    using w set_take_subset [of "mx - 3" ?w] by (auto simp: printable_def)
  with w show ?thesis by (auto simp: truncateLogField_def Let_def printable_def)
qed

lemma truncateLogField_length: "0 < mx \<Longrightarrow> length (truncateLogField v mx) \<le> mx"
  by (auto simp: truncateLogField_def Let_def)

section \<open>Properties\<close>

text \<open>C40: Redacted text contains no word that looks like a JWT or a long opaque token once the
  surrounding punctuation is trimmed, and redacting it again changes nothing.\<close>

theorem redaction_removes_credentials:
  "list_all (\<lambda>w. \<not> credential_like w) (Fields (redactTokenLikeText v)) \<and>
   redactTokenLikeText (redactTokenLikeText v) = redactTokenLikeText v"
  by (simp add: list_all_iff redact_no_credential redact_idem)

end
