(* ===== verification/Keys.thy ===== *)
theory Keys
  imports Util
begin

text \<open>
  Client keys, \<^verbatim>\<open>src/keys.go\<close>, with the private-file reader of \<^verbatim>\<open>src/util.go\<close> and the
  dashboard gate of \<^verbatim>\<open>src/dashboard.go\<close>. The registry merges the implicit
  \<open>--api-key\<close> client with the entries of a keys file that is re-read when its
  modification time or size changes. Typed JSON decoding of the file is the parameter
  \<open>decode\<close>; a file on disk is the record \<open>file_state\<close>.
\<close>

unbundle bit_operations_syntax

section \<open>Definitions\<close>

definition roleAdmin :: string where
  "roleAdmin = ''admin''"

definition roleClient :: string where
  "roleClient = ''client''"

definition implicitClientName :: string where
  "implicitClientName = ''default''"

definition keyRegistryStatInterval :: duration where
  "keyRegistryStatInterval = seconds 2"

record clientKey =
  ck_Name :: string
  ck_Key :: string
  ck_Role :: string
  ck_Disabled :: bool

record clientIdentity =
  id_Name :: string
  id_Role :: string

definition admin :: "clientIdentity \<Rightarrow> bool" where
  "admin c \<longleftrightarrow> id_Role c = roleAdmin"

datatype keys_error =
    InvalidJSON
  | NameRequired nat
  | KeyRequired nat string
  | BadRole nat string
  | DuplicateName string
  | DuplicateKey string string
  | ReservedName string
  | ImplicitKeyCollision string

subsection \<open>Private files\<close>

record file_state =
  f_openable :: bool
  f_statable :: bool
  f_regular :: bool
  f_perm :: nat
  f_readable :: bool
  f_content :: string
  f_mtime :: gotime
  f_size :: int

datatype file_error = OpenFailed | StatFailed | NotRegular | Permissions nat | ReadFailed

text \<open>The result carries the bytes and the two fields of the stat that callers use.\<close>

definition readPrivateFile :: "bool \<Rightarrow> file_state \<Rightarrow> file_error + (string \<times> gotime \<times> int)" where
  "readPrivateFile windows f =
     (if \<not> f_openable f then Inl OpenFailed
      else if \<not> f_statable f then Inl StatFailed
      else if \<not> f_regular f then Inl NotRegular
      else if \<not> windows \<and> f_perm f AND 63 \<noteq> 0 then Inl (Permissions (f_perm f))
      else if \<not> f_readable f then Inl ReadFailed
      else Inr (f_content f, f_mtime f, f_size f))"

subsection \<open>The keys file\<close>

definition trim_entry :: "clientKey \<Rightarrow> clientKey" where
  "trim_entry e =
     e\<lparr>ck_Name := TrimSpace (ck_Name e), ck_Key := TrimSpace (ck_Key e),
       ck_Role := ToLower (TrimSpace (ck_Role e))\<rparr>"

definition default_role :: "clientKey \<Rightarrow> clientKey" where
  "default_role e = (if ck_Role e = [] then e\<lparr>ck_Role := roleClient\<rparr> else e)"

fun check_entries ::
    "nat \<Rightarrow> string list \<Rightarrow> (string \<times> string) list \<Rightarrow> clientKey list \<Rightarrow> keys_error + clientKey list" where
  "check_entries i seen seenKeys [] = Inr []"
| "check_entries i seen seenKeys (raw # rest) =
     (let e = trim_entry raw
      in if ck_Name e = [] then Inl (NameRequired i)
         else if TrimSpace (ck_Key e) = [] then Inl (KeyRequired i (ck_Name e))
         else (let e' = default_role e;
                   previous = (case map_of seenKeys (ck_Key e') of None \<Rightarrow> [] | Some n \<Rightarrow> n)
               in if ck_Role e' \<noteq> roleAdmin \<and> ck_Role e' \<noteq> roleClient then Inl (BadRole i (ck_Name e'))
                  else if ck_Name e' \<in> set seen then Inl (DuplicateName (ck_Name e'))
                  else if previous \<noteq> [] then Inl (DuplicateKey (ck_Name e') previous)
                  else (case check_entries (Suc i) (ck_Name e' # seen)
                               (AList.update (ck_Key e') (ck_Name e') seenKeys) rest of
                          Inl err \<Rightarrow> Inl err
                        | Inr es \<Rightarrow> Inr (e' # es))))"

definition parseKeysFile ::
    "(string \<Rightarrow> clientKey list option) \<Rightarrow> string \<Rightarrow> keys_error + clientKey list" where
  "parseKeysFile decode raw =
     (case decode raw of
        None \<Rightarrow> Inl InvalidJSON
      | Some entries \<Rightarrow> check_entries 0 [] [] entries)"

definition implicitClientKey :: "string \<Rightarrow> clientKey option" where
  "implicitClientKey apiKey =
     (let key = TrimSpace apiKey
      in if key = [] then None
         else Some \<lparr>ck_Name = implicitClientName, ck_Key = key, ck_Role = roleAdmin, ck_Disabled = False\<rparr>)"

fun collision :: "clientKey \<Rightarrow> clientKey list \<Rightarrow> keys_error option" where
  "collision imp [] = None"
| "collision imp (e # es) =
     (if ck_Name e = ck_Name imp then Some (ReservedName (ck_Name imp))
      else if ck_Key e = ck_Key imp then Some (ImplicitKeyCollision (ck_Name e))
      else collision imp es)"

definition rejectImplicitKeyCollision :: "clientKey option \<Rightarrow> clientKey list \<Rightarrow> keys_error option" where
  "rejectImplicitKeyCollision implicit entries =
     (case implicit of None \<Rightarrow> None | Some imp \<Rightarrow> collision imp entries)"

subsection \<open>The registry\<close>

record keyRegistry =
  kr_implicit :: "clientKey option"
  kr_path :: string
  kr_entries :: "clientKey list"
  kr_mtime :: gotime
  kr_size :: int
  kr_checked :: gotime
  kr_statInterval :: duration

datatype registry_error = KeysFileUnreadable file_error | KeysFileRejected keys_error

definition newKeyRegistry ::
    "bool \<Rightarrow> (string \<Rightarrow> clientKey list option) \<Rightarrow> (string \<Rightarrow> file_state) \<Rightarrow> string \<Rightarrow> string \<Rightarrow> gotime \<Rightarrow>
     registry_error + keyRegistry" where
  "newKeyRegistry windows decode fs apiKey keysFile now =
     (let reg = \<lparr>kr_implicit = implicitClientKey apiKey, kr_path = TrimSpace keysFile, kr_entries = [],
                 kr_mtime = 0, kr_size = 0, kr_checked = 0, kr_statInterval = keyRegistryStatInterval\<rparr>
      in if kr_path reg = [] then Inr reg
         else (case readPrivateFile windows (fs (kr_path reg)) of
                 Inl err \<Rightarrow> Inl (KeysFileUnreadable err)
               | Inr (raw, mtime, fsize) \<Rightarrow>
                   (case parseKeysFile decode raw of
                      Inl err \<Rightarrow> Inl (KeysFileRejected err)
                    | Inr entries \<Rightarrow>
                        (case rejectImplicitKeyCollision (kr_implicit reg) entries of
                           Some err \<Rightarrow> Inl (KeysFileRejected err)
                         | None \<Rightarrow>
                             Inr (reg\<lparr>kr_entries := entries, kr_mtime := mtime, kr_size := fsize,
                                      kr_checked := now\<rparr>)))))"

definition enabled :: "keyRegistry \<Rightarrow> bool" where
  "enabled reg \<longleftrightarrow> kr_implicit reg \<noteq> None \<or> kr_path reg \<noteq> [] \<or> length (kr_entries reg) > 0"

text \<open>The reload part of \<open>currentEntries\<close>: \<open>now1\<close> is the clock of \<open>time.Since\<close>, \<open>now2\<close> the
  one stored in \<open>checked\<close>.\<close>

definition reload ::
    "bool \<Rightarrow> (string \<Rightarrow> clientKey list option) \<Rightarrow> (string \<Rightarrow> file_state) \<Rightarrow> gotime \<Rightarrow> gotime \<Rightarrow> keyRegistry \<Rightarrow> keyRegistry" where
  "reload windows decode fs now1 now2 reg =
     (if kr_path reg \<noteq> [] \<and> time_sub now1 (kr_checked reg) \<ge> kr_statInterval reg then
        (let reg1 = reg\<lparr>kr_checked := now2\<rparr>
         in (case readPrivateFile windows (fs (kr_path reg1)) of
               Inl err \<Rightarrow> reg1
             | Inr (raw, mtime, fsize) \<Rightarrow>
                 (if mtime \<noteq> kr_mtime reg1 \<or> fsize \<noteq> kr_size reg1 then
                    (case parseKeysFile decode raw of
                       Inl err \<Rightarrow> reg1
                     | Inr entries \<Rightarrow>
                         (case rejectImplicitKeyCollision (kr_implicit reg1) entries of
                            Some err \<Rightarrow> reg1
                          | None \<Rightarrow>
                              reg1\<lparr>kr_entries := entries, kr_mtime := mtime, kr_size := fsize\<rparr>))
                  else reg1)))
      else reg)"

definition all_entries :: "keyRegistry \<Rightarrow> clientKey list" where
  "all_entries reg = (case kr_implicit reg of None \<Rightarrow> [] | Some imp \<Rightarrow> [imp]) @ kr_entries reg"

definition currentEntries ::
    "bool \<Rightarrow> (string \<Rightarrow> clientKey list option) \<Rightarrow> (string \<Rightarrow> file_state) \<Rightarrow> gotime \<Rightarrow> gotime \<Rightarrow> keyRegistry \<Rightarrow>
     clientKey list \<times> keyRegistry" where
  "currentEntries windows decode fs now1 now2 reg =
     (let reg' = reload windows decode fs now1 now2 reg in (all_entries reg', reg'))"

text \<open>The loop of \<open>resolve\<close>: it compares every entry and remembers the first index that
  matched and is enabled.\<close>

fun resolve_loop :: "string \<Rightarrow> clientKey list \<Rightarrow> nat \<Rightarrow> nat option \<Rightarrow> nat option" where
  "resolve_loop token [] i matched = matched"
| "resolve_loop token (e # es) i matched =
     resolve_loop token es (Suc i)
       (if token = ck_Key e \<and> \<not> ck_Disabled e \<and> matched = None then Some i else matched)"

definition resolve_entries :: "clientKey list \<Rightarrow> string \<Rightarrow> clientIdentity option" where
  "resolve_entries entries token =
     (case resolve_loop token entries 0 None of
        None \<Rightarrow> None
      | Some i \<Rightarrow> Some \<lparr>id_Name = ck_Name (entries ! i), id_Role = ck_Role (entries ! i)\<rparr>)"

definition resolve ::
    "bool \<Rightarrow> (string \<Rightarrow> clientKey list option) \<Rightarrow> (string \<Rightarrow> file_state) \<Rightarrow> gotime \<Rightarrow> gotime \<Rightarrow> keyRegistry \<Rightarrow> string \<Rightarrow>
     clientIdentity option \<times> keyRegistry" where
  "resolve windows decode fs now1 now2 reg token =
     (let (entries, reg') = currentEntries windows decode fs now1 now2 reg
      in (resolve_entries entries token, reg'))"

subsection \<open>Requests\<close>

definition bearerToken :: "string \<Rightarrow> string" where
  "bearerToken header =
     (if \<not> HasPrefix header ''Bearer '' then [] else TrimSpace (TrimPrefix header ''Bearer ''))"

text \<open>\<open>authenticate\<close> without a cached middleware result; \<open>lookup\<close> is \<open>reg.resolve\<close> at the
  time of the call. The identity is \<open>None\<close> for an anonymous caller.\<close>

definition authenticate_with ::
    "bool \<Rightarrow> (string \<Rightarrow> clientIdentity option) \<Rightarrow> string \<Rightarrow> clientIdentity option \<times> bool" where
  "authenticate_with is_enabled lookup header =
     (if \<not> is_enabled then (None, True)
      else (let token = bearerToken header
            in if token = [] then (None, False)
               else (case lookup token of None \<Rightarrow> (None, False) | Some c \<Rightarrow> (Some c, True))))"

definition authenticate ::
    "bool \<Rightarrow> (string \<Rightarrow> clientKey list option) \<Rightarrow> (string \<Rightarrow> file_state) \<Rightarrow> gotime \<Rightarrow> gotime \<Rightarrow> keyRegistry \<Rightarrow>
     (clientIdentity option \<times> bool) option \<Rightarrow> string \<Rightarrow> clientIdentity option \<times> bool" where
  "authenticate windows decode fs now1 now2 reg cached header =
     (case cached of
        Some result \<Rightarrow> result
      | None \<Rightarrow>
          authenticate_with (enabled reg) (\<lambda>t. fst (resolve windows decode fs now1 now2 reg t)) header)"

text \<open>The registry of a proxy; one that was built without gets the key of its configuration alone.\<close>

definition proxyRegistry :: "keyRegistry option \<Rightarrow> string \<Rightarrow> keyRegistry" where
  "proxyRegistry keys apiKey =
     (case keys of
        Some reg \<Rightarrow> reg
      | None \<Rightarrow> \<lparr>kr_implicit = implicitClientKey apiKey, kr_path = [], kr_entries = [], kr_mtime = 0, kr_size = 0,
                 kr_checked = 0, kr_statInterval = keyRegistryStatInterval\<rparr>)"

text \<open>\<open>withClientAuthentication\<close>: what the request's context carries to its handler.\<close>

definition withClientAuthentication ::
    "bool \<Rightarrow> (string \<Rightarrow> clientKey list option) \<Rightarrow> (string \<Rightarrow> file_state) \<Rightarrow> gotime \<Rightarrow> gotime \<Rightarrow> keyRegistry \<Rightarrow>
     (clientIdentity option \<times> bool) option \<Rightarrow> string \<Rightarrow> (clientIdentity option \<times> bool) option" where
  "withClientAuthentication windows decode fs now1 now2 reg cached header =
     Some (authenticate windows decode fs now1 now2 reg cached header)"

definition dashboardAuthStatus ::
    "bool \<Rightarrow> (string \<Rightarrow> clientKey list option) \<Rightarrow> (string \<Rightarrow> file_state) \<Rightarrow> gotime \<Rightarrow> gotime \<Rightarrow> keyRegistry \<Rightarrow>
     string \<Rightarrow> string option \<Rightarrow> nat" where
  "dashboardAuthStatus windows decode fs now1 now2 reg header cookie =
     (if \<not> enabled reg then 200
      else (let t0 = bearerToken header;
                token = (if t0 = [] then (case cookie of Some v \<Rightarrow> v | None \<Rightarrow> []) else t0)
            in if token = [] then 401
               else (case fst (resolve windows decode fs now1 now2 reg token) of
                       None \<Rightarrow> 401
                     | Some c \<Rightarrow> if \<not> admin c then 403 else 200)))"

section \<open>Accepted keys files\<close>

text \<open>What a keys file must be to be accepted: every entry has a name, a key and one of the
  two roles, and neither a name nor a key occurs twice.\<close>

definition valid_entry :: "clientKey \<Rightarrow> bool" where
  "valid_entry e \<longleftrightarrow> ck_Name e \<noteq> [] \<and> ck_Key e \<noteq> [] \<and> ck_Role e \<in> {roleAdmin, roleClient}"

definition valid_entries :: "clientKey list \<Rightarrow> bool" where
  "valid_entries es \<longleftrightarrow>
     (\<forall>e\<in>set es. valid_entry e) \<and> distinct (map ck_Name es) \<and> distinct (map ck_Key es)"

definition cleaned :: "clientKey \<Rightarrow> clientKey" where
  "cleaned e = default_role (trim_entry e)"

definition named_values :: "(string \<times> string) list \<Rightarrow> bool" where
  "named_values m \<longleftrightarrow> (\<forall>n\<in>ran (map_of m). n \<noteq> [])"

lemma cleaned_sel [simp]:
  "ck_Name (cleaned e) = TrimSpace (ck_Name e)"
  "ck_Key (cleaned e) = TrimSpace (ck_Key e)"
  by (simp_all add: cleaned_def default_role_def trim_entry_def)

lemma trim_entry_sel [simp]:
  "ck_Name (trim_entry e) = TrimSpace (ck_Name e)"
  "ck_Key (trim_entry e) = TrimSpace (ck_Key e)"
  by (simp_all add: trim_entry_def)

lemma named_values_update:
  assumes "named_values m" "n \<noteq> []" shows "named_values (AList.update k n m)"
  using assms by (auto simp: named_values_def ran_def update_conv split: if_splits)

lemma named_values_lookup:
  assumes "named_values m"
  shows "(case map_of m k of None \<Rightarrow> [] | Some n \<Rightarrow> n) = [] \<longleftrightarrow> k \<notin> dom (map_of m)"
  using assms by (auto simp: named_values_def ran_def split: option.splits)

lemma dom_map_of_update: "dom (map_of (AList.update k v m)) = insert k (dom (map_of m))"
  by (auto simp: update_conv)

lemma valid_entries_Cons:
  "valid_entries (e # es) \<longleftrightarrow>
     valid_entry e \<and> valid_entries es \<and> ck_Name e \<notin> ck_Name ` set es \<and> ck_Key e \<notin> ck_Key ` set es"
  by (auto simp: valid_entries_def)

lemma check_entries_step:
  assumes "named_values sk"
  shows "check_entries i seen sk (raw # rest) = Inr es \<longleftrightarrow>
    valid_entry (cleaned raw) \<and> ck_Name (cleaned raw) \<notin> set seen \<and> ck_Key (cleaned raw) \<notin> dom (map_of sk) \<and>
    (\<exists>tl. es = cleaned raw # tl \<and>
       check_entries (Suc i) (ck_Name (cleaned raw) # seen)
         (AList.update (ck_Key (cleaned raw)) (ck_Name (cleaned raw)) sk) rest = Inr tl)"
proof -
  have dr: "default_role (trim_entry raw) = cleaned raw"
    by (simp add: cleaned_def)
  show ?thesis
    unfolding check_entries.simps Let_def dr valid_entry_def
    using named_values_lookup [OF assms, of "ck_Key (cleaned raw)"]
    by (cases "check_entries (Suc i) (ck_Name (cleaned raw) # seen)
         (AList.update (ck_Key (cleaned raw)) (ck_Name (cleaned raw)) sk) rest")
      (auto simp: TrimSpace_idem)
qed

lemma check_entries_iff:
  assumes "named_values sk"
  shows "check_entries i seen sk raws = Inr es \<longleftrightarrow>
    es = map cleaned raws \<and> valid_entries es \<and>
    set (map ck_Name es) \<inter> set seen = {} \<and> set (map ck_Key es) \<inter> dom (map_of sk) = {}"
  using assms
proof (induction raws arbitrary: i seen sk es)
  case Nil
  then show ?case by (auto simp: valid_entries_def)
next
  case (Cons raw rest)
  show ?case
  proof (cases "valid_entry (cleaned raw)")
    case True
    then have "named_values (AList.update (ck_Key (cleaned raw)) (ck_Name (cleaned raw)) sk)"
      using Cons.prems by (intro named_values_update) (simp_all add: valid_entry_def)
    note IH = Cons.IH [OF this, unfolded dom_map_of_update]
    show ?thesis
      unfolding check_entries_step [OF Cons.prems] IH using True
      by (cases es) (auto simp: valid_entries_Cons simp del: cleaned_sel)
  next
    case False
    then show ?thesis
      unfolding check_entries_step [OF Cons.prems] by (auto simp: valid_entries_Cons)
  qed
qed

lemma parseKeysFile_iff:
  "parseKeysFile decode raw = Inr es \<longleftrightarrow>
     (\<exists>raws. decode raw = Some raws \<and> es = map cleaned raws \<and> valid_entries es)"
  by (auto simp: parseKeysFile_def check_entries_iff named_values_def split: option.splits)

section \<open>Resolving tokens\<close>

text \<open>
  The contract a token lookup has with its clients: it returns an identity that the
  registry grants to the token, it finds one whenever there is one, and in a well-formed
  registry a token is granted at most one identity.
\<close>

locale token_lookup =
  fixes lookup :: "'r \<Rightarrow> string \<Rightarrow> 'i option"
    and grants :: "'r \<Rightarrow> string \<Rightarrow> 'i \<Rightarrow> bool"
    and wf :: "'r \<Rightarrow> bool"
  assumes sound: "lookup r t = Some c \<Longrightarrow> grants r t c"
    and complete: "grants r t c \<Longrightarrow> lookup r t \<noteq> None"
    and unique: "wf r \<Longrightarrow> grants r t c \<Longrightarrow> grants r t d \<Longrightarrow> c = d"
begin

lemma lookup_iff: "wf r \<Longrightarrow> lookup r t = Some c \<longleftrightarrow> grants r t c"
  using sound complete unique by (metis option.exhaust_sel option.sel)

lemma lookup_None_iff: "lookup r t = None \<longleftrightarrow> (\<forall>c. \<not> grants r t c)"
  using sound complete by (metis not_Some_eq)

end

text \<open>An entry list grants a token the identity of an enabled entry with that key.\<close>

definition identity_of :: "clientKey \<Rightarrow> clientIdentity" where
  "identity_of e = \<lparr>id_Name = ck_Name e, id_Role = ck_Role e\<rparr>"

definition entry_grants :: "clientKey list \<Rightarrow> string \<Rightarrow> clientIdentity \<Rightarrow> bool" where
  "entry_grants es t c \<longleftrightarrow> (\<exists>e\<in>set es. ck_Key e = t \<and> \<not> ck_Disabled e \<and> c = identity_of e)"

lemma resolve_loop_found: "resolve_loop t es i (Some j) = Some j"
  by (induction es arbitrary: i) auto

lemma resolve_loop_None:
  "resolve_loop t es i None = None \<longleftrightarrow> (\<forall>e\<in>set es. ck_Key e = t \<longrightarrow> ck_Disabled e)"
  by (induction es arbitrary: i) (auto simp: resolve_loop_found)

lemma resolve_loop_Some:
  "resolve_loop t es i None = Some j \<Longrightarrow>
   i \<le> j \<and> j - i < length es \<and> ck_Key (es ! (j - i)) = t \<and> \<not> ck_Disabled (es ! (j - i))"
proof (induction es arbitrary: i)
  case (Cons e es)
  show ?case
  proof (cases "t = ck_Key e \<and> \<not> ck_Disabled e")
    case True
    with Cons.prems show ?thesis by (simp add: resolve_loop_found)
  next
    case False
    then have "resolve_loop t es (Suc i) None = Some j" using Cons.prems by auto
    from Cons.IH [OF this] show ?thesis by (auto simp: nth_Cons' Suc_diff_Suc less_diff_conv)
  qed
qed simp

lemma distinct_map_eq:
  assumes "distinct (map f xs)" "x \<in> set xs" "y \<in> set xs" "f x = f y" shows "x = y"
  using assms by (metis distinct_map inj_onD)

interpretation keys: token_lookup resolve_entries entry_grants valid_entries
proof
  fix r t c d
  show "resolve_entries r t = Some c \<Longrightarrow> entry_grants r t c"
    using resolve_loop_Some [of t r 0]
    by (fastforce simp: resolve_entries_def entry_grants_def identity_of_def split: option.splits)
  show "entry_grants r t c \<Longrightarrow> resolve_entries r t \<noteq> None"
    by (auto simp: resolve_entries_def entry_grants_def resolve_loop_None split: option.splits)
  show "valid_entries r \<Longrightarrow> entry_grants r t c \<Longrightarrow> entry_grants r t d \<Longrightarrow> c = d"
    unfolding entry_grants_def valid_entries_def by (metis distinct_map_eq)
qed

section \<open>The registry invariant\<close>

text \<open>The implicit client and the file's entries together form a valid list; in particular
  no file entry takes the implicit client's name or key.\<close>

definition registry_ok :: "keyRegistry \<Rightarrow> bool" where
  "registry_ok reg \<longleftrightarrow> valid_entries (all_entries reg)"

lemma collision_None:
  "collision imp es = None \<longleftrightarrow> (\<forall>e\<in>set es. ck_Name e \<noteq> ck_Name imp \<and> ck_Key e \<noteq> ck_Key imp)"
  by (induction es) auto

lemma implicitClientKey_valid: "implicitClientKey k = Some imp \<Longrightarrow> valid_entry imp"
  by (auto simp: implicitClientKey_def Let_def valid_entry_def implicitClientName_def split: if_splits)

lemma rejectImplicit_ok:
  assumes "rejectImplicitKeyCollision imp es = None" "valid_entries es"
    and "\<And>i. imp = Some i \<Longrightarrow> valid_entry i"
  shows "valid_entries ((case imp of None \<Rightarrow> [] | Some i \<Rightarrow> [i]) @ es)"
  using assms
  by (cases imp) (auto simp: rejectImplicitKeyCollision_def collision_None valid_entries_Cons image_iff)

lemma registry_ok_implicit: "registry_ok reg \<Longrightarrow> kr_implicit reg = Some i \<Longrightarrow> valid_entry i"
  by (auto simp: registry_ok_def all_entries_def valid_entries_Cons)

lemma newKeyRegistry_ok:
  assumes "newKeyRegistry win decode fs apiKey keysFile now = Inr reg" shows "registry_ok reg"
proof -
  have nil: "valid_entries (case implicitClientKey apiKey of None \<Rightarrow> [] | Some i \<Rightarrow> [i])"
    using implicitClientKey_valid [of apiKey]
    by (auto simp: valid_entries_Cons valid_entries_def split: option.split)
  show ?thesis
    using assms nil rejectImplicit_ok [of "implicitClientKey apiKey"] implicitClientKey_valid [of apiKey]
    by (auto simp: newKeyRegistry_def Let_def registry_ok_def all_entries_def parseKeysFile_iff
             split: if_splits sum.splits prod.splits option.splits)
qed

text \<open>A reload changes nothing but the stat clock, or installs a file that was readable, private,
  changed, accepted and free of collisions.\<close>

definition reload_installs ::
    "bool \<Rightarrow> (string \<Rightarrow> clientKey list option) \<Rightarrow> (string \<Rightarrow> file_state) \<Rightarrow> gotime \<Rightarrow> keyRegistry \<Rightarrow> clientKey list \<Rightarrow> bool" where
  "reload_installs win decode fs now reg es \<longleftrightarrow>
     kr_path reg \<noteq> [] \<and> time_sub now (kr_checked reg) \<ge> kr_statInterval reg \<and>
     (case readPrivateFile win (fs (kr_path reg)) of
        Inl _ \<Rightarrow> False
      | Inr (raw, mtime, fsize) \<Rightarrow>
          (mtime \<noteq> kr_mtime reg \<or> fsize \<noteq> kr_size reg) \<and> parseKeysFile decode raw = Inr es \<and>
          rejectImplicitKeyCollision (kr_implicit reg) es = None)"

lemma reload_fixed [simp]:
  "kr_implicit (reload win decode fs now1 now2 reg) = kr_implicit reg"
  "kr_path (reload win decode fs now1 now2 reg) = kr_path reg"
  "kr_statInterval (reload win decode fs now1 now2 reg) = kr_statInterval reg"
  by (simp_all add: reload_def Let_def split: sum.split prod.split option.split)

lemma reload_cases:
  "reload_installs win decode fs now1 reg (kr_entries (reload win decode fs now1 now2 reg)) \<or>
   (\<nexists>es. reload_installs win decode fs now1 reg es) \<and>
   kr_entries (reload win decode fs now1 now2 reg) = kr_entries reg"
  by (auto simp: reload_def reload_installs_def Let_def split: sum.splits prod.splits option.splits)

lemma reload_installs_valid: "reload_installs win decode fs now reg es \<Longrightarrow> valid_entries es"
  by (auto simp: reload_installs_def parseKeysFile_iff split: sum.splits)

lemma reload_ok:
  assumes "registry_ok reg" shows "registry_ok (reload win decode fs now1 now2 reg)"
  using reload_cases [of win decode fs now1 reg now2]
proof
  let ?reg' = "reload win decode fs now1 now2 reg"
  assume inst: "reload_installs win decode fs now1 reg (kr_entries ?reg')"
  then have "rejectImplicitKeyCollision (kr_implicit reg) (kr_entries ?reg') = None"
    by (auto simp: reload_installs_def split: sum.splits)
  from rejectImplicit_ok [OF this reload_installs_valid [OF inst]] registry_ok_implicit [OF assms]
  show ?thesis by (simp add: registry_ok_def all_entries_def)
qed (use assms in \<open>simp add: registry_ok_def all_entries_def\<close>)

lemma fst_resolve:
  "fst (resolve win decode fs now1 now2 reg t) =
   resolve_entries (all_entries (reload win decode fs now1 now2 reg)) t"
  by (simp add: resolve_def currentEntries_def Let_def)

lemma snd_resolve: "snd (resolve win decode fs now1 now2 reg t) = reload win decode fs now1 now2 reg"
  by (simp add: resolve_def currentEntries_def Let_def)

lemma fst_resolve_iff:
  assumes "registry_ok reg"
  shows "fst (resolve win decode fs now1 now2 reg t) = Some c \<longleftrightarrow>
    entry_grants (all_entries (reload win decode fs now1 now2 reg)) t c"
  using reload_ok [OF assms] unfolding registry_ok_def by (simp add: fst_resolve keys.lookup_iff)

text \<open>A handler that authenticates again gets the answer of the admission, whatever has become of the keys
  file since; and the fallback registry is the one of \<open>newKeyRegistry\<close> without a file.\<close>

lemma authenticated_once:
  "authenticate windows decode fs' now1' now2' reg'
     (withClientAuthentication windows decode fs now1 now2 reg cached header) header' =
   authenticate windows decode fs now1 now2 reg cached header"
  by (simp add: withClientAuthentication_def authenticate_def)

lemma registry_fallback:
  "newKeyRegistry windows decode fs apiKey [] now = Inr (proxyRegistry None apiKey)"
  by (simp add: newKeyRegistry_def proxyRegistry_def Let_def)

section \<open>Properties\<close>

text \<open>The registry after a series of requests, each with the file system and the clock it saw.\<close>

definition serve ::
    "bool \<Rightarrow> (string \<Rightarrow> clientKey list option) \<Rightarrow> ((string \<Rightarrow> file_state) \<times> gotime \<times> gotime \<times> string) list \<Rightarrow>
     keyRegistry \<Rightarrow> keyRegistry" where
  "serve win decode calls reg =
     foldl (\<lambda>r (fs, now1, now2, t). snd (resolve win decode fs now1 now2 r t)) reg calls"

lemma serve_ok: "registry_ok reg \<Longrightarrow> registry_ok (serve win decode calls reg)"
  by (induction calls arbitrary: reg) (auto simp: serve_def snd_resolve reload_ok split: prod.splits)

text \<open>A keys file is accepted exactly when it decodes and, once trimmed and with the default role
  filled in, every entry has a name, a key and a known role, and no name and no key occurs twice;
  the accepted entries are those cleaned entries in order.\<close>

theorem keys_file_accepted_iff:
  "parseKeysFile decode raw = Inr es \<longleftrightarrow>
     (\<exists>raws. decode raw = Some raws \<and> es = map cleaned raws \<and> list_all valid_entry es \<and>
             distinct (map ck_Name es) \<and> distinct (map ck_Key es))"
  by (auto simp: parseKeysFile_iff valid_entries_def list_all_iff)

text \<open>C34: After any series of requests and reloads a token is accepted exactly when the registry in
  force holds an enabled entry with that key, and the caller gets that entry's name and role.\<close>

theorem token_accepted_iff:
  assumes "newKeyRegistry win decode fs0 apiKey keysFile now0 = Inr reg"
  shows "fst (resolve win decode fs now1 now2 (serve win decode calls reg) t) = Some c \<longleftrightarrow>
    (\<exists>e\<in>set (all_entries (snd (resolve win decode fs now1 now2 (serve win decode calls reg) t))).
       ck_Key e = t \<and> \<not> ck_Disabled e \<and> id_Name c = ck_Name e \<and> id_Role c = ck_Role e)"
  using fst_resolve_iff [OF serve_ok [OF newKeyRegistry_ok [OF assms]], of win decode fs now1 now2 win decode calls t c]
  by (auto simp: snd_resolve entry_grants_def identity_of_def)

theorem token_accepted_iff_witness:
  "\<exists>reg c. newKeyRegistry False (\<lambda>_. None) (\<lambda>_. undefined) '' k1 '' [] 0 = Inr reg \<and>
     fst (resolve False (\<lambda>_. None) (\<lambda>_. undefined) 1 1 (serve False (\<lambda>_. None) [] reg) ''k1'') = Some c \<and>
     id_Role c = roleAdmin"
proof -
  let ?e = "\<lparr>ck_Name = implicitClientName, ck_Key = ''k1'', ck_Role = roleAdmin, ck_Disabled = False\<rparr>"
  let ?reg = "\<lparr>kr_implicit = Some ?e, kr_path = [], kr_entries = [], kr_mtime = 0, kr_size = 0,
               kr_checked = 0, kr_statInterval = keyRegistryStatInterval\<rparr>"
  have "TrimSpace '' k1 '' = ''k1''" "TrimSpace [] = []" by code_simp+
  then have "newKeyRegistry False (\<lambda>_. None) (\<lambda>_. undefined) '' k1 '' [] 0 = Inr ?reg"
    by (simp add: newKeyRegistry_def implicitClientKey_def Let_def)
  with token_accepted_iff [OF this, of "\<lambda>_. undefined" 1 1 "[]" "''k1''" "identity_of ?e"] show ?thesis
    by (intro exI [of _ ?reg] exI [of _ "identity_of ?e"])
      (simp add: snd_resolve reload_def all_entries_def serve_def identity_of_def)
qed

text \<open>A reload is all or nothing: the new entries are those of a keys file that was private,
  readable, changed, entirely valid and free of collisions with the implicit client, and whenever
  there is no such file the old entries stay in force.\<close>

theorem reload_all_or_nothing:
  "kr_entries (reload win decode fs now1 now2 reg) = es \<longleftrightarrow>
     (if \<exists>es'. reload_installs win decode fs now1 reg es'
      then reload_installs win decode fs now1 reg es \<and> valid_entries es
      else es = kr_entries reg)"
proof -
  have "reload_installs win decode fs now1 reg a \<Longrightarrow> reload_installs win decode fs now1 reg b \<Longrightarrow> a = b" for a b
    by (auto simp: reload_installs_def split: sum.splits)
  with reload_cases [of win decode fs now1 reg now2] show ?thesis
    by (auto dest: reload_installs_valid)
qed

text \<open>The dashboard answers 200 exactly when authentication is off or the bearer token, or the
  cookie when there is no bearer token, is the key of an enabled admin entry.\<close>

theorem dashboard_admin_only:
  assumes "registry_ok reg"
  shows "dashboardAuthStatus win decode fs now1 now2 reg header cookie = 200 \<longleftrightarrow>
    \<not> enabled reg \<or>
    (\<exists>e\<in>set (all_entries (reload win decode fs now1 now2 reg)).
       ck_Role e = roleAdmin \<and> \<not> ck_Disabled e \<and>
       ck_Key e = (if bearerToken header = [] then (case cookie of Some v \<Rightarrow> v | None \<Rightarrow> []) else bearerToken header))"
proof -
  let ?es = "all_entries (reload win decode fs now1 now2 reg)"
  define t where "t = (if bearerToken header = [] then (case cookie of Some v \<Rightarrow> v | None \<Rightarrow> []) else bearerToken header)"
  have wf: "valid_entries ?es" using reload_ok [OF assms] by (simp add: registry_ok_def)
  then have ne: "e \<in> set ?es \<Longrightarrow> ck_Key e \<noteq> []" for e
    by (auto simp: valid_entries_def valid_entry_def)
  have "dashboardAuthStatus win decode fs now1 now2 reg header cookie = 200 \<longleftrightarrow>
      \<not> enabled reg \<or> t \<noteq> [] \<and> (\<exists>c. resolve_entries ?es t = Some c \<and> admin c)"
    by (auto simp: dashboardAuthStatus_def Let_def t_def fst_resolve split: option.splits)
  also have "\<dots> \<longleftrightarrow> \<not> enabled reg \<or> t \<noteq> [] \<and> (\<exists>c. entry_grants ?es t c \<and> admin c)"
    using keys.lookup_iff [OF wf] by simp
  also have "\<dots> \<longleftrightarrow> \<not> enabled reg \<or> (\<exists>e\<in>set ?es. ck_Role e = roleAdmin \<and> \<not> ck_Disabled e \<and> ck_Key e = t)"
    using ne by (auto simp: entry_grants_def identity_of_def admin_def)
  finally show ?thesis unfolding t_def .
qed

theorem dashboard_admin_only_witness:
  "dashboardAuthStatus False (\<lambda>_. None) (\<lambda>_. undefined) 1 1
     \<lparr>kr_implicit = Some \<lparr>ck_Name = implicitClientName, ck_Key = ''k1'', ck_Role = roleAdmin, ck_Disabled = False\<rparr>,
      kr_path = [], kr_entries = [], kr_mtime = 0, kr_size = 0, kr_checked = 0, kr_statInterval = 0\<rparr>
     [] (Some ''k1'') = 200"
proof -
  let ?reg = "\<lparr>kr_implicit = Some \<lparr>ck_Name = implicitClientName, ck_Key = ''k1'', ck_Role = roleAdmin, ck_Disabled = False\<rparr>,
      kr_path = [], kr_entries = [], kr_mtime = 0, kr_size = 0, kr_checked = 0, kr_statInterval = 0\<rparr>"
  have "registry_ok ?reg"
    by (simp add: registry_ok_def all_entries_def valid_entries_def valid_entry_def implicitClientName_def)
  from dashboard_admin_only [OF this, of False "\<lambda>_. None" "\<lambda>_. undefined" 1 1 "[]" "Some ''k1''"]
  show ?thesis by (simp add: bearerToken_def reload_def all_entries_def)
qed

end
