(* ===== verification/Accounts.thy ===== *)
theory Accounts
  imports Util
begin

text \<open>
  The Codex account pool, \<^verbatim>\<open>src/accounts.go\<close>: an account with its cooldown deadline and
  probe slot, the sticky round-robin selection of the pool, the labels of the accounts,
  and the derivation of a cooldown from a rate-limit answer. The record fields, the
  constants and the functions carry the names of the source; a method that mutates its
  receiver returns the new value.

  Every operation runs under the pool mutex or the account mutex, so one call is one
  atomic step on the state.
\<close>

section \<open>Definitions\<close>

definition minCooldown :: duration where
  "minCooldown = seconds 30"

definition maxCooldownDur :: duration where
  "maxCooldownDur = hours (8 * 24)"

definition defaultShortCooldown :: duration where
  "defaultShortCooldown = seconds 60"

definition defaultUsageCooldown :: duration where
  "defaultUsageCooldown = hours 5"

definition defaultWeeklyCooldown :: duration where
  "defaultWeeklyCooldown = hours (7 * 24)"

definition authErrorCooldown :: duration where
  "authErrorCooldown = minutes 2"

definition probeInterval :: duration where
  "probeInterval = minutes 5"

datatype pool_error = ErrAllCoolingDown

subsection \<open>One account\<close>

record account =
  label :: string
  mgr_authFile :: string
  cooldownUntil :: gotime
  nextProbe :: gotime

definition available :: "account \<Rightarrow> gotime \<Rightarrow> bool" where
  "available a now \<longleftrightarrow> \<not> cooldownUntil a > now"

definition cool :: "account \<Rightarrow> gotime \<Rightarrow> gotime \<Rightarrow> account" where
  "cool a now until =
     (let a1 = (if until > cooldownUntil a then a\<lparr>cooldownUntil := until\<rparr> else a);
          next_probe = now + probeInterval
      in if next_probe > nextProbe a1 then a1\<lparr>nextProbe := next_probe\<rparr> else a1)"

definition probeDue :: "account \<Rightarrow> gotime \<Rightarrow> bool \<times> account" where
  "probeDue a now =
     (if \<not> cooldownUntil a > now then (False, a)
      else if nextProbe a > now then (False, a)
      else (True, a\<lparr>nextProbe := now + probeInterval\<rparr>))"

definition clearCooldown :: "account \<Rightarrow> account" where
  "clearCooldown a = a\<lparr>cooldownUntil := 0, nextProbe := 0\<rparr>"

subsection \<open>The pool\<close>

record accountPool =
  accounts :: "account list"
  active :: nat

definition pool_size :: "accountPool \<Rightarrow> nat" where
  "pool_size p = length (accounts p)"

text \<open>The indices \<open>(p.active + i) % n\<close> in the order both loops of \<open>pick\<close> visit them.\<close>

definition rotation :: "accountPool \<Rightarrow> nat list" where
  "rotation p = map (\<lambda>i. (active p + i) mod length (accounts p)) [0..<length (accounts p)]"

fun pick_available :: "account list \<Rightarrow> gotime \<Rightarrow> nat list \<Rightarrow> nat option" where
  "pick_available accts now [] = None"
| "pick_available accts now (idx # is) =
     (if available (accts ! idx) now then Some idx else pick_available accts now is)"

fun pick_probe :: "account list \<Rightarrow> gotime \<Rightarrow> nat list \<Rightarrow> nat option \<times> account list" where
  "pick_probe accts now [] = (None, accts)"
| "pick_probe accts now (idx # is) =
     (let (due, a) = probeDue (accts ! idx) now; accts' = accts[idx := a]
      in if due then (Some idx, accts') else pick_probe accts' now is)"

definition pick :: "accountPool \<Rightarrow> gotime \<Rightarrow> (pool_error + nat) \<times> accountPool" where
  "pick p now =
     (case pick_available (accounts p) now (rotation p) of
        Some idx \<Rightarrow> (Inr idx, p\<lparr>active := idx\<rparr>)
      | None \<Rightarrow>
          (case pick_probe (accounts p) now (rotation p) of
             (Some idx, accts) \<Rightarrow> (Inr idx, p\<lparr>accounts := accts, active := idx\<rparr>)
           | (None, accts) \<Rightarrow> (Inl ErrAllCoolingDown, p\<lparr>accounts := accts\<rparr>)))"

definition preferred :: "accountPool \<Rightarrow> gotime \<Rightarrow> nat option \<times> accountPool" where
  "preferred p now =
     (case pick p now of
        (Inr idx, p') \<Rightarrow> (Some idx, p')
      | (Inl _, p') \<Rightarrow> (if accounts p' = [] then None else Some (active p'), p'))"

definition soonestReset :: "accountPool \<Rightarrow> gotime" where
  "soonestReset p =
     foldl (\<lambda>soonest a.
              if cooldownUntil a = 0 then soonest
              else if soonest = 0 \<or> cooldownUntil a < soonest then cooldownUntil a
              else soonest) 0 (accounts p)"

definition availability :: "accountPool \<Rightarrow> gotime \<Rightarrow> nat \<times> nat" where
  "availability p now = (length (accounts p), length (filter (\<lambda>a. available a now) (accounts p)))"

text \<open>The mutations that handlers apply to the account \<open>pick\<close> handed out.\<close>

definition coolAt :: "nat \<Rightarrow> gotime \<Rightarrow> gotime \<Rightarrow> accountPool \<Rightarrow> accountPool" where
  "coolAt idx now until p = p\<lparr>accounts := (accounts p)[idx := cool (accounts p ! idx) now until]\<rparr>"

definition clearAt :: "nat \<Rightarrow> accountPool \<Rightarrow> accountPool" where
  "clearAt idx p = p\<lparr>accounts := (accounts p)[idx := clearCooldown (accounts p ! idx)]\<rparr>"

subsection \<open>Labels\<close>

text \<open>\<open>filepath.Clean\<close>, \<open>filepath.Base\<close> and \<open>filepath.Dir\<close> on a Unix path.\<close>

fun clean_elems :: "bool \<Rightarrow> string list \<Rightarrow> string list \<Rightarrow> string list" where
  "clean_elems rooted out [] = rev out"
| "clean_elems rooted out (e # es) =
     (if e = [] \<or> e = ''.'' then clean_elems rooted out es
      else if e = ''..'' then
        (case out of
           t # out' \<Rightarrow> if t = ''..'' then clean_elems rooted (e # out) es else clean_elems rooted out' es
         | [] \<Rightarrow> clean_elems rooted (if rooted then [] else [e]) es)
      else clean_elems rooted (e # out) es)"

definition path_Clean :: "string \<Rightarrow> string" where
  "path_Clean path =
     (let rooted = HasPrefix path ''/'';
          out = (if rooted then ''/'' else []) @ Join (clean_elems rooted [] (Split CHR ''/'' path)) ''/''
      in if out = [] then ''.'' else out)"

definition path_Base :: "string \<Rightarrow> string" where
  "path_Base path =
     (if path = [] then ''.''
      else (let stripped = rev (dropWhile (\<lambda>c. c = CHR ''/'') (rev path));
                elem = rev (takeWhile (\<lambda>c. c \<noteq> CHR ''/'') (rev stripped))
            in if elem = [] then ''/'' else elem))"

definition path_Dir :: "string \<Rightarrow> string" where
  "path_Dir path = path_Clean (rev (dropWhile (\<lambda>c. c \<noteq> CHR ''/'') (rev path)))"

definition numbered_label :: "string \<Rightarrow> nat \<Rightarrow> string" where
  "numbered_label orig i = orig @ ''-'' @ itoa i"

lemma numbered_label_inject [simp]: "numbered_label orig i = numbered_label orig j \<longleftrightarrow> i = j"
  by (simp add: numbered_label_def)

lemma finite_used_numbers [simp]: "finite {j. i \<le> j \<and> numbered_label orig j \<in> set used}"
proof -
  have "finite (numbered_label orig -` set used)"
    by (intro finite_vimageI) (auto simp: inj_def)
  then show ?thesis by (rule rev_finite_subset) auto
qed

text \<open>\<open>for i := 2; used[label]; i++ { label = orig + "-" + strconv.Itoa(i) }\<close>\<close>

function unused_label :: "string \<Rightarrow> string list \<Rightarrow> nat \<Rightarrow> string \<Rightarrow> string" where
  "unused_label orig used i lbl =
     (if lbl \<in> set used then unused_label orig used (Suc i) (numbered_label orig i) else lbl)"
  by pat_completeness auto
termination
proof (relation "measure (\<lambda>(orig, used, i, lbl).
    2 * card {j. i \<le> j \<and> numbered_label orig j \<in> set used} + (if lbl \<in> set used then 1 else 0))", goal_cases)
  case 1
  show ?case by simp
next
  case (2 orig used i lbl)
  let ?A = "\<lambda>i. {j. i \<le> j \<and> numbered_label orig j \<in> set used}"
  show ?case
  proof (cases "numbered_label orig i \<in> set used")
    case True
    then have "?A i = insert i (?A (Suc i))" by (auto simp: Suc_le_eq le_less)
    then have "card (?A i) = Suc (card (?A (Suc i)))" by (simp add: card_insert_if)
    with 2 show ?thesis by simp
  next
    case False
    have "card (?A (Suc i)) \<le> card (?A i)" by (intro card_mono) auto
    with 2 False show ?thesis by simp
  qed
qed

declare unused_label.simps [simp del]

definition accountLabel :: "string \<Rightarrow> string list option \<Rightarrow> string \<times> string list option" where
  "accountLabel path used =
     (let base = path_Base path;
          l0 = TrimSuffix base ''.json'';
          dir = path_Base (path_Dir path);
          l1 = (if (l0 = ''auth'' \<or> l0 = []) \<and> dir \<noteq> [] \<and> dir \<noteq> ''.'' \<and> dir \<noteq> ''/'' then dir else l0);
          l2 = (if l1 = [] then ''account'' else l1)
      in (case used of
            None \<Rightarrow> (l2, None)
          | Some u \<Rightarrow> (let l3 = unused_label l2 u 2 l2 in (l3, Some (l3 # u)))))"

fun newAccountPool_loop :: "string list \<Rightarrow> string list option \<Rightarrow> account list" where
  "newAccountPool_loop [] used = []"
| "newAccountPool_loop (f # files) used =
     (let (l, used') = accountLabel f used
      in \<lparr>label = l, mgr_authFile = f, cooldownUntil = 0, nextProbe = 0\<rparr> # newAccountPool_loop files used')"

definition newAccountPool :: "string list \<Rightarrow> accountPool" where
  "newAccountPool files = \<lparr>accounts = newAccountPool_loop files (Some []), active = 0\<rparr>"

subsection \<open>Cooldowns\<close>

definition clampCooldown :: "duration \<Rightarrow> duration" where
  "clampCooldown d =
     (if d < minCooldown then minCooldown else if d > maxCooldownDur then maxCooldownDur else d)"

definition clampUntil :: "gotime \<Rightarrow> gotime \<Rightarrow> gotime" where
  "clampUntil now t = now + clampCooldown (time_sub t now)"

definition numericReset :: "gofloat \<Rightarrow> gotime \<Rightarrow> gotime option" where
  "numericReset n now =
     (if float_le n 0 then None
      else if float_ge n 1000000000 then Some (clampUntil now (time_Unix (int64_of_float n)))
      else Some (now + clampCooldown (wrap64 (int64_of_float n * nanos_per_second))))"

definition parseResetValue :: "golib \<Rightarrow> string \<Rightarrow> gotime \<Rightarrow> gotime option" where
  "parseResetValue lib value now =
     (let v = TrimSpace value
      in if v = [] then None
         else (case lib_ParseFloat lib v of
                 Some f \<Rightarrow> numericReset f now
               | None \<Rightarrow>
                   (case lib_ParseHTTPTime lib v of
                      Some t \<Rightarrow> Some (clampUntil now t)
                    | None \<Rightarrow>
                        (case lib_ParseRFC3339 lib v of
                           Some t \<Rightarrow> Some (clampUntil now t)
                         | None \<Rightarrow> None))))"

definition coerceReset :: "golib \<Rightarrow> json \<Rightarrow> gotime \<Rightarrow> gotime option" where
  "coerceReset lib v now =
     (case v of
        JFloat q \<Rightarrow> numericReset (Fin q) now
      | JNumber s \<Rightarrow> (case lib_ParseFloat lib s of Some f \<Rightarrow> numericReset f now | None \<Rightarrow> None)
      | JStr s \<Rightarrow> parseResetValue lib s now
      | _ \<Rightarrow> None)"

definition reset_key :: "string \<Rightarrow> bool" where
  "reset_key k \<longleftrightarrow>
     (let lk = ToLower k
      in Contains lk ''reset'' \<or> Contains lk ''retry'' \<or> Contains lk ''seconds_until'' \<or>
         Contains lk ''cooldown'' \<or> Contains lk ''resets_in'' \<or> Contains lk ''resets_at'')"

type_synonym best_reset = "gotime \<times> string"

definition note_reset :: "golib \<Rightarrow> gotime \<Rightarrow> string \<Rightarrow> json \<Rightarrow> best_reset \<Rightarrow> best_reset" where
  "note_reset lib now k val st =
     (if reset_key k then
        (case coerceReset lib val now of
           Some until \<Rightarrow> (if fst st = 0 \<or> until < fst st then (until, ''body:'' @ k) else st)
         | None \<Rightarrow> st)
      else st)"

fun walk :: "golib \<Rightarrow> gotime \<Rightarrow> json \<Rightarrow> best_reset \<Rightarrow> best_reset"
  and walk_fields :: "golib \<Rightarrow> gotime \<Rightarrow> (string \<times> json) list \<Rightarrow> best_reset \<Rightarrow> best_reset"
  and walk_items :: "golib \<Rightarrow> gotime \<Rightarrow> json list \<Rightarrow> best_reset \<Rightarrow> best_reset" where
  "walk lib now (JObj fs) st = walk_fields lib now fs st"
| "walk lib now (JArr xs) st = walk_items lib now xs st"
| "walk lib now v st = st"
| "walk_fields lib now [] st = st"
| "walk_fields lib now ((k, v) # fs) st = walk_fields lib now fs (walk lib now v (note_reset lib now k v st))"
| "walk_items lib now [] st = st"
| "walk_items lib now (x # xs) st = walk_items lib now xs (walk lib now x st)"

definition resetFromBody :: "golib \<Rightarrow> string \<Rightarrow> gotime \<Rightarrow> best_reset option" where
  "resetFromBody lib body now =
     (case lib_Unmarshal lib body of
        None \<Rightarrow> None
      | Some parsed \<Rightarrow>
          (let st = walk lib now parsed (0, []) in if fst st = 0 then None else Some st))"

definition classifyWindow :: "duration \<Rightarrow> string \<Rightarrow> string" where
  "classifyWindow d body =
     (let text = ToLower body
      in if Contains text ''week'' \<or> d \<ge> hours 48 then ''weekly''
         else if d \<ge> minutes 90 \<or> Contains text ''5h'' \<or> Contains text ''5-hour'' \<or> Contains text ''5 hour''
         then ''5h''
         else if d \<ge> minutes 2 then ''windowed''
         else ''short'')"

definition defaultCooldownFromBody :: "string \<Rightarrow> duration" where
  "defaultCooldownFromBody body =
     (let text = ToLower body
      in if Contains text ''week'' then defaultWeeklyCooldown
         else if Contains text ''usage limit'' \<or> Contains text ''quota'' \<or> Contains text ''5 hour'' \<or>
                 Contains text ''5-hour''
         then defaultUsageCooldown
         else defaultShortCooldown)"

text \<open>A response header block, read with \<open>Header.Get\<close>.\<close>

type_synonym header_get = "string \<Rightarrow> string"

definition reset_headers :: "string list" where
  "reset_headers =
     [''x-codex-primary-reset-after-seconds'', ''x-codex-reset-after-seconds'',
      ''x-ratelimit-reset-requests'', ''x-ratelimit-reset-tokens'', ''x-ratelimit-reset'']"

definition header_reset :: "golib \<Rightarrow> header_get \<Rightarrow> gotime \<Rightarrow> string \<Rightarrow> gotime option" where
  "header_reset lib hdr now key =
     (let v = TrimSpace (hdr key) in if v \<noteq> [] then parseResetValue lib v now else None)"

fun first_header_reset :: "golib \<Rightarrow> header_get \<Rightarrow> gotime \<Rightarrow> string list \<Rightarrow> (gotime \<times> string) option" where
  "first_header_reset lib hdr now [] = None"
| "first_header_reset lib hdr now (key # keys) =
     (case header_reset lib hdr now key of
        Some until \<Rightarrow> Some (until, ''header:'' @ key)
      | None \<Rightarrow> first_header_reset lib hdr now keys)"

definition deriveCooldown ::
    "golib \<Rightarrow> header_get option \<Rightarrow> string \<Rightarrow> gotime \<Rightarrow> gotime \<times> string \<times> string" where
  "deriveCooldown lib resp body now =
     (let from_headers =
            (case resp of
               None \<Rightarrow> None
             | Some hdr \<Rightarrow>
                 (case header_reset lib hdr now ''Retry-After'' of
                    Some until \<Rightarrow> Some (until, ''retry-after'')
                  | None \<Rightarrow> first_header_reset lib hdr now reset_headers))
      in (case from_headers of
            Some (until, source) \<Rightarrow> (until, classifyWindow (time_sub until now) body, source)
          | None \<Rightarrow>
              (case resetFromBody lib body now of
                 Some (until, source) \<Rightarrow> (until, classifyWindow (time_sub until now) body, source)
               | None \<Rightarrow>
                   (let d = defaultCooldownFromBody body
                    in (now + d, classifyWindow d body, ''default'')))))"

section \<open>The interface failover loops rely on\<close>

text \<open>
  What the dispatch loops assume of a pool: \<open>pick\<close> hands out an account in range, an
  available one whenever there is one, and refuses only when none is available; cooling
  an account benches it until its deadline and touches no other account.
\<close>

locale failover_pool =
  fixes psize :: "'p \<Rightarrow> nat"
    and avail :: "'p \<Rightarrow> gotime \<Rightarrow> nat \<Rightarrow> bool"
    and elect :: "'p \<Rightarrow> gotime \<Rightarrow> (pool_error + nat) \<times> 'p"
    and bench :: "nat \<Rightarrow> gotime \<Rightarrow> gotime \<Rightarrow> 'p \<Rightarrow> 'p"
  assumes size_elect: "psize (snd (elect p t)) = psize p"
    and avail_elect: "i < psize p \<Longrightarrow> avail (snd (elect p t)) u i = avail p u i"
    and elect_in_range: "fst (elect p t) = Inr i \<Longrightarrow> i < psize p"
    and elect_available: "fst (elect p t) = Inr i \<Longrightarrow> j < psize p \<Longrightarrow> avail p t j \<Longrightarrow> avail p t i"
    and elect_refuses: "fst (elect p t) = Inl e \<Longrightarrow> j < psize p \<Longrightarrow> \<not> avail p t j"
    and size_bench: "psize (bench i now until p) = psize p"
    and bench_benches: "i < psize p \<Longrightarrow> t < until \<Longrightarrow> \<not> avail (bench i now until p) t i"
    and bench_frame: "j \<noteq> i \<Longrightarrow> avail (bench i now until p) t j = avail p t j"
    and avail_later: "avail p t j \<Longrightarrow> t \<le> u \<Longrightarrow> avail p u j"
begin

definition free :: "'p \<Rightarrow> gotime \<Rightarrow> nat set" where
  "free p t = {i. i < psize p \<and> avail p t i}"

lemma finite_free [simp]: "finite (free p t)"
  by (simp add: free_def)

lemma card_free_le: "card (free p t) \<le> psize p"
  using card_mono [of "{..<psize p}" "free p t"] by (auto simp: free_def)

lemma free_elect: "free (snd (elect p t)) u = free p u"
  by (auto simp: free_def size_elect avail_elect)

lemma free_bench: "i < psize p \<Longrightarrow> t < until \<Longrightarrow> free (bench i now until p) t = free p t - {i}"
  using bench_benches [of i p t until now] bench_frame [of _ i now until p t]
  by (auto simp: free_def size_bench) metis

text \<open>A failed attempt on an available account leaves one account fewer to try.\<close>

lemma rotate_card:
  assumes "elect p t = (Inr i, p')" and "j \<in> free p t" and "t \<le> T" and "T < until"
  shows "card (free (bench i now until p') T) < card (free p T)"
proof -
  have i: "i < psize p" "avail p t i"
    using assms(1,2) elect_in_range [of p t i] elect_available [of p t i j] by (auto simp: free_def)
  have "psize p' = psize p" "free p' T = free p T"
    using size_elect [of p t] free_elect [of p t T] assms(1) by simp_all
  then have "free (bench i now until p') T = free p T - {i}"
    using free_bench [of i p' T until now] i assms(4) by simp
  moreover have "i \<in> free p T" using i avail_later assms(3) by (auto simp: free_def)
  ultimately show ?thesis by (metis card_Diff1_less finite_free)
qed

text \<open>The other accounts stay available.\<close>

lemma rotate_others:
  assumes "elect p t = (Inr i, p')" and "j \<in> free p T" and "j \<noteq> i"
  shows "j \<in> free (bench i now until p') T"
  using assms size_elect [of p t] avail_elect [of j p t T] bench_frame [of j i now until p' T]
  by (auto simp: free_def size_bench)

end

section \<open>Selection\<close>

lemma length_rotation [simp]: "length (rotation p) = length (accounts p)"
  by (simp add: rotation_def)

lemma nth_rotation: "d < length (accounts p) \<Longrightarrow> rotation p ! d = (active p + d) mod length (accounts p)"
  by (simp add: rotation_def)

lemma set_rotation: "set (rotation p) = {..<length (accounts p)}"
proof
  show "set (rotation p) \<subseteq> {..<length (accounts p)}"
    by (auto simp: rotation_def intro: mod_in_range)
  show "{..<length (accounts p)} \<subseteq> set (rotation p)"
  proof
    fix j assume "j \<in> {..<length (accounts p)}"
    then have j: "j < length (accounts p)" by simp
    let ?n = "length (accounts p)" and ?d = "(j + (length (accounts p) - active p mod length (accounts p))) mod length (accounts p)"
    have "(active p + ?d) mod ?n = (active p mod ?n + (j + (?n - active p mod ?n))) mod ?n"
      by (simp add: mod_simps)
    also have "active p mod ?n + (j + (?n - active p mod ?n)) = j + ?n"
      using mod_in_range [OF j, of "active p"] by linarith
    finally have "(active p + ?d) mod ?n = j" using j by simp
    moreover have "?d < ?n" using j by simp
    ultimately show "j \<in> set (rotation p)" by (force simp: rotation_def)
  qed
qed

lemma pick_available_find: "pick_available accts now is = find (\<lambda>i. available (accts ! i) now) is"
  by (induction "is") auto

lemma probeDue_cooldown [simp]: "cooldownUntil (snd (probeDue a now)) = cooldownUntil a"
  by (simp add: probeDue_def)

lemma probeDue_not_due: "\<not> fst (probeDue a now) \<Longrightarrow> snd (probeDue a now) = a"
  by (auto simp: probeDue_def split: if_splits)

lemma probeDue_due: "fst (probeDue a now) \<longleftrightarrow> now < cooldownUntil a \<and> nextProbe a \<le> now"
  by (auto simp: probeDue_def)

lemma pick_probe_find:
  "pick_probe accts now is =
     (case find (\<lambda>i. fst (probeDue (accts ! i) now)) is of
        None \<Rightarrow> (None, accts)
      | Some i \<Rightarrow> (Some i, accts[i := snd (probeDue (accts ! i) now)]))"
  by (induction "is") (auto simp: Let_def split_beta probeDue_not_due)

lemma pick_cases:
  obtains (avail) d where "d < length (accounts p)"
      and "available (accounts p ! ((active p + d) mod length (accounts p))) now"
      and "\<forall>e < d. \<not> available (accounts p ! ((active p + e) mod length (accounts p))) now"
      and "pick p now = (Inr ((active p + d) mod length (accounts p)),
             p\<lparr>active := (active p + d) mod length (accounts p)\<rparr>)"
  | (probe) i where "i < length (accounts p)" and "\<forall>a \<in> set (accounts p). \<not> available a now"
      and "nextProbe (accounts p ! i) \<le> now"
      and "pick p now = (Inr i, p\<lparr>accounts := (accounts p)[i := snd (probeDue (accounts p ! i) now)], active := i\<rparr>)"
  | (refused) "\<forall>a \<in> set (accounts p). now < cooldownUntil a \<and> now < nextProbe a"
      and "pick p now = (Inl ErrAllCoolingDown, p)"
proof (cases "find (\<lambda>i. available (accounts p ! i) now) (rotation p)")
  case (Some i)
  then obtain d where "d < length (accounts p)" "available (accounts p ! i) now" "i = rotation p ! d"
      "\<forall>e < d. \<not> available (accounts p ! (rotation p ! e)) now"
    by (auto simp: find_Some_iff)
  then show thesis
    using Some by (intro avail [of d]) (auto simp: nth_rotation pick_def pick_available_find)
next
  case None
  then have none: "\<forall>a \<in> set (accounts p). \<not> available a now"
    by (auto simp: find_None_iff set_rotation in_set_conv_nth)
  show thesis
  proof (cases "find (\<lambda>i. fst (probeDue (accounts p ! i) now)) (rotation p)")
    case (Some i)
    then have "i < length (accounts p)" "fst (probeDue (accounts p ! i) now)"
      using set_rotation [of p] by (auto simp: find_Some_iff dest: nth_mem)
    then show thesis
      using Some None none
      by (intro probe [of i]) (auto simp: probeDue_due pick_def pick_available_find pick_probe_find)
  next
    case none2: None
    then have "\<forall>a \<in> set (accounts p). \<not> fst (probeDue a now)"
      by (auto simp: find_None_iff set_rotation in_set_conv_nth)
    with none show thesis
      using None none2
      by (intro refused)
        (auto simp: probeDue_due available_def pick_def pick_available_find pick_probe_find)
  qed
qed

lemma pick_accounts_cooldown: "map cooldownUntil (accounts (snd (pick p now))) = map cooldownUntil (accounts p)"
  by (rule pick_cases [of p now]) (simp_all add: map_update list_update_same_conv)

lemma pick_length [simp]: "length (accounts (snd (pick p now))) = length (accounts p)"
  by (rule pick_cases [of p now]) simp_all

lemma pick_keeps_cooldown:
  "i < length (accounts p) \<Longrightarrow> cooldownUntil (accounts (snd (pick p now)) ! i) = cooldownUntil (accounts p ! i)"
  using arg_cong [OF pick_accounts_cooldown [of p now], of "\<lambda>xs. xs ! i"] by simp

lemma pick_refused_iff:
  "fst (pick p now) = Inl ErrAllCoolingDown \<longleftrightarrow>
     (\<forall>a \<in> set (accounts p). now < cooldownUntil a \<and> now < nextProbe a)"
  by (rule pick_cases [of p now])
    (auto simp: available_def in_set_conv_nth, (metis linorder_not_le mod_less_divisor gr_implies_not0 neq0_conv nth_mem not_less)+)

interpretation pool: failover_pool pool_size "\<lambda>p t i. available (accounts p ! i) t" pick coolAt
proof unfold_locales
  fix p :: accountPool and t u :: gotime and i j :: nat and e :: pool_error and now until :: gotime
  show "pool_size (snd (pick p t)) = pool_size p" by (simp add: pool_size_def)
  show "i < pool_size p \<Longrightarrow> available (accounts (snd (pick p t)) ! i) u = available (accounts p ! i) u"
    by (simp add: pool_size_def available_def pick_keeps_cooldown)
  show "fst (pick p t) = Inr i \<Longrightarrow> i < pool_size p"
    by (rule pick_cases [of p t]) (auto simp: pool_size_def intro: mod_in_range)
  show "fst (pick p t) = Inr i \<Longrightarrow> j < pool_size p \<Longrightarrow> available (accounts p ! j) t \<Longrightarrow> available (accounts p ! i) t"
    by (rule pick_cases [of p t]) (auto simp: pool_size_def)
  show "fst (pick p t) = Inl e \<Longrightarrow> j < pool_size p \<Longrightarrow> \<not> available (accounts p ! j) t"
    by (rule pick_cases [of p t]) (auto simp: pool_size_def available_def)
  show "pool_size (coolAt i now until p) = pool_size p" by (simp add: pool_size_def coolAt_def)
  show "i < pool_size p \<Longrightarrow> t < until \<Longrightarrow> \<not> available (accounts (coolAt i now until p) ! i) t"
    by (auto simp: pool_size_def coolAt_def available_def cool_def Let_def)
  show "j \<noteq> i \<Longrightarrow> available (accounts (coolAt i now until p) ! j) t = available (accounts p ! j) t"
    by (simp add: coolAt_def)
  show "available (accounts p ! j) t \<Longrightarrow> t \<le> u \<Longrightarrow> available (accounts p ! j) u"
    by (simp add: available_def)
qed

section \<open>Cooldown deadlines\<close>

lemma clampCooldown_range: "minCooldown \<le> clampCooldown d \<and> clampCooldown d \<le> maxCooldownDur"
  by (simp add: clampCooldown_def minCooldown_def maxCooldownDur_def)

text \<open>A deadline the broker may set at \<open>now\<close>.\<close>

definition sane_deadline :: "gotime \<Rightarrow> gotime \<Rightarrow> bool" where
  "sane_deadline now until \<longleftrightarrow> now + minCooldown \<le> until \<and> until \<le> now + maxCooldownDur"

lemma sane_clamp [simp]: "sane_deadline now (now + clampCooldown d)"
  using clampCooldown_range [of d] by (simp add: sane_deadline_def)

lemma sane_clampUntil [simp]: "sane_deadline now (clampUntil now t)"
  by (simp add: clampUntil_def)

lemma sane_numericReset: "numericReset n now = Some until \<Longrightarrow> sane_deadline now until"
  by (auto simp: numericReset_def split: if_splits)

lemma sane_parseResetValue: "parseResetValue lib v now = Some until \<Longrightarrow> sane_deadline now until"
  by (auto simp: parseResetValue_def Let_def split: if_splits option.splits intro: sane_numericReset)

lemma sane_coerceReset: "coerceReset lib v now = Some until \<Longrightarrow> sane_deadline now until"
  by (auto simp: coerceReset_def split: json.splits option.splits intro: sane_numericReset sane_parseResetValue)

lemma sane_header_reset: "header_reset lib hdr now key = Some until \<Longrightarrow> sane_deadline now until"
  by (auto simp: header_reset_def Let_def split: if_splits intro: sane_parseResetValue)

lemma sane_first_header_reset:
  "first_header_reset lib hdr now keys = Some (until, src) \<Longrightarrow> sane_deadline now until"
  by (induction keys) (auto split: option.splits intro: sane_header_reset)

text \<open>The reset values of a body, in the order the walk meets them.\<close>

definition field_reset :: "golib \<Rightarrow> gotime \<Rightarrow> string \<Rightarrow> json \<Rightarrow> gotime list" where
  "field_reset lib now k v =
     (if reset_key k then (case coerceReset lib v now of Some u \<Rightarrow> [u] | None \<Rightarrow> []) else [])"

fun body_resets :: "golib \<Rightarrow> gotime \<Rightarrow> json \<Rightarrow> gotime list"
  and fields_resets :: "golib \<Rightarrow> gotime \<Rightarrow> (string \<times> json) list \<Rightarrow> gotime list"
  and items_resets :: "golib \<Rightarrow> gotime \<Rightarrow> json list \<Rightarrow> gotime list" where
  "body_resets lib now (JObj fs) = fields_resets lib now fs"
| "body_resets lib now (JArr xs) = items_resets lib now xs"
| "body_resets lib now v = []"
| "fields_resets lib now [] = []"
| "fields_resets lib now ((k, v) # fs) = field_reset lib now k v @ body_resets lib now v @ fields_resets lib now fs"
| "items_resets lib now [] = []"
| "items_resets lib now (x # xs) = body_resets lib now x @ items_resets lib now xs"

definition earlier :: "gotime \<Rightarrow> gotime \<Rightarrow> gotime" where
  "earlier best until = (if best = 0 \<or> until < best then until else best)"

lemma note_reset_foldl:
  "fst (note_reset lib now k v st) = foldl earlier (fst st) (field_reset lib now k v)"
  by (auto simp: note_reset_def field_reset_def earlier_def split: option.splits)

lemma walk_foldl:
  "fst (walk lib now v st) = foldl earlier (fst st) (body_resets lib now v)"
  "fst (walk_fields lib now fs st) = foldl earlier (fst st) (fields_resets lib now fs)"
  "fst (walk_items lib now xs st) = foldl earlier (fst st) (items_resets lib now xs)"
  by (induction lib now v st and lib now fs st and lib now xs st rule: walk_walk_fields_walk_items.induct)
    (simp_all add: note_reset_foldl)

lemma field_reset_sane: "u \<in> set (field_reset lib now k v) \<Longrightarrow> sane_deadline now u"
  using sane_coerceReset [of lib v now]
  by (cases "reset_key k"; cases "coerceReset lib v now") (simp_all add: field_reset_def)

lemma body_resets_sane:
  "list_all (sane_deadline now) (body_resets lib now v)"
  "list_all (sane_deadline now) (fields_resets lib now fs)"
  "list_all (sane_deadline now) (items_resets lib now xs)"
  by (induction lib now v and lib now fs and lib now xs rule: body_resets_fields_resets_items_resets.induct)
    (simp_all add: list_all_iff ball_Un field_reset_sane)

lemma foldl_earlier_pos:
  assumes "0 < b" and "\<forall>u \<in> set us. 0 < u"
  shows "foldl earlier b us = Min (insert b (set us))"
proof -
  have "foldl earlier b us = fold min us b"
    using assms by (induction us arbitrary: b) (auto simp: earlier_def min_def)
  then show ?thesis using Min.set_eq_fold [of b us] by simp
qed

lemma foldl_earlier_Min:
  assumes "\<forall>u \<in> set us. 0 < u"
  shows "foldl earlier 0 us = (if us = [] then 0 else Min (set us))"
proof (cases us)
  case (Cons u vs)
  with assms foldl_earlier_pos [of u vs] show ?thesis by (simp add: earlier_def)
qed simp

lemma body_resets_pos: "0 \<le> now \<Longrightarrow> \<forall>u \<in> set (body_resets lib now v). 0 < u"
  using body_resets_sane(1) [of now lib v] by (force simp: list_all_iff sane_deadline_def minCooldown_def)

lemma resetFromBody_Some:
  assumes "resetFromBody lib body now = Some (until, src)"
  obtains v where "lib_Unmarshal lib body = Some v" and "until = foldl earlier 0 (body_resets lib now v)" and "until \<noteq> 0"
proof -
  obtain v where v: "lib_Unmarshal lib body = Some v" "walk lib now v (0, []) = (until, src)" "until \<noteq> 0"
    using assms by (auto simp: resetFromBody_def Let_def split: option.splits if_splits)
  with walk_foldl(1) [of lib now v "(0, [])"] show thesis by (intro that [of v]) simp_all
qed

lemma foldl_earlier_in: "foldl earlier b us \<in> insert b (set us)"
  by (induction us arbitrary: b) (auto simp: earlier_def)

lemma sane_resetFromBody: "resetFromBody lib body now = Some (until, src) \<Longrightarrow> sane_deadline now until"
  by (elim resetFromBody_Some) (metis body_resets_sane(1) foldl_earlier_in insertE list_all_iff)

lemma deriveCooldown_sane: "sane_deadline now (fst (deriveCooldown lib resp body now))"
proof -
  have "sane_deadline now (now + defaultCooldownFromBody body)"
    by (simp add: sane_deadline_def defaultCooldownFromBody_def Let_def minCooldown_def maxCooldownDur_def
        defaultWeeklyCooldown_def defaultUsageCooldown_def defaultShortCooldown_def)
  then show ?thesis
    by (auto simp: deriveCooldown_def Let_def split: option.splits
        intro: sane_header_reset sane_first_header_reset sane_resetFromBody)
qed

lemma soonestReset_alt:
  "soonestReset p = foldl earlier 0 (filter (\<lambda>t. t \<noteq> 0) (map cooldownUntil (accounts p)))"
proof -
  have "foldl (\<lambda>soonest a. if cooldownUntil a = 0 then soonest
              else if soonest = 0 \<or> cooldownUntil a < soonest then cooldownUntil a else soonest) b as =
        foldl earlier b (filter (\<lambda>t. t \<noteq> 0) (map cooldownUntil as))" for b as
    by (induction as arbitrary: b) (auto simp: earlier_def)
  then show ?thesis by (simp add: soonestReset_def)
qed

lemma soonestReset_cooling:
  assumes "0 \<le> now" and "accounts p \<noteq> []" and "\<forall>a \<in> set (accounts p). now < cooldownUntil a"
  shows "soonestReset p = Min (cooldownUntil ` set (accounts p))" and "now < soonestReset p"
proof -
  have pos: "\<forall>t \<in> set (map cooldownUntil (accounts p)). 0 < t" using assms(1,3) by auto
  then have "filter (\<lambda>t. t \<noteq> 0) (map cooldownUntil (accounts p)) = map cooldownUntil (accounts p)"
    by (metis (mono_tags, lifting) filter_True less_irrefl)
  then show eq: "soonestReset p = Min (cooldownUntil ` set (accounts p))"
    using foldl_earlier_Min [OF pos] assms(2) by (simp add: soonestReset_alt)
  show "now < soonestReset p" unfolding eq using assms(2,3) by (subst Min_gr_iff) auto
qed

section \<open>Labels\<close>

lemma unused_label_fresh: "unused_label orig used i lbl \<notin> set used"
proof (induction orig used i lbl rule: unused_label.induct)
  case (1 orig used i lbl)
  then show ?case by (simp add: unused_label.simps [of orig used i lbl])
qed

lemma accountLabel_fresh:
  "accountLabel f (Some used) = (l, used') \<Longrightarrow> l \<notin> set used \<and> used' = Some (l # used)"
  by (auto simp: accountLabel_def Let_def unused_label_fresh)

lemma newAccountPool_loop_labels:
  "distinct (map label (newAccountPool_loop files (Some used))) \<and>
   set (map label (newAccountPool_loop files (Some used))) \<inter> set used = {}"
proof (induction files arbitrary: used)
  case (Cons f files)
  obtain l used' where l: "accountLabel f (Some used) = (l, used')" by fastforce
  with accountLabel_fresh [OF l] Cons.IH [of "l # used"] show ?case by auto
qed simp

section \<open>Probes\<close>

text \<open>
  The life of a benched account between two successful requests: rate-limit or
  authentication failures cool it, and the pool asks whether a probe is due.
\<close>

datatype account_event = EvCool gotime gotime | EvProbe gotime

fun probe_times :: "account \<Rightarrow> account_event list \<Rightarrow> gotime list" where
  "probe_times a [] = []"
| "probe_times a (EvCool now until # es) = probe_times (cool a now until) es"
| "probe_times a (EvProbe now # es) =
     (case probeDue a now of (due, a') \<Rightarrow> (if due then now # probe_times a' es else probe_times a' es))"

lemma nextProbe_cool: "nextProbe a \<le> nextProbe (cool a now until)"
  by (simp add: cool_def Let_def)

lemma probe_times_after: "t \<in> set (probe_times a es) \<Longrightarrow> nextProbe a \<le> t"
proof (induction a es arbitrary: t rule: probe_times.induct)
  case (2 a now until es)
  then show ?case using nextProbe_cool [of a now until] by fastforce
next
  case (3 a now es)
  obtain due a' where pd: "probeDue a now = (due, a')" by fastforce
  show ?case
  proof (cases due)
    case True
    then have "nextProbe a \<le> now" "nextProbe a' = now + probeInterval"
      using pd by (auto simp: probeDue_def split: if_splits)
    moreover have "t = now \<or> t \<in> set (probe_times a' es)" using "3.prems" pd True by auto
    ultimately show ?thesis using "3.IH"(1) [OF pd [symmetric] True, of t] by (auto simp: probeInterval_def)
  next
    case False
    then have "a' = a" using pd probeDue_not_due [of a now] by simp
    with "3.IH"(2) [OF pd [symmetric] False] "3.prems" pd False show ?thesis by simp
  qed
qed simp

text \<open>However often an account is benched and picked while it cools, the probes it is granted are
  at least one probe interval apart.\<close>

theorem probes_spaced: "sorted_wrt (\<lambda>t u. t + probeInterval \<le> u) (probe_times a es)"
proof (induction a es rule: probe_times.induct)
  case (3 a now es)
  obtain due a' where pd: "probeDue a now = (due, a')" by fastforce
  show ?case
  proof (cases due)
    case True
    then have "nextProbe a' = now + probeInterval"
      using pd by (auto simp: probeDue_def split: if_splits)
    with "3.IH"(1) [OF pd [symmetric] True] pd True show ?thesis
      by (auto dest: probe_times_after)
  next
    case False
    with "3.IH"(2) [OF pd [symmetric] False] pd show ?thesis by simp
  qed
qed simp_all

section \<open>Properties\<close>

text \<open>C32: The pool hands out an account in range and makes it the active one. If any account is
  available it hands out an available one, the active account itself when that is available, and
  touches no cooldown; if none is, it hands out only an account whose probe is due and books its
  next probe one interval later; it refuses exactly when every account is cooling and no probe is
  due, and then changes nothing.\<close>

theorem pick_serves_available:
  assumes "pick p now = (r, p')"
  shows "case r of
      Inr i \<Rightarrow>
        i < pool_size p \<and> active p' = i \<and>
        (if list_ex (\<lambda>a. available a now) (accounts p)
         then available (accounts p ! i) now \<and> accounts p' = accounts p \<and>
              (active p < pool_size p \<and> available (accounts p ! active p) now \<longrightarrow> i = active p)
         else nextProbe (accounts p ! i) \<le> now \<and>
              accounts p' = (accounts p)[i := (accounts p ! i)\<lparr>nextProbe := now + probeInterval\<rparr>])
    | Inl err \<Rightarrow> list_all (\<lambda>a. now < cooldownUntil a \<and> now < nextProbe a) (accounts p) \<and> p' = p"
proof (rule pick_cases [of p now])
  fix d
  let ?i = "(active p + d) mod length (accounts p)"
  assume d: "d < length (accounts p)" "available (accounts p ! ?i) now"
    "\<forall>e < d. \<not> available (accounts p ! ((active p + e) mod length (accounts p))) now"
    and eq: "pick p now = (Inr ?i, p\<lparr>active := ?i\<rparr>)"
  have ex: "list_ex (\<lambda>a. available a now) (accounts p)"
    using d(1,2) by (auto simp: list_ex_iff intro!: bexI [of _ "accounts p ! ?i"] nth_mem mod_in_range)
  have "active p < pool_size p \<Longrightarrow> available (accounts p ! active p) now \<Longrightarrow> d = 0"
    using d(3) by (cases d) (auto simp: pool_size_def)
  then have sticky: "active p < pool_size p \<and> available (accounts p ! active p) now \<longrightarrow> ?i = active p"
    by (auto simp: pool_size_def)
  have "?i < pool_size p" using d(1) by (simp add: pool_size_def mod_in_range)
  with assms eq ex sticky d(2) show ?thesis by auto
next
  fix i
  assume i: "i < length (accounts p)" "\<forall>a\<in>set (accounts p). \<not> available a now"
    "nextProbe (accounts p ! i) \<le> now"
    and eq: "pick p now = (Inr i, p\<lparr>accounts := (accounts p)[i := snd (probeDue (accounts p ! i) now)], active := i\<rparr>)"
  have "\<not> available (accounts p ! i) now" using i(1,2) by simp
  then have "snd (probeDue (accounts p ! i) now) = (accounts p ! i)\<lparr>nextProbe := now + probeInterval\<rparr>"
    using i(3) by (simp add: probeDue_def available_def)
  then show ?thesis using assms eq i by (auto simp: pool_size_def list_ex_iff)
next
  assume "\<forall>a\<in>set (accounts p). now < cooldownUntil a \<and> now < nextProbe a" "pick p now = (Inl ErrAllCoolingDown, p)"
  then show ?thesis using assms by (auto simp: list_all_iff)
qed

theorem pick_serves_available_witness:
  "0 < pool_size (newAccountPool [''/srv/a/auth.json'', ''/srv/b/auth.json'']) \<and>
   available (accounts (newAccountPool [''/srv/a/auth.json'', ''/srv/b/auth.json'']) ! 0) 0"
proof -
  let ?p = "newAccountPool [''/srv/a/auth.json'', ''/srv/b/auth.json'']"
  have "pick ?p 0 = (Inr 0, ?p)"
    by (simp add: newAccountPool_def pick_def rotation_def available_def Let_def split_beta)
  from pick_serves_available [OF this] show ?thesis
    by (simp add: newAccountPool_def available_def Let_def split_beta)
qed

text \<open>C39: Whatever the upstream sends with a rate limit, the deadline the broker derives from it lies
  between the minimal and the maximal cooldown from now.\<close>

theorem cooldown_deadline_sane:
  "now + minCooldown \<le> fst (deriveCooldown lib resp body now) \<and>
   fst (deriveCooldown lib resp body now) \<le> now + maxCooldownDur"
  using deriveCooldown_sane [of now lib resp body] by (simp add: sane_deadline_def)

text \<open>The deadline read from the body of a rate-limit answer is the earliest of all the reset
  values in it, however deeply they are nested.\<close>

theorem body_reset_earliest:
  assumes "0 \<le> now" and "resetFromBody lib body now = Some (until, src)"
  shows "\<exists>v. lib_Unmarshal lib body = Some v \<and> body_resets lib now v \<noteq> [] \<and>
    until = Min (set (body_resets lib now v))"
proof -
  from assms(2) obtain v where v: "lib_Unmarshal lib body = Some v"
    "until = foldl earlier 0 (body_resets lib now v)" "until \<noteq> 0"
    by (rule resetFromBody_Some)
  with foldl_earlier_Min [OF body_resets_pos [OF assms(1), of lib v]] show ?thesis
    by (auto split: if_splits)
qed

theorem body_reset_earliest_witness:
  "\<exists>v. lib_Unmarshal witness_lib ''limited'' = Some v \<and> body_resets witness_lib 0 v \<noteq> [] \<and>
    seconds 60 = Min (set (body_resets witness_lib 0 v))"
proof -
  have "resetFromBody witness_lib ''limited'' 0 = Some (seconds 60, ''body:reset'')"
    by code_simp
  from body_reset_earliest [OF _ this] show ?thesis by simp
qed

text \<open>The accounts of a new pool are the configured files in order, all available, and their
  labels are pairwise distinct.\<close>

theorem new_pool_labels_distinct:
  "map mgr_authFile (accounts (newAccountPool files)) = files \<and>
   distinct (map label (accounts (newAccountPool files))) \<and>
   list_all (\<lambda>a. cooldownUntil a = 0 \<and> nextProbe a = 0) (accounts (newAccountPool files))"
proof -
  have "map mgr_authFile (newAccountPool_loop files used) = files \<and>
      list_all (\<lambda>a. cooldownUntil a = 0 \<and> nextProbe a = 0) (newAccountPool_loop files used)" for used
    by (induction files arbitrary: used) (auto split: prod.splits)
  with newAccountPool_loop_labels [of files "[]"] show ?thesis by (simp add: newAccountPool_def)
qed

end
