(* ===== verification/Limiter.thy ===== *)
theory Limiter
  imports Util
begin

text \<open>
  The global semaphore around upstream calls, \<^verbatim>\<open>src/limiter.go\<close>. The buffered channel
  \<open>slots\<close> is its number of tokens; the calls \<open>acquire\<close> and \<open>release\<close> are split at the
  points where a goroutine can be suspended, so that the interleavings of many requests
  are the paths of a step relation. A limiter that is \<open>nil\<close> (unlimited) is \<open>None\<close>.
\<close>

section \<open>Definitions\<close>

definition defaultQueueWait :: duration where
  "defaultQueueWait = seconds 120"

definition queueTimeoutRetryAfter :: duration where
  "queueTimeoutRetryAfter = seconds 30"

datatype acquire_error = ErrQueueWaitExceeded | CtxErr string

record concurrencyLimiter =
  slots_cap :: nat
  slots_len :: nat
  queueWait :: duration
  queued :: int

definition newConcurrencyLimiter :: "int \<Rightarrow> duration \<Rightarrow> concurrencyLimiter option" where
  "newConcurrencyLimiter max_conc wait =
     (if max_conc \<le> 0 then None
      else Some \<lparr>slots_cap = nat max_conc, slots_len = 0,
                 queueWait = (if wait \<le> 0 then defaultQueueWait else wait), queued = 0\<rparr>)"

text \<open>
  \<open>acquire\<close>: first a non-blocking send on \<open>slots\<close>; when the channel is full the goroutine
  counts itself as queued and selects between a send, the end of its context and a
  timer. Leaving that select, it stops counting as queued.
\<close>

datatype acquire_start = Acquired concurrencyLimiter | MustQueue concurrencyLimiter

definition acquire_try :: "concurrencyLimiter \<Rightarrow> acquire_start" where
  "acquire_try l =
     (if slots_len l < slots_cap l then Acquired (l\<lparr>slots_len := slots_len l + 1\<rparr>)
      else MustQueue (l\<lparr>queued := queued l + 1\<rparr>))"

datatype wake = SlotFree | CtxDone string | TimerFired

text \<open>\<open>None\<close>: the branch is not ready (a send on a full channel).\<close>

definition acquire_wake :: "concurrencyLimiter \<Rightarrow> wake \<Rightarrow> ((acquire_error option) \<times> concurrencyLimiter) option" where
  "acquire_wake l w =
     (case w of
        SlotFree \<Rightarrow>
          (if slots_len l < slots_cap l
           then Some (None, l\<lparr>slots_len := slots_len l + 1, queued := queued l - 1\<rparr>)
           else None)
      | CtxDone msg \<Rightarrow> Some (Some (CtxErr msg), l\<lparr>queued := queued l - 1\<rparr>)
      | TimerFired \<Rightarrow> Some (Some ErrQueueWaitExceeded, l\<lparr>queued := queued l - 1\<rparr>))"

text \<open>\<open>release\<close>: a receive; \<open>None\<close> when it would block on an empty channel.\<close>

definition release :: "concurrencyLimiter \<Rightarrow> concurrencyLimiter option" where
  "release l = (if slots_len l = 0 then None else Some (l\<lparr>slots_len := slots_len l - 1\<rparr>))"

definition stats :: "concurrencyLimiter option \<Rightarrow> nat \<times> nat \<times> int" where
  "stats lo = (case lo of None \<Rightarrow> (0, 0, 0) | Some l \<Rightarrow> (slots_cap l, slots_len l, queued l))"

subsection \<open>Failures reported to clients\<close>

record dispatchFailure =
  df_status :: nat
  df_message :: string
  df_body :: string
  df_retryAfter :: gotime
  df_window :: string
  df_upstreamHeaders :: "(string \<times> string) list option"

definition failure :: "nat \<Rightarrow> string \<Rightarrow> dispatchFailure" where
  "failure st msg =
     \<lparr>df_status = st, df_message = msg, df_body = [], df_retryAfter = 0, df_window = [],
      df_upstreamHeaders = None\<rparr>"

definition acquireUpstreamSlot_failure :: "acquire_error \<Rightarrow> gotime \<Rightarrow> dispatchFailure" where
  "acquireUpstreamSlot_failure err now =
     (case err of
        ErrQueueWaitExceeded \<Rightarrow>
          (failure 429 ''broker concurrency limit reached and queue wait exceeded; retry later'')
            \<lparr>df_retryAfter := now + queueTimeoutRetryAfter\<rparr>
      | CtxErr msg \<Rightarrow> failure 408 (''request canceled while waiting for an upstream slot: '' @ msg))"

section \<open>Many requests and one limiter\<close>

text \<open>
  A request is outside, queued in \<open>acquire\<close>, or holds a slot until its deferred
  \<open>release\<close>. Requests are numbered; the sets say where each of them is.
\<close>

record limiter_sys =
  limiter :: concurrencyLimiter
  waiting :: "nat set"
  holding :: "nat set"

inductive limiter_step :: "limiter_sys \<Rightarrow> limiter_sys \<Rightarrow> bool" where
  enter: "i \<notin> waiting s \<Longrightarrow> i \<notin> holding s \<Longrightarrow> acquire_try (limiter s) = Acquired l \<Longrightarrow>
    limiter_step s (s\<lparr>limiter := l, holding := insert i (holding s)\<rparr>)"
| enqueue: "i \<notin> waiting s \<Longrightarrow> i \<notin> holding s \<Longrightarrow> acquire_try (limiter s) = MustQueue l \<Longrightarrow>
    limiter_step s (s\<lparr>limiter := l, waiting := insert i (waiting s)\<rparr>)"
| granted: "i \<in> waiting s \<Longrightarrow> acquire_wake (limiter s) w = Some (None, l) \<Longrightarrow>
    limiter_step s (s\<lparr>limiter := l, waiting := waiting s - {i}, holding := insert i (holding s)\<rparr>)"
| refused: "i \<in> waiting s \<Longrightarrow> acquire_wake (limiter s) w = Some (Some err, l) \<Longrightarrow>
    limiter_step s (s\<lparr>limiter := l, waiting := waiting s - {i}\<rparr>)"
| leave: "i \<in> holding s \<Longrightarrow> release (limiter s) = Some l \<Longrightarrow>
    limiter_step s (s\<lparr>limiter := l, holding := holding s - {i}\<rparr>)"

inductive_cases limiter_stepE: "limiter_step s t"

inductive limiter_reach :: "limiter_sys \<Rightarrow> limiter_sys \<Rightarrow> bool" for s0 where
  start: "limiter_reach s0 s0"
| step: "limiter_reach s0 s \<Longrightarrow> limiter_step s t \<Longrightarrow> limiter_reach s0 t"

definition limiter_init :: "concurrencyLimiter \<Rightarrow> limiter_sys" where
  "limiter_init l = \<lparr>limiter = l, waiting = {}, holding = {}\<rparr>"

definition limiter_inv :: "limiter_sys \<Rightarrow> bool" where
  "limiter_inv s \<longleftrightarrow>
     finite (waiting s) \<and> finite (holding s) \<and> waiting s \<inter> holding s = {} \<and>
     slots_len (limiter s) = card (holding s) \<and> slots_len (limiter s) \<le> slots_cap (limiter s) \<and>
     queued (limiter s) = int (card (waiting s))"

lemma limiter_inv_init: "newConcurrencyLimiter m w = Some l \<Longrightarrow> limiter_inv (limiter_init l)"
  by (auto simp: newConcurrencyLimiter_def limiter_inv_def limiter_init_def split: if_splits)

lemmas limiter_ops = acquire_try_def acquire_wake_def release_def

lemma acquire_wake_granted:
  "acquire_wake l w = Some (None, l') \<Longrightarrow>
     slots_len l < slots_cap l \<and> l' = l\<lparr>slots_len := slots_len l + 1, queued := queued l - 1\<rparr>"
  by (auto simp: acquire_wake_def split: wake.splits if_splits)

lemma acquire_wake_refused:
  "acquire_wake l w = Some (Some err, l') \<Longrightarrow> l' = l\<lparr>queued := queued l - 1\<rparr>"
  by (auto simp: acquire_wake_def split: wake.splits if_splits)

lemma release_Some: "release l = Some l' \<Longrightarrow> 0 < slots_len l \<and> l' = l\<lparr>slots_len := slots_len l - 1\<rparr>"
  by (auto simp: release_def split: if_splits)

lemma int_card_remove: "finite A \<Longrightarrow> i \<in> A \<Longrightarrow> int (card (A - {i})) = int (card A) - 1"
  by (simp add: card_gt_0_iff int_ops(6) Suc_leI card_Diff_singleton) (auto simp: card_gt_0_iff Suc_le_eq)

lemma limiter_step_inv: "limiter_step s t \<Longrightarrow> limiter_inv s \<Longrightarrow> limiter_inv t"
proof (induction rule: limiter_step.induct)
  case (leave i s l)
  then show ?case using release_Some [OF leave(2)] by (auto simp: limiter_inv_def)
next
  case (granted i s w l)
  then have "i \<notin> holding s" by (auto simp: limiter_inv_def)
  with granted show ?case
    using acquire_wake_granted [OF granted(2)] int_card_remove [of "waiting s" i]
    by (auto simp: limiter_inv_def)
next
  case (refused i s w err l)
  then show ?case
    using acquire_wake_refused [OF refused(2)] int_card_remove [of "waiting s" i]
    by (auto simp: limiter_inv_def)
qed (auto simp: limiter_inv_def acquire_try_def split: if_splits)

lemma limiter_step_cap: "limiter_step s t \<Longrightarrow> slots_cap (limiter t) = slots_cap (limiter s)"
  by (induction rule: limiter_step.induct) (auto simp: limiter_ops split: if_splits wake.splits)

lemma limiter_reach_inv: "limiter_reach s0 s \<Longrightarrow> limiter_inv s0 \<Longrightarrow> limiter_inv s"
  by (induction rule: limiter_reach.induct) (auto dest: limiter_step_inv)

lemma limiter_reach_cap: "limiter_reach s0 s \<Longrightarrow> slots_cap (limiter s) = slots_cap (limiter s0)"
  by (induction rule: limiter_reach.induct) (auto dest: limiter_step_cap)

text \<open>A holder's release never blocks, and a waiter can always leave its select.\<close>

lemma holder_can_leave: "limiter_inv s \<Longrightarrow> i \<in> holding s \<Longrightarrow> \<exists>t. limiter_step s t \<and> i \<notin> holding t \<and> i \<notin> waiting t"
proof -
  assume inv: "limiter_inv s" and i: "i \<in> holding s"
  then have "0 < card (holding s)" by (auto simp: limiter_inv_def card_gt_0_iff)
  with inv have "0 < slots_len (limiter s)" by (simp add: limiter_inv_def)
  then obtain l where "release (limiter s) = Some l" by (simp add: release_def)
  from limiter_step.leave [OF i this] inv i show ?thesis by (force simp: limiter_inv_def)
qed

lemma waiter_can_leave: "limiter_inv s \<Longrightarrow> i \<in> waiting s \<Longrightarrow> \<exists>t. limiter_step s t \<and> i \<notin> holding t \<and> i \<notin> waiting t"
proof -
  assume inv: "limiter_inv s" and i: "i \<in> waiting s"
  have "acquire_wake (limiter s) TimerFired =
      Some (Some ErrQueueWaitExceeded, (limiter s)\<lparr>queued := queued (limiter s) - 1\<rparr>)"
    by (simp add: acquire_wake_def)
  from limiter_step.refused [OF i this] inv i show ?thesis by (force simp: limiter_inv_def)
qed

section \<open>Properties\<close>

text \<open>C35: However requests interleave, a limiter built for \<open>m\<close> slots never has more than \<open>m\<close> requests
  inside, and its statistics report exactly the requests that hold a slot and those that wait.\<close>

theorem limiter_never_exceeds:
  assumes "newConcurrencyLimiter m wait = Some l" and "limiter_reach (limiter_init l) s"
  shows "card (holding s) \<le> nat m \<and> finite (holding s) \<and> holding s \<inter> waiting s = {} \<and>
    stats (Some (limiter s)) = (nat m, card (holding s), int (card (waiting s)))"
proof -
  have "slots_cap (limiter (limiter_init l)) = nat m"
    using assms(1) by (auto simp: newConcurrencyLimiter_def limiter_init_def split: if_splits)
  with limiter_reach_cap [OF assms(2)] limiter_reach_inv [OF assms(2) limiter_inv_init [OF assms(1)]]
  show ?thesis by (auto simp: limiter_inv_def stats_def)
qed

theorem limiter_never_exceeds_witness:
  "card (holding \<lparr>limiter = \<lparr>slots_cap = 1, slots_len = 1, queueWait = seconds 5, queued = 1\<rparr>,
                  waiting = {8}, holding = {7}\<rparr>) \<le> nat 1"
proof -
  let ?l = "\<lambda>n q. \<lparr>slots_cap = 1, slots_len = n, queueWait = seconds 5, queued = q\<rparr>"
  have new: "newConcurrencyLimiter 1 (seconds 5) = Some (?l 0 0)" by (simp add: newConcurrencyLimiter_def)
  have "limiter_step (limiter_init (?l 0 0)) \<lparr>limiter = ?l 1 0, waiting = {}, holding = {7}\<rparr>"
    using enter [of 7 "limiter_init (?l 0 0)" "?l 1 0"] by (simp add: limiter_init_def acquire_try_def)
  moreover have "limiter_step \<lparr>limiter = ?l 1 0, waiting = {}, holding = {7}\<rparr>
      \<lparr>limiter = ?l 1 1, waiting = {8}, holding = {7}\<rparr>"
    using enqueue [of 8 "\<lparr>limiter = ?l 1 0, waiting = {}, holding = {7}\<rparr>" "?l 1 1"] by (simp add: acquire_try_def)
  ultimately have "limiter_reach (limiter_init (?l 0 0)) \<lparr>limiter = ?l 1 1, waiting = {8}, holding = {7}\<rparr>"
    by (meson limiter_reach.intros)
  from limiter_never_exceeds [OF new this] show ?thesis by simp
qed

text \<open>No request is stuck in the limiter: in every reachable state each request that holds a slot
  can give it back, each that waits can leave, and while fewer requests hold slots than there are
  slots each waiting request can enter.\<close>

theorem limiter_no_deadlock:
  assumes "newConcurrencyLimiter m wait = Some l" and "limiter_reach (limiter_init l) s"
    and "i \<in> holding s \<union> waiting s"
  shows "(\<exists>t. limiter_step s t \<and> i \<notin> holding t \<union> waiting t) \<and>
    (i \<in> waiting s \<and> card (holding s) < nat m \<longrightarrow> (\<exists>t. limiter_step s t \<and> i \<in> holding t))"
proof -
  have inv: "limiter_inv s" using limiter_reach_inv [OF assms(2) limiter_inv_init [OF assms(1)]] .
  have cap: "slots_cap (limiter s) = nat m"
    using limiter_reach_cap [OF assms(2)] assms(1)
    by (auto simp: newConcurrencyLimiter_def limiter_init_def split: if_splits)
  have "\<exists>t. limiter_step s t \<and> i \<notin> holding t \<union> waiting t"
    using holder_can_leave [OF inv] waiter_can_leave [OF inv] assms(3) by blast
  moreover have "\<exists>t. limiter_step s t \<and> i \<in> holding t" if w: "i \<in> waiting s" and c: "card (holding s) < nat m"
  proof -
    obtain l' where "acquire_wake (limiter s) SlotFree = Some (None, l')"
      using inv cap c by (simp add: acquire_wake_def limiter_inv_def)
    from limiter_step.granted [OF w this] show ?thesis by force
  qed
  ultimately show ?thesis by blast
qed

theorem limiter_no_deadlock_witness:
  "\<exists>t. limiter_step \<lparr>limiter = \<lparr>slots_cap = 1, slots_len = 1, queueWait = seconds 5, queued = 0\<rparr>,
                      waiting = {}, holding = {7}\<rparr> t \<and> 7 \<notin> holding t \<union> waiting t"
proof -
  let ?l = "\<lambda>n. \<lparr>slots_cap = 1, slots_len = n, queueWait = seconds 5, queued = 0\<rparr>"
  have new: "newConcurrencyLimiter 1 (seconds 5) = Some (?l 0)" by (simp add: newConcurrencyLimiter_def)
  have "limiter_step (limiter_init (?l 0)) \<lparr>limiter = ?l 1, waiting = {}, holding = {7}\<rparr>"
    using enter [of 7 "limiter_init (?l 0)" "?l 1"] by (simp add: limiter_init_def acquire_try_def)
  then have "limiter_reach (limiter_init (?l 0)) \<lparr>limiter = ?l 1, waiting = {}, holding = {7}\<rparr>"
    by (meson limiter_reach.intros)
  from limiter_no_deadlock [OF new this, of 7] show ?thesis by simp
qed

end
