(* ===== verification/Sse.thy ===== *)
theory Sse
  imports Util
begin

text \<open>
  The server-sent-event framer of \<^verbatim>\<open>src/sse.go\<close>. Every streaming consumer of the broker
  (the response aggregator, the chat translator, the image reader and the usage tracker)
  reads the upstream through it. A consumer is a function from the payload of an event and
  the consumer's state to an error and the next state; it runs inside the framer, so every
  operation returns an error (if any), the framer and the consumer's state.
\<close>

section \<open>Definitions\<close>

datatype sse_error = SSEComplete | EventTooLarge | StreamReadFailed | ConsumerError string

type_synonym 'c consumer = "string \<Rightarrow> 'c \<Rightarrow> sse_error option \<times> 'c"

record sseFramer =
  fr_limit :: nat
  fr_line :: string
  fr_data :: string
  fr_hasData :: bool

abbreviation nl :: char where
  "nl \<equiv> CHR 0x0A"

abbreviation cr :: char where
  "cr \<equiv> CHR 0x0D"

definition flushEvent :: "'c consumer \<Rightarrow> sseFramer \<Rightarrow> 'c \<Rightarrow> sse_error option \<times> sseFramer \<times> 'c" where
  "flushEvent consume f c =
     (if \<not> fr_hasData f then (None, f, c)
      else (let (err, c') = consume (fr_data f) c
            in (err, f\<lparr>fr_data := [], fr_hasData := False\<rparr>, c')))"

text \<open>The deferred reset of the line buffer happens on every return.\<close>

definition flushLine :: "'c consumer \<Rightarrow> sseFramer \<Rightarrow> 'c \<Rightarrow> sse_error option \<times> sseFramer \<times> 'c" where
  "flushLine consume f c =
     (let line = TrimSuffix (fr_line f) [cr]
      in if length line = 0 then
           (let (err, f', c') = flushEvent consume f c in (err, f'\<lparr>fr_line := []\<rparr>, c'))
         else if HasPrefix line ''data:'' then
           (let val = TrimPrefix (drop 5 line) '' '';
                extra = length val + (if fr_hasData f then 1 else 0)
            in if length (fr_data f) + extra > fr_limit f
               then (Some EventTooLarge, f\<lparr>fr_line := []\<rparr>, c)
               else (None,
                     f\<lparr>fr_line := [],
                       fr_data := fr_data f @ (if fr_hasData f then [nl] else []) @ val,
                       fr_hasData := True\<rparr>, c))
         else (None, f\<lparr>fr_line := []\<rparr>, c))"

function sse_feed :: "'c consumer \<Rightarrow> sseFramer \<Rightarrow> 'c \<Rightarrow> string \<Rightarrow> sse_error option \<times> sseFramer \<times> 'c" where
  "sse_feed consume f c chunk =
     (if chunk = [] then (None, f, c)
      else (let pre = takeWhile (\<lambda>b. b \<noteq> nl) chunk; n = length pre
            in if length (fr_line f) + length (fr_data f) + n > fr_limit f
               then (Some EventTooLarge, f, c)
               else (let f1 = f\<lparr>fr_line := fr_line f @ pre\<rparr>
                     in if n = length chunk then (None, f1, c)
                        else (case flushLine consume f1 c of
                                (Some err, f2, c2) \<Rightarrow> (Some err, f2, c2)
                              | (None, f2, c2) \<Rightarrow> sse_feed consume f2 c2 (drop (n + 1) chunk)))))"
  by pat_completeness auto
termination
  by (relation "measure (\<lambda>(_, _, _, chunk). length chunk)") auto

declare sse_feed.simps [simp del]

definition sse_finish :: "'c consumer \<Rightarrow> sseFramer \<Rightarrow> 'c \<Rightarrow> sse_error option \<times> sseFramer \<times> 'c" where
  "sse_finish consume f c =
     (if length (fr_line f) > 0 then
        (case flushLine consume f c of
           (Some err, f', c') \<Rightarrow> (Some err, f', c')
         | (None, f', c') \<Rightarrow> flushEvent consume f' c')
      else flushEvent consume f c)"

definition new_framer :: "nat \<Rightarrow> sseFramer" where
  "new_framer limit = \<lparr>fr_limit = limit, fr_line = [], fr_data = [], fr_hasData = False\<rparr>"

text \<open>A reader is the list of its successful reads, then the read that fails: its bytes and
  whether the failure is \<open>io.EOF\<close>. \<open>complete\<close> is the \<open>errors.Is(err, errSSEComplete)\<close> test.\<close>

definition complete :: "sse_error option \<Rightarrow> sse_error option" where
  "complete err = (if err = Some SSEComplete then None else err)"

fun readSSE_from ::
    "'c consumer \<Rightarrow> sseFramer \<Rightarrow> 'c \<Rightarrow> string list \<Rightarrow> string \<times> bool \<Rightarrow> sse_error option \<times> 'c" where
  "readSSE_from consume f c (chunk # chunks) end =
     (case sse_feed consume f c chunk of
        (Some err, f', c') \<Rightarrow> (complete (Some err), c')
      | (None, f', c') \<Rightarrow> readSSE_from consume f' c' chunks end)"
| "readSSE_from consume f c [] (chunk, eof) =
     (case sse_feed consume f c chunk of
        (Some err, f', c') \<Rightarrow> (complete (Some err), c')
      | (None, f', c') \<Rightarrow>
          (if \<not> eof then (Some StreamReadFailed, c')
           else (let (err, _, c'') = sse_finish consume f' c' in (complete err, c''))))"

definition readSSE ::
    "nat \<Rightarrow> 'c consumer \<Rightarrow> 'c \<Rightarrow> string list \<Rightarrow> string \<times> bool \<Rightarrow> sse_error option \<times> 'c" where
  "readSSE limit consume c chunks end = readSSE_from consume (new_framer limit) c chunks end"

section \<open>The buffer bound\<close>

definition framer_ok :: "sseFramer \<Rightarrow> bool" where
  "framer_ok f \<longleftrightarrow>
     length (fr_line f) + length (fr_data f) \<le> fr_limit f \<and> (\<not> fr_hasData f \<longrightarrow> fr_data f = [])"

lemma framer_ok_new [simp]: "framer_ok (new_framer n)"
  by (simp add: framer_ok_def new_framer_def)

lemma flushEvent_ok:
  assumes "flushEvent consume f c = (err, f', c')" "framer_ok f" shows "framer_ok f'"
  using assms by (auto simp: flushEvent_def framer_ok_def split: if_splits prod.splits)

lemma flushLine_ok:
  assumes "flushLine consume f c = (err, f', c')" "framer_ok f" shows "framer_ok f'"
  using assms
  by (auto simp: flushLine_def flushEvent_def framer_ok_def Let_def split: if_splits prod.splits)

text \<open>A chunk is an unfinished line, or a line, its line feed and the rest.\<close>

lemma chunk_induct [case_names partial line]:
  assumes "\<And>pre. nl \<notin> set pre \<Longrightarrow> P pre"
    and "\<And>pre rest. nl \<notin> set pre \<Longrightarrow> P rest \<Longrightarrow> P (pre @ nl # rest)"
  shows "P chunk"
proof (induction chunk rule: length_induct)
  case (1 chunk)
  show ?case
  proof (cases "nl \<in> set chunk")
    case True
    then obtain pre rest where "chunk = pre @ nl # rest" "nl \<notin> set pre"
      using split_list_first by metis
    then show ?thesis using 1 assms(2) by simp
  qed (use assms(1) in simp)
qed

definition too_large :: "sseFramer \<Rightarrow> string \<Rightarrow> bool" where
  "too_large f pre \<longleftrightarrow> length (fr_line f) + length (fr_data f) + length pre > fr_limit f"

lemma takeWhile_all: "nl \<notin> set pre \<Longrightarrow> takeWhile (\<lambda>b. b \<noteq> nl) pre = pre"
  by (auto simp: takeWhile_eq_all_conv)

lemma takeWhile_line: "nl \<notin> set pre \<Longrightarrow> takeWhile (\<lambda>b. b \<noteq> nl) (pre @ nl # rest) = pre"
  by (induction pre) auto

lemma feed_partial:
  assumes "nl \<notin> set pre" "framer_ok f"
  shows "sse_feed consume f c pre =
    (if too_large f pre then (Some EventTooLarge, f, c) else (None, f\<lparr>fr_line := fr_line f @ pre\<rparr>, c))"
  using assms
  by (subst sse_feed.simps) (simp add: takeWhile_all Let_def too_large_def framer_ok_def)

lemma feed_line:
  assumes "nl \<notin> set pre"
  shows "sse_feed consume f c (pre @ nl # rest) =
    (if too_large f pre then (Some EventTooLarge, f, c)
     else (case flushLine consume (f\<lparr>fr_line := fr_line f @ pre\<rparr>) c of
             (Some err, f2, c2) \<Rightarrow> (Some err, f2, c2)
           | (None, f2, c2) \<Rightarrow> sse_feed consume f2 c2 rest))"
  using assms
  by (subst sse_feed.simps)
    (simp add: takeWhile_line Let_def too_large_def split: prod.split option.split)

lemma too_large_ok: "framer_ok f \<Longrightarrow> \<not> too_large f pre \<Longrightarrow> framer_ok (f\<lparr>fr_line := fr_line f @ pre\<rparr>)"
  by (simp add: framer_ok_def too_large_def)

lemma flushLine_limit: "flushLine consume f c = (err, f', c') \<Longrightarrow> fr_limit f' = fr_limit f"
  by (auto simp: flushLine_def flushEvent_def Let_def split: if_splits prod.splits)

lemma sse_feed_keeps:
  "sse_feed consume f c chunk = (err, f', c') \<Longrightarrow> framer_ok f \<Longrightarrow> framer_ok f' \<and> fr_limit f' = fr_limit f"
proof (induction chunk arbitrary: f c rule: chunk_induct)
  case (partial pre)
  then show ?case by (auto simp: feed_partial too_large_ok split: if_splits)
next
  case (line pre rest)
  obtain e2 f2 c2 where fl: "flushLine consume (f\<lparr>fr_line := fr_line f @ pre\<rparr>) c = (e2, f2, c2)"
    by (cases "flushLine consume (f\<lparr>fr_line := fr_line f @ pre\<rparr>) c")
  show ?case
  proof (cases "too_large f pre")
    case False
    then have "framer_ok f2" "fr_limit f2 = fr_limit f"
      using flushLine_ok [OF fl] flushLine_limit [OF fl] too_large_ok line.prems by auto
    then show ?thesis using False line fl by (cases e2) (auto simp: feed_line)
  qed (use line in \<open>auto simp: feed_line\<close>)
qed

lemmas sse_feed_ok = sse_feed_keeps [THEN conjunct1]

section \<open>Chunking does not matter\<close>

text \<open>
  A stream processor that is fed chunks, with the law that feeding two chunks is feeding
  their concatenation; what it does is then a function of the bytes alone.
\<close>

fun feed_all :: "('s \<Rightarrow> 'b list \<Rightarrow> 'r + 's) \<Rightarrow> 's \<Rightarrow> 'b list list \<Rightarrow> 'r + 's" where
  "feed_all feed s [] = Inr s"
| "feed_all feed s (x # xs) = (case feed s x of Inl r \<Rightarrow> Inl r | Inr t \<Rightarrow> feed_all feed t xs)"

locale chunk_processor =
  fixes feed :: "'s \<Rightarrow> 'b list \<Rightarrow> 'r + 's"
    and ok :: "'s \<Rightarrow> bool"
  assumes feed_Nil: "ok s \<Longrightarrow> feed s [] = Inr s"
    and feed_append: "ok s \<Longrightarrow> feed s (xs @ ys) = (case feed s xs of Inl r \<Rightarrow> Inl r | Inr t \<Rightarrow> feed t ys)"
    and feed_ok: "ok s \<Longrightarrow> feed s xs = Inr t \<Longrightarrow> ok t"
begin

lemma feed_all_concat: "ok s \<Longrightarrow> feed_all feed s chunks = feed s (concat chunks)"
  by (induction chunks arbitrary: s) (auto simp: feed_Nil feed_append feed_ok split: sum.splits)

lemma feed_all_cong: "ok s \<Longrightarrow> concat xs = concat ys \<Longrightarrow> feed_all feed s xs = feed_all feed s ys"
  by (simp add: feed_all_concat)

end

text \<open>What callers see of an operation: after an error only the error and the consumer.\<close>

definition outcome ::
    "sse_error option \<times> sseFramer \<times> 'c \<Rightarrow> sse_error \<times> 'c + sseFramer \<times> 'c" where
  "outcome r = (case r of (Some err, f, c) \<Rightarrow> Inl (err, c) | (None, f, c) \<Rightarrow> Inr (f, c))"

lemma outcome_simps [simp]: "outcome (Some err, f, c) = Inl (err, c)" "outcome (None, f, c) = Inr (f, c)"
  by (simp_all add: outcome_def)

definition feed_view :: "'c consumer \<Rightarrow> sseFramer \<times> 'c \<Rightarrow> string \<Rightarrow> sse_error \<times> 'c + sseFramer \<times> 'c" where
  "feed_view consume s chunk = outcome (sse_feed consume (fst s) (snd s) chunk)"

lemma too_large_append:
  "too_large (f\<lparr>fr_line := fr_line f @ xs\<rparr>) ys \<longleftrightarrow> too_large f (xs @ ys)"
  "too_large f xs \<Longrightarrow> too_large f (xs @ ys)"
  by (simp_all add: too_large_def ac_simps)

lemma feed_append_partial:
  assumes "nl \<notin> set xs" "framer_ok f"
  shows "outcome (sse_feed consume f c (xs @ ys)) =
    (if too_large f xs then Inl (EventTooLarge, c)
     else outcome (sse_feed consume (f\<lparr>fr_line := fr_line f @ xs\<rparr>) c ys))"
proof (cases "nl \<in> set ys")
  case True
  then obtain pre rest where ys: "ys = pre @ nl # rest" "nl \<notin> set pre"
    using split_list_first by metis
  then have "nl \<notin> set (xs @ pre)" using assms by simp
  from feed_line [OF this, of consume f c rest] show ?thesis
    using ys by (simp add: feed_line too_large_append)
next
  case False
  with assms show ?thesis
    using too_large_ok [of f xs] by (simp add: feed_partial too_large_append)
qed

lemma feed_view_append:
  "framer_ok f \<Longrightarrow>
   feed_view consume (f, c) (xs @ ys) =
     (case feed_view consume (f, c) xs of Inl r \<Rightarrow> Inl r | Inr t \<Rightarrow> feed_view consume t ys)"
proof (induction xs arbitrary: f c rule: chunk_induct)
  case (partial pre)
  then show ?case by (simp add: feed_view_def feed_append_partial feed_partial)
next
  case (line pre rest)
  obtain e2 f2 c2 where fl: "flushLine consume (f\<lparr>fr_line := fr_line f @ pre\<rparr>) c = (e2, f2, c2)"
    by (cases "flushLine consume (f\<lparr>fr_line := fr_line f @ pre\<rparr>) c")
  show ?case
  proof (cases "too_large f pre \<or> e2 \<noteq> None")
    case True
    then show ?thesis using line.hyps fl by (cases e2) (auto simp: feed_view_def feed_line)
  next
    case False
    then have "framer_ok f2" using flushLine_ok [OF fl] too_large_ok line.prems by blast
    from line.IH [OF this, of c2] False show ?thesis
      using line.hyps fl by (simp add: feed_view_def feed_line)
  qed
qed

interpretation framer: chunk_processor "feed_view consume" "\<lambda>s. framer_ok (fst s)"
proof
  fix s :: "sseFramer \<times> 'a" and xs ys t
  assume ok: "framer_ok (fst s)"
  show "feed_view consume s [] = Inr s"
    by (cases s) (simp add: feed_view_def sse_feed.simps)
  show "feed_view consume s (xs @ ys) =
      (case feed_view consume s xs of Inl r \<Rightarrow> Inl r | Inr t \<Rightarrow> feed_view consume t ys)"
    using feed_view_append [of "fst s" consume "snd s"] ok by simp
  show "feed_view consume s xs = Inr t \<Longrightarrow> framer_ok (fst t)"
    using sse_feed_ok [OF _ ok, of consume "snd s" xs]
    by (auto simp: feed_view_def outcome_def split: prod.splits option.splits)
qed

text \<open>So a whole read is a function of the bytes and of how the stream ended.\<close>

definition read_bytes :: "'c consumer \<Rightarrow> sseFramer \<times> 'c \<Rightarrow> string \<Rightarrow> bool \<Rightarrow> sse_error option \<times> 'c" where
  "read_bytes consume s bytes eof =
     (case feed_view consume s bytes of
        Inl (err, c) \<Rightarrow> (complete (Some err), c)
      | Inr (f, c) \<Rightarrow>
          (if \<not> eof then (Some StreamReadFailed, c)
           else (let (err, _, c') = sse_finish consume f c in (complete err, c'))))"

lemma readSSE_from_view:
  "readSSE_from consume f c chunks (final, eof) =
     (case feed_all (feed_view consume) (f, c) (chunks @ [final]) of
        Inl (err, c') \<Rightarrow> (complete (Some err), c')
      | Inr (f', c') \<Rightarrow>
          (if \<not> eof then (Some StreamReadFailed, c')
           else (let (err, _, c'') = sse_finish consume f' c' in (complete err, c''))))"
  by (induction chunks arbitrary: f c)
    (auto simp: feed_view_def outcome_def split: prod.splits option.splits)

lemma readSSE_bytes:
  "readSSE limit consume c chunks (final, eof) =
     read_bytes consume (new_framer limit, c) (concat chunks @ final) eof"
  unfolding readSSE_def readSSE_from_view read_bytes_def by (simp add: framer.feed_all_concat)

section \<open>The events of a stream\<close>

text \<open>
  The reference: split the stream at line feeds, drop one trailing carriage return of each
  line, and collect \<open>data:\<close> lines until a blank line ends the event. The last line may be
  unfinished; the end of the stream ends the last event.
\<close>

definition line_data :: "string \<Rightarrow> string" where
  "line_data line = TrimPrefix (drop 5 line) '' ''"

fun add_data :: "string option \<Rightarrow> string \<Rightarrow> string option" where
  "add_data None v = Some v"
| "add_data (Some d) v = Some (d @ nl # v)"

fun line_events :: "string option \<Rightarrow> string list \<Rightarrow> string list" where
  "line_events acc [] = (case acc of None \<Rightarrow> [] | Some d \<Rightarrow> [d])"
| "line_events acc (l # ls) =
     (let line = TrimSuffix l [cr]
      in if line = [] then (case acc of None \<Rightarrow> [] | Some d \<Rightarrow> [d]) @ line_events None ls
         else if HasPrefix line ''data:'' then line_events (add_data acc (line_data line)) ls
         else line_events acc ls)"

definition sse_events :: "string \<Rightarrow> string list" where
  "sse_events bytes = line_events None (Split nl bytes)"

text \<open>A consumer is run on the events in order and stops at its first error.\<close>

fun consume_all :: "'c consumer \<Rightarrow> 'c \<Rightarrow> string list \<Rightarrow> sse_error option \<times> 'c" where
  "consume_all consume c [] = (None, c)"
| "consume_all consume c (d # ds) =
     (case consume d c of (Some err, c') \<Rightarrow> (Some err, c') | (None, c') \<Rightarrow> consume_all consume c' ds)"

definition pending_data :: "sseFramer \<Rightarrow> string option" where
  "pending_data f = (if fr_hasData f then Some (fr_data f) else None)"

lemma pending_data_line [simp]: "pending_data (f\<lparr>fr_line := l\<rparr>) = pending_data f"
  by (simp add: pending_data_def)

lemma pending_data_new [simp]: "pending_data (new_framer n) = None"
  by (simp add: pending_data_def new_framer_def)

lemma new_framer_sel [simp]:
  "fr_line (new_framer n) = []" "fr_data (new_framer n) = []" "fr_limit (new_framer n) = n"
  by (simp_all add: new_framer_def)

lemma length_TrimPrefix: "length (TrimPrefix s p) \<le> length s"
  by (simp add: TrimPrefix_def)

lemma length_TrimSuffix: "length (TrimSuffix s p) \<le> length s"
  by (simp add: TrimSuffix_def)

lemma line_data_length: "HasPrefix l ''data:'' \<Longrightarrow> length (line_data l) + 5 \<le> length l"
  using length_TrimPrefix [of "drop 5 l" "'' ''"] prefix_length_le [of "''data:''" l]
  by (simp add: line_data_def)

lemma flushEvent_events:
  assumes "flushEvent consume f c = (err, f', c')"
  shows "consume_all consume c ((case pending_data f of None \<Rightarrow> [] | Some d \<Rightarrow> [d]) @ es) =
      (case err of Some e \<Rightarrow> (Some e, c') | None \<Rightarrow> consume_all consume c' es)"
    and "pending_data f' = None" "fr_limit f' = fr_limit f" "length (fr_data f') \<le> length (fr_data f)"
  using assms by (auto simp: flushEvent_def pending_data_def split: if_splits prod.splits option.splits)

lemma flushLine_blank:
  "TrimSuffix (fr_line f) [cr] = [] \<Longrightarrow>
   flushLine consume f c = (let (err, f', c') = flushEvent consume f c in (err, f'\<lparr>fr_line := []\<rparr>, c'))"
  by (simp add: flushLine_def)

lemma flushLine_events:
  assumes fl: "flushLine consume f c = (err, f', c')" and ok: "framer_ok f"
  shows "consume_all consume c (line_events (pending_data f) (fr_line f # ls)) =
      (case err of Some e \<Rightarrow> (Some e, c') | None \<Rightarrow> consume_all consume c' (line_events (pending_data f') ls))"
    and "fr_line f' = [] \<and> fr_limit f' = fr_limit f \<and>
      length (fr_data f') \<le> length (fr_data f) + length (fr_line f)"
proof -
  let ?l = "TrimSuffix (fr_line f) [cr]"
  have len: "length ?l \<le> length (fr_line f)" by (rule length_TrimSuffix)
  consider "?l = []" | "?l \<noteq> []" "HasPrefix ?l ''data:''" | "?l \<noteq> []" "\<not> HasPrefix ?l ''data:''" by blast
  then have "consume_all consume c (line_events (pending_data f) (fr_line f # ls)) =
      (case err of Some e \<Rightarrow> (Some e, c') | None \<Rightarrow> consume_all consume c' (line_events (pending_data f') ls)) \<and>
    fr_line f' = [] \<and> fr_limit f' = fr_limit f \<and> length (fr_data f') \<le> length (fr_data f) + length (fr_line f)"
  proof cases
    case 1
    obtain f1 where fe: "flushEvent consume f c = (err, f1, c')" "f' = f1\<lparr>fr_line := []\<rparr>"
      using fl 1 by (auto simp: flushLine_blank split: prod.splits)
    from flushEvent_events [OF fe(1)] 1 fe(2) show ?thesis by (simp add: flushEvent_events(1) [OF fe(1)] split: option.split)
  next
    case 2
    have "\<not> length (fr_data f) + (length (line_data ?l) + (if fr_hasData f then 1 else 0)) > fr_limit f"
      using line_data_length [OF 2(2)] len ok by (simp add: framer_ok_def)
    with fl 2 have "err = None \<and> c' = c \<and> f' = f\<lparr>fr_line := [],
        fr_data := fr_data f @ (if fr_hasData f then [nl] else []) @ line_data ?l, fr_hasData := True\<rparr>"
      by (simp add: flushLine_def Let_def line_data_def split: if_splits)
    with 2 line_data_length [OF 2(2)] len ok show ?thesis
      by (auto simp: pending_data_def framer_ok_def)
  next
    case 3
    with fl show ?thesis by (auto simp: flushLine_def Let_def pending_data_def)
  qed
  then show "consume_all consume c (line_events (pending_data f) (fr_line f # ls)) =
      (case err of Some e \<Rightarrow> (Some e, c') | None \<Rightarrow> consume_all consume c' (line_events (pending_data f') ls))"
    and "fr_line f' = [] \<and> fr_limit f' = fr_limit f \<and>
      length (fr_data f') \<le> length (fr_data f) + length (fr_line f)"
    by blast+
qed

lemma finish_events:
  assumes "framer_ok f"
  shows "(let (err, _, c') = sse_finish consume f c in (err, c')) =
    consume_all consume c (line_events (pending_data f) [fr_line f])"
proof (cases "fr_line f = []")
  case True
  obtain e f' c' where fe: "flushEvent consume f c = (e, f', c')" by (cases "flushEvent consume f c")
  from flushEvent_events(1) [OF fe, of "[]"] True fe show ?thesis
    by (auto simp: sse_finish_def TrimSuffix_def split: option.splits)
next
  case False
  obtain e f' c' where fl: "flushLine consume f c = (e, f', c')" by (cases "flushLine consume f c")
  obtain e2 f2 c2 where fe: "flushEvent consume f' c' = (e2, f2, c2)" by (cases "flushEvent consume f' c'")
  from flushLine_events(1) [OF fl assms, of "[]"] flushEvent_events(1) [OF fe, of "[]"] False fl fe
  show ?thesis by (auto simp: sse_finish_def simp del: line_events.simps(2) split: option.splits)
qed

definition read_result :: "'c consumer \<Rightarrow> sseFramer \<Rightarrow> 'c \<Rightarrow> string \<Rightarrow> sse_error option \<times> 'c" where
  "read_result consume f c bytes =
     (case feed_view consume (f, c) bytes of
        Inl (err, c') \<Rightarrow> (Some err, c')
      | Inr (f', c') \<Rightarrow> (let (err, _, c'') = sse_finish consume f' c' in (err, c'')))"

lemma feed_events:
  assumes "framer_ok f" "nl \<notin> set (fr_line f)"
    and "length (fr_line f) + length (fr_data f) + length bytes \<le> fr_limit f"
  shows "read_result consume f c bytes =
    consume_all consume c (line_events (pending_data f) (Split nl (fr_line f @ bytes)))"
  using assms
proof (induction bytes arbitrary: f c rule: chunk_induct)
  case (partial pre)
  let ?f = "f\<lparr>fr_line := fr_line f @ pre\<rparr>"
  have "\<not> too_large f pre" using partial.prems by (simp add: too_large_def)
  then have "read_result consume f c pre = (let (err, _, c') = sse_finish consume ?f c in (err, c'))"
    using partial by (simp add: read_result_def feed_view_def feed_partial)
  also have "\<dots> = consume_all consume c (line_events (pending_data ?f) [fr_line ?f])"
    using partial.prems by (intro finish_events) (simp add: framer_ok_def)
  finally show ?case using partial by (simp add: Split_sep del: line_events.simps)
next
  case (line pre rest)
  let ?f = "f\<lparr>fr_line := fr_line f @ pre\<rparr>"
  have ok: "framer_ok ?f" using line.prems by (simp add: framer_ok_def)
  have fits: "\<not> too_large f pre" using line.prems by (simp add: too_large_def)
  obtain e f' c' where fl: "flushLine consume ?f c = (e, f', c')" by (cases "flushLine consume ?f c")
  note ev = flushLine_events [OF fl ok]
  have "framer_ok f'" using flushLine_ok [OF fl ok] .
  then have "e = None \<Longrightarrow> read_result consume f' c' rest =
      consume_all consume c' (line_events (pending_data f') (Split nl rest))"
    using line.IH [of f' c'] ev(2) line.prems by simp
  moreover have "read_result consume f c (pre @ nl # rest) =
      (case e of Some err \<Rightarrow> (Some err, c') | None \<Rightarrow> read_result consume f' c' rest)"
    using line.hyps fits fl by (cases e) (simp_all add: read_result_def feed_view_def feed_line)
  moreover have "Split nl (fr_line f @ pre @ nl # rest) = (fr_line f @ pre) # Split nl rest"
    using Split_sep(1) [of nl "fr_line f @ pre" rest] line by simp
  ultimately show ?case
    using ev(1) [of "Split nl rest"] by (cases e) (simp_all del: line_events.simps(2))
qed

lemma readSSE_events:
  assumes "length (concat chunks @ final) \<le> limit"
  shows "readSSE limit consume c chunks (final, True) =
    (let (err, c') = consume_all consume c (sse_events (concat chunks @ final)) in (complete err, c'))"
proof -
  have "read_result consume (new_framer limit) c (concat chunks @ final) =
      consume_all consume c (sse_events (concat chunks @ final))"
    using feed_events [of "new_framer limit" "concat chunks @ final" consume c] assms
    by (simp add: sse_events_def)
  then show ?thesis
    by (auto simp: readSSE_bytes read_bytes_def read_result_def Let_def split: sum.splits prod.splits)
qed

section \<open>Frames\<close>

text \<open>The frame the broker writes for its own clients.\<close>

definition sse_frame :: "string \<Rightarrow> string" where
  "sse_frame d = ''data: '' @ d @ [nl, nl]"

definition frameable :: "string \<Rightarrow> bool" where
  "frameable d \<longleftrightarrow> nl \<notin> set d \<and> \<not> suffix [cr] d"

lemma sse_events_frames: "\<forall>d\<in>set ds. frameable d \<Longrightarrow> sse_events (concat (map sse_frame ds)) = ds"
proof (induction ds)
  case Nil
  then show ?case by (simp add: sse_events_def TrimSuffix_def)
next
  case (Cons d ds)
  have "nl \<notin> set (''data: '' @ d)" using Cons.prems by (simp add: frameable_def)
  from Split_sep(1) [OF this, of "nl # concat (map sse_frame ds)"]
  have sp: "Split nl (sse_frame d @ concat (map sse_frame ds)) =
      (''data: '' @ d) # [] # Split nl (concat (map sse_frame ds))"
    by (simp add: sse_frame_def)
  have "\<not> suffix [cr] (''data: '' @ d)"
    using Cons.prems by (cases d rule: rev_cases) (auto simp: frameable_def suffix_def)
  then have "TrimSuffix (''data: '' @ d) [cr] = ''data: '' @ d" by (simp add: TrimSuffix_def)
  moreover have "line_data (''data: '' @ d) = d" by (simp add: line_data_def TrimPrefix_def)
  ultimately show ?case using Cons
    by (simp add: sse_events_def sp TrimSuffix_def [of "[]"] prefix_def)
qed

section \<open>Properties\<close>

text \<open>The framer never holds more bytes of an event than its limit, whatever the chunks and the
  consumer, also when it stops with an error.\<close>

theorem framer_bounded:
  assumes "sse_feed consume (new_framer limit) c bytes = (err, f, c')"
  shows "length (fr_line f) + length (fr_data f) \<le> limit"
  using sse_feed_keeps [OF assms] by (simp add: framer_ok_def new_framer_def)

theorem framer_bounded_witness:
  "length (fr_line (fst (snd (sse_feed (\<lambda>d c. (None, d # c)) (new_framer 9) [] ''data: ok'')))) \<le> 9"
proof -
  obtain err f c' where "sse_feed (\<lambda>d c. (None, d # c)) (new_framer 9) [] ''data: ok'' = (err, f, c')"
    by (cases "sse_feed (\<lambda>d c. (None, d # c)) (new_framer 9) [] ''data: ok''")
  from framer_bounded [OF this] this show ?thesis by simp
qed

text \<open>What a consumer of an event stream sees depends only on the bytes of the stream and on how
  it ended, not on how the network cut it into reads.\<close>

theorem read_depends_on_bytes:
  assumes "concat chunks @ final = concat chunks' @ final'"
  shows "readSSE limit consume c chunks (final, eof) = readSSE limit consume c chunks' (final', eof)"
  using assms by (simp add: readSSE_bytes)

theorem read_depends_on_bytes_witness:
  "readSSE 64 (\<lambda>d c. (None, d # c)) [] [''da'', ''ta: 1''] (''2'', True) =
   readSSE 64 (\<lambda>d c. (None, d # c)) [] [] (''data: 12'', True)"
  using read_depends_on_bytes [of "[''da'', ''ta: 1'']" "''2''" "[]" "''data: 12''"] by simp

text \<open>C36: The events of a stream that fits the limit are those of the reference reading (split into
  lines, blank line ends an event, data lines joined by line feeds), passed in order to the consumer
  until it fails or says that the stream is complete. In particular frames written the way the
  broker writes them are read back one by one, however the network cuts them.\<close>

theorem read_matches_reference:
  assumes "length (concat chunks @ final) \<le> limit"
  shows "readSSE limit consume c chunks (final, True) =
      (let (err, c') = consume_all consume c (sse_events (concat chunks @ final)) in (complete err, c')) \<and>
    (list_all frameable ds \<and> concat chunks @ final = concat (map sse_frame ds) \<longrightarrow>
      sse_events (concat chunks @ final) = ds)"
  using readSSE_events [OF assms] sse_events_frames [of ds] by (auto simp: list_all_iff)

theorem read_matches_reference_witness:
  "readSSE 64 (\<lambda>d c. (None, c @ [d])) [] [sse_frame ''1'', ''data: ''] ([CHR ''2'', nl, nl], True) =
     (None, [''1'', ''2''])"
proof -
  have "list_all frameable [''1'', ''2'']" by (simp add: frameable_def suffix_def)
  with read_matches_reference
    [of "[sse_frame ''1'', ''data: '']" "[CHR ''2'', nl, nl]" 64 "\<lambda>d c. (None, c @ [d])" "[]" "[''1'', ''2'']"]
  show ?thesis by (simp add: sse_frame_def complete_def)
qed

end
