(* ===== verification/Headers.thy ===== *)
theory Headers
  imports Util "HOL-Library.Multiset"
begin

text \<open>
  Header blocks and the error bodies clients see, \<^verbatim>\<open>src/proxy.go\<close>: the allow-listed diagnostic
  headers kept from an upstream answer, their mirror in the client's answer, the OpenAI
  error envelope and the attribute summary of an upstream error. A Go header map is an
  association list in iteration order. The lemmas show that the result of
  \<open>diagnosticUpstreamHeaders\<close> does not depend on that order, that it is bounded by the
  allow list, and that an error summary carries no upstream text but its filtered attributes.
\<close>

section \<open>Definitions\<close>

type_synonym header = "(string \<times> string list) list"

fun canon_from :: "bool \<Rightarrow> string \<Rightarrow> string" where
  "canon_from up [] = []"
| "canon_from up (c # s) =
     (if up \<and> 97 \<le> byte c \<and> byte c \<le> 122 then char_of (byte c - 32)
      else if \<not> up \<and> 65 \<le> byte c \<and> byte c \<le> 90 then char_of (byte c + 32)
      else c) # canon_from (c = CHR ''-'') s"

definition CanonicalHeaderKey :: "string \<Rightarrow> string" where
  "CanonicalHeaderKey key = canon_from True key"

definition Header_Get :: "header \<Rightarrow> string \<Rightarrow> string" where
  "Header_Get h key = (case map_of h (CanonicalHeaderKey key) of Some (v # _) \<Rightarrow> v | _ \<Rightarrow> [])"

definition Header_Set :: "header \<Rightarrow> string \<Rightarrow> string \<Rightarrow> header" where
  "Header_Set h key value = AList.update (CanonicalHeaderKey key) [value] h"

definition diagnosticHeaderNames :: "(string \<times> bool) list" where
  "diagnosticHeaderNames =
     [(''x-request-id'', False), (''request-id'', False), (''openai-request-id'', False),
      (''cf-ray'', False), (''openai-model'', False),
      (''openai-processing-ms'', True), (''x-envoy-upstream-service-time'', True),
      (''x-codex-primary-used-percent'', True),
      (''x-codex-primary-window-minutes'', True),
      (''x-codex-primary-reset-after-seconds'', True),
      (''x-codex-secondary-used-percent'', True),
      (''x-codex-secondary-window-minutes'', True),
      (''x-codex-secondary-reset-after-seconds'', True),
      (''x-codex-primary-over-secondary-limit-percent'', True),
      (''x-codex-reset-after-seconds'', True),
      (''x-ratelimit-limit-requests'', True), (''x-ratelimit-remaining-requests'', True),
      (''x-ratelimit-limit-tokens'', True), (''x-ratelimit-remaining-tokens'', True)]"

function ValidString :: "string \<Rightarrow> bool" where
  "ValidString s \<longleftrightarrow>
     (if s = [] then True else if rune_len s = 0 then False else ValidString (drop (rune_len s) s))"
  by pat_completeness auto
termination
  by (relation "measure length") auto

declare ValidString.simps [simp del]

definition numeric_rune :: "string \<Rightarrow> bool" where
  "numeric_rune r \<longleftrightarrow> (case r of [c] \<Rightarrow> is_digit c \<or> c = CHR ''.'' | _ \<Rightarrow> False)"

definition id_rune :: "golib \<Rightarrow> string \<Rightarrow> bool" where
  "id_rune lib r \<longleftrightarrow> lib_IsLetterOrNumber lib r \<or> r \<in> {''-'', ''_'', ''.'', '':''}"

abbreviation redacted :: string where
  "redacted \<equiv> ''[redacted]''"

definition redactDiagnosticHeaderValue :: "golib \<Rightarrow> string \<Rightarrow> bool \<Rightarrow> string" where
  "redactDiagnosticHeaderValue lib value numeric =
     (if value = redacted \<or> value = ''[redacted-token]'' \<or> value = ''[redacted-jwt]'' then value
      else (let lower = ToLower value
            in if \<not> ValidString value \<or> Contains lower ''bearer'' \<or> Contains lower ''sk-'' \<or> Contains lower ''eyj''
               then redacted
               else if redactTokenLikeText value \<noteq> value then redacted
               else if numeric then
                 (if \<not> list_all numeric_rune (runes value) then redacted
                  else if lib_ParseFloat lib value = None then redacted
                  else value)
               else if \<not> list_all (id_rune lib) (runes value) then redacted
               else value))"

text \<open>\<open>for !utf8.RuneStart(value[end]) { end-- }\<close>; byte 0 of the values it meets starts a rune.\<close>

fun rune_start_before :: "string \<Rightarrow> nat \<Rightarrow> nat" where
  "rune_start_before value 0 = 0"
| "rune_start_before value (Suc n) =
     (if is_cont (value ! Suc n) then rune_start_before value n else Suc n)"

definition diagnostic_value :: "golib \<Rightarrow> string \<Rightarrow> bool \<Rightarrow> string" where
  "diagnostic_value lib value numeric =
     (let value1 = redactDiagnosticHeaderValue lib value numeric
      in if length value1 > 256 then take (rune_start_before value1 256) value1 else value1)"

definition hop_by_hop :: "header \<Rightarrow> string \<Rightarrow> bool" where
  "hop_by_hop h lower \<longleftrightarrow>
     (\<exists>(name, connections)\<in>set h. EqualFold name ''connection'' \<and>
        (\<exists>connection\<in>set connections. \<exists>field\<in>set (Split CHR '','' connection).
           EqualFold (TrimSpace field) lower))"

text \<open>One turn of the loop over the header map: the name and value it stores, if any.\<close>

definition diagnostic_entry :: "golib \<Rightarrow> header \<Rightarrow> string \<times> string list \<Rightarrow> (string \<times> string) option" where
  "diagnostic_entry lib h kv =
     (let lower = ToLower (fst kv)
      in (case (map_of diagnosticHeaderNames lower, snd kv) of
            (Some numeric, [v]) \<Rightarrow>
              (if length v > 4096 then None
               else if hop_by_hop h lower then None
               else (let value = TrimSpace v
                     in if value = [] then None else Some (lower, diagnostic_value lib value numeric)))
          | _ \<Rightarrow> None))"

fun store_diagnostics :: "(string \<times> string) option list \<Rightarrow> (string \<times> string) list \<Rightarrow> (string \<times> string) list" where
  "store_diagnostics [] out = out"
| "store_diagnostics (None # es) out = store_diagnostics es out"
| "store_diagnostics (Some (lower, value) # es) out =
     store_diagnostics es
       (AList.update lower (if map_of out lower \<noteq> None then redacted else value) out)"

definition diagnosticUpstreamHeaders :: "golib \<Rightarrow> header \<Rightarrow> (string \<times> string) list" where
  "diagnosticUpstreamHeaders lib h = store_diagnostics (map (diagnostic_entry lib h) h) []"

definition mirrorUpstreamHeaders :: "(string \<times> string) list \<Rightarrow> header \<Rightarrow> header" where
  "mirrorUpstreamHeaders headers w =
     foldl (\<lambda>w (name, value).
              let key = ''X-Upstream-'' @ name
              in if map_of w (CanonicalHeaderKey key) = None then Header_Set w key value else w) w headers"

definition copyResponseHeaders :: "header \<Rightarrow> header \<Rightarrow> bool \<Rightarrow> header" where
  "copyResponseHeaders w header stream =
     (let w1 = foldl (\<lambda>w key. let value = Header_Get header key
                              in if value \<noteq> [] then Header_Set w key value else w) w
                 [''Content-Type'', ''Cache-Control'']
      in if Header_Get w1 ''Content-Type'' = []
         then Header_Set w1 ''Content-Type'' (if stream then ''text/event-stream'' else ''application/json'')
         else w1)"

subsection \<open>Error bodies\<close>

definition writeProxyError_body :: "string \<Rightarrow> json" where
  "writeProxyError_body message =
     JObj [(''error'', JObj [(''message'', JStr (redactTokenLikeText message)),
                             (''type'', JStr ''codex_auth_broker_error'')])]"

text \<open>\<open>json.Unmarshal\<close> into a \<open>map[string]any\<close>: the document \<open>null\<close> gives a nil map.\<close>

definition unmarshal_obj :: "golib \<Rightarrow> string \<Rightarrow> obj option" where
  "unmarshal_obj lib s =
     (case lib_Unmarshal lib s of Some (JObj m) \<Rightarrow> Some m | Some JNull \<Rightarrow> Some [] | _ \<Rightarrow> None)"

definition error_envelope :: "obj \<Rightarrow> nat \<Rightarrow> obj" where
  "error_envelope parsed status =
     (let m0 = stringField parsed ''detail'';
          m1 = (if m0 = [] then stringField parsed ''message'' else m0);
          message = (if m1 = [] then ''upstream returned '' @ itoa status else m1);
          envelope = [(''error'', JObj [(''message'', JStr message), (''type'', JStr ''upstream_error''),
                                        (''code'', JInt (int status))])]
      in foldl (\<lambda>env (key, value). if key = ''error'' then env else oset env key value) envelope parsed)"

definition normalizeUpstreamErrorBody :: "golib \<Rightarrow> string \<Rightarrow> nat \<Rightarrow> string" where
  "normalizeUpstreamErrorBody lib body status =
     (let red = redactTokenLikeText body
      in (case unmarshal_obj lib red of
            None \<Rightarrow> red
          | Some parsed \<Rightarrow>
              (if ohas parsed ''error'' then red
               else (case lib_Marshal lib (JObj (error_envelope parsed status)) of
                       None \<Rightarrow> red
                     | Some encoded \<Rightarrow> encoded))))"

definition summarizeUpstreamError :: "golib \<Rightarrow> string \<Rightarrow> nat \<Rightarrow> string" where
  "summarizeUpstreamError lib body status =
     (let summary = ''upstream returned '' @ itoa status
      in if TrimSpace body = [] then summary @ '' with an empty body''
         else (case unmarshal_obj lib body of
                 None \<Rightarrow> summary
               | Some parsed \<Rightarrow>
                   (let errorBody = (case as_obj (oget parsed ''error'') of Some m \<Rightarrow> m | None \<Rightarrow> parsed);
                        attributes = safeErrorAttributes (lib_Sprint lib) errorBody
                    in if attributes \<noteq> [] then summary @ '' ('' @ attributes @ '')'' else summary)))"

text \<open>The shape of a rejected request, for the same log line: which fields it has and how long its lists are.\<close>

definition shape_fields :: "string list" where
  "shape_fields = [''model'', ''stream'', ''store'', ''tool_choice'', ''parallel_tool_calls'', ''truncation'',
     ''prompt_cache_key'', ''prompt_cache_retention'', ''service_tier'', ''reasoning'', ''text'', ''include'', ''tools'', ''input'']"

definition shape_list :: "obj \<Rightarrow> string \<Rightarrow> obj \<Rightarrow> obj" where
  "shape_list body key shape =
     (case as_arr (oget body key) of None \<Rightarrow> shape | Some items \<Rightarrow> oset shape (key @ ''_len'') (JInt (int (length items))))"

definition request_shape :: "obj \<Rightarrow> obj" where
  "request_shape body =
     (let shape = foldl (\<lambda>m key. if ohas body key then oset m (''has_'' @ key) (JBool True) else m)
                    [(''field_count'', JInt (int (length (remdups (map fst body)))))] shape_fields
      in shape_list body ''input'' (shape_list body ''tools'' (shape_list body ''include'' shape)))"

definition requestShape :: "golib \<Rightarrow> obj \<Rightarrow> string" where
  "requestShape lib body =
     (case lib_Marshal lib (JObj (request_shape body)) of None \<Rightarrow> ''{}'' | Some encoded \<Rightarrow> encoded)"

section \<open>Diagnostic headers\<close>

text \<open>The values of the entries stored under one name, in iteration order.\<close>

definition values_for :: "string \<Rightarrow> (string \<times> string) option list \<Rightarrow> string list" where
  "values_for n es = concat (map (\<lambda>e. case e of Some (k, v) \<Rightarrow> if k = n then [v] else [] | None \<Rightarrow> []) es)"

lemma values_for_simps [simp]:
  "values_for n [] = []" "values_for n (None # es) = values_for n es"
  "values_for n (Some (k, v) # es) = (if k = n then [v] else []) @ values_for n es"
  by (simp_all add: values_for_def)

definition merged :: "string list \<Rightarrow> string option" where
  "merged vs = (case vs of [] \<Rightarrow> None | [v] \<Rightarrow> Some v | _ \<Rightarrow> Some redacted)"

lemma store_diagnostics_other:
  "map_of out n = Some v \<Longrightarrow>
   map_of (store_diagnostics es out) n = Some (if values_for n es = [] then v else redacted)"
proof (induction es arbitrary: out v)
  case (Cons e es)
  show ?case
  proof (cases e)
    case None
    with Cons show ?thesis by simp
  next
    case (Some kv)
    obtain k u where kv: "kv = (k, u)" by (cases kv)
    let ?out = "AList.update k (if map_of out k \<noteq> None then redacted else u) out"
    have "map_of ?out n = Some (if k = n then redacted else v)" using Cons.prems by auto
    from Cons.IH [OF this] show ?thesis by (simp add: Some kv)
  qed
qed simp

lemma store_diagnostics_lookup:
  "map_of out n = None \<Longrightarrow> map_of (store_diagnostics es out) n = merged (values_for n es)"
proof (induction es arbitrary: out)
  case (Cons e es)
  show ?case
  proof (cases e)
    case None
    with Cons show ?thesis by simp
  next
    case (Some kv)
    obtain k v where kv: "kv = (k, v)" by (cases kv)
    show ?thesis
    proof (cases "k = n")
      case True
      with Cons.prems store_diagnostics_other [of "AList.update n v out" n v es] show ?thesis
        by (simp add: Some kv update_conv merged_def split: list.split)
    next
      case False
      with Cons show ?thesis by (simp add: Some kv update_conv)
    qed
  qed
qed (simp add: merged_def)

lemma diagnostics_lookup:
  "map_of (diagnosticUpstreamHeaders lib h) n = merged (values_for n (map (diagnostic_entry lib h) h))"
  by (simp add: diagnosticUpstreamHeaders_def store_diagnostics_lookup)

lemma mset_values_for: "mset es = mset fs \<Longrightarrow> mset (values_for n es) = mset (values_for n fs)"
  by (simp add: values_for_def mset_concat flip: sum_mset_sum_list)

lemma merged_mset: "mset vs = mset ws \<Longrightarrow> merged vs = merged ws"
proof -
  assume eq: "mset vs = mset ws"
  then have len: "length vs = length ws" by (rule mset_eq_length)
  then show ?thesis
    using eq by (auto simp: merged_def split: list.splits)
qed

lemma diagnostic_entry_mset: "mset h = mset h' \<Longrightarrow> diagnostic_entry lib h = diagnostic_entry lib h'"
proof -
  assume "mset h = mset h'"
  then have hop: "hop_by_hop h = hop_by_hop h'"
    by (simp add: fun_eq_iff hop_by_hop_def mset_eq_setD [of h h'])
  show ?thesis unfolding diagnostic_entry_def hop ..
qed

lemma diagnostics_order:
  assumes "mset h = mset h'"
  shows "map_of (diagnosticUpstreamHeaders lib h) = map_of (diagnosticUpstreamHeaders lib h')"
proof
  fix n
  have "mset (map (diagnostic_entry lib h) h) = mset (map (diagnostic_entry lib h') h')"
    using assms by (simp add: diagnostic_entry_mset [OF assms])
  then show "map_of (diagnosticUpstreamHeaders lib h) n = map_of (diagnosticUpstreamHeaders lib h') n"
    unfolding diagnostics_lookup by (intro merged_mset mset_values_for)
qed

text \<open>What is kept of one header.\<close>

definition opaque :: "string \<Rightarrow> bool" where
  "opaque v \<longleftrightarrow> v = redacted \<or> v = ''[redacted-token]'' \<or> v = ''[redacted-jwt]''"

definition clean_value :: "golib \<Rightarrow> bool \<Rightarrow> string \<Rightarrow> bool" where
  "clean_value lib numeric v \<longleftrightarrow>
     redactTokenLikeText v = v \<and> \<not> Contains (ToLower v) ''bearer'' \<and> \<not> Contains (ToLower v) ''sk-'' \<and>
     \<not> Contains (ToLower v) ''eyj'' \<and>
     list_all (if numeric then numeric_rune else id_rune lib) (runes v)"

lemma redactDiagnostic_cases: "opaque (redactDiagnosticHeaderValue lib v numeric) \<or>
    (redactDiagnosticHeaderValue lib v numeric = v \<and> clean_value lib numeric v)"
  by (simp add: redactDiagnosticHeaderValue_def opaque_def clean_value_def Let_def)

lemma rune_start_before_le: "rune_start_before v n \<le> n"
  by (induction n) auto

definition kept_value :: "golib \<Rightarrow> bool \<Rightarrow> string \<Rightarrow> bool" where
  "kept_value lib numeric v \<longleftrightarrow>
     length v \<le> 256 \<and> (opaque v \<or> (\<exists>w. prefix v w \<and> clean_value lib numeric w))"

lemma diagnostic_entry_Some:
  assumes "diagnostic_entry lib h kv = Some (n, v)"
  shows "\<exists>numeric. map_of diagnosticHeaderNames n = Some numeric \<and> kept_value lib numeric v"
proof -
  from assms obtain numeric u where n: "map_of diagnosticHeaderNames n = Some numeric"
    and v: "v = diagnostic_value lib u numeric"
    by (auto simp: diagnostic_entry_def Let_def split: option.splits list.splits if_splits)
  let ?w = "redactDiagnosticHeaderValue lib u numeric"
  have "length v \<le> 256"
    using v rune_start_before_le [of ?w 256] by (auto simp: diagnostic_value_def Let_def)
  moreover have "opaque ?w \<Longrightarrow> v = ?w" using v by (auto simp: diagnostic_value_def opaque_def Let_def)
  moreover have "prefix v ?w" using v by (simp add: diagnostic_value_def Let_def take_is_prefix)
  ultimately show ?thesis using n redactDiagnostic_cases [of lib u numeric]
    by (auto simp: kept_value_def)
qed

lemma values_for_entry:
  "v \<in> set (values_for n (map (diagnostic_entry lib h) xs)) \<Longrightarrow> \<exists>kv\<in>set xs. diagnostic_entry lib h kv = Some (n, v)"
  by (auto simp: values_for_def split: option.splits if_splits)

lemma diagnostics_kept:
  assumes "map_of (diagnosticUpstreamHeaders lib h) n = Some v"
  shows "\<exists>numeric. map_of diagnosticHeaderNames n = Some numeric \<and> kept_value lib numeric v"
proof -
  let ?vs = "values_for n (map (diagnostic_entry lib h) h)"
  from assms have m: "merged ?vs = Some v" by (simp add: diagnostics_lookup)
  then obtain u where u: "u \<in> set ?vs" and v: "v = u \<or> v = redacted"
    by (auto simp: merged_def split: list.splits)
  from values_for_entry [OF u(1)] obtain kv where "diagnostic_entry lib h kv = Some (n, u)" by blast
  from diagnostic_entry_Some [OF this] v show ?thesis by (auto simp: kept_value_def opaque_def)
qed

lemma store_diagnostics_distinct:
  "distinct (map fst out) \<Longrightarrow> distinct (map fst (store_diagnostics es out))"
proof (induction es arbitrary: out)
  case (Cons e es)
  then show ?case by (cases e) (auto simp: distinct_update)
qed simp

lemma diagnostics_size: "length (diagnosticUpstreamHeaders lib h) \<le> 19"
proof -
  let ?d = "diagnosticUpstreamHeaders lib h"
  have dist: "distinct (map fst ?d)"
    by (simp add: diagnosticUpstreamHeaders_def store_diagnostics_distinct)
  have "fst ` set ?d \<subseteq> fst ` set diagnosticHeaderNames"
  proof
    fix n assume "n \<in> fst ` set ?d"
    then obtain v where "map_of ?d n = Some v" by (metis map_of_eq_None_iff not_Some_eq)
    from diagnostics_kept [OF this] show "n \<in> fst ` set diagnosticHeaderNames"
      by (metis map_of_eq_None_iff option.distinct(1))
  qed
  then have "card (fst ` set ?d) \<le> card (fst ` set diagnosticHeaderNames)" by (intro card_mono) auto
  also have "\<dots> \<le> length diagnosticHeaderNames"
    using card_length [of "map fst diagnosticHeaderNames"] by (simp only: set_map length_map)
  also have "length diagnosticHeaderNames = 19" by (simp add: diagnosticHeaderNames_def)
  also have "card (fst ` set ?d) = length ?d" using distinct_card [OF dist] by simp
  finally show ?thesis .
qed

section \<open>Error bodies\<close>

lemma foldl_envelope_error:
  "oget (foldl (\<lambda>env (key, value). if key = ''error'' then env else oset env key value) env fs) ''error'' =
   oget env ''error''"
  by (induction fs arbitrary: env) auto

lemma foldl_envelope_get:
  "distinct (map fst fs) \<Longrightarrow> (k, v) \<in> set fs \<Longrightarrow> k \<noteq> ''error'' \<Longrightarrow>
   oget (foldl (\<lambda>env (key, value). if key = ''error'' then env else oset env key value) env fs) k = v"
proof (induction fs arbitrary: env)
  case (Cons f fs)
  have keep: "k \<notin> fst ` set gs \<Longrightarrow>
      oget (foldl (\<lambda>env (key, value). if key = ''error'' then env else oset env key value) env gs) k = oget env k"
    for gs and env :: obj
    by (induction gs arbitrary: env) auto
  show ?case
  proof (cases "(k, v) = f")
    case True
    with Cons.prems keep [of fs] show ?thesis by auto
  next
    case False
    with Cons show ?thesis by (cases f) auto
  qed
qed simp

definition summary_char :: "char \<Rightarrow> bool" where
  "summary_char c \<longleftrightarrow> attribute_char c \<or> c \<in> set '' (=)''"

lemma safeErrorAttribute_chars: "list_all attribute_char (safeErrorAttribute p) \<and> length (safeErrorAttribute p) \<le> 64"
  by (simp add: safeErrorAttribute_def Let_def)

lemma is_digit_attribute: "is_digit c \<Longrightarrow> attribute_char c"
  by (auto simp: is_digit_def attribute_char_def)

lemma list_all_Join: "list_all P sep \<Longrightarrow> list_all (list_all P) xs \<Longrightarrow> list_all P (Join xs sep)"
  by (induction xs sep rule: Join.induct) auto

lemma safeErrorAttributes_chars: "list_all summary_char (safeErrorAttributes sprint m)"
proof -
  have "list_all summary_char (safeErrorAttribute p)" for p
    using safeErrorAttribute_chars [of p] by (auto simp: list_all_iff summary_char_def)
  then show ?thesis
    unfolding safeErrorAttributes_def
    by (intro list_all_Join) (auto simp: Let_def summary_char_def attribute_char_def)
qed

lemma status_summary_chars: "list_all summary_char (''upstream returned '' @ itoa status)"
proof -
  have "list_all summary_char (itoa status)"
    using is_digit_attribute itoa_digits by (auto simp: list_all_iff summary_char_def)
  then show ?thesis by (simp add: summary_char_def attribute_char_def)
qed

lemma error_envelope_error:
  "\<exists>message. message \<noteq> [] \<and> oget (error_envelope parsed status) ''error'' =
     JObj [(''message'', JStr message), (''type'', JStr ''upstream_error''), (''code'', JInt (int status))]"
  unfolding error_envelope_def Let_def foldl_envelope_error by (simp add: oget_def)

text \<open>The logged shape tells nothing of the values: it depends on the fields and the lengths of lists alone.\<close>

lemma shape_list_cong:
  "map_option length (as_arr (oget body key)) = map_option length (as_arr (oget body' key)) \<Longrightarrow>
   shape_list body key shape = shape_list body' key shape"
  by (cases "as_arr (oget body key)"; cases "as_arr (oget body' key)") (auto simp: shape_list_def simp del: as_arr_Some)

lemma requestShape_hides_values:
  assumes "map fst body = map fst body'"
    and "\<forall>key\<in>{''include'', ''tools'', ''input''}.
      map_option length (as_arr (oget body key)) = map_option length (as_arr (oget body' key))"
  shows "requestShape lib body = requestShape lib body'"
proof -
  have "ohas body = ohas body'"
    using assms(1) by (intro ext) (metis ohas_def map_of_eq_None_iff set_map)
  then have "request_shape body = request_shape body'"
    using assms shape_list_cong [of body _ body'] by (simp add: request_shape_def)
  then show ?thesis by (simp add: requestShape_def)
qed

section \<open>Properties\<close>

text \<open>The diagnostic headers kept from an upstream answer do not depend on the iteration order of
  the Go header map: two header blocks with the same entries give the same result, including when
  several entries differ only in the case of their names.\<close>

theorem diagnostics_order_independent:
  assumes "mset h = mset h'"
  shows "map_of (diagnosticUpstreamHeaders lib h) = map_of (diagnosticUpstreamHeaders lib h')"
  using assms by (rule diagnostics_order)

theorem diagnostics_order_independent_witness:
  "map_of (diagnosticUpstreamHeaders witness_lib [(''X-Request-Id'', [''a'']), (''x-request-id'', [''b''])]) =
   map_of (diagnosticUpstreamHeaders witness_lib [(''x-request-id'', [''b'']), (''X-Request-Id'', [''a''])])"
  by (rule diagnostics_order_independent) simp

text \<open>Every diagnostic header kept has an allow-listed name and a value of at most 256 bytes that
  is a redaction placeholder or the beginning of a value without credential-shaped words, without
  bearer, API-key or JWT markers and made of the characters its kind allows; there are at most 19.\<close>

theorem diagnostics_bounded:
  "length (diagnosticUpstreamHeaders lib h) \<le> 19 \<and>
   (\<forall>n v. map_of (diagnosticUpstreamHeaders lib h) n = Some v \<longrightarrow>
      (\<exists>numeric. map_of diagnosticHeaderNames n = Some numeric \<and> kept_value lib numeric v))"
  using diagnostics_size diagnostics_kept by blast

theorem diagnostics_bounded_witness:
  "length (diagnosticUpstreamHeaders witness_lib [(''X-Request-Id'', [''abc''])]) \<le> 19"
  using diagnostics_bounded [of witness_lib "[(''X-Request-Id'', [''abc''])]"] by simp

text \<open>The summary of an upstream error that goes to logs is made of letters, digits and the
  punctuation of the summary itself: no other upstream text reaches it.\<close>

theorem summarize_only_attributes: "list_all summary_char (summarizeUpstreamError lib body status)"
proof -
  note base = status_summary_chars [of status]
  show ?thesis
    unfolding summarizeUpstreamError_def Let_def
    using base safeErrorAttributes_chars
    by (auto simp: summary_char_def attribute_char_def split: option.split)
qed

end
