(* ===== verification/Normalize.thy ===== *)
theory Normalize
  imports Headers
begin

text \<open>
  Request normalisation, \<^verbatim>\<open>src/proxy.go\<close>: model names and reasoning efforts, service tiers, the
  routing hint, the parameters the Codex backend rejects, the input items, the prompt
  cache key, and the headers of the upstream request. A function of the source that
  mutates the decoded body returns the new body. The lemmas show what the backend can
  rely on in a normalised body, and that a client cannot smuggle a parameter through the
  routing hint.
\<close>

section \<open>Definitions\<close>

definition maxRequestBodyBytes :: nat where
  "maxRequestBodyBytes = 128 * 1024 * 1024"

definition defaultInstructions :: string where
  "defaultInstructions = ''You are a helpful coding assistant.''"

record config =
  cfg_promptCacheKey :: string
  cfg_upstreamOriginator :: string
  cfg_modelsClientVersion :: string
  cfg_version :: string
  cfg_upstreamURL :: string

record requestInfo =
  ri_Model :: string
  ri_NormalizedModel :: string
  ri_ReasoningEffort :: string
  ri_ServiceTier :: string
  ri_Stream :: bool
  ri_PromptCacheKeySet :: bool
  ri_PromptCacheKey :: string
  ri_PromptCacheRetentionSet :: bool
  ri_PromptCacheRetention :: string
  ri_CompactionTrigger :: bool

definition empty_info :: requestInfo where
  "empty_info =
     \<lparr>ri_Model = [], ri_NormalizedModel = [], ri_ReasoningEffort = [], ri_ServiceTier = [], ri_Stream = False,
      ri_PromptCacheKeySet = False, ri_PromptCacheKey = [], ri_PromptCacheRetentionSet = False,
      ri_PromptCacheRetention = [], ri_CompactionTrigger = False\<rparr>"

subsection \<open>Model names\<close>

definition normalizeReasoningEffort :: "string \<Rightarrow> string" where
  "normalizeReasoningEffort value =
     (let v = ToLower (TrimSpace value)
      in if v = ''minimal'' then ''low''
         else if v \<in> {''low'', ''medium'', ''high'', ''xhigh'', ''max''} then v
         else if v = ''ultra'' then ''max''
         else [])"

text \<open>\<open>strings.LastIndex\<close> of an opening parenthesis: the text before it and after it.\<close>

definition split_last_paren :: "string \<Rightarrow> (string \<times> string) option" where
  "split_last_paren s =
     (if CHR ''('' \<in> set s
      then (let after = rev (takeWhile (\<lambda>c. c \<noteq> CHR ''('') (rev s))
            in Some (take (length s - length after - 1) s, after))
      else None)"

definition effort_suffixes :: "string list" where
  "effort_suffixes =
     [''-non-reasoning'', ''-ultra'', ''-xhigh'', ''-high'', ''-medium'', ''-low'', ''-max'']"

fun strip_effort_suffix :: "string list \<Rightarrow> string \<Rightarrow> string \<Rightarrow> string \<times> string" where
  "strip_effort_suffix [] model effort = (model, effort)"
| "strip_effort_suffix (suf # sufs) model effort =
     (if HasSuffix (ToLower model) suf
      then (TrimSpace (take (length model - length suf) model),
            if suf \<noteq> ''-non-reasoning'' then normalizeReasoningEffort (TrimPrefix suf ''-'') else effort)
      else strip_effort_suffix sufs model effort)"

definition normalizeFactoryModel :: "string \<Rightarrow> string \<times> string" where
  "normalizeFactoryModel raw =
     (let m0 = TrimPrefix (TrimSpace raw) ''openai-codex/'';
          m1 = (if HasPrefix (ToLower m0) ''custom:'' then TrimSpace (drop 7 m0) else m0);
          (m2, e2) =
            (case split_last_paren m1 of
               Some (before, after) \<Rightarrow>
                 (if HasSuffix m1 '')'' then
                    (let candidate = ToLower (TrimSpace (butlast after));
                         normalized = normalizeReasoningEffort candidate
                     in if normalized \<noteq> [] \<or> candidate = ''off'' \<or> candidate = ''none''
                        then (TrimSpace before, normalized) else (m1, []))
                  else (m1, []))
             | None \<Rightarrow> (m1, []));
          (m3, e3) = strip_effort_suffix effort_suffixes m2 e2;
          m4 = (if HasPrefix m3 ''GPT-'' then ''gpt-'' @ TrimPrefix m3 ''GPT-'' else m3)
      in (m4, e3))"

definition ultrafastModels :: "string list" where
  "ultrafastModels = [''gpt-6-astra'', ''gpt-6.1-sol'']"

definition supportsUltrafast :: "string \<Rightarrow> bool" where
  "supportsUltrafast model =
     (let m = ToLower (TrimSpace model)
      in list_ex (\<lambda>supported. m = supported \<or> HasPrefix m (supported @ ''-'')) ultrafastModels)"

fun strip_tier_alias :: "string list \<Rightarrow> string \<Rightarrow> string \<Rightarrow> (string \<times> string) option" where
  "strip_tier_alias [] trimmed lower = None"
| "strip_tier_alias (alias # rest) trimmed lower =
     (let suf = ''('' @ alias @ '')''
      in if HasSuffix lower suf
         then Some (TrimSpace (take (length trimmed - length suf) trimmed), ''ultrafast'')
         else strip_tier_alias rest trimmed lower)"

definition splitServiceTierSuffix :: "string \<Rightarrow> string \<times> string" where
  "splitServiceTierSuffix model =
     (let trimmed = TrimSpace model
      in (case strip_tier_alias [''ultrafast'', ''ultra-fast'', ''ultra_fast''] trimmed (ToLower trimmed) of
            Some r \<Rightarrow> r
          | None \<Rightarrow> (model, [])))"

definition isGPT6Model :: "string \<Rightarrow> bool" where
  "isGPT6Model model \<longleftrightarrow>
     (if model = ''gpt-6'' \<or> HasPrefix model ''gpt-6-'' then True
      else if \<not> HasPrefix model ''gpt-6.'' then False
      else (let minor = takeWhile (\<lambda>c. c \<noteq> CHR ''-'') (drop 6 model)
            in minor \<noteq> [] \<and> TrimCut minor ''0123456789'' = []))"

subsection \<open>Body fields\<close>

definition ensureReasoningEffort :: "obj \<Rightarrow> string \<Rightarrow> obj" where
  "ensureReasoningEffort body effort =
     (let r0 = (case as_obj (oget body ''reasoning'') of Some m \<Rightarrow> m | None \<Rightarrow> []);
          r1 = (if stringField r0 ''effort'' = [] then oset r0 ''effort'' (JStr effort) else r0);
          r2 = (if stringField r1 ''summary'' = [] then oset r1 ''summary'' (JStr ''auto'') else r1)
      in oset body ''reasoning'' (JObj r2))"

definition reasoningEffortFromBody :: "obj \<Rightarrow> string" where
  "reasoningEffortFromBody body =
     (case as_obj (oget body ''reasoning'') of
        None \<Rightarrow> []
      | Some reasoning \<Rightarrow>
          (let effort = stringField reasoning ''effort'';
               normalized = normalizeReasoningEffort effort
           in if normalized \<noteq> [] then normalized else TrimSpace effort))"

definition extractServiceTier :: "obj option \<Rightarrow> string" where
  "extractServiceTier response =
     (case response of None \<Rightarrow> [] | Some m \<Rightarrow> ToLower (TrimSpace (stringField m ''service_tier'')))"

definition normalizeServiceTier :: "obj \<Rightarrow> string \<Rightarrow> string \<times> obj" where
  "normalizeServiceTier body model =
     (let raw0 = stringField body ''service_tier'';
          raw = (if raw0 = [] then stringField body ''serviceTier'' else raw0);
          n0 = ToLower (TrimSpace raw);
          n1 = (if n0 = ''ultra-fast'' \<or> n0 = ''ultra_fast'' then ''ultrafast'' else n0);
          (n2, body2) =
            (if n1 = ''fast'' then (''priority'', oset body ''service_tier'' (JStr ''priority''))
             else if n1 = ''ultrafast'' then
               (if \<not> supportsUltrafast model then ([], odel body ''service_tier'')
                else (n1, oset body ''service_tier'' (JStr n1)))
             else if n1 = ''priority'' \<or> n1 = ''flex'' then (n1, oset body ''service_tier'' (JStr n1))
             else if n1 = ''auto'' \<or> n1 = ''default'' then (n1, odel body ''service_tier'')
             else ([], odel body ''service_tier''))
      in (n2, odel body2 ''serviceTier''))"

definition demote_item :: "json \<Rightarrow> json" where
  "demote_item raw =
     (case raw of
        JObj item \<Rightarrow> (if stringField item ''role'' = ''system''
                      then JObj (oset item ''role'' (JStr ''developer'')) else raw)
      | _ \<Rightarrow> raw)"

definition demoteSystemRoles :: "json list \<Rightarrow> json list" where
  "demoteSystemRoles items = map demote_item items"

definition normalizeInput :: "obj \<Rightarrow> obj" where
  "normalizeInput body =
     (case oget body ''input'' of
        JStr input \<Rightarrow>
          (if input = [] then oset body ''input'' (JArr [])
           else oset body ''input''
                  (JArr [JObj [(''role'', JStr ''user''),
                               (''content'', JArr [JObj [(''type'', JStr ''input_text''), (''text'', JStr input)]])]]))
      | JArr input \<Rightarrow> oset body ''input'' (JArr (demoteSystemRoles input))
      | _ \<Rightarrow> body)"

definition input_items :: "obj \<Rightarrow> obj list" where
  "input_items body =
     (case oget body ''input'' of
        JArr items \<Rightarrow> concat (map (\<lambda>raw. case raw of JObj item \<Rightarrow> [item] | _ \<Rightarrow> []) items)
      | _ \<Rightarrow> [])"

definition hasSystemOrDeveloperMessage :: "obj \<Rightarrow> bool" where
  "hasSystemOrDeveloperMessage body =
     list_ex (\<lambda>item. stringField item ''role'' = ''system'' \<or> stringField item ''role'' = ''developer'')
       (input_items body)"

definition hasCompactionTrigger :: "obj \<Rightarrow> bool" where
  "hasCompactionTrigger body =
     list_ex (\<lambda>item. stringField item ''type'' = ''compaction_trigger'') (input_items body)"

definition rejected_always :: "string list" where
  "rejected_always =
     [''max_tokens'', ''max_output_tokens'', ''max_completion_tokens'', ''maxTokens'', ''maxOutputTokens'',
      ''maxCompletionTokens'', ''prompt_cache_retention'', ''promptCacheRetention'']"

definition rejected_tail :: "string list" where
  "rejected_tail =
     [''promptCacheOptions'', ''session_id'', ''sessionId'', ''conversation_id'', ''conversationId'',
      ''stream_options'', ''streamOptions'', ''user'', ''safety_identifier'', ''safetyIdentifier'',
      ''logprobs'', ''top_logprobs'', ''topLogprobs'']"

definition removeUnsupportedParams :: "obj \<Rightarrow> string \<Rightarrow> obj" where
  "removeUnsupportedParams body model =
     (let b1 = foldl odel body rejected_always;
          b2 = (if \<not> isGPT6Model model then odel b1 ''prompt_cache_options''
                else if \<not> ohas b1 ''prompt_cache_options'' then
                  (if ohas b1 ''promptCacheOptions''
                   then oset b1 ''prompt_cache_options'' (oget b1 ''promptCacheOptions'') else b1)
                else b1)
      in foldl odel b2 rejected_tail)"

subsection \<open>Session identity\<close>

fun first_nonempty :: "string list \<Rightarrow> string" where
  "first_nonempty [] = []"
| "first_nonempty (v # vs) = (if v \<noteq> [] then v else first_nonempty vs)"

definition session_fields :: "string list" where
  "session_fields = [''session_id'', ''sessionId'', ''conversation_id'', ''conversationId'', ''prompt_cache_key'']"

definition requestID :: "header \<Rightarrow> obj \<Rightarrow> string" where
  "requestID h body =
     first_nonempty
       (map (\<lambda>key. TrimSpace (Header_Get h key)) [''x-client-request-id'', ''x-request-id'', ''session_id''] @
        map (stringField body) session_fields)"

definition clientSessionID :: "header \<Rightarrow> string" where
  "clientSessionID h =
     first_nonempty (map (\<lambda>key. TrimSpace (Header_Get h key)) [''session-id'', ''session_id''])"

definition stablePromptCacheKey :: "header \<Rightarrow> obj \<Rightarrow> string" where
  "stablePromptCacheKey h body =
     (let v = first_nonempty (map (stringField body) session_fields)
      in if v \<noteq> [] then v else clientSessionID h)"

definition setCacheRoutingHeaders :: "header \<Rightarrow> header \<Rightarrow> string \<Rightarrow> header" where
  "setCacheRoutingHeaders dst h promptCacheKey =
     (let ident = valueOr (clientSessionID h) (TrimSpace promptCacheKey);
          d1 = (if ident \<noteq> [] then Header_Set dst ''session-id'' ident else dst)
      in foldl (\<lambda>d key. let value = TrimSpace (Header_Get h key)
                        in if value \<noteq> [] then Header_Set d key value else d)
           d1 [''thread-id'', ''x-codex-turn-state''])"

subsection \<open>The whole body\<close>

definition default_field :: "string \<Rightarrow> json \<Rightarrow> obj \<Rightarrow> obj" where
  "default_field k v body = (if ohas body k then body else oset body k v)"

text \<open>The part of \<open>normalizeResponsesBody\<close> up to \<open>removeUnsupportedParams\<close> \<open>\<dots>\<close>\<close>

definition normalize_model :: "obj \<Rightarrow> requestInfo \<times> obj" where
  "normalize_model body =
     (let model0 = stringField body ''model''
      in if model0 = [] then (empty_info, body)
         else (let (model, tierSuffix) = splitServiceTierSuffix model0;
                   b1 = (if tierSuffix \<noteq> [] \<and> stringField body ''service_tier'' = [] \<and>
                            stringField body ''serviceTier'' = []
                         then oset body ''service_tier'' (JStr tierSuffix) else body);
                   (normalized, effort) = normalizeFactoryModel model;
                   b2 = oset b1 ''model'' (JStr normalized);
                   b3 = (if effort \<noteq> [] then ensureReasoningEffort b2 effort else b2)
               in (empty_info\<lparr>ri_Model := model0, ri_NormalizedModel := normalized, ri_ReasoningEffort := effort\<rparr>, b3)))"

definition normalize_defaults :: "obj \<Rightarrow> obj" where
  "normalize_defaults b0 =
     (let b1 = (if stringField b0 ''instructions'' = [] \<and> \<not> hasSystemOrDeveloperMessage b0
                then oset b0 ''instructions'' (JStr defaultInstructions) else b0);
          b2 = default_field ''include'' (JStrs [''reasoning.encrypted_content'']) b1;
          b3 = default_field ''text'' (JObj [(''verbosity'', JStr ''low'')]) b2
      in if ohas b3 ''tools''
         then default_field ''parallel_tool_calls'' (JBool True) (default_field ''tool_choice'' (JStr ''auto'') b3)
         else b3)"

definition normalize_cache_key :: "config \<Rightarrow> string \<Rightarrow> requestInfo \<times> obj \<Rightarrow> requestInfo \<times> obj" where
  "normalize_cache_key cfg stableKey ib =
     (let (info, body) = ib
      in if \<not> ri_PromptCacheKeySet info then
           (let key = (if stableKey = [] then TrimSpace (cfg_promptCacheKey cfg) else stableKey)
            in if key \<noteq> []
               then (info\<lparr>ri_PromptCacheKeySet := True, ri_PromptCacheKey := key\<rparr>,
                     oset body ''prompt_cache_key'' (JStr key))
               else (info, body))
         else (info, body))"

text \<open>The fields of \<open>requestInfo\<close> read before and after the body is rewritten.\<close>

definition info_request :: "requestInfo \<Rightarrow> obj \<Rightarrow> requestInfo" where
  "info_request i1 b1 =
     (let i2 = (if ri_ReasoningEffort i1 = [] then i1\<lparr>ri_ReasoningEffort := reasoningEffortFromBody b1\<rparr> else i1);
          retention = valueOr (stringField b1 ''prompt_cache_retention'') (stringField b1 ''promptCacheRetention'')
      in if retention \<noteq> []
         then i2\<lparr>ri_PromptCacheRetentionSet := True, ri_PromptCacheRetention := retention\<rparr> else i2)"

definition info_wire :: "requestInfo \<Rightarrow> obj \<Rightarrow> obj \<Rightarrow> requestInfo" where
  "info_wire i4 b4 b5 =
     (let i5 = i4\<lparr>ri_CompactionTrigger := hasCompactionTrigger b4\<rparr>;
          current = stringField b5 ''prompt_cache_key'';
          i6 = (if current \<noteq> [] then i5\<lparr>ri_PromptCacheKeySet := True, ri_PromptCacheKey := current\<rparr> else i5)
      in (case as_bool (oget b5 ''stream'') of Some s \<Rightarrow> i6\<lparr>ri_Stream := s\<rparr> | None \<Rightarrow> i6))"

definition normalizeResponsesBody :: "obj \<Rightarrow> config \<Rightarrow> header \<Rightarrow> requestInfo \<times> obj" where
  "normalizeResponsesBody body cfg h =
     (let (i1, b1) = normalize_model body;
          i3 = info_request i1 b1;
          (tier, b2) = normalizeServiceTier b1 (ri_NormalizedModel i3);
          i4 = i3\<lparr>ri_ServiceTier := tier\<rparr>;
          b3 = default_field ''store'' (JBool False) b2;
          stableKey = stablePromptCacheKey h b3;
          b4 = normalizeInput (removeUnsupportedParams b3 (ri_NormalizedModel i4));
          b5 = normalize_defaults b4;
          i7 = info_wire i4 b4 b5
      in normalize_cache_key cfg stableKey (i7, b5))"

subsection \<open>Routing hints and upstream headers\<close>

definition hint_char :: "char \<Rightarrow> bool" where
  "hint_char c \<longleftrightarrow> \<not> (byte c \<le> 32 \<or> byte c \<ge> 127 \<or> c = CHR '';'' \<or> c = CHR ''='')"

definition validCodexRoutingHintComponent :: "string \<Rightarrow> bool" where
  "validCodexRoutingHintComponent value \<longleftrightarrow>
     \<not> (value = [] \<or> length value > 256) \<and> list_all hint_char value"

definition buildCodexRoutingHint :: "string \<Rightarrow> string \<Rightarrow> string" where
  "buildCodexRoutingHint model0 tier0 =
     (let model = TrimSpace model0; serviceTier = TrimSpace tier0
      in if \<not> validCodexRoutingHintComponent model \<or>
            (serviceTier \<noteq> [] \<and> \<not> validCodexRoutingHintComponent serviceTier)
         then []
         else ''model='' @ model @ (if serviceTier \<noteq> [] then '';tier='' @ serviceTier else []))"

definition hint_tier :: "string \<Rightarrow> string option" where
  "hint_tier component =
     (let c = ToLower (TrimSpace component)
      in if c = ''fast'' \<or> c = ''priority'' then Some ''priority''
         else if c = ''ultrafast'' \<or> c = ''ultra-fast'' \<or> c = ''ultra_fast'' then Some ''ultrafast''
         else if c = ''flex'' then Some ''flex''
         else if c = ''auto'' \<or> c = ''default'' then Some []
         else None)"

text \<open>The loop over the parts; the state is \<open>model\<close> and \<open>serviceTier\<close>.\<close>

fun hint_parts :: "string list \<Rightarrow> string \<times> string \<Rightarrow> (string \<times> string) option" where
  "hint_parts [] st = Some st"
| "hint_parts (part # parts) (model, serviceTier) =
     (let (key, component, ok) = Cut CHR ''='' (TrimSpace part)
      in if \<not> ok then None
         else if key = ''model'' then
           (if model \<noteq> [] then None
            else (let (comp, suffixTier) = splitServiceTierSuffix component;
                      m = fst (normalizeFactoryModel comp)
                  in hint_parts parts (m, if suffixTier \<noteq> [] \<and> serviceTier = [] then suffixTier else serviceTier)))
         else if key = ''tier'' then
           (if serviceTier \<noteq> [] then None
            else (case hint_tier component of None \<Rightarrow> None | Some t \<Rightarrow> hint_parts parts (model, t)))
         else None)"

definition normalizeCodexRoutingHint :: "string \<Rightarrow> string" where
  "normalizeCodexRoutingHint value =
     (let parts = Split CHR '';'' (TrimSpace value)
      in if length parts = 0 \<or> length parts > 2 then []
         else (case hint_parts parts ([], []) of
                 None \<Rightarrow> []
               | Some (model, serviceTier) \<Rightarrow>
                   buildCodexRoutingHint model
                     (if serviceTier = ''ultrafast'' \<and> \<not> supportsUltrafast model then [] else serviceTier)))"

definition headerHasToken :: "string \<Rightarrow> string \<Rightarrow> bool" where
  "headerHasToken value wanted = list_ex (\<lambda>token. EqualFold (TrimSpace token) wanted) (Split CHR '','' value)"

definition mergeHeaderToken :: "string \<Rightarrow> string \<Rightarrow> string" where
  "mergeHeaderToken value required =
     (if headerHasToken value required then value
      else if TrimSpace value = [] then required
      else value @ '', '' @ required)"

definition codexBetaFeaturesHeader :: string where
  "codexBetaFeaturesHeader = ''x-codex-beta-features''"

definition remoteCompactionFeature :: string where
  "remoteCompactionFeature = ''remote_compaction_v2''"

definition codexRoutingHintHeader :: string where
  "codexRoutingHintHeader = ''x-codex-routing-hint''"

definition Header_Values :: "header \<Rightarrow> string \<Rightarrow> string list" where
  "Header_Values h key = (case map_of h (CanonicalHeaderKey key) of None \<Rightarrow> [] | Some vs \<Rightarrow> vs)"

definition codexBetaFeatures :: "header option \<Rightarrow> bool \<Rightarrow> string" where
  "codexBetaFeatures r compaction =
     (let v0 = (case r of None \<Rightarrow> [] | Some h \<Rightarrow> Join (Header_Values h codexBetaFeaturesHeader) '', '');
          v1 = (if compaction then mergeHeaderToken v0 remoteCompactionFeature else v0)
      in TrimSpace v1)"

definition setClientIdentity :: "config \<Rightarrow> header \<Rightarrow> header" where
  "setClientIdentity cfg h =
     (let o0 = TrimSpace (cfg_upstreamOriginator cfg);
          originator = (if o0 = [] then ''codex-auth-broker'' else o0);
          h1 = Header_Set h ''originator'' originator
      in if originator = ''codex-auth-broker''
         then Header_Set h1 ''User-Agent'' (''codex-auth-broker/'' @ valueOr (cfg_version cfg) ''dev'')
         else Header_Set h1 ''User-Agent'' (originator @ ''/'' @ cfg_modelsClientVersion cfg))"

record accessMaterial =
  am_AccessToken :: string
  am_AccountID :: string

text \<open>The header block of the upstream request; \<open>http.NewRequestWithContext\<close> itself only fails on
  a malformed upstream URL.\<close>

definition buildUpstreamRequest :: "config \<Rightarrow> requestInfo \<Rightarrow> obj \<Rightarrow> header \<Rightarrow> accessMaterial \<Rightarrow> header" where
  "buildUpstreamRequest cfg info body r access =
     (let h1 = Header_Set [] ''Authorization'' (''Bearer '' @ am_AccessToken access);
          h2 = Header_Set h1 ''chatgpt-account-id'' (am_AccountID access);
          h3 = setClientIdentity cfg h2;
          hint = buildCodexRoutingHint (ri_NormalizedModel info) (stringField body ''service_tier'');
          h4 = (if hint \<noteq> [] then Header_Set h3 codexRoutingHintHeader hint else h3);
          h5 = Header_Set h4 ''OpenAI-Beta'' ''responses=experimental'';
          h6 = Header_Set h5 ''Content-Type'' ''application/json'';
          h7 = Header_Set h6 ''Accept''
                 (if ri_Stream info then ''text/event-stream'' else ''application/json, text/event-stream'');
          features = codexBetaFeatures (Some r) (ri_CompactionTrigger info);
          h8 = (if features \<noteq> [] then Header_Set h7 codexBetaFeaturesHeader features else h7);
          h9 = setCacheRoutingHeaders h8 r (ri_PromptCacheKey info);
          rid = requestID r body
      in if rid \<noteq> [] then Header_Set h9 ''x-client-request-id'' rid else h9)"

section \<open>What each stage does to a field\<close>

lemma foldl_odel [simp]:
  "ohas (foldl odel b ks) k \<longleftrightarrow> k \<notin> set ks \<and> ohas b k"
  "oget (foldl odel b ks) k = (if k \<in> set ks then JNull else oget b k)"
  by (induction ks arbitrary: b) auto

lemma oget_JNull: "\<not> ohas b k \<Longrightarrow> oget b k = JNull"
  by (simp add: ohas_def oget_def)

lemma stringField_cong: "oget b k = oget c k \<Longrightarrow> stringField b k = stringField c k"
  by (simp add: stringField_def)

lemma default_field [simp]:
  "ohas (default_field k v b) k' \<longleftrightarrow> k' = k \<or> ohas b k'"
  "k' \<noteq> k \<Longrightarrow> oget (default_field k v b) k' = oget b k'"
  by (auto simp: default_field_def)

definition defaulted_keys :: "string list" where
  "defaulted_keys = [''instructions'', ''include'', ''text'', ''tool_choice'', ''parallel_tool_calls'']"

lemma normalize_defaults_other:
  assumes "k \<notin> set defaulted_keys"
  shows "oget (normalize_defaults b) k = oget b k" "ohas (normalize_defaults b) k \<longleftrightarrow> ohas b k"
  using assms by (simp_all add: normalize_defaults_def defaulted_keys_def Let_def)

lemma normalize_defaults_mono: "ohas b k \<Longrightarrow> ohas (normalize_defaults b) k"
  by (simp add: normalize_defaults_def Let_def)

lemma normalize_defaults_present:
  "ohas (normalize_defaults b) ''include''" "ohas (normalize_defaults b) ''text''"
  "ohas b ''tools'' \<Longrightarrow> ohas (normalize_defaults b) ''tool_choice'' \<and> ohas (normalize_defaults b) ''parallel_tool_calls''"
  by (simp_all add: normalize_defaults_def Let_def)

lemma input_items_cong: "oget b ''input'' = oget c ''input'' \<Longrightarrow> input_items b = input_items c"
  by (simp add: input_items_def)

lemma normalize_defaults_instructions:
  "stringField (normalize_defaults b) ''instructions'' \<noteq> [] \<or> hasSystemOrDeveloperMessage (normalize_defaults b)"
proof (cases "stringField b ''instructions'' = [] \<and> \<not> hasSystemOrDeveloperMessage b")
  case True
  have "TrimSpace defaultInstructions \<noteq> []" by (simp add: defaultInstructions_def) code_simp
  moreover from True have "oget (normalize_defaults b) ''instructions'' = JStr defaultInstructions"
    by (simp add: normalize_defaults_def Let_def)
  ultimately show ?thesis by (simp add: stringField_def)
next
  case False
  then have "oget (normalize_defaults b) ''instructions'' = oget b ''instructions''"
    by (simp add: normalize_defaults_def Let_def del: not_Cons_self) blast
  moreover have "oget (normalize_defaults b) ''input'' = oget b ''input''"
    by (simp add: normalize_defaults_other defaulted_keys_def)
  ultimately show ?thesis using False
    by (auto simp: hasSystemOrDeveloperMessage_def dest: input_items_cong stringField_cong)
qed

lemma normalizeInput_other:
  "k \<noteq> ''input'' \<Longrightarrow> oget (normalizeInput b) k = oget b k"
  "ohas (normalizeInput b) k \<longleftrightarrow> ohas b k"
  by (auto simp: normalizeInput_def oget_JNull split: json.split)
    (auto simp: ohas_def oget_def split: option.splits)

lemma demote_item_role: "demote_item raw = JObj item \<Longrightarrow> stringField item ''role'' \<noteq> ''system''"
proof (cases raw)
  case (JObj m)
  assume "demote_item raw = JObj item"
  moreover have "TrimSpace ''developer'' \<noteq> ''system''" by code_simp
  ultimately show ?thesis
    using JObj by (auto simp: demote_item_def stringField_def split: if_splits)
qed (simp_all add: demote_item_def)

lemma normalizeInput_roles: "item \<in> set (input_items (normalizeInput b)) \<Longrightarrow> stringField item ''role'' \<noteq> ''system''"
proof (cases "oget b ''input''")
  case (JStr s)
  moreover have "TrimSpace ''user'' \<noteq> ''system''" by code_simp
  moreover assume "item \<in> set (input_items (normalizeInput b))"
  ultimately show ?thesis
    by (auto simp: normalizeInput_def input_items_def stringField_def oget_def split: if_splits)
next
  case (JArr xs)
  assume "item \<in> set (input_items (normalizeInput b))"
  then obtain raw where "demote_item raw = JObj item"
    using JArr by (auto simp: normalizeInput_def input_items_def demoteSystemRoles_def split: json.splits)
  then show ?thesis by (rule demote_item_role)
qed (simp_all add: normalizeInput_def input_items_def)

lemma normalizeInput_string: "oget (normalizeInput b) ''input'' \<noteq> JStr s"
  by (auto simp: normalizeInput_def split: json.split)

lemma removeUnsupported_gone:
  "k \<in> set rejected_always \<union> set rejected_tail \<Longrightarrow> \<not> ohas (removeUnsupportedParams b m) k"
proof -
  assume k: "k \<in> set rejected_always \<union> set rejected_tail"
  have "''prompt_cache_options'' \<notin> set rejected_always" by (simp add: rejected_always_def)
  then have "k \<in> set rejected_always \<Longrightarrow> k \<noteq> ''prompt_cache_options''" by metis
  with k show ?thesis
    by (cases "k \<in> set rejected_tail") (simp_all add: removeUnsupportedParams_def Let_def)
qed

lemma removeUnsupported_options:
  "ohas (removeUnsupportedParams b m) ''prompt_cache_options'' \<Longrightarrow> isGPT6Model m"
  by (auto simp: removeUnsupportedParams_def Let_def split: if_splits)

lemma removeUnsupported_other:
  assumes "k \<notin> set rejected_always \<union> set rejected_tail" "k \<noteq> ''prompt_cache_options''"
  shows "oget (removeUnsupportedParams b m) k = oget b k" "ohas (removeUnsupportedParams b m) k \<longleftrightarrow> ohas b k"
  using assms by (auto simp: removeUnsupportedParams_def Let_def)

section \<open>Service tiers\<close>

definition tier_ok :: "string \<Rightarrow> string \<Rightarrow> obj \<Rightarrow> bool" where
  "tier_ok model tier body \<longleftrightarrow>
     \<not> ohas body ''serviceTier'' \<and>
     (if tier \<in> {''priority'', ''flex'', ''ultrafast''} then oget body ''service_tier'' = JStr tier
      else tier \<in> {[], ''auto'', ''default''} \<and> \<not> ohas body ''service_tier'') \<and>
     (tier = ''ultrafast'' \<longrightarrow> supportsUltrafast model)"

lemma normalizeServiceTier_ok: "normalizeServiceTier body model = (tier, body') \<Longrightarrow> tier_ok model tier body'"
  by (auto simp: normalizeServiceTier_def Let_def tier_ok_def split: if_splits)

lemma normalizeServiceTier_other:
  assumes "normalizeServiceTier body model = (tier, body')" "k \<notin> {''service_tier'', ''serviceTier''}"
  shows "oget body' k = oget body k" "ohas body' k \<longleftrightarrow> ohas body k"
  using assms by (auto simp: normalizeServiceTier_def Let_def split: if_splits)

section \<open>Normalised bodies\<close>

text \<open>The parameters the Codex backend answers with an error, and what it relies on.\<close>

definition backend_rejects :: "string list" where
  "backend_rejects =
     [''max_tokens'', ''maxTokens'', ''max_output_tokens'', ''maxOutputTokens'', ''max_completion_tokens'',
      ''maxCompletionTokens'', ''prompt_cache_retention'', ''promptCacheRetention'', ''promptCacheOptions'',
      ''session_id'', ''sessionId'', ''conversation_id'', ''conversationId'', ''stream_options'',
      ''streamOptions'', ''user'', ''safety_identifier'', ''safetyIdentifier'', ''logprobs'',
      ''top_logprobs'', ''topLogprobs'']"

lemma backend_rejects_removed: "set backend_rejects = set rejected_always \<union> set rejected_tail"
  by (auto simp: backend_rejects_def rejected_always_def rejected_tail_def)

definition wire_ok :: "string \<Rightarrow> string \<Rightarrow> obj \<Rightarrow> bool" where
  "wire_ok model tier body \<longleftrightarrow>
     (\<forall>k\<in>set backend_rejects. \<not> ohas body k) \<and>
     (ohas body ''prompt_cache_options'' \<longrightarrow> isGPT6Model model) \<and>
     tier_ok model tier body \<and>
     ohas body ''store'' \<and> ohas body ''include'' \<and> ohas body ''text'' \<and>
     (ohas body ''tools'' \<longrightarrow> ohas body ''tool_choice'' \<and> ohas body ''parallel_tool_calls'') \<and>
     (\<forall>s. oget body ''input'' \<noteq> JStr s) \<and>
     (\<forall>item\<in>set (input_items body). stringField item ''role'' \<noteq> ''system'') \<and>
     (stringField body ''instructions'' \<noteq> [] \<or> hasSystemOrDeveloperMessage body)"

text \<open>The last two stages, on a body from which the rejected parameters are gone.\<close>

definition cleaned_body :: "string \<Rightarrow> string \<Rightarrow> obj \<Rightarrow> bool" where
  "cleaned_body model tier b \<longleftrightarrow>
     (\<forall>k\<in>set rejected_always \<union> set rejected_tail. \<not> ohas b k) \<and>
     (ohas b ''prompt_cache_options'' \<longrightarrow> isGPT6Model model) \<and> tier_ok model tier b \<and> ohas b ''store''"

lemma rejected_not_defaulted:
  "set (rejected_always @ rejected_tail) \<inter> set (defaulted_keys @ [''input'', ''prompt_cache_key'', ''store'',
     ''service_tier'', ''serviceTier'', ''prompt_cache_options'', ''tools'', ''stream'']) = {}"
  by (simp add: rejected_always_def rejected_tail_def defaulted_keys_def)

lemma rejected_other:
  assumes "k \<in> set rejected_always \<union> set rejected_tail"
  shows "k \<notin> set defaulted_keys" "k \<noteq> ''input''" "k \<noteq> ''prompt_cache_key''"
    "k \<notin> {''store'', ''service_tier'', ''serviceTier''}"
  using assms rejected_not_defaulted by auto

lemma kept_keys:
  "''store'' \<notin> set rejected_always \<union> set rejected_tail"
  "''service_tier'' \<notin> set rejected_always \<union> set rejected_tail"
  "''serviceTier'' \<notin> set rejected_always \<union> set rejected_tail"
  "''prompt_cache_key'' \<notin> set rejected_always \<union> set rejected_tail"
  using rejected_not_defaulted by auto

lemma tier_ok_cong:
  "oget b ''service_tier'' = oget c ''service_tier'' \<Longrightarrow> ohas b ''service_tier'' = ohas c ''service_tier'' \<Longrightarrow>
   ohas b ''serviceTier'' = ohas c ''serviceTier'' \<Longrightarrow> tier_ok m t b = tier_ok m t c"
  by (simp add: tier_ok_def)

lemma cleaned_removed:
  assumes "tier_ok model tier b" "ohas b ''store''"
  shows "cleaned_body model tier (normalizeInput (removeUnsupportedParams b model))"
proof -
  let ?b = "normalizeInput (removeUnsupportedParams b model)"
  have "tier_ok model tier ?b"
    using assms(1)
    by (subst tier_ok_cong [of _ b]) (simp_all add: normalizeInput_other removeUnsupported_other kept_keys [simplified])
  moreover have "ohas ?b ''store''"
    using assms(2) kept_keys by (simp add: normalizeInput_other removeUnsupported_other)
  ultimately show ?thesis
    using removeUnsupported_gone removeUnsupported_options
    by (simp add: cleaned_body_def normalizeInput_other)
qed

lemma wire_ok_defaults:
  assumes "cleaned_body model tier (normalizeInput b)"
  shows "wire_ok model tier (normalize_defaults (normalizeInput b))"
proof -
  let ?b = "normalize_defaults (normalizeInput b)"
  have other: "k \<notin> set defaulted_keys \<Longrightarrow> oget ?b k = oget (normalizeInput b) k \<and> ohas ?b k = ohas (normalizeInput b) k" for k
    by (simp add: normalize_defaults_other)
  have "\<forall>k\<in>set rejected_always \<union> set rejected_tail. \<not> ohas ?b k"
    using assms other rejected_other(1) unfolding cleaned_body_def by metis
  moreover have "tier_ok model tier ?b"
    using assms by (subst tier_ok_cong [of _ "normalizeInput b"]) (simp_all add: cleaned_body_def other defaulted_keys_def)
  moreover have "oget ?b ''input'' = oget (normalizeInput b) ''input''"
    by (simp add: other defaulted_keys_def)
  moreover from this have "input_items ?b = input_items (normalizeInput b)" by (rule input_items_cong)
  moreover have "ohas ?b ''tools'' = ohas (normalizeInput b) ''tools''"
    by (simp add: other defaulted_keys_def)
  moreover have "ohas ?b ''prompt_cache_options'' = ohas (normalizeInput b) ''prompt_cache_options''"
    by (simp add: other defaulted_keys_def)
  ultimately show ?thesis
    using assms normalizeInput_roles normalizeInput_string normalize_defaults_present
      normalize_defaults_instructions normalize_defaults_mono
    unfolding wire_ok_def backend_rejects_removed cleaned_body_def by simp
qed

lemma wire_ok_key:
  assumes "wire_ok model tier b" shows "wire_ok model tier (oset b ''prompt_cache_key'' v)"
proof -
  let ?b = "oset b ''prompt_cache_key'' v"
  have "\<forall>k\<in>set rejected_always \<union> set rejected_tail. \<not> ohas ?b k"
    using assms kept_keys(4) by (auto simp: wire_ok_def backend_rejects_removed)
  moreover have "tier_ok model tier ?b"
    using assms by (subst tier_ok_cong [of _ b]) (simp_all add: wire_ok_def backend_rejects_removed)
  moreover have "input_items ?b = input_items b" by (rule input_items_cong) simp
  moreover have "stringField ?b ''instructions'' = stringField b ''instructions''"
    by (rule stringField_cong) simp
  ultimately show ?thesis using assms by (simp add: wire_ok_def backend_rejects_removed hasSystemOrDeveloperMessage_def)
qed

lemma normalize_cache_key_wire:
  assumes "wire_ok model tier b" shows "wire_ok model tier (snd (normalize_cache_key cfg key (i, b)))"
  using assms wire_ok_key by (simp add: normalize_cache_key_def Let_def)

lemma normalize_cache_key_info:
  "ri_NormalizedModel (fst (normalize_cache_key cfg key (i, b))) = ri_NormalizedModel i"
  "ri_ServiceTier (fst (normalize_cache_key cfg key (i, b))) = ri_ServiceTier i"
  by (simp_all add: normalize_cache_key_def Let_def)

section \<open>The prompt cache key\<close>

lemma normalize_model_other:
  assumes "k \<notin> {''model'', ''service_tier'', ''reasoning''}"
  shows "oget (snd (normalize_model b)) k = oget b k" "ohas (snd (normalize_model b)) k \<longleftrightarrow> ohas b k"
  using assms
  by (simp_all add: normalize_model_def ensureReasoningEffort_def Let_def split: prod.split)

definition key_candidates :: "config \<Rightarrow> header \<Rightarrow> obj \<Rightarrow> string list" where
  "key_candidates cfg h body =
     stringField body ''prompt_cache_key'' # map (stringField body) session_fields @
     [clientSessionID h, TrimSpace (cfg_promptCacheKey cfg)]"

lemma first_nonempty_append: "first_nonempty (xs @ ys) = (if first_nonempty xs \<noteq> [] then first_nonempty xs else first_nonempty ys)"
  by (induction xs) auto

lemma stablePromptCacheKey_cong:
  "(\<And>k. k \<in> set session_fields \<Longrightarrow> oget b k = oget c k) \<Longrightarrow> stablePromptCacheKey h b = stablePromptCacheKey h c"
  unfolding stablePromptCacheKey_def by (metis (mono_tags, lifting) map_eq_conv stringField_cong)

lemma first_nonempty_trimmed: "\<forall>v\<in>set vs. TrimSpace v = v \<Longrightarrow> TrimSpace (first_nonempty vs) = first_nonempty vs"
  by (induction vs) (auto simp: TrimSpace_idem [of "[]", symmetric])

lemma stringField_trimmed: "TrimSpace (stringField b k) = stringField b k"
  by (simp add: stringField_def TrimSpace_idem split: json.split)

lemma stablePromptCacheKey_trimmed: "TrimSpace (stablePromptCacheKey h b) = stablePromptCacheKey h b"
  unfolding stablePromptCacheKey_def clientSessionID_def Let_def
  by (simp add: first_nonempty_trimmed stringField_trimmed TrimSpace_idem)

lemma session_fields_other:
  "k \<in> set session_fields \<Longrightarrow> k \<notin> {''model'', ''service_tier'', ''reasoning''} \<and> k \<notin> {''service_tier'', ''serviceTier''} \<and> k \<noteq> ''store''"
  by (auto simp: session_fields_def)

lemma info_request_sel [simp]:
  "ri_NormalizedModel (info_request i b) = ri_NormalizedModel i"
  "ri_PromptCacheKeySet (info_request i b) = ri_PromptCacheKeySet i"
  "ri_PromptCacheKey (info_request i b) = ri_PromptCacheKey i"
  by (simp_all add: info_request_def Let_def)

lemma info_wire_sel [simp]:
  "ri_NormalizedModel (info_wire i b c) = ri_NormalizedModel i"
  "ri_ServiceTier (info_wire i b c) = ri_ServiceTier i"
  "ri_PromptCacheKeySet (info_wire i b c) \<longleftrightarrow> stringField c ''prompt_cache_key'' \<noteq> [] \<or> ri_PromptCacheKeySet i"
  "ri_PromptCacheKey (info_wire i b c) =
     (if stringField c ''prompt_cache_key'' \<noteq> [] then stringField c ''prompt_cache_key'' else ri_PromptCacheKey i)"
  by (simp_all add: info_wire_def Let_def split: option.split)

lemma normalizeResponsesBody_stages:
  obtains tier b3 i7 where
    "tier_ok (ri_NormalizedModel i7) tier b3" "ohas b3 ''store''" "ri_ServiceTier i7 = tier"
    "\<And>k. k \<in> set session_fields \<Longrightarrow> oget b3 k = oget body k"
    "normalizeResponsesBody body cfg h =
       normalize_cache_key cfg (stablePromptCacheKey h b3)
         (i7, normalize_defaults (normalizeInput (removeUnsupportedParams b3 (ri_NormalizedModel i7))))"
    "ri_PromptCacheKeySet i7 \<longleftrightarrow> stringField body ''prompt_cache_key'' \<noteq> []"
    "ri_PromptCacheKey i7 = stringField body ''prompt_cache_key''"
proof -
  obtain i1 b1 where m: "normalize_model body = (i1, b1)" by (cases "normalize_model body")
  obtain tier b2 where t: "normalizeServiceTier b1 (ri_NormalizedModel i1) = (tier, b2)"
    by (cases "normalizeServiceTier b1 (ri_NormalizedModel i1)")
  let ?b3 = "default_field ''store'' (JBool False) b2"
  let ?b5 = "normalize_defaults (normalizeInput (removeUnsupportedParams ?b3 (ri_NormalizedModel i1)))"
  have tier: "tier_ok (ri_NormalizedModel i1) tier ?b3"
    using normalizeServiceTier_ok [OF t] by (subst tier_ok_cong [of _ b2]) simp_all
  have fields: "oget ?b3 k = oget body k" if "k \<in> set session_fields" for k
    using session_fields_other [OF that] normalizeServiceTier_other(1) [OF t] normalize_model_other(1) [of k body] m
    by simp
  have "oget ?b5 ''prompt_cache_key'' = oget ?b3 ''prompt_cache_key''"
    using kept_keys(4) by (simp add: normalize_defaults_other normalizeInput_other removeUnsupported_other defaulted_keys_def)
  then have current: "stringField ?b5 ''prompt_cache_key'' = stringField body ''prompt_cache_key''"
    using fields [of "''prompt_cache_key''"] by (intro stringField_cong) (simp add: session_fields_def)
  have unset: "ri_PromptCacheKeySet i1 = False \<and> ri_PromptCacheKey i1 = []"
    using m by (auto simp: normalize_model_def empty_info_def Let_def split: if_splits prod.splits)
  let ?i7 = "info_wire ((info_request i1 b1)\<lparr>ri_ServiceTier := tier\<rparr>)
    (normalizeInput (removeUnsupportedParams ?b3 (ri_NormalizedModel i1))) ?b5"
  have eq: "normalizeResponsesBody body cfg h = normalize_cache_key cfg (stablePromptCacheKey h ?b3) (?i7, ?b5)"
    by (simp add: normalizeResponsesBody_def m t Let_def)
  show thesis
    by (rule that [of ?i7 tier ?b3]) (use tier fields eq current unset in simp_all)
qed

lemma normalized_wire_ok:
  "let (info, wire) = normalizeResponsesBody body cfg h
   in wire_ok (ri_NormalizedModel info) (ri_ServiceTier info) wire"
proof -
  obtain tier b3 i7 where ok: "tier_ok (ri_NormalizedModel i7) tier b3" "ohas b3 ''store''" "ri_ServiceTier i7 = tier"
    and eq: "normalizeResponsesBody body cfg h =
       normalize_cache_key cfg (stablePromptCacheKey h b3)
         (i7, normalize_defaults (normalizeInput (removeUnsupportedParams b3 (ri_NormalizedModel i7))))"
    by (rule normalizeResponsesBody_stages [of body cfg h])
  show ?thesis
    using normalize_cache_key_wire [OF wire_ok_defaults [OF cleaned_removed [OF ok(1,2)]]] ok(3)
    by (simp add: eq split_def Let_def normalize_cache_key_info)
qed

section \<open>Properties\<close>


text \<open>The prompt cache key is the first of: the client's own key, a session or conversation
  id of the body, a session id header, the configured constant. Request-scoped ids never become
  the key, and the key of the log entry is the key sent upstream.\<close>

theorem prompt_cache_key_precedence:
  "let (info, wire) = normalizeResponsesBody body cfg h; key = first_nonempty (key_candidates cfg h body)
   in ri_PromptCacheKey info = key \<and> ri_PromptCacheKeySet info = (key \<noteq> []) \<and>
      stringField wire ''prompt_cache_key'' = key"
proof -
  obtain b3 i7 where
    fields: "\<And>k. k \<in> set session_fields \<Longrightarrow> oget b3 k = oget body k"
    and eq: "normalizeResponsesBody body cfg h =
       normalize_cache_key cfg (stablePromptCacheKey h b3)
         (i7, normalize_defaults (normalizeInput (removeUnsupportedParams b3 (ri_NormalizedModel i7))))"
    and set: "ri_PromptCacheKeySet i7 \<longleftrightarrow> stringField body ''prompt_cache_key'' \<noteq> []"
      "ri_PromptCacheKey i7 = stringField body ''prompt_cache_key''"
    by (rule normalizeResponsesBody_stages [of body cfg h]) (rule that)
  let ?b5 = "normalize_defaults (normalizeInput (removeUnsupportedParams b3 (ri_NormalizedModel i7)))"
  have "oget ?b5 ''prompt_cache_key'' = oget b3 ''prompt_cache_key''"
    using kept_keys(4) by (simp add: normalize_defaults_other normalizeInput_other removeUnsupported_other defaulted_keys_def)
  then have current: "stringField ?b5 ''prompt_cache_key'' = stringField body ''prompt_cache_key''"
    using fields [of "''prompt_cache_key''"] by (intro stringField_cong) (simp add: session_fields_def)
  have stable: "stablePromptCacheKey h b3 = stablePromptCacheKey h body"
    by (rule stablePromptCacheKey_cong) (rule fields)
  let ?key = "if stablePromptCacheKey h body = [] then TrimSpace (cfg_promptCacheKey cfg) else stablePromptCacheKey h body"
  have key: "first_nonempty (key_candidates cfg h body) =
      (if stringField body ''prompt_cache_key'' \<noteq> [] then stringField body ''prompt_cache_key'' else ?key)"
    by (simp add: key_candidates_def first_nonempty_append stablePromptCacheKey_def Let_def)
  have "TrimSpace ?key = ?key"
    by (simp add: stablePromptCacheKey_trimmed TrimSpace_idem)
  then have "stringField (oset ?b5 ''prompt_cache_key'' (JStr ?key)) ''prompt_cache_key'' = ?key"
    by (simp add: stringField_def)
  then show ?thesis
    by (simp add: eq key stable normalize_cache_key_def set current Let_def)
qed

text \<open>A routing hint cannot carry more than the broker put there: a hint that is sent splits at
  its semicolons into the model component and at most one tier component, and every byte of it is
  a printable non-space ASCII character.\<close>

theorem routing_hint_no_injection:
  assumes "buildCodexRoutingHint model tier = hint" "hint \<noteq> []"
  shows "Split CHR '';'' hint =
      (''model='' @ TrimSpace model) # (if TrimSpace tier = [] then [] else [''tier='' @ TrimSpace tier]) \<and>
    list_all (\<lambda>c. 32 < byte c \<and> byte c < 127) hint"
proof -
  let ?m = "TrimSpace model" and ?t = "TrimSpace tier"
  have valid: "list_all hint_char ?m" "?t \<noteq> [] \<Longrightarrow> list_all hint_char ?t"
    and hint: "hint = ''model='' @ ?m @ (if ?t \<noteq> [] then '';tier='' @ ?t else [])"
    using assms unfolding buildCodexRoutingHint_def validCodexRoutingHintComponent_def Let_def
    by (metis (no_types, lifting))+
  have chars: "list_all hint_char w \<Longrightarrow> CHR '';'' \<notin> set w \<and> list_all (\<lambda>c. 32 < byte c \<and> byte c < 127) w" for w
    unfolding list_all_iff hint_char_def not_le [symmetric] by blast
  have semi: "CHR '';'' \<notin> set (''model='' @ ?m)" "?t \<noteq> [] \<Longrightarrow> CHR '';'' \<notin> set (''tier='' @ ?t)"
    using chars valid by auto
  show ?thesis
  proof (cases "?t = []")
    case True
    with hint semi(1) chars [OF valid(1)] show ?thesis by (simp add: Split_sep)
  next
    case False
    then have eq: "hint = (''model='' @ ?m) @ CHR '';'' # (''tier='' @ ?t)" using hint by simp
    have "Split CHR '';'' hint = [''model='' @ ?m, ''tier='' @ ?t]"
      unfolding eq Split_sep(1) [OF semi(1)] Split_sep(2) [OF semi(2) [OF False]] ..
    moreover have "list_all (\<lambda>c. 32 < byte c \<and> byte c < 127) hint"
      unfolding eq using chars [OF valid(1)] chars [OF valid(2) [OF False]] by simp
    ultimately show ?thesis using False by (simp only: if_False)
  qed
qed

theorem routing_hint_no_injection_witness:
  "Split CHR '';'' ''model=gpt-6-astra;tier=ultrafast'' = [''model=gpt-6-astra'', ''tier=ultrafast'']"
proof -
  have "buildCodexRoutingHint '' gpt-6-astra'' ''ultrafast'' = ''model=gpt-6-astra;tier=ultrafast''" by code_simp
  moreover have "TrimSpace '' gpt-6-astra'' = ''gpt-6-astra''" "TrimSpace ''ultrafast'' = ''ultrafast''" by code_simp+
  ultimately show ?thesis using routing_hint_no_injection [of "'' gpt-6-astra''" "''ultrafast''"] by simp
qed

end
