(* ===== verification/UsageStream.thy ===== *)
theory UsageStream
  imports Sse Normalize
begin

text \<open>
  The consumers of upstream event streams in \<^verbatim>\<open>src/proxy.go\<close>: token usage extraction, the
  aggregation of a stream into one response object, the usage tracker and the copy loop
  of a streamed response. Each consumer is a function the framer of theory \<open>Sse\<close> runs.
  A stream that is copied is the list of its reads with the outcome of the client write.
\<close>

section \<open>Definitions\<close>

subsection \<open>Token usage\<close>

record tokenUsage =
  tu_InputTokens :: "int option"
  tu_OutputTokens :: "int option"
  tu_CachedTokens :: "int option"
  tu_CacheWriteTokens :: "int option"
  tu_ReasoningTokens :: "int option"
  tu_TotalTokens :: "int option"

definition no_usage :: tokenUsage where
  "no_usage = \<lparr>tu_InputTokens = None, tu_OutputTokens = None, tu_CachedTokens = None,
     tu_CacheWriteTokens = None, tu_ReasoningTokens = None, tu_TotalTokens = None\<rparr>"

fun firstNumericIntField :: "golib \<Rightarrow> obj \<Rightarrow> string list \<Rightarrow> int option" where
  "firstNumericIntField lib m [] = None"
| "firstNumericIntField lib m (key # keys) =
     (case numericField lib m key of
        None \<Rightarrow> firstNumericIntField lib m keys
      | Some value \<Rightarrow> Some (int64_of_float value))"

definition details_of :: "obj \<Rightarrow> string \<Rightarrow> string \<Rightarrow> obj option" where
  "details_of usage k1 k2 =
     (case as_obj (oget usage k1) of Some d \<Rightarrow> Some d | None \<Rightarrow> as_obj (oget usage k2))"

definition extractTokenUsage :: "golib \<Rightarrow> obj \<Rightarrow> tokenUsage" where
  "extractTokenUsage lib response =
     (case as_obj (oget response ''usage'') of
        None \<Rightarrow> no_usage
      | Some usage \<Rightarrow>
          (let summary = no_usage
             \<lparr>tu_InputTokens := firstNumericIntField lib usage [''input_tokens'', ''prompt_tokens''],
              tu_OutputTokens := firstNumericIntField lib usage [''output_tokens'', ''completion_tokens''],
              tu_TotalTokens := firstNumericIntField lib usage [''total_tokens'']\<rparr>;
               s1 = (case details_of usage ''input_tokens_details'' ''prompt_tokens_details'' of
                       None \<Rightarrow> summary
                     | Some details \<Rightarrow> summary
                         \<lparr>tu_CachedTokens := firstNumericIntField lib details [''cached_tokens''],
                          tu_CacheWriteTokens := firstNumericIntField lib details [''cache_write_tokens'']\<rparr>)
           in (case details_of usage ''output_tokens_details'' ''completion_tokens_details'' of
                 None \<Rightarrow> s1
               | Some details \<Rightarrow> s1
                   \<lparr>tu_ReasoningTokens := firstNumericIntField lib details [''reasoning_tokens'']\<rparr>)))"

text \<open>The log line about the usage of an answer.\<close>

definition logTokenValue :: "int option \<Rightarrow> string" where
  "logTokenValue value = (case value of None \<Rightarrow> ''unknown'' | Some n \<Rightarrow> if n < 0 then CHR ''-'' # itoa (nat (- n)) else itoa (nat n))"

definition logUsage :: "golib \<Rightarrow> obj \<Rightarrow> string \<times> tokenUsage" where
  "logUsage lib response =
     (let usage = extractTokenUsage lib response
      in (''response usage input_tokens='' @ logTokenValue (tu_InputTokens usage) @
          '' cached_tokens='' @ logTokenValue (tu_CachedTokens usage) @
          '' cache_write_tokens='' @ logTokenValue (tu_CacheWriteTokens usage) @
          '' total_tokens='' @ logTokenValue (tu_TotalTokens usage), usage))"

definition hasAny :: "tokenUsage \<Rightarrow> bool" where
  "hasAny u \<longleftrightarrow> tu_InputTokens u \<noteq> None \<or> tu_OutputTokens u \<noteq> None \<or> tu_CachedTokens u \<noteq> None \<or>
     tu_CacheWriteTokens u \<noteq> None \<or> tu_ReasoningTokens u \<noteq> None \<or> tu_TotalTokens u \<noteq> None"

subsection \<open>Aggregation\<close>

record aggregate_state =
  ag_final :: "obj option"
  ag_items :: "(int \<times> json) list"
  ag_retained :: nat

definition malformed :: sse_error where
  "malformed = ConsumerError ''malformed upstream SSE event''"

definition event_type :: "obj \<Rightarrow> string" where
  "event_type event = (case oget event ''type'' of JStr s \<Rightarrow> s | _ \<Rightarrow> [])"

definition aggregate_consume :: "golib \<Rightarrow> aggregate_state consumer" where
  "aggregate_consume lib data0 st =
     (let data = TrimSpace data0
      in if data = [] \<or> data = ''[DONE]'' then (None, st)
         else (case unmarshal_obj lib data of
                 None \<Rightarrow> (Some malformed, st)
               | Some event \<Rightarrow>
                   (let ty = event_type event
                    in if ty = ''response.output_item.done'' then
                         (let retained = ag_retained st + length data;
                              st1 = st\<lparr>ag_retained := retained\<rparr>
                          in if retained > maxRequestBodyBytes
                             then (Some (ConsumerError ''upstream response output exceeds size limit''), st1)
                             else (case oget event ''item'' of
                                     JObj item \<Rightarrow>
                                       (let index = (case numericField lib event ''output_index'' of
                                                       Some v \<Rightarrow> int64_of_float v | None \<Rightarrow> 0)
                                        in (None, st1\<lparr>ag_items := ag_items st1 @ [(index, JObj item)]\<rparr>))
                                   | _ \<Rightarrow> (None, st1)))
                       else if ty \<in> {''response.completed'', ''response.done'', ''response.incomplete'', ''response.failed''} then
                         (case as_obj (oget event ''response'') of
                            Some response \<Rightarrow> (Some SSEComplete, st\<lparr>ag_final := Some response\<rparr>)
                          | None \<Rightarrow> (Some (ConsumerError ''upstream terminal event missing response''), st))
                       else if ty = ''error'' then (Some (ConsumerError ''upstream stream failed''), st)
                       else (None, st))))"

definition aggregate_start :: aggregate_state where
  "aggregate_start = \<lparr>ag_final = None, ag_items = [], ag_retained = 0\<rparr>"

definition aggregate_output :: "obj \<Rightarrow> (int \<times> json) list \<Rightarrow> obj" where
  "aggregate_output final items =
     (let output = (case as_arr (oget final ''output'') of Some xs \<Rightarrow> xs | None \<Rightarrow> [])
      in if output = [] \<and> items \<noteq> []
         then oset final ''output'' (JArr (map snd (sort_key fst items)))
         else final)"

definition aggregateResponsesSSE ::
    "golib \<Rightarrow> string list \<Rightarrow> string \<times> bool \<Rightarrow> sse_error + obj" where
  "aggregateResponsesSSE lib chunks end =
     (case readSSE maxRequestBodyBytes (aggregate_consume lib) aggregate_start chunks end of
        (Some err, st) \<Rightarrow> Inl err
      | (None, st) \<Rightarrow>
          (case ag_final st of
             None \<Rightarrow> Inl (ConsumerError ''upstream stream did not include a final response'')
           | Some final \<Rightarrow> Inr (aggregate_output final (ag_items st))))"

subsection \<open>The usage tracker\<close>

record usage_state =
  us_usage :: tokenUsage
  us_serviceTier :: string
  us_terminal :: bool

definition tracker_consume :: "golib \<Rightarrow> usage_state consumer" where
  "tracker_consume lib data0 st =
     (if us_terminal st then (None, st)
      else (let data = TrimSpace data0
            in if data = [] \<or> data = ''[DONE]'' then (None, st)
               else (case unmarshal_obj lib data of
                       None \<Rightarrow> (Some malformed, st)
                     | Some event \<Rightarrow>
                         (let st1 = (case oget event ''response'' of
                                JObj response \<Rightarrow>
                                  (let usage = extractTokenUsage lib response;
                                       a = (if hasAny usage then st\<lparr>us_usage := usage\<rparr> else st);
                                       tier = extractServiceTier (Some response)
                                   in if tier \<noteq> [] then a\<lparr>us_serviceTier := tier\<rparr> else a)
                              | _ \<Rightarrow> st);
                              ty = stringField event ''type''
                          in if ty = ''response.completed'' \<or> ty = ''response.done''
                             then (None, st1\<lparr>us_terminal := True\<rparr>)
                             else if ty = ''response.incomplete''
                             then (Some (ConsumerError ''upstream response incomplete''), st1\<lparr>us_terminal := True\<rparr>)
                             else if ty = ''response.failed'' \<or> ty = ''error''
                             then (Some (ConsumerError ''upstream stream failed''), st1\<lparr>us_terminal := True\<rparr>)
                             else (None, st1)))))"

record sseUsageTracker =
  tk_framer :: "sseFramer option"
  tk_state :: usage_state
  tk_err :: "sse_error option"

definition new_tracker :: sseUsageTracker where
  "new_tracker =
     \<lparr>tk_framer = None, tk_state = \<lparr>us_usage = no_usage, us_serviceTier = [], us_terminal = False\<rparr>, tk_err = None\<rparr>"

definition tracker_feed :: "golib \<Rightarrow> string \<Rightarrow> sseUsageTracker \<Rightarrow> sseUsageTracker" where
  "tracker_feed lib chunk t =
     (if tk_err t \<noteq> None \<or> us_terminal (tk_state t) then t
      else (let framer = (case tk_framer t of Some f \<Rightarrow> f | None \<Rightarrow> new_framer maxRequestBodyBytes);
                (err, f', st') = sse_feed (tracker_consume lib) framer (tk_state t) chunk
            in t\<lparr>tk_framer := Some f', tk_state := st', tk_err := err\<rparr>))"

definition tracker_finish :: "golib \<Rightarrow> sseUsageTracker \<Rightarrow> sseUsageTracker" where
  "tracker_finish lib t =
     (case tk_framer t of
        Some f \<Rightarrow>
          (if tk_err t = None \<and> \<not> us_terminal (tk_state t)
           then (let (err, f', st') = sse_finish (tracker_consume lib) f (tk_state t)
                 in t\<lparr>tk_framer := Some f', tk_state := st', tk_err := err\<rparr>)
           else t)
      | None \<Rightarrow> t)"

datatype stream_end = ClientWriteFailed | UpstreamReadFailed | NoTerminalEvent | StreamError sse_error

definition copy_finish :: "golib \<Rightarrow> sseUsageTracker \<Rightarrow> stream_end option \<Rightarrow> tokenUsage \<times> string \<times> stream_end option" where
  "copy_finish lib t err =
     (let t' = tracker_finish lib t;
          e1 = (case tk_err t' of Some e \<Rightarrow> Some (StreamError e) | None \<Rightarrow> err);
          e2 = (if e1 = None \<and> \<not> us_terminal (tk_state t') then Some NoTerminalEvent else e1)
      in (us_usage (tk_state t'), us_serviceTier (tk_state t'), e2))"

text \<open>One read: its bytes, whether the client write succeeds, and the read error: \<open>None\<close>,
  or \<open>Some True\<close> for \<open>io.EOF\<close>. A script of reads ends with a read that has an error; the
  result also says which bytes were written to the client.\<close>

type_synonym copy_read = "string \<times> bool \<times> bool option"

fun copy_loop :: "golib \<Rightarrow> sseUsageTracker \<Rightarrow> copy_read list \<Rightarrow> string \<Rightarrow>
    ((tokenUsage \<times> string \<times> stream_end option) \<times> string) option" where
  "copy_loop lib t [] out = None"
| "copy_loop lib t ((chunk, wok, rerr) # reads) out =
     (let t1 = (if chunk \<noteq> [] then tracker_feed lib chunk t else t);
          out1 = (if chunk \<noteq> [] \<and> wok then out @ chunk else out)
      in if chunk \<noteq> [] \<and> \<not> wok then Some (copy_finish lib t1 (Some ClientWriteFailed), out1)
         else if chunk \<noteq> [] \<and> tk_err t1 \<noteq> None
         then Some (copy_finish lib t1 (map_option StreamError (tk_err t1)), out1)
         else if chunk \<noteq> [] \<and> us_terminal (tk_state t1) then Some (copy_finish lib t1 None, out1)
         else (case rerr of
                 None \<Rightarrow> copy_loop lib t1 reads out1
               | Some eof \<Rightarrow>
                   Some (copy_finish lib t1 (if \<not> eof then Some UpstreamReadFailed else None), out1)))"

definition copyStreamingResponse ::
    "golib \<Rightarrow> copy_read list \<Rightarrow> ((tokenUsage \<times> string \<times> stream_end option) \<times> string) option" where
  "copyStreamingResponse lib reads = copy_loop lib new_tracker reads []"

section \<open>Aggregation\<close>

lemma aggregate_bytes:
  assumes "concat chunks @ final = concat chunks' @ final'"
  shows "aggregateResponsesSSE lib chunks (final, eof) = aggregateResponsesSSE lib chunks' (final', eof)"
  using assms by (simp add: aggregateResponsesSSE_def readSSE_bytes)

text \<open>The state the consumer leaves behind once a terminal event completed it.\<close>

lemma aggregate_consume_cases:
  assumes "aggregate_consume lib d st = (err, st')"
  shows "(err = Some SSEComplete \<and> ag_final st' \<noteq> None) \<or> (err \<noteq> Some SSEComplete \<and> ag_final st' = ag_final st)"
  using assms
  by (auto simp: aggregate_consume_def Let_def malformed_def split: if_splits option.splits json.splits)

section \<open>Copied streams\<close>

text \<open>The tracker after the chunks of some reads.\<close>

definition track :: "golib \<Rightarrow> string list \<Rightarrow> sseUsageTracker \<Rightarrow> sseUsageTracker" where
  "track lib chunks t = foldl (\<lambda>t c. if c \<noteq> [] then tracker_feed lib c t else t) t chunks"

lemma copy_finish_err: "copy_finish lib t (Some e) \<noteq> (u, tier, None)"
  by (auto simp: copy_finish_def Let_def split: option.splits)

lemma copy_loop_run:
  "copy_loop lib t reads out = Some ((u, tier, err), out') \<Longrightarrow>
   \<exists>n. out' = out @ concat (take n (map fst reads)) \<and>
     (err = None \<longrightarrow> copy_finish lib (track lib (take n (map fst reads)) t) None = (u, tier, None))"
proof (induction reads arbitrary: t out)
  case (Cons rd reads)
  obtain chunk wok rerr where rd: "rd = (chunk, wok, rerr)" by (cases rd)
  let ?t1 = "if chunk \<noteq> [] then tracker_feed lib chunk t else t"
  let ?goal = "\<lambda>n. out' = out @ concat (take n (map fst (rd # reads))) \<and>
     (err = None \<longrightarrow> copy_finish lib (track lib (take n (map fst (rd # reads))) t) None = (u, tier, None))"
  consider "copy_finish lib ?t1 (Some ClientWriteFailed) = (u, tier, err)" "out' = out"
    | e where "copy_finish lib ?t1 (Some e) = (u, tier, err)" "out' = out @ chunk"
    | "copy_finish lib ?t1 None = (u, tier, err)" "out' = out @ chunk"
    | "copy_loop lib ?t1 reads (out @ chunk) = Some ((u, tier, err), out')"
    using Cons.prems by (auto simp: rd Let_def split: if_splits option.splits)
  then show ?case
  proof cases
    case 1
    then have "?goal 0" using copy_finish_err by auto
    then show ?thesis ..
  next
    case 2
    then have "?goal 1" using copy_finish_err by (auto simp: rd)
    then show ?thesis ..
  next
    case 3
    then have "?goal 1" by (simp add: rd track_def)
    then show ?thesis ..
  next
    case 4
    from Cons.IH [OF this] obtain n where "out' = (out @ chunk) @ concat (take n (map fst reads)) \<and>
     (err = None \<longrightarrow> copy_finish lib (track lib (take n (map fst reads)) ?t1) None = (u, tier, None))" ..
    then have "?goal (Suc n)" by (simp add: rd track_def)
    then show ?thesis ..
  qed
qed simp

lemma copy_finish_ok: "copy_finish lib t err = (u, tier, None) \<Longrightarrow> us_terminal (tk_state (tracker_finish lib t)) \<and> tk_err (tracker_finish lib t) = None"
  by (auto simp: copy_finish_def Let_def split: option.splits if_splits)

lemma copy_loop_returns: "\<exists>rd\<in>set reads. snd (snd rd) \<noteq> None \<Longrightarrow> copy_loop lib t reads out \<noteq> None"
proof (induction reads arbitrary: t out)
  case (Cons rd reads)
  obtain chunk wok rerr where rd: "rd = (chunk, wok, rerr)" by (cases rd)
  show ?case
  proof (cases rerr)
    case None
    then have "\<exists>rd\<in>set reads. snd (snd rd) \<noteq> None" using Cons.prems rd by auto
    then show ?thesis using Cons.IH None by (simp add: rd Let_def del: not_None_eq)
  qed (simp add: rd Let_def del: not_None_eq)
qed simp

section \<open>Properties\<close>

text \<open>Aggregating a streamed answer depends only on the bytes of the stream and on how it ended,
  not on how the network cut it into reads.\<close>

theorem aggregate_chunking_independent:
  "aggregateResponsesSSE lib chunks (final, eof) = aggregateResponsesSSE lib [] (concat chunks @ final, eof)"
  by (rule aggregate_bytes) simp

text \<open>A copied stream always ends once a read reports an error. The client has then received
  a run of whole upstream reads from the start of the stream, unchanged and in order, and the copy
  reports success exactly as the tracker judges those reads: it saw a completed response, no error,
  and the usage reported is the one it extracted.\<close>

theorem copyStreamingResponse_forwards:
  assumes "\<exists>rd\<in>set reads. snd (snd rd) \<noteq> None"
  shows "\<exists>u tier err out n. copyStreamingResponse lib reads = Some ((u, tier, err), out) \<and>
    out = concat (take n (map fst reads)) \<and>
    (err = None \<longrightarrow>
       (let t = tracker_finish lib (track lib (take n (map fst reads)) new_tracker)
        in us_terminal (tk_state t) \<and> tk_err t = None \<and> u = us_usage (tk_state t)))"
proof -
  obtain u tier err out where r: "copy_loop lib new_tracker reads [] = Some ((u, tier, err), out)"
    using copy_loop_returns [OF assms, of lib new_tracker "[]"] by auto
  obtain n where n: "out = concat (take n (map fst reads))"
    and ok: "err = None \<Longrightarrow> copy_finish lib (track lib (take n (map fst reads)) new_tracker) None = (u, tier, None)"
    using copy_loop_run [OF r] by auto
  have "err = None \<Longrightarrow> u = us_usage (tk_state (tracker_finish lib (track lib (take n (map fst reads)) new_tracker)))"
    using ok by (auto simp: copy_finish_def Let_def)
  with r n ok copy_finish_ok show ?thesis by (fastforce simp: copyStreamingResponse_def Let_def)
qed

theorem copyStreamingResponse_forwards_witness:
  "\<exists>u tier err out n. copyStreamingResponse witness_lib [(''data: do'', True, None), (''ne'', True, Some True)] =
      Some ((u, tier, err), out) \<and> out = concat (take n [''data: do'', ''ne''])"
proof -
  let ?reads = "[(''data: do'', True, None), (''ne'', True, Some True)]"
  have "\<exists>rd\<in>set ?reads. snd (snd rd) \<noteq> None" by auto
  from copyStreamingResponse_forwards [OF this, of witness_lib]
  show ?thesis by (simp only: list.map fst_conv) blast
qed

end
