(* ===== verification/Pricing.thy ===== *)
theory Pricing
  imports UsageStream
begin

text \<open>
  Cost estimates, \<^verbatim>\<open>src/pricing.go\<close>. Prices and costs are exact rationals, the values the
  code computes in binary floating point. A Go map is an association list in iteration
  order; the lemmas show that the lookup does not depend on that order.
\<close>

section \<open>Definitions\<close>

definition longContextThresholdTokens :: int where
  "longContextThresholdTokens = 272000"

record modelPricing =
  mp_InputPerM :: rat
  mp_CachedPerM :: rat
  mp_CacheWritePerM :: rat
  mp_OutputPerM :: rat
  mp_LongContextThreshold :: int
  mp_LongContextInputMultiplier :: rat
  mp_LongContextOutputMultiplier :: rat

record modelPricingOverride =
  ov_InputPerM :: "rat option"
  ov_CachedPerM :: "rat option"
  ov_CacheWritePerM :: "rat option"
  ov_OutputPerM :: "rat option"

definition longContextModelPricing :: "rat \<Rightarrow> rat \<Rightarrow> rat \<Rightarrow> rat \<Rightarrow> modelPricing" where
  "longContextModelPricing input cached cacheWrite outp =
     \<lparr>mp_InputPerM = input, mp_CachedPerM = cached, mp_CacheWritePerM = cacheWrite, mp_OutputPerM = outp,
      mp_LongContextThreshold = longContextThresholdTokens,
      mp_LongContextInputMultiplier = 2, mp_LongContextOutputMultiplier = 3/2\<rparr>"

definition flatModelPricing :: "rat \<Rightarrow> rat \<Rightarrow> rat \<Rightarrow> rat \<Rightarrow> modelPricing" where
  "flatModelPricing input cached cacheWrite outp =
     \<lparr>mp_InputPerM = input, mp_CachedPerM = cached, mp_CacheWritePerM = cacheWrite, mp_OutputPerM = outp,
      mp_LongContextThreshold = 0, mp_LongContextInputMultiplier = 0, mp_LongContextOutputMultiplier = 0\<rparr>"

type_synonym pricing_table = "(string \<times> modelPricing) list"

definition defaultModelPricing :: pricing_table where
  "defaultModelPricing =
     [(''gpt-6-astra'', flatModelPricing 10 1 10 50),
      (''gpt-6-sol'', flatModelPricing 2 (1/5) 2 10),
      (''gpt-6.1-sol'', flatModelPricing 2 (1/10) 2 10),
      (''gpt-6.1-terra'', flatModelPricing 1 (1/20) 1 5),
      (''gpt-6-luna'', flatModelPricing (1/10) (1/100) (1/10) (1/2)),
      (''gpt-5.6'', longContextModelPricing 4 (2/5) 4 20),
      (''gpt-5.6-sol'', longContextModelPricing 4 (2/5) 4 20),
      (''gpt-5.6-terra'', longContextModelPricing 2 (1/5) 2 12),
      (''gpt-5.6-luna'', longContextModelPricing (1/5) (1/50) (1/5) (6/5)),
      (''gpt-5.5'', longContextModelPricing 5 (1/2) 5 30),
      (''gpt-5.4'', longContextModelPricing (5/2) (1/4) (5/2) 15),
      (''gpt-5.4-mini'', flatModelPricing (3/4) (3/40) (3/4) (9/2)),
      (''gpt-5.3-codex'', flatModelPricing (7/4) (7/40) (7/4) 14)]"

subsection \<open>Overrides\<close>

datatype pricing_error = PricingJSON | EmptyModelID | DuplicateModelID string | NegativePrice string

fun normalize_overrides ::
    "(string \<times> modelPricingOverride) list \<Rightarrow> (string \<times> modelPricingOverride) list \<Rightarrow>
     pricing_error + (string \<times> modelPricingOverride) list" where
  "normalize_overrides [] acc = Inr acc"
| "normalize_overrides ((m, ov) # rest) acc =
     (let model = ToLower (TrimSpace m)
      in if model = [] then Inl EmptyModelID
         else if map_of acc model \<noteq> None then Inl (DuplicateModelID model)
         else normalize_overrides rest (AList.update model ov acc))"

definition zero_pricing :: modelPricing where
  "zero_pricing = flatModelPricing 0 0 0 0"

definition apply_override :: "pricing_table \<Rightarrow> string \<Rightarrow> modelPricingOverride \<Rightarrow> modelPricing" where
  "apply_override table model ov =
     (let p0 = (case map_of table model of Some p \<Rightarrow> p | None \<Rightarrow> zero_pricing);
          p1 = (case ov_InputPerM ov of Some v \<Rightarrow> p0\<lparr>mp_InputPerM := v\<rparr> | None \<Rightarrow> p0);
          p2 = (case ov_CachedPerM ov of Some v \<Rightarrow> p1\<lparr>mp_CachedPerM := v\<rparr> | None \<Rightarrow> p1);
          p3 = (case ov_CacheWritePerM ov of
                  Some v \<Rightarrow> p2\<lparr>mp_CacheWritePerM := v\<rparr>
                | None \<Rightarrow> if map_of table model = None then p2\<lparr>mp_CacheWritePerM := mp_InputPerM p2\<rparr> else p2)
      in (case ov_OutputPerM ov of Some v \<Rightarrow> p3\<lparr>mp_OutputPerM := v\<rparr> | None \<Rightarrow> p3))"

definition nonnegative :: "modelPricing \<Rightarrow> bool" where
  "nonnegative p \<longleftrightarrow> \<not> (mp_InputPerM p < 0 \<or> mp_CachedPerM p < 0 \<or> mp_CacheWritePerM p < 0 \<or> mp_OutputPerM p < 0)"

fun merge_overrides ::
    "(string \<times> modelPricingOverride) list \<Rightarrow> pricing_table \<Rightarrow> pricing_error + pricing_table" where
  "merge_overrides [] table = Inr table"
| "merge_overrides ((model, ov) # rest) table =
     (let pricing = apply_override table model ov
      in if \<not> nonnegative pricing then Inl (NegativePrice model)
         else merge_overrides rest (AList.update model pricing table))"

text \<open>\<open>env\<close> is the environment variable, \<open>decode\<close> the typed JSON decoding of its value.\<close>

definition loadModelPricing ::
    "(string \<Rightarrow> (string \<times> modelPricingOverride) list option) \<Rightarrow> string \<Rightarrow> pricing_error + pricing_table" where
  "loadModelPricing decode env =
     (let raw = TrimSpace env
      in if raw = [] then Inr defaultModelPricing
         else (case decode raw of
                 None \<Rightarrow> Inl PricingJSON
               | Some overrides \<Rightarrow>
                   (case normalize_overrides overrides [] of
                      Inl err \<Rightarrow> Inl err
                    | Inr normalized \<Rightarrow> merge_overrides normalized defaultModelPricing)))"

subsection \<open>Lookup\<close>

text \<open>\<open>time.Parse("2006-01-02", date)\<close> on ten bytes.\<close>

definition days_in :: "nat \<Rightarrow> nat \<Rightarrow> nat" where
  "days_in year month =
     (if month = 2 then (if year mod 4 = 0 \<and> (year mod 100 \<noteq> 0 \<or> year mod 400 = 0) then 29 else 28)
      else if month \<in> {4, 6, 9, 11} then 30 else 31)"

definition parses_as_date :: "string \<Rightarrow> bool" where
  "parses_as_date d \<longleftrightarrow>
     length d = 10 \<and> d ! 4 = CHR ''-'' \<and> d ! 7 = CHR ''-'' \<and>
     (case (decimal_val 0 (take 4 d), decimal_val 0 (take 2 (drop 5 d)), decimal_val 0 (take 2 (drop 8 d))) of
        (Some y, Some m, Some day) \<Rightarrow> 1 \<le> m \<and> m \<le> 12 \<and> 1 \<le> day \<and> day \<le> days_in y m
      | _ \<Rightarrow> False)"

definition isDatedModelSnapshot :: "string \<Rightarrow> string \<Rightarrow> bool" where
  "isDatedModelSnapshot model candidate =
     (let pre = candidate @ ''-''
      in if \<not> HasPrefix model pre then False
         else (let date = TrimPrefix model pre in if length date \<noteq> 10 then False else parses_as_date date))"

fun best_snapshot :: "string \<Rightarrow> pricing_table \<Rightarrow> string \<times> modelPricing \<Rightarrow> string \<times> modelPricing" where
  "best_snapshot model [] best = best"
| "best_snapshot model ((candidate, pricing) # table) best =
     best_snapshot model table
       (if isDatedModelSnapshot model candidate \<and> length candidate > length (fst best)
        then (candidate, pricing) else best)"

definition resolveModelPricing :: "pricing_table \<Rightarrow> string \<Rightarrow> string \<times> modelPricing \<times> bool" where
  "resolveModelPricing table model0 =
     (let model = TrimSpace (ToLower model0)
      in if model = [] then ([], zero_pricing, False)
         else (case map_of table model of
                 Some pricing \<Rightarrow> (model, pricing, True)
               | None \<Rightarrow>
                   (let (bestName, best) = best_snapshot model table ([], zero_pricing)
                    in (bestName, best, bestName \<noteq> []))))"

definition lookupModelPricing :: "pricing_table \<Rightarrow> string \<Rightarrow> modelPricing option" where
  "lookupModelPricing table model =
     (let (_, pricing, ok) = resolveModelPricing table model in if ok then Some pricing else None)"

subsection \<open>Estimates\<close>

definition serviceTierCostMultiplier :: "string \<Rightarrow> rat" where
  "serviceTierCostMultiplier serviceTier =
     (let t = ToLower (TrimSpace serviceTier)
      in if t = ''priority'' \<or> t = ''fast'' then 2 else if t = ''ultrafast'' then 6 else 1)"

definition token_count :: "int option \<Rightarrow> rat" where
  "token_count n = (case n of None \<Rightarrow> 0 | Some v \<Rightarrow> of_int v)"

definition estimatePricedUsage :: "modelPricing \<Rightarrow> string \<Rightarrow> tokenUsage \<Rightarrow> rat option" where
  "estimatePricedUsage pricing serviceTier usage =
     (if tu_InputTokens usage = None \<and> tu_OutputTokens usage = None then None
      else (let input = token_count (tu_InputTokens usage);
                outp = token_count (tu_OutputTokens usage);
                cached0 = token_count (tu_CachedTokens usage);
                write0 = token_count (tu_CacheWriteTokens usage);
                cached = (if cached0 > input then input else cached0);
                cacheWrite = (if write0 > input - cached then input - cached else write0);
                long = (case tu_InputTokens usage of
                          None \<Rightarrow> False
                        | Some n \<Rightarrow> mp_LongContextThreshold pricing > 0 \<and> n > mp_LongContextThreshold pricing);
                inputMultiplier = (if long then mp_LongContextInputMultiplier pricing else 1);
                outputMultiplier = (if long then mp_LongContextOutputMultiplier pricing else 1);
                c1 = ((input - cached - cacheWrite) * mp_InputPerM pricing +
                      cached * mp_CachedPerM pricing + cacheWrite * mp_CacheWritePerM pricing) * inputMultiplier;
                c2 = c1 + outp * mp_OutputPerM pricing * outputMultiplier
            in Some (c2 / 1000000 * serviceTierCostMultiplier serviceTier)))"

definition estimateCostUSDForTier :: "pricing_table \<Rightarrow> string \<Rightarrow> string \<Rightarrow> tokenUsage \<Rightarrow> rat option" where
  "estimateCostUSDForTier table model serviceTier usage =
     (case lookupModelPricing table model of
        None \<Rightarrow> None
      | Some pricing \<Rightarrow> estimatePricedUsage pricing serviceTier usage)"

definition estimateAPICostUSDForTier :: "pricing_table \<Rightarrow> string \<Rightarrow> string \<Rightarrow> tokenUsage \<Rightarrow> rat option" where
  "estimateAPICostUSDForTier table model serviceTier usage =
     (let (name, p0, ok) = resolveModelPricing table model
      in if \<not> ok then None
         else (let p1 = (if isGPT6Model name \<or> name = ''gpt-5.6'' \<or> HasPrefix name ''gpt-5.6-''
                         then p0\<lparr>mp_CacheWritePerM := mp_InputPerM p0 * (5/4)\<rparr> else p0);
                   p2 = (if isGPT6Model name
                         then p1\<lparr>mp_LongContextThreshold := longContextThresholdTokens,
                                 mp_LongContextInputMultiplier := 2, mp_LongContextOutputMultiplier := 3/2\<rparr>
                         else p1)
               in estimatePricedUsage p2 serviceTier usage))"

definition modelContextWindows :: "(string \<times> int) list" where
  "modelContextWindows =
     [(''gpt-6.1-sol'', 500000), (''gpt-6.1-terra'', 500000), (''gpt-6-astra'', 272000),
      (''gpt-6-sol'', 272000), (''gpt-6-luna'', 272000)]"

definition modelContextWindow :: "string \<Rightarrow> int option" where
  "modelContextWindow ident =
     (let model = ToLower (fst (normalizeFactoryModel ident))
      in (case map_of modelContextWindows model of
            Some window \<Rightarrow> Some window
          | None \<Rightarrow> map_option snd (find (\<lambda>(candidate, window). isDatedModelSnapshot model candidate) modelContextWindows)))"

section \<open>Lookup does not depend on iteration order\<close>

lemma isDatedModelSnapshot_eq:
  assumes "isDatedModelSnapshot model c" shows "c = take (length model - 11) model \<and> 11 \<le> length model"
  using assms
  by (auto simp: isDatedModelSnapshot_def Let_def TrimPrefix_def prefix_def split: if_splits)

lemma best_snapshot_none:
  "\<forall>c\<in>fst ` set table. \<not> isDatedModelSnapshot model c \<Longrightarrow> best_snapshot model table best = best"
  by (induction table arbitrary: best) auto

lemma best_snapshot_found:
  assumes "distinct (map fst table)" "(c, p) \<in> set table" "isDatedModelSnapshot model c" "c \<noteq> []"
  shows "best_snapshot model table ([], q) = (c, p)"
proof -
  have uniq: "isDatedModelSnapshot model d \<Longrightarrow> d = c" for d
    using isDatedModelSnapshot_eq assms(3) by metis
  from assms(2) obtain xs ys where t: "table = xs @ (c, p) # ys" by (auto simp: in_set_conv_decomp)
  have "\<forall>d\<in>fst ` set xs. \<not> isDatedModelSnapshot model d" "\<forall>d\<in>fst ` set ys. \<not> isDatedModelSnapshot model d"
    using assms(1) uniq unfolding t by auto
  moreover have "best_snapshot model (us @ vs) b = best_snapshot model vs (best_snapshot model us b)" for us vs b
    by (induction us arbitrary: b) auto
  ultimately show ?thesis
    using assms(3,4) by (simp add: t best_snapshot_none)
qed

text \<open>The lookup as a function of the table as a map: the model itself, or the name in front of
  a date.\<close>

definition snapshot_base :: "string \<Rightarrow> string" where
  "snapshot_base model = take (length model - 11) model"

definition priced_name :: "(string \<Rightarrow> modelPricing option) \<Rightarrow> string \<Rightarrow> string option" where
  "priced_name tbl model =
     (if model = [] then None
      else if tbl model \<noteq> None then Some model
      else if isDatedModelSnapshot model (snapshot_base model) \<and> snapshot_base model \<noteq> [] \<and>
              tbl (snapshot_base model) \<noteq> None
      then Some (snapshot_base model) else None)"

lemma best_snapshot_empty:
  assumes "\<forall>c\<in>fst ` set table. isDatedModelSnapshot model c \<longrightarrow> c = []"
  shows "fst (best_snapshot model table ([], q)) = []"
proof -
  have "fst b = [] \<Longrightarrow> fst (best_snapshot model table b) = []" for b
    using assms by (induction table arbitrary: b) auto
  then show ?thesis by simp
qed

lemma resolveModelPricing_name:
  assumes "distinct (map fst table)"
  shows "case priced_name (map_of table) (TrimSpace (ToLower model)) of
     None \<Rightarrow> \<not> snd (snd (resolveModelPricing table model))
   | Some name \<Rightarrow> resolveModelPricing table model = (name, the (map_of table name), True)"
proof -
  let ?m = "TrimSpace (ToLower model)"
  consider "?m = [] \<or> map_of table ?m \<noteq> None"
    | (found) c p where "?m \<noteq> []" "map_of table ?m = None" "(c, p) \<in> set table" "isDatedModelSnapshot ?m c" "c \<noteq> []"
    | (none) "?m \<noteq> []" "map_of table ?m = None" "\<forall>c\<in>fst ` set table. isDatedModelSnapshot ?m c \<longrightarrow> c = []"
    by fastforce
  then show ?thesis
  proof cases
    case 1
    then show ?thesis by (auto simp: priced_name_def resolveModelPricing_def Let_def)
  next
    case found
    have c: "c = snapshot_base ?m" using isDatedModelSnapshot_eq [OF found(4)] by (simp add: snapshot_base_def)
    have p: "map_of table c = Some p" using assms found(3) by simp
    show ?thesis
      using best_snapshot_found [OF assms found(3-5)] found c p
      by (simp add: priced_name_def resolveModelPricing_def Let_def)
  next
    case none
    then have "priced_name (map_of table) ?m = None"
      by (auto simp: priced_name_def dest: map_of_SomeD image_eqI [of _ fst])
        (metis (no_types, lifting) fst_conv image_eqI map_of_SomeD)
    then show ?thesis
      using none best_snapshot_empty [OF none(3), of zero_pricing]
      by (auto simp: resolveModelPricing_def Let_def split: prod.split)
  qed
qed

section \<open>Costs are nonnegative\<close>

definition sane_pricing :: "modelPricing \<Rightarrow> bool" where
  "sane_pricing p \<longleftrightarrow> nonnegative p \<and> 0 \<le> mp_LongContextInputMultiplier p \<and> 0 \<le> mp_LongContextOutputMultiplier p"

definition sane_table :: "pricing_table \<Rightarrow> bool" where
  "sane_table table \<longleftrightarrow> distinct (map fst table) \<and> (\<forall>m p. map_of table m = Some p \<longrightarrow> sane_pricing p)"

lemma sane_default: "sane_table defaultModelPricing"
proof -
  have "distinct (map fst defaultModelPricing)" by (simp add: defaultModelPricing_def)
  moreover have "\<forall>p\<in>snd ` set defaultModelPricing. sane_pricing p"
    by (simp add: defaultModelPricing_def sane_pricing_def nonnegative_def flatModelPricing_def longContextModelPricing_def)
  ultimately show ?thesis
    unfolding sane_table_def using map_of_SomeD by (metis image_eqI snd_conv)
qed

lemma apply_override_multipliers:
  "sane_table table \<Longrightarrow> 0 \<le> mp_LongContextInputMultiplier (apply_override table m ov) \<and>
     0 \<le> mp_LongContextOutputMultiplier (apply_override table m ov)"
proof -
  assume t: "sane_table table"
  let ?p0 = "case map_of table m of Some p \<Rightarrow> p | None \<Rightarrow> zero_pricing"
  have "0 \<le> mp_LongContextInputMultiplier ?p0 \<and> 0 \<le> mp_LongContextOutputMultiplier ?p0"
    using t by (cases "map_of table m") (auto simp: sane_table_def sane_pricing_def zero_pricing_def flatModelPricing_def
        simp del: map_of_eq_Some_iff)
  moreover have "mp_LongContextInputMultiplier (apply_override table m ov) = mp_LongContextInputMultiplier ?p0"
    "mp_LongContextOutputMultiplier (apply_override table m ov) = mp_LongContextOutputMultiplier ?p0"
    unfolding apply_override_def Let_def
    by (cases "ov_InputPerM ov"; cases "ov_CachedPerM ov"; cases "ov_CacheWritePerM ov"; cases "ov_OutputPerM ov"; simp)+
  ultimately show ?thesis by simp
qed

lemma sane_update: "sane_table table \<Longrightarrow> sane_pricing p \<Longrightarrow> sane_table (AList.update m p table)"
  by (simp add: sane_table_def distinct_update del: map_of_eq_Some_iff)

lemma merge_overrides_sane: "merge_overrides ovs table = Inr table' \<Longrightarrow> sane_table table \<Longrightarrow> sane_table table'"
proof (induction ovs table rule: merge_overrides.induct)
  case (2 model ov rest table)
  have p: "sane_pricing (apply_override table model ov)"
    using "2.prems" apply_override_multipliers by (auto simp: sane_pricing_def Let_def split: if_splits)
  then show ?case using 2 sane_update by (auto simp: Let_def split: if_splits)
qed simp

lemma loadModelPricing_sane: "loadModelPricing decode env = Inr table \<Longrightarrow> sane_table table"
  using sane_default merge_overrides_sane
  by (auto simp: loadModelPricing_def Let_def split: if_splits option.splits sum.splits)

definition nonneg_usage :: "tokenUsage \<Rightarrow> bool" where
  "nonneg_usage u \<longleftrightarrow>
     (\<forall>n\<in>{tu_InputTokens u, tu_OutputTokens u, tu_CachedTokens u, tu_CacheWriteTokens u}. 0 \<le> token_count n)"

lemma serviceTier_pos: "0 < serviceTierCostMultiplier t"
  by (simp add: serviceTierCostMultiplier_def Let_def)

lemma estimatePricedUsage_nonneg:
  assumes "sane_pricing p" "nonneg_usage u" "estimatePricedUsage p t u = Some c" shows "0 \<le> c"
proof -
  define i where "i = token_count (tu_InputTokens u)"
  define ca where "ca = min (token_count (tu_CachedTokens u)) i"
  define cw where "cw = min (token_count (tu_CacheWriteTokens u)) (i - ca)"
  have nn: "0 \<le> i" "0 \<le> ca" "0 \<le> cw" "0 \<le> i - ca - cw"
    using assms(2) by (auto simp: nonneg_usage_def i_def ca_def cw_def)
  have pos: "0 \<le> mp_InputPerM p" "0 \<le> mp_CachedPerM p" "0 \<le> mp_CacheWritePerM p" "0 \<le> mp_OutputPerM p"
    using assms(1) by (auto simp: sane_pricing_def nonnegative_def)
  obtain a b where ab: "0 \<le> a" "0 \<le> b" "c = (((i - ca - cw) * mp_InputPerM p + ca * mp_CachedPerM p + cw * mp_CacheWritePerM p) * a +
      token_count (tu_OutputTokens u) * mp_OutputPerM p * b) / 1000000 * serviceTierCostMultiplier t"
  proof -
    let ?long = "case tu_InputTokens u of None \<Rightarrow> False
      | Some n \<Rightarrow> mp_LongContextThreshold p > 0 \<and> n > mp_LongContextThreshold p"
    have "ca = (if token_count (tu_CachedTokens u) > i then i else token_count (tu_CachedTokens u))"
      "cw = (if token_count (tu_CacheWriteTokens u) > i - ca then i - ca else token_count (tu_CacheWriteTokens u))"
      by (auto simp: ca_def cw_def min_def)
    then show thesis
      using assms(1,3)
      by (intro that [of "if ?long then mp_LongContextInputMultiplier p else 1"
            "if ?long then mp_LongContextOutputMultiplier p else 1"])
        (auto simp: estimatePricedUsage_def Let_def sane_pricing_def i_def split: if_splits)
  qed
  have "0 \<le> token_count (tu_OutputTokens u)" using assms(2) by (simp add: nonneg_usage_def)
  then show ?thesis
    unfolding ab(3) using nn pos ab(1,2) serviceTier_pos [of t]
    by (intro mult_nonneg_nonneg divide_nonneg_pos add_nonneg_nonneg) (auto intro: less_imp_le)
qed

section \<open>Properties\<close>

text \<open>Looking up the price of a model does not depend on the iteration order of the Go map: two
  tables with the same entries resolve every model to the same name and price, or both to none.\<close>

theorem pricing_lookup_order_independent:
  assumes "distinct (map fst t1)" "distinct (map fst t2)" "map_of t1 = map_of t2"
  shows "lookupModelPricing t1 model = lookupModelPricing t2 model"
  using resolveModelPricing_name [OF assms(1), of model] resolveModelPricing_name [OF assms(2), of model] assms(3)
  by (auto simp: lookupModelPricing_def Let_def split: option.splits prod.splits)

theorem pricing_lookup_order_independent_witness:
  "lookupModelPricing [(''a'', zero_pricing), (''b'', flatModelPricing 1 1 1 1)] ''b-2026-03-05'' =
   lookupModelPricing [(''b'', flatModelPricing 1 1 1 1), (''a'', zero_pricing)] ''b-2026-03-05''"
  by (rule pricing_lookup_order_independent) (auto simp: fun_eq_iff)

text \<open>With any price table the broker accepts at startup, the cost estimated for a request whose
  token counts are not negative is not negative, whatever its model and service tier.\<close>

theorem cost_estimate_nonnegative:
  assumes "loadModelPricing decode env = Inr table" "nonneg_usage usage"
    and "estimateCostUSDForTier table model tier usage = Some cost"
  shows "0 \<le> cost"
proof -
  note sane = loadModelPricing_sane [OF assms(1)]
  obtain p where p: "lookupModelPricing table model = Some p" "estimatePricedUsage p tier usage = Some cost"
    using assms(3) by (auto simp: estimateCostUSDForTier_def split: option.splits)
  have "distinct (map fst table)" using sane by (simp add: sane_table_def)
  from resolveModelPricing_name [OF this, of model] p(1)
  obtain name where "map_of table name = Some p"
    by (auto simp: lookupModelPricing_def Let_def priced_name_def split: option.splits prod.splits if_splits)
  then have "sane_pricing p" using sane unfolding sane_table_def by blast
  then show ?thesis using assms(2) p(2) by (rule estimatePricedUsage_nonneg)
qed

theorem cost_estimate_nonnegative_witness:
  "0 \<le> the (estimateCostUSDForTier defaultModelPricing ''gpt-6-astra'' ''fast''
     (no_usage\<lparr>tu_InputTokens := Some 1000, tu_CachedTokens := Some 400\<rparr>))"
proof -
  let ?u = "no_usage\<lparr>tu_InputTokens := Some 1000, tu_CachedTokens := Some 400\<rparr>"
  have load: "loadModelPricing (\<lambda>_. None) [] = Inr defaultModelPricing"
    by (simp add: loadModelPricing_def)
  have u: "nonneg_usage ?u" by (simp add: nonneg_usage_def no_usage_def token_count_def)
  have r: "resolveModelPricing defaultModelPricing ''gpt-6-astra'' = (''gpt-6-astra'', flatModelPricing 10 1 10 50, True)"
    by code_simp
  have est: "estimateCostUSDForTier defaultModelPricing ''gpt-6-astra'' ''fast'' ?u =
      Some (the (estimateCostUSDForTier defaultModelPricing ''gpt-6-astra'' ''fast'' ?u))"
    by (simp add: estimateCostUSDForTier_def lookupModelPricing_def r estimatePricedUsage_def Let_def)
  show ?thesis by (rule cost_estimate_nonnegative [OF load u est])
qed

end
