(* ===== verification/RequestLog.thy ===== *)
theory RequestLog
  imports Pricing Keys
begin

text \<open>
  Entries of the request history, \<^verbatim>\<open>src/requests.go\<close>: the entry, its sanitisation, and the
  marks a handler puts on its pending entry. A pending entry is an option, \<open>None\<close> where the
  source has a nil pointer because the history is disabled. The lemmas show that every text
  field of a sanitised entry is bounded and printable and that a prompt cache key is only
  ever kept as a fingerprint.
\<close>

section \<open>Definitions\<close>

record requestLogEntry =
  e_ID :: int
  e_StartedAt :: string
  e_DurationMS :: int
  e_Method :: string
  e_Path :: string
  e_Client :: string
  e_ClientName :: string
  e_User :: string
  e_RequestID :: string
  e_Model :: string
  e_NormalizedModel :: string
  e_ReasoningEffort :: string
  e_ServiceTier :: string
  e_AppliedServiceTier :: string
  e_Stream :: bool
  e_Status :: nat
  e_UpstreamStatus :: nat
  e_UpstreamHeaders :: "(string \<times> string) list"
  e_Error :: string
  e_PromptCacheKeySet :: bool
  e_PromptCacheKey :: string
  e_PromptCacheRetentionSet :: bool
  e_PromptCacheRetention :: string
  e_InputCount :: nat
  e_ToolCount :: nat
  e_InputTokens :: "int option"
  e_OutputTokens :: "int option"
  e_CachedTokens :: "int option"
  e_CacheWriteTokens :: "int option"
  e_TotalTokens :: "int option"
  e_CostUSD :: "rat option"
  e_APICostUSD :: "rat option"

definition empty_entry :: requestLogEntry where
  "empty_entry =
     \<lparr>e_ID = 0, e_StartedAt = [], e_DurationMS = 0, e_Method = [], e_Path = [], e_Client = [],
      e_ClientName = [], e_User = [], e_RequestID = [], e_Model = [], e_NormalizedModel = [],
      e_ReasoningEffort = [], e_ServiceTier = [], e_AppliedServiceTier = [], e_Stream = False,
      e_Status = 0, e_UpstreamStatus = 0, e_UpstreamHeaders = [], e_Error = [],
      e_PromptCacheKeySet = False, e_PromptCacheKey = [], e_PromptCacheRetentionSet = False,
      e_PromptCacheRetention = [], e_InputCount = 0, e_ToolCount = 0, e_InputTokens = None,
      e_OutputTokens = None, e_CachedTokens = None, e_CacheWriteTokens = None, e_TotalTokens = None,
      e_CostUSD = None, e_APICostUSD = None\<rparr>"

subsection \<open>Sanitisation\<close>

definition clean :: "string \<Rightarrow> nat \<Rightarrow> string" where
  "clean value mx = truncateLogField (redactTokenLikeText value) mx"

definition sanitize_headers :: "golib \<Rightarrow> (string \<times> string) list \<Rightarrow> (string \<times> string) list" where
  "sanitize_headers lib hs =
     diagnosticUpstreamHeaders lib
       (map (\<lambda>(k, v). (k, [v])) (filter (\<lambda>(k, v). map_of diagnosticHeaderNames (ToLower k) \<noteq> None) hs))"

definition sanitizeRequestLogEntry :: "golib \<Rightarrow> requestLogEntry \<Rightarrow> requestLogEntry" where
  "sanitizeRequestLogEntry lib e0 =
     (let e = e0
        \<lparr>e_UpstreamHeaders := sanitize_headers lib (e_UpstreamHeaders e0),
         e_Method := clean (e_Method e0) 16,
         e_Path := clean (e_Path e0) 256,
         e_Client := clean (e_Client e0) 128,
         e_ClientName := clean (e_ClientName e0) 128,
         e_User := clean (e_User e0) maxBrokerUserLen,
         e_RequestID := clean (e_RequestID e0) 256,
         e_Model := clean (e_Model e0) 256,
         e_NormalizedModel := clean (e_NormalizedModel e0) 256,
         e_ReasoningEffort := clean (e_ReasoningEffort e0) 64,
         e_ServiceTier := clean (e_ServiceTier e0) 64,
         e_AppliedServiceTier := clean (e_AppliedServiceTier e0) 64,
         e_Error := clean (e_Error e0) 300\<rparr>;
          key = (if e_PromptCacheKey e \<noteq> [] \<and> \<not> isRequestLogFingerprint (e_PromptCacheKey e)
                 then ''sha256:'' @ secretFingerprint lib (e_PromptCacheKey e) else e_PromptCacheKey e)
      in e\<lparr>e_PromptCacheKey := clean key 64,
           e_PromptCacheRetention := clean (e_PromptCacheRetention e) 64\<rparr>)"

definition priceEntry :: "pricing_table option \<Rightarrow> requestLogEntry \<Rightarrow> requestLogEntry" where
  "priceEntry pricing e =
     (case pricing of
        None \<Rightarrow> e
      | Some table \<Rightarrow>
          (let model = valueOr (e_NormalizedModel e) (e_Model e);
               tier = valueOr (e_AppliedServiceTier e) (e_ServiceTier e);
               usage = no_usage
                 \<lparr>tu_InputTokens := e_InputTokens e, tu_OutputTokens := e_OutputTokens e,
                  tu_CachedTokens := e_CachedTokens e, tu_CacheWriteTokens := e_CacheWriteTokens e,
                  tu_TotalTokens := e_TotalTokens e\<rparr>
           in e\<lparr>e_CostUSD := estimateCostUSDForTier table model tier usage,
                e_APICostUSD := estimateAPICostUSDForTier table model tier usage\<rparr>))"

subsection \<open>Pending entries\<close>

record pendingRequestLog =
  pl_started :: gotime
  pl_Entry :: requestLogEntry

type_synonym pending = "pendingRequestLog option"

definition on_entry :: "(requestLogEntry \<Rightarrow> requestLogEntry) \<Rightarrow> pending \<Rightarrow> pending" where
  "on_entry f = map_option (\<lambda>l. l\<lparr>pl_Entry := f (pl_Entry l)\<rparr>)"

definition markError :: "nat \<Rightarrow> string \<Rightarrow> pending \<Rightarrow> pending" where
  "markError status message = on_entry (\<lambda>e. e\<lparr>e_Status := status, e_Error := message\<rparr>)"

definition markStatus :: "nat \<Rightarrow> pending \<Rightarrow> pending" where
  "markStatus status = on_entry (\<lambda>e. e\<lparr>e_Status := status\<rparr>)"

definition markUpstreamStatus :: "nat \<Rightarrow> pending \<Rightarrow> pending" where
  "markUpstreamStatus status = on_entry (\<lambda>e. e\<lparr>e_UpstreamStatus := status\<rparr>)"

definition markUpstreamHeaders :: "(string \<times> string) list \<Rightarrow> pending \<Rightarrow> pending" where
  "markUpstreamHeaders headers = on_entry (\<lambda>e. e\<lparr>e_UpstreamHeaders := headers\<rparr>)"

definition markStreamError :: "string \<Rightarrow> pending \<Rightarrow> pending" where
  "markStreamError message = on_entry (\<lambda>e. e\<lparr>e_Error := message\<rparr>)"

definition brokerUserHeader :: string where
  "brokerUserHeader = ''X-Broker-User''"

definition array_count :: "json \<Rightarrow> nat \<Rightarrow> nat" where
  "array_count v n = (case v of JArr xs \<Rightarrow> length xs | _ \<Rightarrow> n)"

definition markRequest :: "golib \<Rightarrow> obj \<Rightarrow> requestInfo \<Rightarrow> header \<Rightarrow> pending \<Rightarrow> pending" where
  "markRequest lib body info r = on_entry (\<lambda>e.
     (let user = extractBrokerUser (Header_Get r brokerUserHeader) (ri_PromptCacheKey info);
          rid = requestID r body
      in e\<lparr>e_Model := ri_Model info,
           e_NormalizedModel := ri_NormalizedModel info,
           e_ReasoningEffort := ri_ReasoningEffort info,
           e_ServiceTier := ri_ServiceTier info,
           e_Stream := ri_Stream info,
           e_PromptCacheKeySet := ri_PromptCacheKeySet info,
           e_PromptCacheKey := (if ri_PromptCacheKey info \<noteq> []
                                then ''sha256:'' @ secretFingerprint lib (ri_PromptCacheKey info)
                                else e_PromptCacheKey e),
           e_PromptCacheRetentionSet := ri_PromptCacheRetentionSet info,
           e_PromptCacheRetention := ri_PromptCacheRetention info,
           e_User := (if user \<noteq> [] then user else e_User e),
           e_RequestID := (if rid \<noteq> [] then rid else e_RequestID e),
           e_InputCount := array_count (oget body ''input'') (e_InputCount e),
           e_ToolCount := array_count (oget body ''tools'') (e_ToolCount e)\<rparr>))"

definition markImageRequest :: "string \<Rightarrow> bool \<Rightarrow> nat \<Rightarrow> pending \<Rightarrow> pending" where
  "markImageRequest model stream inputCount = on_entry (\<lambda>e.
     e\<lparr>e_Model := model, e_NormalizedModel := model, e_Stream := stream,
       e_InputCount := inputCount, e_ToolCount := 1\<rparr>)"

definition markAppliedServiceTier :: "string \<Rightarrow> pending \<Rightarrow> pending" where
  "markAppliedServiceTier tier = on_entry (\<lambda>e. e\<lparr>e_AppliedServiceTier := tier\<rparr>)"

definition markUsage :: "tokenUsage \<Rightarrow> pending \<Rightarrow> pending" where
  "markUsage usage = on_entry (\<lambda>e.
     e\<lparr>e_InputTokens := tu_InputTokens usage, e_OutputTokens := tu_OutputTokens usage,
       e_CachedTokens := tu_CachedTokens usage, e_CacheWriteTokens := tu_CacheWriteTokens usage,
       e_TotalTokens := tu_TotalTokens usage\<rparr>)"

definition requestIDFromHeaders :: "header \<Rightarrow> string" where
  "requestIDFromHeaders r =
     first_nonempty (map (\<lambda>key. TrimSpace (Header_Get r key)) [''x-client-request-id'', ''x-request-id'', ''session_id''])"

record http_request =
  rq_Method :: string
  rq_Path :: string
  rq_RemoteAddr :: string
  rq_Header :: header

text \<open>\<open>split_host\<close> is \<open>net.SplitHostPort\<close>, \<open>format_time\<close> the RFC 3339 formatting of the start time,
  \<open>auth\<close> the authentication result of the request.\<close>

definition clientAddress :: "(string \<Rightarrow> string option) \<Rightarrow> string \<Rightarrow> string" where
  "clientAddress split_host remote = (case split_host remote of Some host \<Rightarrow> host | None \<Rightarrow> remote)"

definition beginRequestLog ::
    "(string \<Rightarrow> string option) \<Rightarrow> (gotime \<Rightarrow> string) \<Rightarrow> int \<Rightarrow> gotime \<Rightarrow> clientIdentity option \<times> bool \<Rightarrow>
     http_request \<Rightarrow> pending" where
  "beginRequestLog split_host format_time limit now auth r =
     (if limit = 0 then None
      else (let e0 = empty_entry
              \<lparr>e_StartedAt := format_time now, e_Method := rq_Method r, e_Path := rq_Path r,
               e_Client := clientAddress split_host (rq_RemoteAddr r),
               e_RequestID := requestIDFromHeaders (rq_Header r)\<rparr>;
                e1 = (if snd auth
                      then e0\<lparr>e_ClientName := (case fst auth of Some c \<Rightarrow> id_Name c | None \<Rightarrow> []),
                              e_User := sanitizeBrokerUser (Header_Get (rq_Header r) brokerUserHeader)\<rparr>
                      else e0)
            in Some \<lparr>pl_started = now, pl_Entry = e1\<rparr>))"

text \<open>The entry \<open>finish\<close> hands to the store; \<open>Milliseconds\<close> truncates toward zero.\<close>

definition finish_entry :: "gotime \<Rightarrow> pendingRequestLog \<Rightarrow> requestLogEntry" where
  "finish_entry now l =
     (let e = pl_Entry l;
          e1 = (if e_Status e = 0 then e\<lparr>e_Status := 200\<rparr> else e);
          d = time_sub now (pl_started l)
      in e1\<lparr>e_DurationMS := sgn d * (\<bar>d\<bar> div 1000000)\<rparr>)"

definition recordAppliedServiceTier :: "string \<Rightarrow> pending \<Rightarrow> pending" where
  "recordAppliedServiceTier applied l = markAppliedServiceTier applied l"

definition requestLimitFromQuery :: "string \<Rightarrow> int \<Rightarrow> int" where
  "requestLimitFromQuery raw fallback =
     (let value = TrimSpace raw
      in if value = [] then fallback
         else (case Atoi value of None \<Rightarrow> fallback | Some n \<Rightarrow> n))"

section \<open>Sanitised text\<close>

lemma clean_length: "0 < mx \<Longrightarrow> length (clean v mx) \<le> mx"
  unfolding clean_def by (rule truncateLogField_length)

lemma clean_printable: "\<forall>c\<in>set (clean v mx). printable c"
  unfolding clean_def by (rule truncateLogField_printable)

lemma clean_Nil [simp]: "clean [] mx = []"
proof -
  have "Fields [] = []" by (simp add: Fields_def fields_from.simps)
  then show ?thesis
    by (simp add: clean_def redactTokenLikeText_def truncateLogField_def MapRunes_def runes.simps)
qed

text \<open>Words of visible ASCII characters that are too short to be a credential pass unchanged.\<close>

definition visible :: "char \<Rightarrow> bool" where
  "visible c \<longleftrightarrow> 33 \<le> byte c \<and> byte c \<le> 126"

lemma space_not_visible: "r \<in> set space_runes \<Longrightarrow> c \<in> set r \<Longrightarrow> \<not> visible c"
  by (auto simp: space_runes_def visible_def)

lemma space_runes_nonempty: "r \<in> set space_runes \<Longrightarrow> r \<noteq> []"
  by (auto simp: space_runes_def)

lemma leading_visible:
  assumes "\<forall>c\<in>set w. visible c"
  shows "leading space_runes w = None" "leading (map rev space_runes) w = None"
proof -
  have no: "\<not> prefix r w" if "r \<noteq> []" "\<forall>c\<in>set r. \<not> visible c" for r
    using that assms by (cases r) (auto simp: prefix_def)
  have "\<forall>c\<in>set r. \<not> visible c" if "r \<in> set space_runes" for r
    using space_not_visible [OF that] by blast
  then show "leading space_runes w = None" "leading (map rev space_runes) w = None"
    using no by (auto simp: leading_None)
qed

lemma TrimSpace_visible: "\<forall>c\<in>set w. visible c \<Longrightarrow> TrimSpace w = w"
  using leading_visible(1) [of w] leading_visible(2) [of "rev w"]
  by (simp add: TrimSpace_def trim_runes_id)

lemma runes_ascii: "\<forall>c\<in>set w. byte c < 128 \<Longrightarrow> runes w = map (\<lambda>c. [c]) w"
proof (induction w)
  case (Cons c w)
  have "rune_len (c # w) = 1"
    using Cons.prems by (cases "c # w" rule: rune_len.cases) simp_all
  with Cons show ?case by (simp add: runes_cons)
qed (simp add: runes.simps)

lemma Fields_word: "w \<noteq> [] \<Longrightarrow> spaceless w \<Longrightarrow> Fields w = [w]"
  using Fields_Join [of "[w]"] by simp

lemma clean_word:
  assumes "\<forall>c\<in>set w. visible c" "w \<noteq> []" "length w \<le> 40" "length w \<le> mx"
  shows "clean w mx = w"
proof -
  have "c \<notin> set (map hd space_runes)" if "visible c" for c
    using that space_not_visible space_runes_nonempty by (auto dest: hd_in_set)
  then have "spaceless w" using assms(1) by (intro spaceless_plain) blast
  then have "Fields w = [w]" using assms(2) by (intro Fields_word)
  moreover have "redact_field w = w"
  proof (rule redact_field_id)
    obtain a b where "w = a @ TrimCut w redact_cutset @ b" by (rule TrimCut_split)
    then have "length (TrimCut w redact_cutset) \<le> length w" by (metis le_add1 le_add2 length_append order_trans)
    then show "\<not> credential_like w" using assms(3) by (auto simp: credential_like_def jwt_like_def token_like_def)
  qed
  ultimately have "redactTokenLikeText w = w" by (simp add: redactTokenLikeText_def)
  moreover have "MapRunes (\<lambda>r. if control_rune r then '' '' else r) w = w"
  proof -
    have "runes w = map (\<lambda>c. [c]) w" using assms(1) by (intro runes_ascii) (auto simp: visible_def)
    then have "MapRunes (\<lambda>r. if control_rune r then '' '' else r) w =
        concat (map (\<lambda>c. if control_rune [c] then '' '' else [c]) w)"
      by (simp add: MapRunes_def comp_def)
    also have "map (\<lambda>c. if control_rune [c] then '' '' else [c]) w = map (\<lambda>c. [c]) w"
      using assms(1) by (auto simp: control_rune_def visible_def)
    also have "concat (map (\<lambda>c. [c]) w) = w" by (induction w) auto
    finally show ?thesis .
  qed
  ultimately show ?thesis
    using assms TrimSpace_visible [of w] by (simp add: clean_def truncateLogField_def Let_def)
qed

section \<open>Properties\<close>

text \<open>The text fields of an entry with their bounds.\<close>

definition text_fields :: "requestLogEntry \<Rightarrow> (string \<times> nat) list" where
  "text_fields e =
     [(e_Method e, 16), (e_Path e, 256), (e_Client e, 128), (e_ClientName e, 128), (e_User e, 128),
      (e_RequestID e, 256), (e_Model e, 256), (e_NormalizedModel e, 256), (e_ReasoningEffort e, 64),
      (e_ServiceTier e, 64), (e_AppliedServiceTier e, 64), (e_Error e, 300), (e_PromptCacheKey e, 64),
      (e_PromptCacheRetention e, 64)]"

text \<open>Every text field of a sanitised history entry is within its length bound and free of
  control characters, so nothing a client or the upstream sends can grow an entry beyond a fixed
  size or forge a log line; the upstream headers it keeps are allow-listed and bounded.\<close>

theorem sanitized_entry_bounded:
  "let e' = sanitizeRequestLogEntry lib e
   in (\<forall>(v, mx)\<in>set (text_fields e'). length v \<le> mx \<and> (\<forall>c\<in>set v. printable c)) \<and>
      length (e_UpstreamHeaders e') \<le> 19 \<and>
      (\<forall>n v. map_of (e_UpstreamHeaders e') n = Some v \<longrightarrow>
         (\<exists>numeric. map_of diagnosticHeaderNames n = Some numeric \<and> kept_value lib numeric v))"
proof -
  have "\<forall>(v, mx)\<in>set (text_fields (sanitizeRequestLogEntry lib e)). length v \<le> mx \<and> (\<forall>c\<in>set v. printable c)"
    by (simp add: text_fields_def sanitizeRequestLogEntry_def Let_def maxBrokerUserLen_def clean_length clean_printable)
  moreover have "e_UpstreamHeaders (sanitizeRequestLogEntry lib e) = sanitize_headers lib (e_UpstreamHeaders e)"
    by (simp add: sanitizeRequestLogEntry_def Let_def)
  ultimately show ?thesis
    using diagnostics_size diagnostics_kept by (auto simp: Let_def sanitize_headers_def)
qed

theorem sanitized_entry_bounded_witness:
  "length (e_User (sanitizeRequestLogEntry witness_lib (empty_entry\<lparr>e_User := replicate 200 CHR ''a''\<rparr>))) \<le> 128"
  using sanitized_entry_bounded [of witness_lib "empty_entry\<lparr>e_User := replicate 200 CHR ''a''\<rparr>"]
  by (simp add: Let_def text_fields_def)

definition hex_digits :: "string \<Rightarrow> bool" where
  "hex_digits s \<longleftrightarrow> list_all (\<lambda>c. (48 \<le> byte c \<and> byte c \<le> 57) \<or> (97 \<le> byte c \<and> byte c \<le> 102)) s"

lemma hex_visible: "hex_digits s \<Longrightarrow> c \<in> set s \<Longrightarrow> visible c"
  by (auto simp: hex_digits_def list_all_iff visible_def)

lemma fingerprint_form: "isRequestLogFingerprint v \<longleftrightarrow> (\<exists>d. v = ''sha256:'' @ d \<and> length d = 12 \<and> hex_digits d)"
  by (auto simp: isRequestLogFingerprint_def hex_digits_def prefix_def)

lemma clean_fingerprint: "isRequestLogFingerprint v \<Longrightarrow> clean v 64 = v"
proof -
  assume "isRequestLogFingerprint v"
  then obtain d where v: "v = ''sha256:'' @ d" "length d = 12" "hex_digits d" by (auto simp: fingerprint_form)
  have "\<forall>c\<in>set ''sha256:''. visible c" by (simp add: visible_def)
  then have "\<forall>c\<in>set v. visible c" using v(1) hex_visible [OF v(3)] by auto
  then show ?thesis using v by (intro clean_word) simp_all
qed

text \<open>The prompt cache key of a sanitised entry is absent or a twelve-digit fingerprint, the
  SHA-256 of the key unless the entry already held a fingerprint: the key itself, which can name a
  user or a session, is never stored. The digest is assumed to be written as lowercase hexadecimal.\<close>

theorem sanitized_cache_key_fingerprint:
  assumes "hex_digits (lib_sha256_hex lib (TrimSpace (e_PromptCacheKey e)))"
    and "12 \<le> length (lib_sha256_hex lib (TrimSpace (e_PromptCacheKey e)))"
  shows "e_PromptCacheKey (sanitizeRequestLogEntry lib e) =
    (if e_PromptCacheKey e = [] \<or> isRequestLogFingerprint (e_PromptCacheKey e) then e_PromptCacheKey e
     else ''sha256:'' @ take 12 (lib_sha256_hex lib (TrimSpace (e_PromptCacheKey e))))"
proof -
  let ?h = "lib_sha256_hex lib (TrimSpace (e_PromptCacheKey e))"
  have "isRequestLogFingerprint (''sha256:'' @ take 12 ?h)"
    using assms unfolding fingerprint_form
    by (auto simp: hex_digits_def list_all_iff dest: in_set_takeD)
  then have "clean (''sha256:'' @ take 12 ?h) 64 = ''sha256:'' @ take 12 ?h" by (rule clean_fingerprint)
  then show ?thesis
    using clean_fingerprint [of "e_PromptCacheKey e"]
    by (simp add: sanitizeRequestLogEntry_def secretFingerprint_def Let_def)
qed

theorem sanitized_cache_key_fingerprint_witness:
  "e_PromptCacheKey (sanitizeRequestLogEntry witness_lib (empty_entry\<lparr>e_PromptCacheKey := ''user:ada''\<rparr>)) =
   ''sha256:000000000000''"
proof -
  let ?e = "empty_entry\<lparr>e_PromptCacheKey := ''user:ada''\<rparr>"
  have h: "lib_sha256_hex witness_lib x = replicate 64 CHR ''0''" for x by (simp add: witness_lib_def)
  have "\<not> isRequestLogFingerprint (e_PromptCacheKey ?e)" by (simp add: isRequestLogFingerprint_def)
  moreover have "take 12 (replicate 64 CHR ''0'') = ''000000000000''" by (simp add: eval_nat_numeral)
  ultimately show ?thesis
    using sanitized_cache_key_fingerprint [of witness_lib ?e]
    by (simp add: h hex_digits_def list_all_iff)
qed

end
