(* ===== verification/Persist.thy ===== *)
theory Persist
  imports RequestLog
begin

text \<open>
  The persistent request history, \<^verbatim>\<open>src/persist.go\<close>: a JSONL file with append, tail repair,
  compaction, bounded tail reads and the ring that restores the newest entries. The file
  is its bytes; what the operating system answers to each call is the record \<open>disk\<close>, so
  every error path is a branch. The JSON codec of an entry is the record \<open>codec\<close>.
\<close>

section \<open>Definitions\<close>

record codec =
  co_lib :: golib
  co_encode :: "requestLogEntry \<Rightarrow> string option"
  co_decode :: "string \<Rightarrow> requestLogEntry option"

text \<open>The answers of the file system to one operation; a write that fails reports how many bytes
  it wrote.\<close>

record disk =
  dk_stat :: bool
  dk_read :: bool
  dk_seek :: bool
  dk_truncate :: bool
  dk_short_write :: "nat option"
  dk_rollback :: bool
  dk_sync :: bool
  dk_temp :: bool
  dk_close :: bool
  dk_rename :: bool
  dk_reopen :: bool
  dk_sync_dir :: bool

record requestLogFile =
  lf_open :: bool
  lf_bytes :: string
  lf_maxBytes :: nat
  lf_lastError :: string

datatype persist_error =
    FileUnavailable | EncodeFailed | EntryTooLarge | StatError | ReadError | SeekError | TruncateError
  | WriteError | RollbackError | SyncError | NothingFits | TempError | CloseError | RenameError
  | ReopenError | SyncDirError

definition maxEntryBytes :: nat where
  "maxEntryBytes = 1024 * 1024"

subsection \<open>Reading\<close>

text \<open>The loop of \<open>scanRequestLogReader\<close> over what \<open>ReadLine\<close> returns: fragments, each with its
  \<open>isPrefix\<close> flag. \<open>line\<close> and \<open>oversized\<close> are the loop's variables; the end of the list is the
  empty last read.\<close>

definition emit_line :: "codec \<Rightarrow> bool \<Rightarrow> string \<Rightarrow> requestLogEntry list" where
  "emit_line co oversized line =
     (if \<not> oversized \<and> length line > 0
      then (case co_decode co line of Some e \<Rightarrow> [sanitizeRequestLogEntry (co_lib co) e] | None \<Rightarrow> [])
      else [])"

fun scanRequestLogReader :: "codec \<Rightarrow> string \<Rightarrow> bool \<Rightarrow> (string \<times> bool) list \<Rightarrow> requestLogEntry list" where
  "scanRequestLogReader co line oversized [] = emit_line co oversized line"
| "scanRequestLogReader co line oversized ((fragment, isPrefix) # reads) =
     (let (line1, oversized1) =
            (if \<not> oversized \<and> length fragment > 0 then
               (if length line + length fragment > maxEntryBytes then ([], True) else (line @ fragment, False))
             else (line, oversized))
      in if \<not> isPrefix then emit_line co oversized1 line1 @ scanRequestLogReader co [] False reads
         else scanRequestLogReader co line1 oversized1 reads)"

text \<open>\<open>bufio.Reader.ReadLine\<close> with a buffer that holds every line: one read per line, a carriage
  return before the line feed dropped.\<close>

definition drop_cr :: "string \<Rightarrow> string" where
  "drop_cr l = TrimSuffix l [cr]"

definition file_lines :: "string \<Rightarrow> string list" where
  "file_lines bytes = map drop_cr (butlast (Split nl bytes)) @ [last (Split nl bytes)]"

definition read_lines :: "string \<Rightarrow> (string \<times> bool) list" where
  "read_lines bytes = map (\<lambda>l. (l, False)) (file_lines bytes)"

definition scan_bytes :: "codec \<Rightarrow> string \<Rightarrow> requestLogEntry list" where
  "scan_bytes co bytes = scanRequestLogReader co [] False (read_lines bytes)"

text \<open>What \<open>requestLogTailReader\<close> leaves to read.\<close>

definition after_newline :: "string \<Rightarrow> string" where
  "after_newline s = tl (dropWhile (\<lambda>c. c \<noteq> nl) s)"

definition requestLogTailReader :: "string \<Rightarrow> nat \<Rightarrow> string" where
  "requestLogTailReader bytes maxBytes =
     (let start = (if maxBytes > 0 then length bytes - maxBytes else 0)
      in if start > 0 \<and> bytes ! (start - 1) \<noteq> nl then after_newline (drop start bytes) else drop start bytes)"

subsection \<open>The ring of newest entries\<close>

record ring =
  rg_entries :: "requestLogEntry list"
  rg_next :: nat
  rg_maxID :: int

definition collect_one :: "nat \<Rightarrow> requestLogEntry \<Rightarrow> ring \<Rightarrow> ring" where
  "collect_one limit entry r =
     (let r1 = (if e_ID entry > rg_maxID r then r\<lparr>rg_maxID := e_ID entry\<rparr> else r)
      in if length (rg_entries r1) < limit then r1\<lparr>rg_entries := rg_entries r1 @ [entry]\<rparr>
         else r1\<lparr>rg_entries := (rg_entries r1)[rg_next r1 := entry], rg_next := (rg_next r1 + 1) mod limit\<rparr>)"

definition collectRequestLogEntries :: "nat \<Rightarrow> requestLogEntry list \<Rightarrow> requestLogEntry list \<times> int" where
  "collectRequestLogEntries limit scanned =
     (let r = foldl (\<lambda>r e. collect_one limit e r) \<lparr>rg_entries = [], rg_next = 0, rg_maxID = 0\<rparr> scanned
      in (if rg_next r > 0 then drop (rg_next r) (rg_entries r) @ take (rg_next r) (rg_entries r) else rg_entries r,
          rg_maxID r))"

definition loadEntries :: "codec \<Rightarrow> nat \<Rightarrow> requestLogFile \<Rightarrow> requestLogEntry list \<times> int" where
  "loadEntries co limit f =
     (if limit = 0 then ([], 0)
      else collectRequestLogEntries limit (scan_bytes co (requestLogTailReader (lf_bytes f) (lf_maxBytes f))))"

subsection \<open>Repairing the tail\<close>

definition repairChunk :: nat where
  "repairChunk = 64 * 1024"

text \<open>The position after the last line feed of a chunk that ends at \<open>stop\<close>.\<close>

fun last_newline :: "string \<Rightarrow> nat \<Rightarrow> nat option" where
  "last_newline chunk 0 = None"
| "last_newline chunk (Suc i) = (if chunk ! i = nl then Some i else last_newline chunk i)"

function search_tail :: "string \<Rightarrow> nat \<Rightarrow> nat" where
  "search_tail bytes stop =
     (if stop = 0 then 0
      else (let start = stop - repairChunk; chunk = take (stop - start) (drop start bytes)
            in (case last_newline chunk (length chunk) of
                  Some i \<Rightarrow> start + i + 1
                | None \<Rightarrow> search_tail bytes start)))"
  by pat_completeness auto
termination
  by (relation "measure snd") (auto simp: repairChunk_def)

declare search_tail.simps [simp del]

definition interrupted :: string where
  "interrupted = ''request history may be incomplete: interrupted log entry was discarded''"

definition repairTail :: "codec \<Rightarrow> disk \<Rightarrow> requestLogFile \<Rightarrow> (persist_error + bool) \<times> requestLogFile" where
  "repairTail co d f =
     (if \<not> dk_stat d then (Inl StatError, f)
      else if lf_bytes f = [] then (Inr False, f)
      else if \<not> dk_read d then (Inl ReadError, f)
      else if last (lf_bytes f) = nl then (Inr False, f)
      else (let tailStart = search_tail (lf_bytes f) (length (lf_bytes f));
                tail = drop tailStart (lf_bytes f)
            in if length (lf_bytes f) - tailStart \<le> maxEntryBytes \<and> co_decode co tail \<noteq> None
               then (Inr True, f)
               else if \<not> dk_truncate d then (Inl TruncateError, f)
               else (Inr False, f\<lparr>lf_bytes := take tailStart (lf_bytes f), lf_lastError := interrupted\<rparr>)))"

subsection \<open>Compaction\<close>

record keeper =
  kp_kept :: "string list"
  kp_head :: nat
  kp_size :: int
  kp_err :: "persist_error option"

function keep_trim :: "int \<Rightarrow> keeper \<Rightarrow> keeper" where
  "keep_trim target k =
     (if kp_size k > target \<and> length (kp_kept k) - kp_head k > 1
      then keep_trim target
        (k\<lparr>kp_size := kp_size k - int (length (kp_kept k ! kp_head k)),
           kp_kept := (kp_kept k)[kp_head k := []], kp_head := kp_head k + 1\<rparr>)
      else k)"
  by pat_completeness auto
termination
  by (relation "measure (\<lambda>(_, k). length (kp_kept k) - kp_head k)") auto

declare keep_trim.simps [simp del]

definition keep_shift :: "keeper \<Rightarrow> keeper" where
  "keep_shift k =
     (if kp_head k > 1024 \<and> kp_head k * 2 \<ge> length (kp_kept k)
      then k\<lparr>kp_kept := drop (kp_head k) (kp_kept k), kp_head := 0\<rparr> else k)"

definition keep_line :: "nat \<Rightarrow> int \<Rightarrow> string \<Rightarrow> keeper \<Rightarrow> keeper" where
  "keep_line maxBytes target line k =
     (if length line > maxBytes then k\<lparr>kp_err := Some EntryTooLarge\<rparr>
      else keep_shift (keep_trim target
             (k\<lparr>kp_kept := kp_kept k @ [line], kp_size := kp_size k + int (length line)\<rparr>)))"

definition keep_entry :: "codec \<Rightarrow> nat \<Rightarrow> int \<Rightarrow> requestLogEntry \<Rightarrow> keeper \<Rightarrow> keeper" where
  "keep_entry co maxBytes target entry k =
     (case co_encode co entry of
        None \<Rightarrow> k\<lparr>kp_err := Some EncodeFailed\<rparr>
      | Some line \<Rightarrow> keep_line maxBytes target (line @ [nl]) k)"

definition new_keeper :: keeper where
  "new_keeper = \<lparr>kp_kept = [], kp_head = 0, kp_size = 0, kp_err = None\<rparr>"

text \<open>\<open>replaceWith\<close>: the handle is closed before the rename and reopened after it, whatever the
  rename did.\<close>

definition replaceWith :: "disk \<Rightarrow> string \<Rightarrow> requestLogFile \<Rightarrow> persist_error option \<times> requestLogFile" where
  "replaceWith d new f =
     (if \<not> dk_close d then (Some CloseError, f\<lparr>lf_open := dk_reopen d\<rparr>)
      else (let f1 = (if dk_rename d then f\<lparr>lf_bytes := new\<rparr> else f);
                f2 = f1\<lparr>lf_open := dk_reopen d\<rparr>
            in if \<not> dk_rename d then (Some RenameError, f2)
               else if \<not> dk_reopen d then (Some ReopenError, f2)
               else if \<not> dk_sync_dir d then (Some SyncDirError, f2)
               else (None, f2)))"

definition compact_log :: "codec \<Rightarrow> disk \<Rightarrow> string option \<Rightarrow> requestLogFile \<Rightarrow> persist_error option \<times> requestLogFile" where
  "compact_log co d extra f =
     (if \<not> dk_stat d then (Some StatError, f)
      else if \<not> dk_read d then (Some ReadError, f)
      else (let target = int (lf_maxBytes f - lf_maxBytes f div 4);
                entries = scan_bytes co (requestLogTailReader (lf_bytes f) (lf_maxBytes f));
                k1 = foldl (\<lambda>k e. keep_entry co (lf_maxBytes f) target e k) new_keeper entries;
                k2 = (case extra of None \<Rightarrow> k1 | Some line \<Rightarrow> keep_line (lf_maxBytes f) target line k1)
            in (case kp_err k2 of
                  Some err \<Rightarrow> (Some err, f)
                | None \<Rightarrow>
                    (if length (kp_kept k2) = kp_head k2 \<and> lf_bytes f \<noteq> [] \<and> extra = None
                     then (Some NothingFits, f)
                     else if \<not> dk_temp d then (Some TempError, f)
                     else replaceWith d (concat (drop (kp_head k2) (kp_kept k2))) f))))"

subsection \<open>Appending and clearing\<close>

definition write_failed :: string where
  "write_failed = ''request history may be incomplete: persistent log write failed''"

text \<open>The body of \<open>append\<close> without the deferred function that latches the warning.\<close>

definition append_write :: "codec \<Rightarrow> disk \<Rightarrow> string \<Rightarrow> bool \<Rightarrow> requestLogFile \<Rightarrow> persist_error option \<times> requestLogFile" where
  "append_write co d encoded needsNewline f1 =
     (if \<not> dk_seek d then (Some SeekError, f1)
      else (let start = length (lf_bytes f1);
                appendBytes = length encoded + (if needsNewline then 1 else 0)
            in if lf_maxBytes f1 > 0 \<and> int start > int (lf_maxBytes f1) - int appendBytes
               then compact_log co d (Some encoded) f1
               else (let record = (if needsNewline then [nl] else []) @ encoded
                     in (case dk_short_write d of
                           None \<Rightarrow> (None, f1\<lparr>lf_bytes := lf_bytes f1 @ record\<rparr>)
                         | Some n \<Rightarrow>
                             (if dk_rollback d then (Some WriteError, f1)
                              else (Some RollbackError, f1\<lparr>lf_bytes := lf_bytes f1 @ take n record\<rparr>))))))"

definition append_body :: "codec \<Rightarrow> disk \<Rightarrow> requestLogEntry \<Rightarrow> requestLogFile \<Rightarrow> persist_error option \<times> requestLogFile" where
  "append_body co d entry f =
     (if \<not> lf_open f then (Some FileUnavailable, f)
      else (case co_encode co (sanitizeRequestLogEntry (co_lib co) entry) of
              None \<Rightarrow> (Some EncodeFailed, f)
            | Some enc \<Rightarrow>
                (let encoded = enc @ [nl]
                 in if lf_maxBytes f > 0 \<and> length encoded > lf_maxBytes f then (Some EntryTooLarge, f)
                    else (case repairTail co d f of
                            (Inl err, f1) \<Rightarrow> (Some err, f1)
                          | (Inr needsNewline, f1) \<Rightarrow> append_write co d encoded needsNewline f1))))"

definition persist_append :: "codec \<Rightarrow> disk \<Rightarrow> requestLogEntry \<Rightarrow> requestLogFile \<Rightarrow> persist_error option \<times> requestLogFile" where
  "persist_append co d entry f =
     (case append_body co d entry f of
        (None, f') \<Rightarrow> (None, f')
      | (Some err, f') \<Rightarrow> (Some err, f'\<lparr>lf_lastError := write_failed\<rparr>))"

definition persist_clear :: "disk \<Rightarrow> requestLogFile \<Rightarrow> persist_error option \<times> requestLogFile" where
  "persist_clear d f =
     (if \<not> lf_open f then (Some FileUnavailable, f)
      else if \<not> dk_truncate d then (Some TruncateError, f)
      else (let f1 = f\<lparr>lf_bytes := []\<rparr>
            in if \<not> dk_seek d then (Some SeekError, f1)
               else if \<not> dk_sync d then (Some SyncError, f1)
               else (None, f1\<lparr>lf_lastError := []\<rparr>)))"

definition persist_close :: "requestLogFile \<Rightarrow> requestLogFile" where
  "persist_close f = f\<lparr>lf_open := False\<rparr>"

text \<open>\<open>openRequestLogFileWithLimit\<close> on a file that can be opened: an oversized history is
  compacted, and a compaction that fails only leaves a warning.\<close>

definition openRequestLogFileWithLimit :: "codec \<Rightarrow> disk \<Rightarrow> string \<Rightarrow> nat \<Rightarrow> persist_error + requestLogFile" where
  "openRequestLogFileWithLimit co d bytes maxBytes =
     (let f = \<lparr>lf_open = True, lf_bytes = bytes, lf_maxBytes = maxBytes, lf_lastError = []\<rparr>
      in if \<not> dk_seek d then Inl SeekError
         else if \<not> dk_stat d then Inl StatError
         else if maxBytes > 0 \<and> length bytes > maxBytes then
           (case compact_log co d None f of
              (None, f') \<Rightarrow> Inr f'
            | (Some err, f') \<Rightarrow>
                Inr (f'\<lparr>lf_lastError := ''request log compaction failed; retained history may exceed its size limit''\<rparr>))
         else Inr f)"

section \<open>Scanning\<close>

definition line_entry :: "codec \<Rightarrow> string \<Rightarrow> requestLogEntry list" where
  "line_entry co l = (if length l > maxEntryBytes then [] else emit_line co False l)"

lemma line_entry_Nil [simp]: "line_entry co [] = []"
  by (simp add: line_entry_def emit_line_def)

lemma emit_line_oversized [simp]: "emit_line co True l = []"
  by (simp add: emit_line_def)

lemma emit_line_Nil [simp]: "emit_line co b [] = []"
  by (simp add: emit_line_def)

text \<open>However \<open>ReadLine\<close> cuts a line into fragments, the scan sees the line.\<close>

lemma scan_oversized:
  "scanRequestLogReader co line True (map (\<lambda>p. (p, True)) ps @ (q, False) # reads) =
   scanRequestLogReader co [] False reads"
  by (induction ps arbitrary: line) simp_all

lemma scan_fragments:
  "length line \<le> maxEntryBytes \<Longrightarrow>
   scanRequestLogReader co line False (map (\<lambda>p. (p, True)) ps @ (q, False) # reads) =
   line_entry co (line @ concat ps @ q) @ scanRequestLogReader co [] False reads"
proof (induction ps arbitrary: line)
  case Nil
  then show ?case by (simp add: line_entry_def)
next
  case (Cons p ps)
  show ?case
  proof (cases "length line + length p > maxEntryBytes")
    case True
    then have "p \<noteq> []" using Cons.prems by auto
    with True show ?thesis by (simp add: scan_oversized line_entry_def)
  next
    case False
    then show ?thesis using Cons by (cases p) simp_all
  qed
qed

lemma scan_lines: "scanRequestLogReader co [] False (map (\<lambda>l. (l, False)) ls) = concat (map (line_entry co) ls)"
proof (induction ls)
  case (Cons l ls)
  then show ?case using scan_fragments [of "[]" co "[]" l "map (\<lambda>l. (l, False)) ls"] by simp
qed simp

lemma scan_bytes_lines: "scan_bytes co bytes = concat (map (line_entry co) (file_lines bytes))"
  by (simp add: scan_bytes_def read_lines_def scan_lines)

text \<open>A run of whole lines.\<close>

definition whole :: "string \<Rightarrow> bool" where
  "whole b \<longleftrightarrow> b = [] \<or> last b = nl"

lemma Split_whole: "whole b \<Longrightarrow> Split nl (b @ s) = butlast (Split nl b) @ Split nl s \<and> last (Split nl b) = []"
proof (induction b rule: chunk_induct)
  case (partial pre)
  then have "pre = []" by (auto simp: whole_def) (metis last_in_set)
  then show ?case by simp
next
  case (line pre rest)
  have "whole rest" using line.prems by (auto simp: whole_def split: if_splits)
  with line show ?case by (simp add: Split_sep)
qed

lemma scan_whole:
  assumes "whole b" shows "scan_bytes co (b @ s) = scan_bytes co b @ scan_bytes co s"
proof -
  have "file_lines (b @ s) = map drop_cr (butlast (Split nl b)) @ file_lines s"
    using Split_whole [OF assms, of s] by (simp add: file_lines_def butlast_append)
  then show ?thesis
    using Split_whole [OF assms, of "[]"] by (simp add: scan_bytes_lines file_lines_def)
qed

lemma scan_line:
  assumes "nl \<notin> set l"
  shows "scan_bytes co (l @ [nl]) = line_entry co (drop_cr l)" "scan_bytes co l = line_entry co l"
  using Split_sep(1) [OF assms, of "[]"] Split_sep(2) [OF assms]
  by (simp_all add: scan_bytes_lines file_lines_def)

lemma scan_Nil [simp]: "scan_bytes co [] = []"
  using scan_line(2) [of "[]" co] by simp

section \<open>The tail reader\<close>

lemma after_newline_shorter: "s \<noteq> [] \<Longrightarrow> length (after_newline s) < length s"
  using length_dropWhile_le [of "\<lambda>c. c \<noteq> nl" s] by (cases s) (auto simp: after_newline_def)

lemma after_newline_split:
  obtains pre where "s = pre @ after_newline s" "whole pre \<or> after_newline s = []"
proof (cases "nl \<in> set s")
  case True
  then obtain p q where "s = p @ nl # q" "nl \<notin> set p" using split_list_first by metis
  moreover from this have "dropWhile (\<lambda>c. c \<noteq> nl) s = nl # q" by (auto simp: dropWhile_append3)
  ultimately show ?thesis
    by (intro that [of "p @ [nl]"]) (simp_all add: after_newline_def whole_def)
next
  case False
  then have d: "dropWhile (\<lambda>c. c \<noteq> nl) s = []" by (auto simp: dropWhile_eq_Nil_conv)
  have "after_newline s = []" unfolding after_newline_def d by simp
  then show ?thesis by (intro that [of s]) simp_all
qed

lemma tail_reader_split:
  obtains pre where "bytes = pre @ requestLogTailReader bytes mx"
    "whole pre \<or> requestLogTailReader bytes mx = []"
    "0 < mx \<Longrightarrow> length (requestLogTailReader bytes mx) \<le> mx"
proof -
  define start where "start = (if mx > 0 then length bytes - mx else 0)"
  let ?t = "requestLogTailReader bytes mx"
  have len: "0 < mx \<Longrightarrow> length (drop start bytes) \<le> mx" by (simp add: start_def)
  show thesis
  proof (cases "start > 0 \<and> bytes ! (start - 1) \<noteq> nl")
    case True
    then have t: "?t = after_newline (drop start bytes)"
      by (simp add: requestLogTailReader_def start_def Let_def)
    obtain pre where pre: "drop start bytes = pre @ ?t" "whole pre \<or> ?t = []"
      unfolding t by (rule after_newline_split)
    have "bytes = (take start bytes @ pre) @ ?t" using pre(1) by (metis append_take_drop_id append.assoc)
    moreover have "whole (take start bytes @ pre) \<or> ?t = []"
    proof (cases "pre = []")
      case True
      then have "drop start bytes = after_newline (drop start bytes)" using pre t by simp
      then have "drop start bytes = []"
        using after_newline_shorter [of "drop start bytes"] by force
      then show ?thesis using pre by simp
    qed (use pre in \<open>auto simp: whole_def\<close>)
    moreover have "length ?t \<le> length (drop start bytes)" using pre(1) by simp
    ultimately show thesis using that len by (meson order_trans)
  next
    case False
    then have t: "?t = drop start bytes" by (auto simp: requestLogTailReader_def start_def Let_def)
    have "whole (take start bytes)"
    proof (cases "start = 0")
      case F: False
      have "start \<le> length bytes" by (simp add: start_def)
      moreover from this have "take start bytes \<noteq> []" using F by auto
      ultimately have "last (take start bytes) = bytes ! (start - 1)"
        using F by (simp add: last_conv_nth min_def)
      then show ?thesis using F False by (simp add: whole_def)
    qed (simp add: whole_def)
    then show thesis using that [of "take start bytes"] t len by simp
  qed
qed

lemma tail_reader_suffix: "suffix (scan_bytes co (requestLogTailReader bytes mx)) (scan_bytes co bytes)"
proof (rule tail_reader_split [of bytes mx])
  fix pre
  assume b: "bytes = pre @ requestLogTailReader bytes mx" "whole pre \<or> requestLogTailReader bytes mx = []"
  from b(2) show ?thesis
  proof
    assume "whole pre"
    from scan_whole [OF this, of co "requestLogTailReader bytes mx"] show ?thesis
      using b(1) by (metis suffixI)
  qed simp
qed

section \<open>Repairing the tail\<close>

lemma last_newline_Some: "last_newline chunk n = Some i \<Longrightarrow> i < n \<and> chunk ! i = nl \<and> (\<forall>j. i < j \<longrightarrow> j < n \<longrightarrow> chunk ! j \<noteq> nl)"
proof (induction n)
  case (Suc n)
  show ?case
  proof (cases "chunk ! n = nl")
    case False
    then have "last_newline chunk n = Some i" using Suc.prems by simp
    from Suc.IH [OF this] False show ?thesis by (metis less_Suc_eq)
  qed (use Suc.prems in auto)
qed simp

lemma last_newline_None: "last_newline chunk n = None \<Longrightarrow> j < n \<Longrightarrow> chunk ! j \<noteq> nl"
  by (induction n) (auto simp: less_Suc_eq split: if_splits)

text \<open>The backward search by chunks finds the start of the unfinished line.\<close>

lemma search_tail_spec:
  "stop \<le> length bytes \<Longrightarrow>
   search_tail bytes stop \<le> stop \<and> whole (take (search_tail bytes stop) bytes) \<and>
   (\<forall>j. search_tail bytes stop \<le> j \<longrightarrow> j < stop \<longrightarrow> bytes ! j \<noteq> nl)"
proof (induction bytes stop rule: search_tail.induct)
  case (1 bytes stop)
  define start where "start = stop - repairChunk"
  define chunk where "chunk = take (stop - start) (drop start bytes)"
  have len: "length chunk = stop - start" and nth: "\<And>j. j < stop - start \<Longrightarrow> chunk ! j = bytes ! (start + j)"
    using "1.prems" by (simp_all add: chunk_def)
  have eq: "stop \<noteq> 0 \<Longrightarrow> search_tail bytes stop =
      (case last_newline chunk (length chunk) of Some i \<Rightarrow> start + i + 1 | None \<Rightarrow> search_tail bytes start)"
    unfolding chunk_def start_def by (subst search_tail.simps) (simp only: Let_def if_False)
  show ?case
  proof (cases "stop = 0")
    case True
    then show ?thesis by (simp add: search_tail.simps whole_def)
  next
    case nz: False
    show ?thesis
    proof (cases "last_newline chunk (length chunk)")
      case None
      have rest: "bytes ! j \<noteq> nl" if "start \<le> j" "j < stop" for j
        using last_newline_None [OF None, of "j - start"] nth [of "j - start"] len that by simp
      have sle: "start \<le> stop" by (simp add: start_def)
      have st: "search_tail bytes stop = search_tail bytes start" using eq None nz by simp
      have IH: "search_tail bytes start \<le> start \<and> whole (take (search_tail bytes start) bytes) \<and>
          (\<forall>j. search_tail bytes start \<le> j \<longrightarrow> j < start \<longrightarrow> bytes ! j \<noteq> nl)"
        by (rule "1.IH" [OF nz start_def chunk_def None order_trans [OF sle "1.prems"]])
      show ?thesis unfolding st using IH sle rest by (meson not_le order_trans)
    next
      case (Some i)
      note i = last_newline_Some [OF Some, unfolded len]
      have si: "search_tail bytes stop = start + i + 1" using Some nz eq by simp
      have nlat: "bytes ! (start + i) = nl" using i nth [of i] by metis
      have "start + i < length bytes" using i "1.prems" by linarith
      then have "take (start + i + 1) bytes = take (start + i) bytes @ [nl]"
        using nlat by (simp add: take_Suc_conv_app_nth)
      then have "whole (take (start + i + 1) bytes)" by (simp add: whole_def)
      moreover have "bytes ! j \<noteq> nl" if "start + i + 1 \<le> j" "j < stop" for j
      proof -
        have "i < j - start" "j - start < stop - start" "start + (j - start) = j" using that by linarith+
        then show ?thesis using i nth [of "j - start"] by metis
      qed
      ultimately show ?thesis using si i by auto
    qed
  qed
qed

lemma tail_no_newline:
  "nl \<notin> set (drop (search_tail bytes (length bytes)) bytes)"
  using search_tail_spec [of "length bytes" bytes] by (auto simp: in_set_conv_nth)

lemma scan_tail:
  "scan_bytes co bytes = scan_bytes co (take (search_tail bytes (length bytes)) bytes) @
     line_entry co (drop (search_tail bytes (length bytes)) bytes)"
  using scan_whole [of "take (search_tail bytes (length bytes)) bytes" co "drop (search_tail bytes (length bytes)) bytes"]
    search_tail_spec [of "length bytes" bytes] scan_line(2) [OF tail_no_newline, of co bytes]
  by simp

text \<open>What the broker assumes of the JSON codec of entries: lines have no line feed, decode to the
  entry they encode and stay within the scanner's limit; a trailing carriage return does not
  matter and the empty line is no entry.\<close>

definition codec_ok :: "codec \<Rightarrow> bool" where
  "codec_ok co \<longleftrightarrow>
     co_decode co [] = None \<and> (\<forall>l. co_decode co (l @ [cr]) = co_decode co l) \<and>
     (\<forall>e l. co_encode co e = Some l \<longrightarrow>
        nl \<notin> set l \<and> \<not> suffix [cr] l \<and> l \<noteq> [] \<and> length l \<le> maxEntryBytes \<and> co_decode co l = Some e)"

lemma repairTail_scan:
  assumes "codec_ok co" "repairTail co d f = (r, f1)"
  shows "scan_bytes co (lf_bytes f1) = scan_bytes co (lf_bytes f)"
    and "r = Inr b \<Longrightarrow> scan_bytes co (lf_bytes f1 @ (if b then [nl] else [])) = scan_bytes co (lf_bytes f)"
    and "r = Inr b \<Longrightarrow> whole (lf_bytes f1 @ (if b then [nl] else []))"
    and "length (lf_bytes f1) \<le> length (lf_bytes f)" "lf_maxBytes f1 = lf_maxBytes f"
proof -
  let ?b = "lf_bytes f"
  let ?t = "search_tail ?b (length ?b)"
  let ?tail = "drop ?t ?b"
  have bad: "\<not> (length ?b - ?t \<le> maxEntryBytes \<and> co_decode co ?tail \<noteq> None) \<Longrightarrow> line_entry co ?tail = []"
    by (auto simp: line_entry_def emit_line_def)
  have take: "line_entry co ?tail = [] \<Longrightarrow> scan_bytes co (take ?t ?b) = scan_bytes co ?b"
    using scan_tail [of co ?b] by simp
  have good: "scan_bytes co (?b @ [nl]) = scan_bytes co ?b" if "length ?tail \<le> maxEntryBytes" "co_decode co ?tail \<noteq> None"
  proof -
    have w: "whole (take ?t ?b)" using search_tail_spec [of "length ?b" ?b] by simp
    have "scan_bytes co (?b @ [nl]) = scan_bytes co (take ?t ?b @ (?tail @ [nl]))"
      by (metis append.assoc append_take_drop_id)
    also have "\<dots> = scan_bytes co (take ?t ?b) @ line_entry co (drop_cr ?tail)"
      using scan_whole [OF w, of co "?tail @ [nl]"] scan_line(1) [OF tail_no_newline, of co ?b] by simp
    also have "line_entry co (drop_cr ?tail) = line_entry co ?tail"
    proof (cases "suffix [cr] ?tail")
      case True
      then obtain u where u: "?tail = u @ [cr]" by (auto simp: suffix_def)
      then have "drop_cr ?tail = u" by (simp add: drop_cr_def TrimSuffix_def)
      moreover have "co_decode co u = co_decode co ?tail" using assms(1) u by (simp add: codec_ok_def)
      moreover from this have "u \<noteq> []" using that(2) assms(1) by (auto simp: codec_ok_def)
      ultimately show ?thesis using that(1) u by (simp add: line_entry_def emit_line_def)
    qed (simp add: drop_cr_def TrimSuffix_def)
    finally show ?thesis using scan_tail [of co ?b] by simp
  qed
  show "scan_bytes co (lf_bytes f1) = scan_bytes co ?b"
    using assms(2) take bad by (auto simp: repairTail_def Let_def split: if_splits)
  show "r = Inr b \<Longrightarrow> scan_bytes co (lf_bytes f1 @ (if b then [nl] else [])) = scan_bytes co ?b"
    using assms(2) take bad good by (auto simp: repairTail_def Let_def split: if_splits)
  show "r = Inr b \<Longrightarrow> whole (lf_bytes f1 @ (if b then [nl] else []))"
    using assms(2) search_tail_spec [of "length ?b" ?b]
    by (auto simp: repairTail_def Let_def whole_def split: if_splits)
  show "length (lf_bytes f1) \<le> length (lf_bytes f)" "lf_maxBytes f1 = lf_maxBytes f"
    using assms(2) by (auto simp: repairTail_def Let_def split: if_splits)
qed

section \<open>Compaction\<close>

text \<open>The queue a keeper stands for: the lines from \<open>head\<close> on. The nil-ing of dropped lines and
  the shift of the slice are invisible in it.\<close>

definition queue :: "keeper \<Rightarrow> string list" where
  "queue k = drop (kp_head k) (kp_kept k)"

definition bytes_total :: "string list \<Rightarrow> int" where
  "bytes_total ls = int (length (concat ls))"

lemma bytes_total_simps [simp]:
  "bytes_total [] = 0" "bytes_total (l # ls) = int (length l) + bytes_total ls"
  "bytes_total (xs @ ys) = bytes_total xs + bytes_total ys"
  by (simp_all add: bytes_total_def)

definition keeper_ok :: "nat \<Rightarrow> int \<Rightarrow> keeper \<Rightarrow> bool" where
  "keeper_ok mx target k \<longleftrightarrow>
     kp_head k \<le> length (kp_kept k) \<and> kp_size k = bytes_total (queue k) \<and>
     (\<forall>l\<in>set (queue k). length l \<le> mx) \<and> (kp_size k \<le> target \<or> length (queue k) \<le> 1)"

definition trimmed :: "int \<Rightarrow> keeper \<Rightarrow> keeper \<Rightarrow> bool" where
  "trimmed target k k' \<longleftrightarrow>
     suffix (queue k') (queue k) \<and> (queue k \<noteq> [] \<longrightarrow> queue k' \<noteq> []) \<and> kp_head k' \<le> length (kp_kept k') \<and>
     kp_size k' = bytes_total (queue k') \<and> (kp_size k' \<le> target \<or> length (queue k') \<le> 1) \<and> kp_err k' = kp_err k"

lemma trimmed_Cons:
  assumes "trimmed target k1 k'" "queue k = l # queue k1" "queue k1 \<noteq> []" "kp_err k1 = kp_err k"
  shows "trimmed target k k'"
  using assms unfolding trimmed_def by (auto intro: suffix_ConsI)

lemma keep_trim_queue:
  "kp_size k = bytes_total (queue k) \<Longrightarrow> kp_head k \<le> length (kp_kept k) \<Longrightarrow> trimmed target k (keep_trim target k)"
proof (induction target k rule: keep_trim.induct)
  case (1 target k)
  show ?case
  proof (cases "kp_size k > target \<and> length (kp_kept k) - kp_head k > 1")
    case False
    then have "keep_trim target k = k" by (subst keep_trim.simps) (simp only: if_False)
    then show ?thesis using "1.prems" False by (auto simp: trimmed_def queue_def)
  next
    case True
    let ?k = "k\<lparr>kp_size := kp_size k - int (length (kp_kept k ! kp_head k)),
           kp_kept := (kp_kept k)[kp_head k := []], kp_head := kp_head k + 1\<rparr>"
    have "kp_head k < length (kp_kept k)" using True by linarith
    then have q: "queue k = kp_kept k ! kp_head k # queue ?k"
      using Cons_nth_drop_Suc [of "kp_head k" "kp_kept k"] by (simp add: queue_def)
    have lt: "Suc (kp_head k) < length (kp_kept k)" using True by linarith
    then have ne: "queue ?k \<noteq> []" by (simp add: queue_def)
    have "kp_size ?k = bytes_total (queue ?k)" using "1.prems" q by simp
    moreover have "kp_head ?k \<le> length (kp_kept ?k)" using lt by simp
    ultimately have "trimmed target ?k (keep_trim target ?k)" by (rule "1.IH" [OF True])
    moreover have "keep_trim target k = keep_trim target ?k"
      by (subst keep_trim.simps) (simp only: True if_True simp_thms)
    moreover have "kp_err ?k = kp_err k" by simp
    ultimately show ?thesis using trimmed_Cons [OF _ q ne] by simp
  qed
qed

lemma keep_shift_queue [simp]:
  "queue (keep_shift k) = queue k" "kp_size (keep_shift k) = kp_size k" "kp_err (keep_shift k) = kp_err k"
  "kp_head k \<le> length (kp_kept k) \<Longrightarrow> kp_head (keep_shift k) \<le> length (kp_kept (keep_shift k))"
  by (simp_all add: keep_shift_def queue_def)

lemma keep_line_queue:
  assumes ok: "keeper_ok mx target k"
  shows "keeper_ok mx target (keep_line mx target line k) \<and>
    (kp_err (keep_line mx target line k) = None \<longrightarrow> kp_err k = None \<and>
      suffix (queue (keep_line mx target line k)) (queue k @ [line]) \<and> queue (keep_line mx target line k) \<noteq> [])"
proof (cases "length line > mx")
  case True
  have "queue (k\<lparr>kp_err := Some EntryTooLarge\<rparr>) = queue k" by (simp add: queue_def)
  with True ok show ?thesis by (auto simp: keep_line_def keeper_ok_def)
next
  case False
  let ?k = "k\<lparr>kp_kept := kp_kept k @ [line], kp_size := kp_size k + int (length line)\<rparr>"
  have q: "queue ?k = queue k @ [line]" using ok by (simp add: queue_def keeper_ok_def)
  have "kp_size ?k = bytes_total (queue ?k)" "kp_head ?k \<le> length (kp_kept ?k)"
    unfolding q using ok by (simp_all add: keeper_ok_def)
  then have t: "trimmed target ?k (keep_trim target ?k)" by (rule keep_trim_queue)
  have "set (queue (keep_trim target ?k)) \<subseteq> set (queue k @ [line])"
    using t q unfolding trimmed_def by (metis set_mono_suffix)
  then have "\<forall>l\<in>set (queue (keep_trim target ?k)). length l \<le> mx"
    using False ok by (auto simp: keeper_ok_def)
  then show ?thesis
    using t False q by (auto simp: keep_line_def keeper_ok_def trimmed_def simp del: suffix_snoc)
qed

lemma new_keeper_ok [simp]: "keeper_ok mx target new_keeper" "queue new_keeper = []" "kp_err new_keeper = None"
  by (simp_all add: keeper_ok_def new_keeper_def queue_def)

text \<open>Keeping a list of entries: without an error the queue is a suffix of their lines.\<close>

definition entry_line :: "codec \<Rightarrow> requestLogEntry \<Rightarrow> string" where
  "entry_line co e = the (co_encode co e) @ [nl]"

lemma keep_entries:
  assumes "keeper_ok mx target k"
    and "k' = foldl (\<lambda>k e. keep_entry co mx target e k) k es"
  shows "keeper_ok mx target k' \<and>
    (kp_err k' = None \<longrightarrow> kp_err k = None \<and> (\<forall>e\<in>set es. co_encode co e \<noteq> None) \<and>
       suffix (queue k') (queue k @ map (entry_line co) es))"
  using assms
proof (induction es arbitrary: k)
  case (Cons e es)
  let ?k = "keep_entry co mx target e k"
  have q: "queue (k\<lparr>kp_err := x\<rparr>) = queue k" for x by (simp add: queue_def)
  have step: "keeper_ok mx target ?k \<and>
    (kp_err ?k = None \<longrightarrow> kp_err k = None \<and> co_encode co e \<noteq> None \<and> suffix (queue ?k) (queue k @ [entry_line co e]))"
  proof (cases "co_encode co e")
    case None
    then show ?thesis using Cons.prems(1) by (auto simp: keep_entry_def keeper_ok_def q)
  next
    case (Some l)
    then show ?thesis using keep_line_queue [OF Cons.prems(1), of "l @ [nl]"]
      by (auto simp: keep_entry_def entry_line_def simp del: suffix_snoc)
  qed
  have "k' = foldl (\<lambda>k e. keep_entry co mx target e k) ?k es" using Cons.prems(2) by simp
  note IH = Cons.IH [OF conjunct1 [OF step] this]
  have "suffix (queue k') (queue k @ map (entry_line co) (e # es))"
    if sufs: "suffix (queue k') (queue ?k @ map (entry_line co) es)" "suffix (queue ?k) (queue k @ [entry_line co e])"
  proof -
    obtain us vs where us: "queue ?k @ map (entry_line co) es = us @ queue k'"
      and vs: "queue k @ [entry_line co e] = vs @ queue ?k"
      using sufs by (auto simp: suffix_def simp del: suffix_snoc)
    have "queue k @ map (entry_line co) (e # es) = (queue k @ [entry_line co e]) @ map (entry_line co) es" by simp
    also have "\<dots> = (vs @ us) @ queue k'" unfolding vs using us by simp
    finally show ?thesis unfolding suffix_def by blast
  qed
  with IH step show ?case by auto
qed simp

lemma suffix_map_split:
  assumes "suffix q (map f xs)" obtains ys where "suffix ys xs" "q = map f ys"
  using assms by (auto simp: suffix_def map_eq_append_conv)

lemma keeper_length:
  assumes "keeper_ok mx target k" "target \<le> int mx" shows "length (concat (queue k)) \<le> mx"
proof -
  have "queue k = [] \<or> (\<exists>l. queue k = [l])" if "length (queue k) \<le> 1"
    using that by (cases "queue k") auto
  then show ?thesis using assms by (fastforce simp: keeper_ok_def bytes_total_def)
qed

definition compacted :: "codec \<Rightarrow> requestLogEntry list \<Rightarrow> nat \<Rightarrow> string \<Rightarrow> bool" where
  "compacted co es mx bytes \<longleftrightarrow>
     (\<exists>ks. suffix ks es \<and> ks \<noteq> [] \<and> (\<forall>e\<in>set ks. co_encode co e \<noteq> None) \<and>
        bytes = concat (map (entry_line co) ks) \<and> length bytes \<le> mx)"

lemma replaceWith_bytes:
  assumes "replaceWith d new f = (err, f')"
  shows "lf_maxBytes f' = lf_maxBytes f \<and> (lf_bytes f' = new \<or> err \<noteq> None \<and> lf_bytes f' = lf_bytes f)"
  using assms by (auto simp: replaceWith_def Let_def split: if_splits)

lemma compact_append:
  assumes "compact_log co d (Some (enc @ [nl])) f = (err, f')" "co_encode co e = Some enc"
  shows "lf_maxBytes f' = lf_maxBytes f \<and>
    (compacted co (scan_bytes co (requestLogTailReader (lf_bytes f) (lf_maxBytes f)) @ [e]) (lf_maxBytes f) (lf_bytes f') \<or>
     err \<noteq> None \<and> lf_bytes f' = lf_bytes f)"
proof -
  let ?mx = "lf_maxBytes f" and ?es = "scan_bytes co (requestLogTailReader (lf_bytes f) (lf_maxBytes f))"
  let ?target = "int (?mx - ?mx div 4)"
  define k1 where "k1 = foldl (\<lambda>k e. keep_entry co ?mx ?target e k) new_keeper ?es"
  define k2 where "k2 = keep_line ?mx ?target (enc @ [nl]) k1"
  have k1: "keeper_ok ?mx ?target k1 \<and> (kp_err k1 = None \<longrightarrow> (\<forall>e\<in>set ?es. co_encode co e \<noteq> None) \<and>
      suffix (queue k1) (map (entry_line co) ?es))"
    using keep_entries [OF new_keeper_ok(1) k1_def] by simp
  note k2 = keep_line_queue [OF conjunct1 [OF k1], of "enc @ [nl]", folded k2_def]
  have comp: "compacted co (?es @ [e]) ?mx (concat (queue k2))" if "kp_err k2 = None"
  proof -
    have "suffix (queue k2) (queue k1 @ [entry_line co e])" "suffix (queue k1) (map (entry_line co) ?es)"
      and ne: "queue k2 \<noteq> []" and enc: "\<forall>e\<in>set ?es. co_encode co e \<noteq> None"
      using k1 k2 that assms(2) by (auto simp: entry_line_def)
    then have "suffix (queue k2) (map (entry_line co) (?es @ [e]))" by (auto simp: suffix_def)
    then obtain ks where ks: "suffix ks (?es @ [e])" "queue k2 = map (entry_line co) ks" by (rule suffix_map_split)
    have "\<forall>e\<in>set ks. co_encode co e \<noteq> None" using enc ks(1) assms(2) set_mono_suffix by fastforce
    moreover have "length (concat (queue k2)) \<le> ?mx" using k2 by (intro keeper_length) auto
    ultimately show ?thesis using ks ne unfolding compacted_def by auto
  qed
  have same: "compacted co (?es @ [e]) ?mx (concat (drop (kp_head k2) (kp_kept k2)))" if "kp_err k2 = None"
    using comp [OF that] by (simp add: queue_def)
  have eq: "compact_log co d (Some (enc @ [nl])) f =
      (if \<not> dk_stat d then (Some StatError, f) else if \<not> dk_read d then (Some ReadError, f)
       else (case kp_err k2 of Some err \<Rightarrow> (Some err, f)
             | None \<Rightarrow> if \<not> dk_temp d then (Some TempError, f)
                       else replaceWith d (concat (drop (kp_head k2) (kp_kept k2))) f))"
    unfolding compact_log_def Let_def k2_def k1_def option.case by (simp only: option.distinct simp_thms if_False)
  show ?thesis
  proof (cases "dk_stat d \<and> dk_read d \<and> kp_err k2 = None \<and> dk_temp d")
    case True
    then have "replaceWith d (concat (drop (kp_head k2) (kp_kept k2))) f = (err, f')"
      using assms(1) eq by simp
    from replaceWith_bytes [OF this] same True show ?thesis by auto
  next
    case False
    then show ?thesis
      using assms(1) unfolding eq by (auto split: option.splits if_splits)
  qed
qed

lemma scan_entry_line:
  assumes "codec_ok co" "co_encode co e \<noteq> None"
  shows "scan_bytes co (entry_line co e) = [sanitizeRequestLogEntry (co_lib co) e]" "whole (entry_line co e)"
proof -
  obtain l where l: "co_encode co e = Some l" using assms(2) by auto
  then have ok: "nl \<notin> set l" "\<not> suffix [cr] l" "l \<noteq> []" "length l \<le> maxEntryBytes" "co_decode co l = Some e"
    using assms(1) unfolding codec_ok_def by blast+
  then show "scan_bytes co (entry_line co e) = [sanitizeRequestLogEntry (co_lib co) e]"
    using scan_line(1) [OF ok(1), of co] l
    by (simp add: entry_line_def line_entry_def emit_line_def drop_cr_def TrimSuffix_def)
  show "whole (entry_line co e)" by (simp add: entry_line_def whole_def)
qed

lemma scan_entry_lines:
  assumes "codec_ok co" "\<forall>e\<in>set ks. co_encode co e \<noteq> None"
  shows "scan_bytes co (concat (map (entry_line co) ks)) = map (sanitizeRequestLogEntry (co_lib co)) ks"
  using assms(2)
proof (induction ks)
  case (Cons e ks)
  then show ?case
    using scan_whole [OF scan_entry_line(2) [OF assms(1), of e]] scan_entry_line(1) [OF assms(1), of e] by simp
qed simp

section \<open>Appending\<close>

text \<open>The histories an append can leave behind: the old one, the old one with the new entry, or,
  when the file was rewritten, the newest entries that fit, ending in the new one.\<close>

definition appended :: "codec \<Rightarrow> requestLogEntry \<Rightarrow> requestLogEntry list \<Rightarrow> requestLogEntry list \<Rightarrow> bool" where
  "appended co entry es es' \<longleftrightarrow>
     (let san = sanitizeRequestLogEntry (co_lib co)
      in es' = es @ [san (san entry)] \<or>
         (\<exists>ks. suffix ks (es @ [san entry]) \<and> ks \<noteq> [] \<and> es' = map san ks))"

lemma append_write_cases:
  assumes "append_write co d encoded b f1 = (err, f')" "dk_rollback d"
  shows "(err \<noteq> None \<and> f' = f1) \<or> compact_log co d (Some encoded) f1 = (err, f') \<or>
    (err = None \<and> f' = f1\<lparr>lf_bytes := lf_bytes f1 @ (if b then [nl] else []) @ encoded\<rparr> \<and>
     (0 < lf_maxBytes f1 \<longrightarrow> length (lf_bytes f') \<le> lf_maxBytes f1))"
proof (cases "lf_maxBytes f1 > 0 \<and> int (length (lf_bytes f1)) > int (lf_maxBytes f1) - int (length encoded + (if b then 1 else 0))")
  case True
  then have "append_write co d encoded b f1 =
      (if \<not> dk_seek d then (Some SeekError, f1) else compact_log co d (Some encoded) f1)"
    unfolding append_write_def Let_def by (simp only: if_True simp_thms)
  with assms show ?thesis by (auto split: if_splits)
next
  case False
  then have "append_write co d encoded b f1 =
      (if \<not> dk_seek d then (Some SeekError, f1)
       else (case dk_short_write d of
               None \<Rightarrow> (None, f1\<lparr>lf_bytes := lf_bytes f1 @ (if b then [nl] else []) @ encoded\<rparr>)
             | Some n \<Rightarrow> (Some WriteError, f1)))"
    using assms(2) unfolding append_write_def Let_def by (simp only: if_False if_True simp_thms)
  with assms(1) False show ?thesis by (auto split: if_splits option.splits)
qed

text \<open>What an append from a repaired file achieves.\<close>

definition append_result :: "codec \<Rightarrow> requestLogEntry \<Rightarrow> requestLogFile \<Rightarrow> persist_error option \<times> requestLogFile \<Rightarrow> bool" where
  "append_result co entry f r \<longleftrightarrow>
     lf_maxBytes (snd r) = lf_maxBytes f \<and>
     ((fst r \<noteq> None \<and> scan_bytes co (lf_bytes (snd r)) = scan_bytes co (lf_bytes f) \<and>
       length (lf_bytes (snd r)) \<le> length (lf_bytes f)) \<or>
      (appended co entry (scan_bytes co (lf_bytes f)) (scan_bytes co (lf_bytes (snd r))) \<and>
       (0 < lf_maxBytes f \<longrightarrow> length (lf_bytes (snd r)) \<le> lf_maxBytes f)))"

lemma compact_result:
  assumes "codec_ok co" "compact_log co d (Some (enc @ [nl])) f = (err, f')"
    and "co_encode co (sanitizeRequestLogEntry (co_lib co) entry) = Some enc"
  shows "append_result co entry f (err, f')"
proof -
  let ?san = "sanitizeRequestLogEntry (co_lib co)"
  let ?tail = "scan_bytes co (requestLogTailReader (lf_bytes f) (lf_maxBytes f))"
  note c = compact_append [OF assms(2,3)]
  have suf: "suffix (?tail @ [?san entry]) (scan_bytes co (lf_bytes f) @ [?san entry])"
    using tail_reader_suffix [of co "lf_bytes f" "lf_maxBytes f"] by (auto simp: suffix_def simp del: suffix_snoc)
  have "appended co entry (scan_bytes co (lf_bytes f)) (scan_bytes co (lf_bytes f'))"
    if cmp: "compacted co (?tail @ [?san entry]) (lf_maxBytes f) (lf_bytes f')"
  proof -
    obtain ks where ks: "suffix ks (?tail @ [?san entry])" "ks \<noteq> []" "\<forall>e\<in>set ks. co_encode co e \<noteq> None"
      "lf_bytes f' = concat (map (entry_line co) ks)"
      using cmp unfolding compacted_def by blast
    have "scan_bytes co (lf_bytes f') = map ?san ks" using scan_entry_lines [OF assms(1) ks(3)] ks(4) by simp
    then show ?thesis
      unfolding appended_def Let_def using suffix_order.trans [OF ks(1) suf] ks(2) by blast
  qed
  then show ?thesis using c unfolding append_result_def compacted_def by auto
qed

lemma append_body_result:
  assumes ok: "codec_ok co" and roll: "dk_rollback d"
  shows "append_result co entry f (append_body co d entry f)"
proof (cases "lf_open f \<and> co_encode co (sanitizeRequestLogEntry (co_lib co) entry) \<noteq> None \<and>
    \<not> (lf_maxBytes f > 0 \<and> length (the (co_encode co (sanitizeRequestLogEntry (co_lib co) entry)) @ [nl]) > lf_maxBytes f)")
  case False
  then show ?thesis by (auto simp: append_body_def append_result_def Let_def split: option.splits)
next
  case True
  let ?san = "sanitizeRequestLogEntry (co_lib co)"
  obtain enc where enc: "co_encode co (?san entry) = Some enc" using True by auto
  obtain r f1 where rep: "repairTail co d f = (r, f1)" by (cases "repairTail co d f")
  note rs = repairTail_scan [OF ok rep]
  show ?thesis
  proof (cases r)
    case (Inl e)
    then show ?thesis using rep enc True rs(1,4,5) by (auto simp: append_body_def append_result_def Let_def)
  next
    case (Inr b)
    obtain err f' where w: "append_write co d (enc @ [nl]) b f1 = (err, f')"
      by (cases "append_write co d (enc @ [nl]) b f1")
    have body: "append_body co d entry f = (err, f')"
      using rep enc True Inr w by (auto simp: append_body_def Let_def)
    from append_write_cases [OF w roll] consider (fail) "err \<noteq> None" "f' = f1"
      | (comp) "compact_log co d (Some (enc @ [nl])) f1 = (err, f')"
      | (written) "err = None" "f' = f1\<lparr>lf_bytes := lf_bytes f1 @ (if b then [nl] else []) @ enc @ [nl]\<rparr>"
          "0 < lf_maxBytes f1 \<longrightarrow> length (lf_bytes f') \<le> lf_maxBytes f1"
      by blast
    then show ?thesis
    proof cases
      case fail
      then show ?thesis using rs(1,4,5) by (simp add: body append_result_def)
    next
      case comp
      then show ?thesis
        using compact_result [OF ok comp enc] rs(1,4,5) by (auto simp: body append_result_def)
    next
      case written
      have "scan_bytes co (lf_bytes f') = scan_bytes co ((lf_bytes f1 @ (if b then [nl] else [])) @ entry_line co (?san entry))"
        using written(2) enc by (simp add: entry_line_def)
      also have "\<dots> = scan_bytes co (lf_bytes f) @ [?san (?san entry)]"
        using scan_whole [OF rs(3) [OF Inr], of co "entry_line co (?san entry)"] rs(2) [OF Inr]
          scan_entry_line(1) [OF ok, of "?san entry"] enc by simp
      finally show ?thesis
        using written(2,3) rs(5) by (simp add: body append_result_def appended_def Let_def)
    qed
  qed
qed

section \<open>The ring\<close>

definition rotated :: "ring \<Rightarrow> requestLogEntry list" where
  "rotated r = drop (rg_next r) (rg_entries r) @ take (rg_next r) (rg_entries r)"

definition ring_ok :: "nat \<Rightarrow> requestLogEntry list \<Rightarrow> ring \<Rightarrow> bool" where
  "ring_ok limit seen r \<longleftrightarrow>
     rotated r = lastn limit seen \<and> rg_maxID r = foldl max 0 (map e_ID seen) \<and>
     (rg_next r = 0 \<or> rg_next r < length (rg_entries r)) \<and>
     (length (rg_entries r) < limit \<longrightarrow> rg_next r = 0 \<and> length seen < limit)"

lemma length_rotated: "length (rotated r) = length (rg_entries r)"
  by (simp add: rotated_def)

lemma rotated_overwrite:
  assumes "n < length es"
  shows "drop (Suc n mod length es) (es[n := e]) @ take (Suc n mod length es) (es[n := e]) = tl (drop n es @ take n es) @ [e]"
proof (cases "Suc n = length es")
  case True
  then have "es[n := e] = take n es @ [e]" "drop n es = [es ! n]"
    using assms by (simp_all add: upd_conv_take_nth_drop Cons_nth_drop_Suc [symmetric])
  then show ?thesis using True by simp
next
  case False
  then have lt: "Suc n < length es" using assms by simp
  have "drop n es = es ! n # drop (Suc n) es" using assms by (simp add: Cons_nth_drop_Suc)
  moreover have "take (Suc n) (es[n := e]) = take n es @ [e]"
    using assms by (simp add: take_Suc_conv_app_nth)
  ultimately show ?thesis using lt by simp
qed

lemma ring_step:
  assumes "0 < limit" "ring_ok limit seen r" shows "ring_ok limit (seen @ [e]) (collect_one limit e r)"
proof -
  let ?r' = "collect_one limit e r"
  have mx: "rg_maxID ?r' = foldl max 0 (map e_ID (seen @ [e]))"
    using assms(2) by (auto simp: collect_one_def ring_ok_def Let_def max_def)
  show ?thesis
  proof (cases "length (rg_entries r) < limit")
    case True
    then have r: "rg_next r = 0" "rg_entries r = seen" "length seen < limit"
      using assms(2) by (auto simp: ring_ok_def rotated_def lastn_all)
    then have "rg_entries ?r' = seen @ [e]" "rg_next ?r' = 0" by (simp_all add: collect_one_def Let_def)
    then show ?thesis using mx r(3) by (simp add: ring_ok_def rotated_def lastn_all)
  next
    case False
    let ?n = "rg_next r" and ?es = "rg_entries r"
    have rot: "rotated r = lastn limit seen" using assms(2) by (simp add: ring_ok_def)
    then have len: "length ?es = limit" using False length_rotated [of r] by (simp add: min_def split: if_splits)
    then have n: "?n < length ?es" using assms by (auto simp: ring_ok_def)
    have r': "rg_entries ?r' = ?es[?n := e]" "rg_next ?r' = Suc ?n mod limit"
      using False by (simp_all add: collect_one_def Let_def)
    have "rotated ?r' = tl (rotated r) @ [e]"
      using rotated_overwrite [OF n, of e] len unfolding rotated_def r' by simp
    also have "\<dots> = lastn limit (seen @ [e])"
      using assms(1) len length_rotated [of r] unfolding rot lastn_snoc [OF assms(1)]
      by (auto simp: lastn_def tl_drop drop_Suc [symmetric] Suc_diff_le min_def split: if_splits)
    finally show ?thesis
      using mx r' n len assms(1) by (simp add: ring_ok_def)
  qed
qed

lemma ring_fold:
  "0 < limit \<Longrightarrow> ring_ok limit seen r \<Longrightarrow> ring_ok limit (seen @ xs) (foldl (\<lambda>r e. collect_one limit e r) r xs)"
proof (induction xs arbitrary: seen r)
  case (Cons x xs)
  from Cons.IH [OF Cons.prems(1) ring_step [OF Cons.prems, of x]] show ?case by simp
qed simp

lemma collect_lastn:
  assumes "0 < limit"
  shows "collectRequestLogEntries limit xs = (lastn limit xs, foldl max 0 (map e_ID xs))"
proof -
  let ?r0 = "\<lparr>rg_entries = [], rg_next = 0, rg_maxID = 0\<rparr>"
  have "ring_ok limit [] ?r0" using assms by (simp add: ring_ok_def rotated_def lastn_def)
  from ring_fold [OF assms this, of xs] show ?thesis
    by (auto simp: collectRequestLogEntries_def Let_def ring_ok_def rotated_def)
qed

section \<open>Runs of history operations\<close>

datatype history_event = HAppend disk requestLogEntry | HClear disk | HClose

text \<open>A failed write whose rollback fails as well leaves a torn line behind; runs are those in
  which rollbacks work.\<close>

fun history_step :: "codec \<Rightarrow> history_event \<Rightarrow> requestLogFile \<Rightarrow> requestLogFile option" where
  "history_step co (HAppend d e) f = (if dk_rollback d then Some (snd (persist_append co d e f)) else None)"
| "history_step co (HClear d) f = Some (snd (persist_clear d f))"
| "history_step co HClose f = Some (persist_close f)"

definition history_bounded :: "codec \<Rightarrow> nat \<Rightarrow> requestLogFile \<Rightarrow> bool" where
  "history_bounded co mx f \<longleftrightarrow> (codec_ok co \<longrightarrow> lf_maxBytes f = mx \<and> (0 < mx \<longrightarrow> length (lf_bytes f) \<le> mx))"

lemma persist_append_result:
  assumes "codec_ok co" "dk_rollback d" shows "append_result co entry f (persist_append co d entry f)"
  using append_body_result [OF assms, of entry f]
  by (auto simp: persist_append_def append_result_def split: prod.split option.split)

lemma persist_clear_bytes:
  "lf_maxBytes (snd (persist_clear d f)) = lf_maxBytes f \<and> length (lf_bytes (snd (persist_clear d f))) \<le> length (lf_bytes f)"
  by (simp add: persist_clear_def Let_def)

interpretation history: machine_invariant "history_step co" "history_bounded co mx"
proof
  fix e :: history_event and s t :: requestLogFile
  assume inv: "history_bounded co mx s" and st: "history_step co e s = Some t"
  show "history_bounded co mx t"
  proof (cases e)
    case (HAppend d entry)
    then have "dk_rollback d" "t = snd (persist_append co d entry s)" using st by (auto split: if_splits)
    then show ?thesis
      using inv persist_append_result [of co d entry s]
      by (auto simp: history_bounded_def append_result_def)
  next
    case (HClear d)
    then show ?thesis using inv st persist_clear_bytes [of d s] by (auto simp: history_bounded_def)
  next
    case HClose
    then show ?thesis using inv st by (auto simp: history_bounded_def persist_close_def)
  qed
qed

section \<open>Properties\<close>

text \<open>A codec and a disk for the witnesses: it knows one entry and carries on after errors.\<close>

definition witness_codec :: codec where
  "witness_codec =
     \<lparr>co_lib = witness_lib, co_encode = \<lambda>e. if e = empty_entry then Some ''{}'' else None,
      co_decode = \<lambda>l. if rev (dropWhile (\<lambda>c. c = cr) (rev l)) = ''{}'' then Some empty_entry else None\<rparr>"

definition good_disk :: disk where
  "good_disk = \<lparr>dk_stat = True, dk_read = True, dk_seek = True, dk_truncate = True, dk_short_write = None,
     dk_rollback = True, dk_sync = True, dk_temp = True, dk_close = True, dk_rename = True, dk_reopen = True,
     dk_sync_dir = True\<rparr>"

lemma witness_codec_ok: "codec_ok witness_codec"
  by (auto simp: codec_ok_def witness_codec_def suffix_def maxEntryBytes_def)





text \<open>What a restarting broker loads is exactly the newest entries, in order, of the retained tail of
  the history, at most the configured number of them, together with the highest request id of that
  tail: the ring buffer of the loader is equivalent to keeping the whole list.\<close>

theorem loadEntries_newest:
  assumes "0 < limit"
  shows "loadEntries co limit f =
    (lastn limit (scan_bytes co (requestLogTailReader (lf_bytes f) (lf_maxBytes f))),
     foldl max 0 (map e_ID (scan_bytes co (requestLogTailReader (lf_bytes f) (lf_maxBytes f)))))"
  using assms by (simp add: loadEntries_def collect_lastn)

theorem loadEntries_newest_witness:
  "fst (loadEntries witness_codec 1 \<lparr>lf_open = True, lf_bytes = concat (replicate 3 (''{}'' @ [nl])), lf_maxBytes = 0, lf_lastError = []\<rparr>) =
   lastn 1 (scan_bytes witness_codec (requestLogTailReader (concat (replicate 3 (''{}'' @ [nl]))) 0))"
  using loadEntries_newest [of 1 witness_codec "\<lparr>lf_open = True, lf_bytes = concat (replicate 3 (''{}'' @ [nl])), lf_maxBytes = 0, lf_lastError = []\<rparr>"]
  by simp

text \<open>The bounded tail reader returns at most the size limit and only whole lines: what it skips ends
  with a line feed, or it returns nothing, so no entry is ever read from its middle and the entries it
  yields are the newest ones of the file.\<close>

theorem tail_reader_whole_lines:
  "\<exists>pre. bytes = pre @ requestLogTailReader bytes mx \<and> (whole pre \<or> requestLogTailReader bytes mx = []) \<and>
     (mx = 0 \<or> length (requestLogTailReader bytes mx) \<le> mx) \<and>
     suffix (scan_bytes co (requestLogTailReader bytes mx)) (scan_bytes co bytes)"
proof -
  obtain pre where "bytes = pre @ requestLogTailReader bytes mx" "whole pre \<or> requestLogTailReader bytes mx = []"
    "0 < mx \<Longrightarrow> length (requestLogTailReader bytes mx) \<le> mx"
    by (rule tail_reader_split [of bytes mx]) (rule that)
  then show ?thesis using tail_reader_suffix [of co bytes mx] by auto
qed

end
