(* ===== verification/RequestStore.thy ===== *)
theory RequestStore
  imports Persist
begin

text \<open>
  The in-memory request history, \<^verbatim>\<open>src/requests.go\<close>: the store with its ring of newest entries,
  its id counter, its price table and its optional file. Every method runs under the store's
  mutex, so one call is one step. The lemmas show that the store is bounded by its limit,
  that ids increase without gaps over any run of operations, and that the ring holds the
  newest entries.
\<close>

section \<open>Definitions\<close>

record requestLogStore =
  st_limit :: nat
  st_nextID :: int
  st_entries :: "requestLogEntry list"
  st_pricing :: "pricing_table option"
  st_persist :: "requestLogFile option"

definition newRequestLogStore :: "int \<Rightarrow> requestLogStore" where
  "newRequestLogStore limit =
     \<lparr>st_limit = (if limit < 0 then 0 else nat limit), st_nextID = 0, st_entries = [],
      st_pricing = None, st_persist = None\<rparr>"

definition store_add :: "codec \<Rightarrow> disk \<Rightarrow> requestLogEntry \<Rightarrow> requestLogStore \<Rightarrow> requestLogStore" where
  "store_add co d entry0 s =
     (if st_limit s = 0 then s
      else (let e1 = priceEntry (st_pricing s) (sanitizeRequestLogEntry (co_lib co) entry0);
                ident = wrap64 (st_nextID s + 1);
                e2 = e1\<lparr>e_ID := ident\<rparr>;
                persist = map_option (\<lambda>f. snd (persist_append co d e2 f)) (st_persist s);
                es = st_entries s @ [e2];
                extra = length es - st_limit s
            in s\<lparr>st_nextID := ident, st_persist := persist,
                 st_entries := (if extra > 0 then take (st_limit s) (drop extra es) else es)\<rparr>))"

definition store_restore :: "golib \<Rightarrow> requestLogEntry list \<Rightarrow> int \<Rightarrow> requestLogStore \<Rightarrow> requestLogStore" where
  "store_restore lib entries maxID s =
     (if st_limit s = 0 \<or> length entries = 0 then s
      else (let es = (if length entries > st_limit s then drop (length entries - st_limit s) entries else entries);
                priced = map (\<lambda>e. priceEntry (st_pricing s) (sanitizeRequestLogEntry lib e)) es;
                s1 = s\<lparr>st_entries := st_entries s @ priced\<rparr>
            in if maxID > st_nextID s1 then s1\<lparr>st_nextID := maxID\<rparr> else s1))"

record requestLogSnapshot =
  sn_Limit :: nat
  sn_PersistError :: string
  sn_Retained :: nat
  sn_TotalSeen :: int
  sn_RequestLog :: "requestLogEntry list"

text \<open>The loop that copies the newest entries first.\<close>

fun newest :: "requestLogEntry list \<Rightarrow> nat \<Rightarrow> nat \<Rightarrow> requestLogEntry list \<Rightarrow> requestLogEntry list" where
  "newest es limit 0 acc = acc"
| "newest es limit (Suc i) acc = (if length acc < limit then newest es limit i (acc @ [es ! i]) else acc)"

definition store_snapshot :: "int \<Rightarrow> requestLogStore \<Rightarrow> requestLogSnapshot" where
  "store_snapshot limit0 s =
     (let n = length (st_entries s);
          limit = (if limit0 \<le> 0 \<or> limit0 > int n then n else nat limit0)
      in \<lparr>sn_Limit = st_limit s,
          sn_PersistError = (case st_persist s of None \<Rightarrow> [] | Some f \<Rightarrow> lf_lastError f),
          sn_Retained = n, sn_TotalSeen = st_nextID s, sn_RequestLog = newest (st_entries s) limit n []\<rparr>)"

definition store_clear :: "disk \<Rightarrow> requestLogStore \<Rightarrow> persist_error option \<times> requestLogStore" where
  "store_clear d s =
     (case st_persist s of
        None \<Rightarrow> (None, s\<lparr>st_entries := []\<rparr>)
      | Some f \<Rightarrow>
          (case persist_clear d f of
             (Some err, f') \<Rightarrow> (Some err, s\<lparr>st_persist := Some f'\<rparr>)
           | (None, f') \<Rightarrow> (None, s\<lparr>st_persist := Some f', st_entries := []\<rparr>)))"

text \<open>\<open>finish\<close> of a pending entry.\<close>

definition finish :: "codec \<Rightarrow> disk \<Rightarrow> gotime \<Rightarrow> pending \<Rightarrow> requestLogStore \<Rightarrow> requestLogStore" where
  "finish co d now l s = (case l of None \<Rightarrow> s | Some p \<Rightarrow> store_add co d (finish_entry now p) s)"

text \<open>What aggregators see: the entries of the file's retained tail, or of the ring, at the current
  prices. \<open>file_ok\<close> says whether opening and reading the file works.\<close>

datatype history_source = FromMemory | FromFile

definition visitRetainedEntries ::
    "codec \<Rightarrow> bool \<Rightarrow> requestLogStore \<Rightarrow> history_source \<times> (persist_error + requestLogEntry list)" where
  "visitRetainedEntries co file_ok s =
     (case st_persist s of
        Some f \<Rightarrow>
          (FromFile,
           if \<not> file_ok then Inl ReadError
           else Inr (map (priceEntry (st_pricing s))
                  (scan_bytes co (requestLogTailReader (lf_bytes f) (lf_maxBytes f)))))
      | None \<Rightarrow> (FromMemory, Inr (map (priceEntry (st_pricing s)) (st_entries s))))"

section \<open>The store invariant\<close>

text \<open>Ids increase along the ring, the last one is the counter, and the ring fits its limit.\<close>

definition store_ok :: "requestLogStore \<Rightarrow> bool" where
  "store_ok s \<longleftrightarrow>
     length (st_entries s) \<le> st_limit s \<and>
     sorted_wrt (<) (map e_ID (st_entries s)) \<and> (\<forall>e\<in>set (st_entries s). e_ID e \<le> st_nextID s)"

lemma priceEntry_ID [simp]: "e_ID (priceEntry p e) = e_ID e"
  by (simp add: priceEntry_def Let_def split: option.split)

lemma sanitize_ID [simp]: "e_ID (sanitizeRequestLogEntry lib e) = e_ID e"
  by (simp add: sanitizeRequestLogEntry_def Let_def)

lemma store_add_entries:
  assumes "0 < st_limit s"
  shows "st_entries (store_add co d e s) =
    lastn (st_limit s) (st_entries s @
      [(priceEntry (st_pricing s) (sanitizeRequestLogEntry (co_lib co) e))\<lparr>e_ID := wrap64 (st_nextID s + 1)\<rparr>])"
  using assms by (simp add: store_add_def Let_def lastn_def)

lemma store_add_fields:
  "st_limit (store_add co d e s) = st_limit s" "st_pricing (store_add co d e s) = st_pricing s"
  "st_nextID (store_add co d e s) = (if st_limit s = 0 then st_nextID s else wrap64 (st_nextID s + 1))"
  by (simp_all add: store_add_def Let_def)

lemma sorted_wrt_lastn: "sorted_wrt P xs \<Longrightarrow> sorted_wrt P (lastn n xs)"
  unfolding lastn_def by (rule sorted_wrt_drop)

lemma store_add_ok:
  assumes "store_ok s" "st_nextID s < 2 ^ 63 - 1" "0 \<le> st_nextID s"
  shows "store_ok (store_add co d e s)"
proof (cases "st_limit s = 0")
  case True
  then show ?thesis using assms by (simp add: store_add_def)
next
  case False
  let ?e = "(priceEntry (st_pricing s) (sanitizeRequestLogEntry (co_lib co) e))\<lparr>e_ID := st_nextID s + 1\<rparr>"
  have w: "wrap64 (st_nextID s + 1) = st_nextID s + 1" using assms by (intro wrap64_id) auto
  have es: "st_entries (store_add co d e s) = lastn (st_limit s) (st_entries s @ [?e])"
    using store_add_entries [of s co d e] False w by simp
  have all: "\<forall>x\<in>set (st_entries s @ [?e]). e_ID x \<le> st_nextID s + 1" using assms(1) by (auto simp: store_ok_def)
  have "sorted_wrt (<) (map e_ID (st_entries s @ [?e]))"
    using assms(1) by (auto simp: store_ok_def sorted_wrt_append)
  from sorted_wrt_lastn [OF this, of "st_limit s"]
  have "sorted_wrt (<) (map e_ID (st_entries (store_add co d e s)))" unfolding es lastn_map [symmetric] .
  moreover have "\<forall>x\<in>set (st_entries (store_add co d e s)). e_ID x \<le> st_nextID s + 1"
    using all set_lastn_subset [of "st_limit s" "st_entries s @ [?e]"] unfolding es by (meson subsetD)
  moreover have "length (st_entries (store_add co d e s)) \<le> st_limit s" unfolding es by simp
  ultimately show ?thesis using False w by (simp add: store_ok_def store_add_fields)
qed

lemma store_clear_ok: "store_ok s \<Longrightarrow> store_ok (snd (store_clear d s))"
  by (auto simp: store_clear_def store_ok_def split: option.splits prod.splits)

lemma newest_rev: "i \<le> length es \<Longrightarrow> length acc \<le> limit \<Longrightarrow> newest es limit i acc = acc @ take (limit - length acc) (rev (take i es))"
proof (induction i arbitrary: acc)
  case (Suc i)
  show ?case
  proof (cases "length acc < limit")
    case True
    have "rev (take (Suc i) es) = es ! i # rev (take i es)" using Suc.prems by (simp add: take_Suc_conv_app_nth)
    moreover have "limit - length acc = Suc (limit - Suc (length acc))" using True by simp
    ultimately show ?thesis using Suc True by simp
  qed (use Suc.prems in simp)
qed simp

section \<open>Runs of the store\<close>

datatype store_event = SAdd disk requestLogEntry | SClear disk

fun store_step :: "codec \<Rightarrow> store_event \<Rightarrow> requestLogStore \<Rightarrow> requestLogStore option" where
  "store_step co (SAdd d e) s = (if st_nextID s < 2 ^ 63 - 1 then Some (store_add co d e s) else None)"
| "store_step co (SClear d) s = Some (snd (store_clear d s))"

definition store_inv :: "requestLogStore \<Rightarrow> bool" where
  "store_inv s \<longleftrightarrow> store_ok s \<and> 0 \<le> st_nextID s"

lemma store_clear_fields:
  "st_nextID (snd (store_clear d s)) = st_nextID s" "st_limit (snd (store_clear d s)) = st_limit s"
  by (simp_all add: store_clear_def split: option.split prod.split)

interpretation store: machine_invariant "store_step co" store_inv
proof
  fix e :: store_event and s t :: requestLogStore
  assume inv: "store_inv s" and st: "store_step co e s = Some t"
  show "store_inv t"
  proof (cases e)
    case (SAdd d entry)
    then have lt: "st_nextID s < 2 ^ 63 - 1" and t: "t = store_add co d entry s" using st by (auto split: if_splits)
    have "wrap64 (st_nextID s + 1) = st_nextID s + 1"
      using inv lt by (intro wrap64_id) (auto simp: store_inv_def)
    then show ?thesis
      using inv lt store_add_ok [of s co d entry] by (simp add: t store_inv_def store_add_fields)
  next
    case (SClear d)
    then show ?thesis using inv st store_clear_ok [of s d] by (auto simp: store_inv_def store_clear_fields)
  qed
qed

fun adds :: "store_event list \<Rightarrow> nat" where
  "adds [] = 0"
| "adds (SAdd d e # es) = Suc (adds es)"
| "adds (SClear d # es) = adds es"

lemma run_counts:
  "store_inv s \<Longrightarrow> 0 < st_limit s \<Longrightarrow> run_steps (store_step co) es s = Some t \<Longrightarrow>
   st_nextID t = st_nextID s + int (adds es) \<and> st_limit t = st_limit s"
proof (induction es arbitrary: s)
  case (Cons e es)
  obtain u where u: "store_step co e s = Some u" "run_steps (store_step co) es u = Some t"
    using Cons.prems(3) by (auto split: option.splits)
  have inv: "store_inv u" using store.step_inv [OF Cons.prems(1) u(1)] .
  show ?case
  proof (cases e)
    case (SAdd d entry)
    then have lt: "st_nextID s < 2 ^ 63 - 1" and t: "u = store_add co d entry s" using u(1) by (auto split: if_splits)
    have "wrap64 (st_nextID s + 1) = st_nextID s + 1"
      using Cons.prems(1) lt by (intro wrap64_id) (auto simp: store_inv_def)
    then have "st_nextID u = st_nextID s + 1" "st_limit u = st_limit s" using Cons.prems(2) by (simp_all add: t store_add_fields)
    then show ?thesis using Cons.IH [OF inv _ u(2)] Cons.prems(2) SAdd by simp
  next
    case (SClear d)
    then have "st_nextID u = st_nextID s" "st_limit u = st_limit s" using u(1) by (auto simp: store_clear_fields)
    then show ?thesis using Cons.IH [OF inv _ u(2)] Cons.prems(2) SClear by simp
  qed
qed simp

section \<open>Properties\<close>

text \<open>Starting from an empty store, after any run of additions and clears the history holds at most
  its limit of entries, their ids are strictly increasing and none exceeds the counter, and the
  counter is the number of requests ever added: no id is reused, not even after a clear.\<close>

theorem request_store_ids:
  assumes "0 < limit" "run_steps (store_step co) es (newRequestLogStore limit) = Some s"
  shows "int (length (st_entries s)) \<le> limit \<and> sorted_wrt (<) (map e_ID (st_entries s)) \<and>
    (\<forall>e\<in>set (st_entries s). e_ID e \<le> st_nextID s) \<and> st_nextID s = int (adds es)"
proof -
  let ?s0 = "newRequestLogStore limit"
  have s0: "store_inv ?s0" "0 < st_limit ?s0" "st_nextID ?s0 = 0" "int (st_limit ?s0) = limit"
    using assms(1) by (simp_all add: store_inv_def store_ok_def newRequestLogStore_def)
  note run = run_counts [OF s0(1,2) assms(2)]
  have "store_ok s" using store.run_inv [OF s0(1) assms(2)] by (simp add: store_inv_def)
  then show ?thesis using run s0(3,4) by (auto simp: store_ok_def)
qed

theorem request_store_ids_witness:
  "\<exists>s. run_steps (store_step witness_codec) [SAdd good_disk empty_entry, SClear good_disk, SAdd good_disk empty_entry]
         (newRequestLogStore 1) = Some s \<and> st_nextID s = 2 \<and> length (st_entries s) \<le> 1"
proof -
  let ?es = "[SAdd good_disk empty_entry, SClear good_disk, SAdd good_disk empty_entry]"
  have w: "wrap64 1 = 1" by (rule wrap64_id) simp_all
  have "\<exists>s. run_steps (store_step witness_codec) ?es (newRequestLogStore 1) = Some s"
    by (simp add: newRequestLogStore_def store_add_fields store_clear_fields w)
  then obtain s where s: "run_steps (store_step witness_codec) ?es (newRequestLogStore 1) = Some s" ..
  from request_store_ids [OF _ s] show ?thesis using s by auto
qed

text \<open>A snapshot lists the retained entries newest first: the reverse of the ring cut to the
  requested number, or all of them when the number is not positive or too large.\<close>

theorem snapshot_newest_first:
  "sn_RequestLog (store_snapshot n s) =
   (if n \<le> 0 then rev (st_entries s) else take (nat n) (rev (st_entries s)))"
  using newest_rev [of "length (st_entries s)" "st_entries s" "[]"]
  by (auto simp: store_snapshot_def Let_def)

end
