(* ===== verification/Dispatch.thy ===== *)
theory Dispatch
  imports Accounts Limiter RequestStore
begin

text \<open>
  Dispatch of a request to the upstream with failover over the accounts, \<^verbatim>\<open>src/proxy.go\<close>:
  \<open>dispatchUpstream\<close>, \<open>accountSupportsTier\<close> of \<^verbatim>\<open>src/service_tiers.go\<close>, and the answer a client
  gets when no account served it. Everything outside the broker (the clock, the request
  context, the credential manager, the upstream) is the record \<open>dispatch_env\<close>, a function
  of the attempt and the account, so the theorems hold for every environment. A dispatch
  also returns the requests it sent with their replies.
\<close>

section \<open>Definitions\<close>

record http_response =
  rs_StatusCode :: nat
  rs_Header :: header
  rs_Body :: string

record dispatch_env =
  de_ctxErr :: "nat \<Rightarrow> bool"
  de_now :: "nat \<Rightarrow> gotime"
  de_current :: "nat \<Rightarrow> nat \<Rightarrow> string + accessMaterial"
  de_ctxErrAuth :: "nat \<Rightarrow> bool"
  de_supportsTier :: "nat \<Rightarrow> nat \<Rightarrow> bool"
  de_newRequestFails :: bool
  de_do :: "nat \<Rightarrow> nat \<Rightarrow> string + http_response"
  de_rlNow :: "nat \<Rightarrow> gotime"
  de_end :: gotime

record upstream_call =
  uc_account :: nat
  uc_header :: header
  uc_body :: string
  uc_reply :: "string + http_response"

subsection \<open>Service tiers of an account\<close>

record upstreamModel =
  um_Slug :: string
  um_Visibility :: string
  um_SupportedInAPI :: bool
  um_ServiceTiers :: "string list"
  um_SupportedReasoningLevels :: "string list"

definition select_model :: "string \<Rightarrow> upstreamModel list \<Rightarrow> upstreamModel option" where
  "select_model model models =
     (case find (\<lambda>m. ToLower (um_Slug m) = model) models of
        Some m \<Rightarrow> Some m
      | None \<Rightarrow> find (\<lambda>m. isDatedModelSnapshot model (ToLower (um_Slug m))) models)"

text \<open>\<open>catalog\<close> is the result of \<open>accountTierModels\<close>, \<open>None\<close> for an error.\<close>

definition accountSupportsTier :: "upstreamModel list option \<Rightarrow> string \<Rightarrow> string \<Rightarrow> bool" where
  "accountSupportsTier catalog model0 tier =
     (if tier \<noteq> ''priority'' then True
      else (case catalog of
              None \<Rightarrow> True
            | Some models \<Rightarrow>
                (case select_model (ToLower (TrimSpace model0)) models of
                   None \<Rightarrow> False
                 | Some m \<Rightarrow> tier \<in> set (um_ServiceTiers m))))"

subsection \<open>One attempt\<close>

text \<open>The body that goes on the wire: \<open>priority\<close> is dropped for an account that does not serve it.\<close>

definition wire_request :: "golib \<Rightarrow> bool \<Rightarrow> obj \<Rightarrow> string \<Rightarrow> obj \<times> string option" where
  "wire_request lib supports body encoded =
     (if stringField body ''service_tier'' = ''priority'' \<and> \<not> supports
      then (let wireBody = oset (odel body ''service_tier'') ''stream'' (JBool True)
            in (wireBody, lib_Marshal lib (JObj wireBody)))
      else (body, Some encoded))"

datatype attempt_result =
    Break
  | Continue "dispatchFailure option" "string option"
  | Return "dispatchFailure + http_response"

definition rate_limited :: "golib \<Rightarrow> http_response \<Rightarrow> gotime \<Rightarrow> gotime \<times> dispatchFailure" where
  "rate_limited lib resp now =
     (let rlBody = take (64 * 1024) (rs_Body resp);
          (until, window, source) = deriveCooldown lib (Some (Header_Get (rs_Header resp))) rlBody now
      in (until,
          \<lparr>df_status = 429, df_message = [], df_body = rlBody, df_retryAfter = until, df_window = window,
           df_upstreamHeaders = (let hs = diagnosticUpstreamHeaders lib (rs_Header resp)
                                 in if hs = [] then None else Some hs)\<rparr>))"

text \<open>The rest of an attempt, from \<open>p.client.Do\<close> on.\<close>

definition send_upstream ::
    "golib \<Rightarrow> dispatch_env \<Rightarrow> nat \<Rightarrow> nat \<Rightarrow> header \<Rightarrow> string \<Rightarrow> string option \<Rightarrow> accountPool \<Rightarrow>
     attempt_result \<times> accountPool \<times> upstream_call list" where
  "send_upstream lib env attempt i hdr enc lastAuth p1 =
     (let reply = de_do env attempt i;
          call = \<lparr>uc_account = i, uc_header = hdr, uc_body = enc, uc_reply = reply\<rparr>
      in (case reply of
            Inl err \<Rightarrow> (Return (Inl (failure 502 (''upstream request failed: '' @ err))), p1, [call])
          | Inr resp \<Rightarrow>
              (if rs_StatusCode resp = 429 then
                 (let rlNow = de_rlNow env attempt;
                      (until, fail) = rate_limited lib resp rlNow
                  in (Continue (Some fail) lastAuth, coolAt i rlNow until p1, [call]))
               else if rs_StatusCode resp < 400 then (Return (Inr resp), clearAt i p1, [call])
               else (Return (Inr resp), p1, [call]))))"

definition dispatch_attempt ::
    "golib \<Rightarrow> config \<Rightarrow> dispatch_env \<Rightarrow> string \<Rightarrow> requestInfo \<Rightarrow> obj \<Rightarrow> header \<Rightarrow> nat \<Rightarrow>
     dispatchFailure option \<Rightarrow> string option \<Rightarrow> accountPool \<Rightarrow> attempt_result \<times> accountPool \<times> upstream_call list" where
  "dispatch_attempt lib cfg env encoded info body r attempt lastRL lastAuth pool =
     (if de_ctxErr env attempt then (Return (Inl (failure 408 ''request canceled'')), pool, [])
      else (let now = de_now env attempt
            in (case pick pool now of
                  (Inl _, p1) \<Rightarrow> (Break, p1, [])
                | (Inr i, p1) \<Rightarrow>
                    (case de_current env attempt i of
                       Inl err \<Rightarrow>
                         (if de_ctxErrAuth env attempt
                          then (Return (Inl (failure 408 ''request canceled'')), p1, [])
                          else (Continue lastRL (Some err), coolAt i now (now + authErrorCooldown) p1, []))
                     | Inr access \<Rightarrow>
                         (let (wireBody, wireEncoded) = wire_request lib (de_supportsTier env attempt i) body encoded
                          in (case wireEncoded of
                                None \<Rightarrow> (Return (Inl (failure 502 ''encode upstream request failed'')), p1, [])
                              | Some enc \<Rightarrow>
                                  (if de_newRequestFails env
                                   then (Return (Inl (failure 502 ''build upstream request failed'')), p1, [])
                                   else send_upstream lib env attempt i
                                          (buildUpstreamRequest cfg info wireBody r access) enc lastAuth p1)))))))"

text \<open>What follows the loop.\<close>

definition dispatch_failure ::
    "dispatch_env \<Rightarrow> dispatchFailure option \<Rightarrow> string option \<Rightarrow> accountPool \<Rightarrow> dispatchFailure" where
  "dispatch_failure env lastRL lastAuth pool =
     (case lastRL of
        Some fail \<Rightarrow>
          (let soonest = soonestReset pool in if soonest \<noteq> 0 then fail\<lparr>df_retryAfter := soonest\<rparr> else fail)
      | None \<Rightarrow>
          (case lastAuth of
             Some err \<Rightarrow> failure 502 (''Codex auth failed: '' @ err)
           | None \<Rightarrow>
               (failure 429 ''all Codex accounts are rate-limited'')\<lparr>df_retryAfter := soonestReset pool\<rparr>))"

fun dispatch_loop ::
    "golib \<Rightarrow> config \<Rightarrow> dispatch_env \<Rightarrow> string \<Rightarrow> requestInfo \<Rightarrow> obj \<Rightarrow> header \<Rightarrow> nat \<Rightarrow> nat \<Rightarrow>
     dispatchFailure option \<Rightarrow> string option \<Rightarrow> accountPool \<Rightarrow>
     (dispatchFailure + http_response) \<times> accountPool \<times> upstream_call list" where
  "dispatch_loop lib cfg env encoded info body r 0 attempt lastRL lastAuth pool =
     (Inl (dispatch_failure env lastRL lastAuth pool), pool, [])"
| "dispatch_loop lib cfg env encoded info body r (Suc n) attempt lastRL lastAuth pool =
     (case dispatch_attempt lib cfg env encoded info body r attempt lastRL lastAuth pool of
        (Break, p1, calls) \<Rightarrow> (Inl (dispatch_failure env lastRL lastAuth p1), p1, calls)
      | (Return res, p1, calls) \<Rightarrow> (res, p1, calls)
      | (Continue rl auth, p1, calls) \<Rightarrow>
          (let (res, p2, more) = dispatch_loop lib cfg env encoded info body r n (Suc attempt) rl auth p1
           in (res, p2, calls @ more)))"

definition dispatchUpstream ::
    "golib \<Rightarrow> config \<Rightarrow> dispatch_env \<Rightarrow> string \<Rightarrow> requestInfo \<Rightarrow> obj \<Rightarrow> header \<Rightarrow> accountPool \<Rightarrow>
     (dispatchFailure + http_response) \<times> accountPool \<times> upstream_call list" where
  "dispatchUpstream lib cfg env encoded info body r pool =
     (let n = pool_size pool
      in if n = 0 then (Inl (failure 502 ''no Codex accounts configured''), pool, [])
         else dispatch_loop lib cfg env encoded info body r n 0 None None pool)"

subsection \<open>The answer on failure\<close>

datatype answer_body = JSONBody json | RawBody string

record answer =
  an_status :: nat
  an_header :: header
  an_body :: answer_body

definition retry_after_seconds :: "gotime \<Rightarrow> dispatchFailure \<Rightarrow> int option" where
  "retry_after_seconds now fail =
     (if df_retryAfter fail = 0 then None
      else (let w0 = time_sub (df_retryAfter fail) now;
                wait = (if df_status fail = 429 \<and> w0 > probeInterval then probeInterval else w0);
                secs = sgn wait * (\<bar>wait\<bar> div nanos_per_second)
            in if secs > 0 then Some secs else None))"

definition writeDispatchFailure :: "golib \<Rightarrow> gotime \<Rightarrow> dispatchFailure \<Rightarrow> header \<times> pending \<Rightarrow> answer \<times> pending" where
  "writeDispatchFailure lib now fail wl =
     (let (w0, log0) = wl;
          (w1, log1) =
            (case df_upstreamHeaders fail of
               None \<Rightarrow> (w0, log0)
             | Some hs \<Rightarrow>
                 (mirrorUpstreamHeaders hs w0,
                  markUpstreamHeaders hs (markUpstreamStatus (df_status fail) log0)));
          w2 = (case retry_after_seconds now fail of
                  None \<Rightarrow> w1
                | Some secs \<Rightarrow> Header_Set w1 ''Retry-After'' (itoa (nat secs)));
          detail = (if df_message fail = [] then summarizeUpstreamError lib (df_body fail) (df_status fail)
                    else df_message fail);
          log2 = markError (df_status fail) detail log1
      in if TrimSpace (df_body fail) \<noteq> []
         then (\<lparr>an_status = df_status fail, an_header = Header_Set w2 ''Content-Type'' ''application/json'',
                an_body = RawBody (normalizeUpstreamErrorBody lib (df_body fail) (df_status fail))\<rparr>, log2)
         else (\<lparr>an_status = df_status fail, an_header = Header_Set w2 ''Content-Type'' ''application/json'',
                an_body = JSONBody (writeProxyError_body
                  (valueOr detail (''upstream returned '' @ itoa (df_status fail))))\<rparr>, log2))"

section \<open>Attempts\<close>

text \<open>The possible outcomes of an attempt, with what they say of the environment.\<close>

lemma dispatch_attempt_cases:
  assumes "dispatch_attempt lib cfg env encoded info body r k rl auth pool = (res, p1, calls)"
  obtains (refused) "fst (pick pool (de_now env k)) = Inl ErrAllCoolingDown" "res = Break" "calls = []"
      "p1 = snd (pick pool (de_now env k))"
  | (canceled) f where "res = Return (Inl f)" "df_status f = 408" "calls = []"
      "p1 = pool \<or> p1 = snd (pick pool (de_now env k))" "de_ctxErr env k \<or> de_ctxErrAuth env k"
  | (broken) f where "res = Return (Inl f)" "df_status f = 502" "calls = []" "p1 = snd (pick pool (de_now env k))"
      "de_newRequestFails env \<or> lib_Marshal lib (JObj (fst (wire_request lib False body encoded))) = None"
  | (auth) i p0 err where "pick pool (de_now env k) = (Inr i, p0)" "de_current env k i = Inl err" "calls = []"
      "res = Continue rl (Some err)" "p1 = coolAt i (de_now env k) (de_now env k + authErrorCooldown) p0"
  | (transport) i p0 err call where "pick pool (de_now env k) = (Inr i, p0)" "de_do env k i = Inl err" "calls = [call]"
      "uc_account call = i" "uc_reply call = Inl err" "res = Return (Inl (failure 502 (''upstream request failed: '' @ err)))" "p1 = p0"
  | (limited) i p0 resp fail until call where "pick pool (de_now env k) = (Inr i, p0)" "de_do env k i = Inr resp"
      "rs_StatusCode resp = 429" "rate_limited lib resp (de_rlNow env k) = (until, fail)" "res = Continue (Some fail) auth"
      "p1 = coolAt i (de_rlNow env k) until p0" "calls = [call]" "uc_account call = i" "uc_reply call = Inr resp"
  | (served) i p0 resp call where "pick pool (de_now env k) = (Inr i, p0)" "de_do env k i = Inr resp"
      "rs_StatusCode resp \<noteq> 429" "res = Return (Inr resp)" "calls = [call]" "uc_account call = i" "uc_reply call = Inr resp"
      "p1 = (if rs_StatusCode resp < 400 then clearAt i p0 else p0)"
proof (cases "de_ctxErr env k")
  case True
  then show thesis using assms by (intro canceled) (auto simp: dispatch_attempt_def failure_def)
next
  case ctx: False
  obtain pr p0 where pk: "pick pool (de_now env k) = (pr, p0)" by (cases "pick pool (de_now env k)")
  show thesis
  proof (cases pr)
    case (Inl e)
    then show thesis using assms pk ctx by (intro refused) (auto simp: dispatch_attempt_def Let_def, cases e, auto)
  next
    case (Inr i)
    note pk = pk [unfolded Inr]
    show thesis
    proof (cases "de_current env k i")
      case (Inl err)
      show thesis
      proof (cases "de_ctxErrAuth env k")
        case True
        then show thesis using assms pk ctx Inl by (intro canceled) (auto simp: dispatch_attempt_def Let_def failure_def)
      next
        case False
        then show thesis using assms pk ctx Inl
          by (intro auth [of i p0 err]) (auto simp: dispatch_attempt_def Let_def)
      qed
    next
      case (Inr access)
      obtain wb we where w: "wire_request lib (de_supportsTier env k i) body encoded = (wb, we)"
        by (cases "wire_request lib (de_supportsTier env k i) body encoded")
      show thesis
      proof (cases "we = None \<or> de_newRequestFails env")
        case True
        moreover have "we = None \<Longrightarrow> lib_Marshal lib (JObj (fst (wire_request lib False body encoded))) = None"
          using w by (auto simp: wire_request_def Let_def split: if_splits)
        ultimately have bad: "de_newRequestFails env \<or>
            lib_Marshal lib (JObj (fst (wire_request lib False body encoded))) = None" by auto
        have "\<exists>f. res = Return (Inl f) \<and> df_status f = 502 \<and> calls = [] \<and> p1 = snd (pick pool (de_now env k))"
          using assms pk ctx Inr w True by (cases we) (auto simp: dispatch_attempt_def Let_def failure_def)
        then show thesis using bad broken by blast
      next
        case ok: False
        then obtain enc where enc: "we = Some enc" by auto
        define call where "call = \<lparr>uc_account = i, uc_header = buildUpstreamRequest cfg info wb r access,
          uc_body = enc, uc_reply = de_do env k i\<rparr>"
        show thesis
        proof (cases "de_do env k i")
          case (Inl err)
          then show thesis using assms pk ctx Inr w ok enc
            by (intro transport [of i p0 err call]) (auto simp: dispatch_attempt_def send_upstream_def Let_def call_def)
        next
          case resp: (Inr resp)
          obtain until fail where rl: "rate_limited lib resp (de_rlNow env k) = (until, fail)"
            by (cases "rate_limited lib resp (de_rlNow env k)")
          show thesis
          proof (cases "rs_StatusCode resp = 429")
            case True
            then show thesis using assms pk ctx Inr w ok enc resp rl
              by (intro limited [of i p0 resp until fail call]) (auto simp: dispatch_attempt_def send_upstream_def Let_def call_def)
          next
            case False
            then show thesis using assms pk ctx Inr w ok enc resp
              by (intro served [of i p0 resp call]) (auto simp: dispatch_attempt_def send_upstream_def Let_def call_def split: if_splits)
          qed
        qed
      qed
    qed
  qed
qed

section \<open>Properties of a dispatch\<close>

text \<open>Every reply but the last of a dispatch is a rate limit, and the last one decides it.\<close>

definition reply_limited :: "upstream_call \<Rightarrow> bool" where
  "reply_limited c \<longleftrightarrow> (\<exists>resp. uc_reply c = Inr resp \<and> rs_StatusCode resp = 429)"

definition decided :: "(dispatchFailure + http_response) \<Rightarrow> upstream_call list \<Rightarrow> bool" where
  "decided res calls \<longleftrightarrow>
     (case res of
        Inr resp \<Rightarrow> calls \<noteq> [] \<and> uc_reply (last calls) = Inr resp \<and> rs_StatusCode resp \<noteq> 429
      | Inl fail \<Rightarrow> (\<forall>c\<in>set calls. reply_limited c) \<or>
          (calls \<noteq> [] \<and> (\<exists>err. uc_reply (last calls) = Inl err) \<and> df_status fail = 502))"

lemma pool_sizes [simp]:
  "pool_size (coolAt i now until p) = pool_size p" "pool_size (clearAt i p) = pool_size p"
  "pool_size (snd (pick p t)) = pool_size p"
  by (simp_all add: pool_size_def coolAt_def clearAt_def)

lemma pick_size: "pick p t = (x, p') \<Longrightarrow> pool_size p' = pool_size p"
  using pool_sizes(3) [of p t] by simp

lemma dispatch_attempt_size:
  "dispatch_attempt lib cfg env encoded info body r k rl auth pool = (res, p1, calls) \<Longrightarrow> pool_size p1 = pool_size pool"
  by (erule dispatch_attempt_cases) (auto dest: pick_size split: if_splits)

lemma dispatch_loop_calls:
  "dispatch_loop lib cfg env encoded info body r n k rl auth pool = (res, pool', calls) \<Longrightarrow>
   length calls \<le> n \<and> (\<forall>c\<in>set (butlast calls). reply_limited c) \<and> decided res calls \<and> pool_size pool' = pool_size pool"
proof (induction n arbitrary: k rl auth pool calls)
  case 0
  then show ?case by (auto simp: decided_def)
next
  case (Suc n)
  obtain ares p1 c1 where at: "dispatch_attempt lib cfg env encoded info body r k rl auth pool = (ares, p1, c1)"
    by (cases "dispatch_attempt lib cfg env encoded info body r k rl auth pool")
  have step: "dispatch_loop lib cfg env encoded info body r (Suc n) k rl auth pool =
    (case ares of Break \<Rightarrow> (Inl (dispatch_failure env rl auth p1), p1, c1) | Return x \<Rightarrow> (x, p1, c1)
     | Continue rl' auth' \<Rightarrow>
        (let (res, p2, more) = dispatch_loop lib cfg env encoded info body r n (Suc k) rl' auth' p1
         in (res, p2, c1 @ more)))"
    using at by (simp split: attempt_result.split)
  have cont: "\<exists>more. dispatch_loop lib cfg env encoded info body r n (Suc k) rl' au' p1 = (res, pool', more) \<and> calls = c1 @ more"
    if c: "ares = Continue rl' au'" for rl' au'
  proof -
    obtain r2 p2 more where l: "dispatch_loop lib cfg env encoded info body r n (Suc k) rl' au' p1 = (r2, p2, more)"
      by (cases "dispatch_loop lib cfg env encoded info body r n (Suc k) rl' au' p1")
    have "dispatch_loop lib cfg env encoded info body r (Suc n) k rl auth pool = (r2, p2, c1 @ more)"
      unfolding step c attempt_result.case l by simp
    then show ?thesis using Suc.prems l by simp
  qed
  have size1: "pool_size p1 = pool_size pool"
    using dispatch_attempt_size [OF at] .
  show ?case
    using at
  proof (cases rule: dispatch_attempt_cases)
    case (auth i p0 err)
    obtain more where "dispatch_loop lib cfg env encoded info body r n (Suc k) rl (Some err) p1 = (res, pool', more)"
      "calls = more"
      using cont [OF auth(4)] auth(3) by auto
    from Suc.IH [OF this(1)] this(2) size1 show ?thesis by simp
  next
    case (limited i p0 resp fail until call)
    obtain more where "dispatch_loop lib cfg env encoded info body r n (Suc k) (Some fail) auth p1 = (res, pool', more)"
      "calls = call # more"
      using cont [OF limited(5)] limited(7) by auto
    from Suc.IH [OF this(1)] this(2) size1 limited show ?thesis
      by (auto simp: decided_def reply_limited_def split: sum.splits)
  qed (use Suc.prems step size1 in \<open>auto simp: decided_def failure_def\<close>)
qed

section \<open>Failover reaches an account that can serve\<close>

text \<open>An environment that lets a dispatch finish: the request is not canceled, requests can be built
  and sent, and the clock advances by less than the shortest cooldown.\<close>

definition calm :: "golib \<Rightarrow> dispatch_env \<Rightarrow> obj \<Rightarrow> string \<Rightarrow> gotime \<Rightarrow> gotime \<Rightarrow> bool" where
  "calm lib env body encoded t0 T \<longleftrightarrow>
     (\<forall>k. \<not> de_ctxErr env k \<and> \<not> de_ctxErrAuth env k) \<and> \<not> de_newRequestFails env \<and>
     lib_Marshal lib (JObj (fst (wire_request lib False body encoded))) \<noteq> None \<and>
     (\<forall>k i. \<exists>resp. de_do env k i = Inr resp) \<and>
     (\<forall>k. t0 \<le> de_now env k \<and> de_now env k \<le> T \<and> t0 \<le> de_rlNow env k \<and> de_rlNow env k \<le> T) \<and>
     T < t0 + minCooldown"

definition serves :: "dispatch_env \<Rightarrow> nat \<Rightarrow> bool" where
  "serves env j \<longleftrightarrow>
     (\<forall>k. \<exists>access. de_current env k j = Inr access) \<and>
     (\<forall>k resp. de_do env k j = Inr resp \<longrightarrow> rs_StatusCode resp \<noteq> 429)"

lemma rate_limited_until:
  "rate_limited lib resp now = (until, fail) \<Longrightarrow> now + minCooldown \<le> until"
  using deriveCooldown_sane [of now lib "Some (Header_Get (rs_Header resp))" "take (64 * 1024) (rs_Body resp)"]
  by (auto simp: rate_limited_def Let_def sane_deadline_def split: prod.splits)

lemma calm_rotate:
  assumes "calm lib env body encoded t0 T" "pick p (de_now env k) = (Inr i, p0)" "j \<in> pool.free p t0" "i \<noteq> j" "T < until"
  shows "j \<in> pool.free (coolAt i now until p0) t0 \<and>
    card (pool.free (coolAt i now until p0) T) < card (pool.free p T)"
proof
  have t: "t0 \<le> de_now env k" "de_now env k \<le> T" using assms(1) by (auto simp: calm_def)
  then have "j \<in> pool.free p (de_now env k)"
    using assms(3) pool.avail_later [of p j t0] by (auto simp: pool.free_def)
  then show "card (pool.free (coolAt i now until p0) T) < card (pool.free p T)"
    using pool.rotate_card [OF assms(2) _ t(2) assms(5)] by blast
  show "j \<in> pool.free (coolAt i now until p0) t0"
    using pool.rotate_others [OF assms(2,3)] assms(4) by auto
qed

lemma dispatch_loop_serves:
  assumes calm: "calm lib env body encoded t0 T" and serves: "serves env j"
  shows "j \<in> pool.free p t0 \<Longrightarrow> card (pool.free p T) \<le> n \<Longrightarrow>
    \<exists>resp. fst (dispatch_loop lib cfg env encoded info body r n k rl auth p) = Inr resp"
proof (induction n arbitrary: k rl auth p)
  case 0
  have "t0 \<le> T" using calm by (auto simp: calm_def intro: order_trans)
  then have "j \<in> pool.free p T" using 0 pool.avail_later [of p j t0] by (auto simp: pool.free_def)
  then show ?case using 0(2) by (auto simp: card_eq_0_iff)
next
  case (Suc n)
  obtain ares p1 c1 where at: "dispatch_attempt lib cfg env encoded info body r k rl auth p = (ares, p1, c1)"
    by (cases "dispatch_attempt lib cfg env encoded info body r k rl auth p")
  have t: "t0 \<le> de_now env k" "T < de_now env k + authErrorCooldown" "T < de_rlNow env k + minCooldown"
    using calm by (auto simp: calm_def authErrorCooldown_def minCooldown_def) (smt (verit))+
  have next_: "\<exists>resp. fst (dispatch_loop lib cfg env encoded info body r (Suc n) k rl auth p) = Inr resp"
    if "ares = Continue rl' au'" "p1 = coolAt i now until p0" "pick p (de_now env k) = (Inr i, p0)" "i \<noteq> j" "T < until"
    for rl' au' i now until p0
    using Suc.IH [of p1 "Suc k" rl' au'] calm_rotate [OF calm that(3) Suc.prems(1) that(4,5), of now] Suc.prems(2) that(1,2) at
    by (auto simp: split_beta Let_def)
  show ?case
    using at
  proof (cases rule: dispatch_attempt_cases)
    case refused
    have "available (accounts p ! j) (de_now env k)"
      using Suc.prems(1) pool.avail_later [of p j t0] t(1) by (auto simp: pool.free_def)
    then show ?thesis
      using pool.elect_refuses [OF refused(1), of j] Suc.prems(1) by (auto simp: pool.free_def)
  next
    case (canceled f)
    then show ?thesis using calm by (auto simp: calm_def)
  next
    case (broken f)
    then show ?thesis using calm by (auto simp: calm_def)
  next
    case (auth i p0 err)
    have "i \<noteq> j" using serves auth(2) unfolding serves_def by (metis Inl_Inr_False)
    then show ?thesis using auth t(2) by (intro next_)
  next
    case (transport i p0 err call)
    then show ?thesis using calm by (auto simp: calm_def) (metis Inl_Inr_False)
  next
    case (limited i p0 resp fail until call)
    have "i \<noteq> j" using serves limited(2,3) unfolding serves_def by metis
    then show ?thesis
      using t(3) rate_limited_until [OF limited(4)] by (intro next_ [OF limited(5,6,1)]) simp_all
  next
    case (served i p0 resp call)
    then show ?thesis using at by simp
  qed
qed

section \<open>Properties\<close>

text \<open>C1: Failover is complete: if at the start of a dispatch some account is out of its cooldown, its
  credentials work and the upstream does not rate-limit it, then the dispatch returns a response,
  whatever the other accounts answer (rate limits or authentication failures), as long as the
  request is not canceled, requests reach the upstream and the dispatch takes less than the
  shortest cooldown.\<close>

theorem dispatch_reaches_serving_account:
  assumes "calm lib env body encoded t0 T" "serves env j"
    and "j < pool_size pool" "available (accounts pool ! j) t0"
  shows "\<exists>resp. fst (dispatchUpstream lib cfg env encoded info body r pool) = Inr resp"
proof -
  have j: "j \<in> pool.free pool t0" using assms(3,4) by (simp add: pool.free_def)
  have "card (pool.free pool T) \<le> pool_size pool" by (rule pool.card_free_le)
  from dispatch_loop_serves [OF assms(1,2) j this] show ?thesis
    using assms(3) by (simp add: dispatchUpstream_def Let_def)
qed

definition witness_cfg :: config where
  "witness_cfg =
     \<lparr>cfg_promptCacheKey = [], cfg_upstreamOriginator = [], cfg_modelsClientVersion = [], cfg_version = [],
      cfg_upstreamURL = []\<rparr>"

definition witness_pool :: accountPool where
  "witness_pool = newAccountPool [''a/auth.json'', ''b/auth.json'']"

definition witness_env :: dispatch_env where
  "witness_env =
     \<lparr>de_ctxErr = \<lambda>_. False, de_now = \<lambda>_. seconds 10, de_current = \<lambda>_ _. Inr \<lparr>am_AccessToken = ''t'', am_AccountID = ''a''\<rparr>,
      de_ctxErrAuth = \<lambda>_. False, de_supportsTier = \<lambda>_ _. True, de_newRequestFails = False,
      de_do = \<lambda>_ i. Inr \<lparr>rs_StatusCode = (if i = 0 then 429 else 200), rs_Header = [], rs_Body = []\<rparr>,
      de_rlNow = \<lambda>_. seconds 11, de_end = seconds 12\<rparr>"

theorem dispatch_reaches_serving_account_witness:
  "\<exists>resp. fst (dispatchUpstream witness_lib witness_cfg witness_env ''{}'' empty_info [] [] witness_pool) = Inr resp"
proof -
  have "calm witness_lib witness_env [] ''{}'' (seconds 10) (seconds 11)"
    by (simp add: calm_def witness_env_def witness_lib_def minCooldown_def)
  moreover have "serves witness_env 1" by (simp add: serves_def witness_env_def)
  moreover have "1 < pool_size witness_pool" "available (accounts witness_pool ! 1) (seconds 10)"
    by (simp_all add: witness_pool_def newAccountPool_def pool_size_def available_def Let_def split: prod.split)
  ultimately show ?thesis by (rule dispatch_reaches_serving_account)
qed



text \<open>A client that is told to retry after a rate limit is told to wait at least one second and
  never longer than the interval at which the pool probes benched accounts, five minutes.\<close>

theorem retry_after_bounded:
  assumes "df_status fail = 429" "retry_after_seconds now fail = Some secs"
  shows "0 < secs \<and> secs \<le> 300"
proof -
  define w where "w = (let w0 = time_sub (df_retryAfter fail) now in if w0 > probeInterval then probeInterval else w0)"
  have "secs = sgn w * (\<bar>w\<bar> div nanos_per_second)" "0 < secs"
    using assms by (auto simp: retry_after_seconds_def w_def Let_def split: if_splits)
  moreover have "w \<le> probeInterval" by (simp add: w_def Let_def)
  moreover from this have "0 < w \<Longrightarrow> w div nanos_per_second \<le> 300"
    by (simp add: probeInterval_def)
  ultimately show ?thesis by (cases "w = 0"; cases "0 < w") (auto simp:)
qed

theorem retry_after_bounded_witness:
  "retry_after_seconds 0 ((failure 429 [])\<lparr>df_retryAfter := hours 24\<rparr>) = Some 300 \<and> 0 < (300::int) \<and> (300::int) \<le> 300"
proof -
  let ?f = "(failure 429 [])\<lparr>df_retryAfter := hours 24\<rparr>"
  have "df_status ?f = 429" by (simp add: failure_def)
  moreover have "retry_after_seconds 0 ?f = Some 300"
    by (simp add: retry_after_seconds_def failure_def time_sub_def probeInterval_def Let_def)
  ultimately show ?thesis using retry_after_bounded [of ?f 0 300] by blast
qed

end
