(* ===== verification/Server.thy ===== *)
theory Server
  imports Dispatch
begin

text \<open>
  Admission and graceful shutdown, \<^verbatim>\<open>src/server.go\<close>. The operations of \<open>serverRequests\<close> run under its
  mutex and are functions on its state; the channel \<open>done\<close> is whether it is closed, and an operation
  returns \<open>None\<close> where Go panics because the channel is closed twice. \<open>serveHTTP\<close> is a machine: its
  phases are the points where it blocks, its events what net/http, the handlers and the timers do.
\<close>

section \<open>Definitions\<close>

record serverRequests =
  sr_draining :: bool
  sr_active :: int
  sr_done :: bool

text \<open>\<open>wrap\<close>: the admission of a request, the answer to a refused one, and the deferred exit.\<close>

definition wrap_enter :: "serverRequests \<Rightarrow> serverRequests option" where
  "wrap_enter s = (if sr_draining s then None else Some (s\<lparr>sr_active := sr_active s + 1\<rparr>))"

definition wrap_refusal :: "header \<Rightarrow> answer" where
  "wrap_refusal w =
     \<lparr>an_status = 503, an_header = Header_Set (Header_Set w ''Connection'' ''close'') ''Retry-After'' ''1'',
      an_body = JSONBody (writeProxyError_body ''broker is shutting down'')\<rparr>"

definition close_done :: "serverRequests \<Rightarrow> serverRequests option" where
  "close_done s = (if sr_done s then None else Some (s\<lparr>sr_done := True\<rparr>))"

definition wrap_exit :: "serverRequests \<Rightarrow> serverRequests option" where
  "wrap_exit s =
     (let s1 = s\<lparr>sr_active := sr_active s - 1\<rparr>
      in if sr_draining s1 \<and> sr_active s1 = 0 then close_done s1 else Some s1)"

definition drain :: "serverRequests \<Rightarrow> serverRequests option" where
  "drain s =
     (if \<not> sr_draining s
      then (let s1 = s\<lparr>sr_draining := True\<rparr> in if sr_active s1 = 0 then close_done s1 else Some s1)
      else Some s)"

subsection \<open>serveHTTP\<close>

datatype server_error = ErrServerClosed | DeadlineExceeded | OtherError string

datatype serve_result = ReturnedNil | ServeFailed server_error | ShutdownFailed server_error | CleanupTimedOut

text \<open>The argument \<open>stopped\<close> is the error of \<open>Serve\<close> when it returned before the stop signal
  (\<open>alreadyStopped\<close>), \<open>shut\<close> is \<open>shutdownErr\<close>.\<close>

type_synonym served = "server_error option option"

datatype phase =
    Serving
  | Stopping served
  | ShuttingDown served
  | AwaitDone served
  | Cleanup served server_error
  | AwaitServed "server_error option"
  | Returned serve_result
  | Panicked

definition serve_outcome :: "server_error option \<Rightarrow> server_error option \<Rightarrow> serve_result" where
  "serve_outcome serveErr shutdownErr =
     (case serveErr of
        Some e \<Rightarrow> (if e \<noteq> ErrServerClosed then ServeFailed e
                   else (case shutdownErr of
                           Some f \<Rightarrow> (if f \<noteq> DeadlineExceeded then ShutdownFailed f else ReturnedNil)
                         | None \<Rightarrow> ReturnedNil))
      | None \<Rightarrow> (case shutdownErr of
                   Some f \<Rightarrow> (if f \<noteq> DeadlineExceeded then ShutdownFailed f else ReturnedNil)
                 | None \<Rightarrow> ReturnedNil))"

text \<open>After the drain or the cleanup: wait for \<open>Serve\<close> unless it has returned, then return.\<close>

definition conclude :: "served \<Rightarrow> server_error option \<Rightarrow> phase" where
  "conclude stopped shut =
     (case stopped of
        None \<Rightarrow> AwaitServed shut
      | Some serveErr \<Rightarrow> Returned (serve_outcome serveErr shut))"

record server_sys =
  ss_requests :: serverRequests
  ss_running :: "nat set"
  ss_phase :: phase
  ss_canceled :: bool

definition server_init :: server_sys where
  "server_init =
     \<lparr>ss_requests = \<lparr>sr_draining = False, sr_active = 0, sr_done = False\<rparr>, ss_running = {},
      ss_phase = Serving, ss_canceled = False\<rparr>"

datatype server_event =
    Arrive nat
  | HandlerReturns nat
  | StopSignal
  | ServeReturns "server_error option"
  | DrainCalled
  | ShutdownReturns "server_error option"
  | DoneReceived
  | DrainDeadline
  | CleanupTimer

definition with_requests :: "server_sys \<Rightarrow> serverRequests option \<Rightarrow> (server_sys \<Rightarrow> server_sys) \<Rightarrow> server_sys" where
  "with_requests s r upd =
     (case r of None \<Rightarrow> s\<lparr>ss_phase := Panicked\<rparr> | Some r' \<Rightarrow> upd (s\<lparr>ss_requests := r'\<rparr>))"

text \<open>\<open>None\<close>: the event cannot happen in this state.\<close>

fun server_step :: "server_event \<Rightarrow> server_sys \<Rightarrow> server_sys option" where
  "server_step (Arrive i) s =
     (if i \<in> ss_running s \<or> ss_phase s = Panicked then None
      else (case wrap_enter (ss_requests s) of
              None \<Rightarrow> Some s
            | Some r \<Rightarrow> Some (s\<lparr>ss_requests := r, ss_running := insert i (ss_running s)\<rparr>)))"
| "server_step (HandlerReturns i) s =
     (if i \<notin> ss_running s \<or> ss_phase s = Panicked then None
      else Some (with_requests s (wrap_exit (ss_requests s)) (\<lambda>t. t\<lparr>ss_running := ss_running s - {i}\<rparr>)))"
| "server_step StopSignal s =
     (if ss_phase s = Serving then Some (s\<lparr>ss_phase := Stopping None\<rparr>) else None)"
| "server_step (ServeReturns err) s =
     (case ss_phase s of
        Serving \<Rightarrow> Some (s\<lparr>ss_phase := Stopping (Some err)\<rparr>)
      | AwaitServed shut \<Rightarrow> Some (s\<lparr>ss_phase := Returned (serve_outcome err shut)\<rparr>)
      | _ \<Rightarrow> None)"
| "server_step DrainCalled s =
     (case ss_phase s of
        Stopping st \<Rightarrow> Some (with_requests s (drain (ss_requests s)) (\<lambda>t. t\<lparr>ss_phase := ShuttingDown st\<rparr>))
      | _ \<Rightarrow> None)"
| "server_step (ShutdownReturns err) s =
     (case ss_phase s of
        ShuttingDown st \<Rightarrow>
          (case err of
             None \<Rightarrow> Some (s\<lparr>ss_phase := AwaitDone st\<rparr>)
           | Some e \<Rightarrow> Some (s\<lparr>ss_phase := Cleanup st e, ss_canceled := True\<rparr>))
      | _ \<Rightarrow> None)"
| "server_step DoneReceived s =
     (if \<not> sr_done (ss_requests s) then None
      else (case ss_phase s of
              AwaitDone st \<Rightarrow> Some (s\<lparr>ss_phase := conclude st None\<rparr>)
            | Cleanup st e \<Rightarrow> Some (s\<lparr>ss_phase := conclude st (Some e)\<rparr>)
            | _ \<Rightarrow> None))"
| "server_step DrainDeadline s =
     (case ss_phase s of
        AwaitDone st \<Rightarrow> Some (s\<lparr>ss_phase := Cleanup st DeadlineExceeded, ss_canceled := True\<rparr>)
      | _ \<Rightarrow> None)"
| "server_step CleanupTimer s =
     (case ss_phase s of
        Cleanup st e \<Rightarrow> Some (s\<lparr>ss_phase := Returned CleanupTimedOut\<rparr>)
      | _ \<Rightarrow> None)"

section \<open>Invariant\<close>

text \<open>The phases that serveHTTP reaches only after it has received from \<open>done\<close>.\<close>

fun done_seen :: "phase \<Rightarrow> bool" where
  "done_seen (AwaitServed shut) = True"
| "done_seen (Returned r) \<longleftrightarrow> r \<noteq> CleanupTimedOut"
| "done_seen _ = False"

fun drained :: "phase \<Rightarrow> bool" where
  "drained Serving = False"
| "drained (Stopping st) = False"
| "drained _ = True"

definition server_inv :: "server_sys \<Rightarrow> bool" where
  "server_inv s \<longleftrightarrow>
     finite (ss_running s) \<and> sr_active (ss_requests s) = int (card (ss_running s)) \<and>
     (sr_done (ss_requests s) \<longleftrightarrow> sr_draining (ss_requests s) \<and> ss_running s = {}) \<and>
     sr_draining (ss_requests s) = drained (ss_phase s) \<and>
     ss_phase s \<noteq> Panicked \<and> (done_seen (ss_phase s) \<longrightarrow> sr_done (ss_requests s)) \<and>
     (ss_phase s = Returned CleanupTimedOut \<longrightarrow> ss_canceled s) \<and>
     (\<forall>st e. ss_phase s = Cleanup st e \<longrightarrow> ss_canceled s)"

lemma server_inv_init: "server_inv server_init"
  by (simp add: server_inv_def server_init_def)

lemma serve_outcome_not_timeout [simp]: "serve_outcome a b \<noteq> CleanupTimedOut"
  by (simp add: serve_outcome_def split: option.split)

lemma conclude_seen [simp]: "done_seen (conclude st shut)" "drained (conclude st shut)"
    "conclude st shut \<noteq> Panicked" "conclude st shut \<noteq> Returned CleanupTimedOut" "conclude st shut \<noteq> Cleanup a b"
  by (simp_all add: conclude_def split: option.split)

lemma inv_arrive: "server_inv s \<Longrightarrow> server_step (Arrive i) s = Some t \<Longrightarrow> server_inv t"
  by (auto simp: server_inv_def wrap_enter_def split: if_splits)

text \<open>A handler leaves: the last one of a draining server closes \<open>done\<close>, which is then open.\<close>

lemma inv_leave: "server_inv s \<Longrightarrow> server_step (HandlerReturns i) s = Some t \<Longrightarrow> server_inv t"
proof -
  assume inv: "server_inv s" and st: "server_step (HandlerReturns i) s = Some t"
  let ?r = "ss_requests s"
  have i: "i \<in> ss_running s" using st by (auto split: if_splits)
  have fin: "finite (ss_running s)" and act: "sr_active ?r = int (card (ss_running s))"
    using inv by (simp_all add: server_inv_def)
  have open_done: "\<not> sr_done ?r" using inv i by (auto simp: server_inv_def)
  have card: "sr_active ?r - 1 = int (card (ss_running s - {i}))"
    using int_card_remove [OF fin i] act by simp
  have empty: "sr_active ?r - 1 = 0 \<longleftrightarrow> ss_running s - {i} = {}"
    unfolding card using fin by (auto simp: card_eq_0_iff)
  have exit: "wrap_exit ?r =
      Some (?r\<lparr>sr_active := sr_active ?r - 1, sr_done := sr_draining ?r \<and> ss_running s - {i} = {}\<rparr>)"
    using empty open_done by (auto simp: wrap_exit_def close_done_def Let_def)
  have "ss_phase s \<noteq> Panicked" using inv by (simp add: server_inv_def)
  then have "t = s\<lparr>ss_requests := ?r\<lparr>sr_active := sr_active ?r - 1,
      sr_done := sr_draining ?r \<and> ss_running s - {i} = {}\<rparr>, ss_running := ss_running s - {i}\<rparr>"
    using st i exit by (simp add: with_requests_def)
  then show ?thesis using inv card open_done fin by (auto simp: server_inv_def)
qed

lemma inv_drain: "server_inv s \<Longrightarrow> server_step DrainCalled s = Some t \<Longrightarrow> server_inv t"
  by (cases "ss_phase s"; cases "ss_running s = {}")
    (simp_all add: server_inv_def drain_def close_done_def with_requests_def Let_def, auto)

lemma inv_control:
  assumes "server_inv s" and "server_step e s = Some t"
    and "\<And>i. e \<noteq> Arrive i" and "\<And>i. e \<noteq> HandlerReturns i" and "e \<noteq> DrainCalled"
  shows "server_inv t"
  using assms
  by (cases e; cases "ss_phase s") (auto simp: server_inv_def split: if_splits option.splits)

interpretation server: machine_invariant server_step server_inv
proof
  fix s e t
  assume inv: "server_inv s" and st: "server_step e s = Some t"
  show "server_inv t"
  proof (cases e)
    case (Arrive i)
    then show ?thesis using inv_arrive inv st by blast
  next
    case (HandlerReturns i)
    then show ?thesis using inv_leave inv st by blast
  next
    case DrainCalled
    then show ?thesis using inv_drain inv st by blast
  qed (use inv_control [OF inv st] in auto)
qed

text \<open>Once \<open>done\<close> is closed no handler runs, now or later.\<close>

lemma done_stays: "server_inv s \<Longrightarrow> sr_done (ss_requests s) \<Longrightarrow> server_step e s = Some t \<Longrightarrow> sr_done (ss_requests t)"
  by (cases e; cases "ss_phase s")
    (auto simp: server_inv_def wrap_enter_def drain_def with_requests_def split: if_splits option.splits)

interpretation drained: machine_invariant server_step "\<lambda>s. server_inv s \<and> sr_done (ss_requests s)"
  using server.step_inv done_stays by unfold_locales blast

section \<open>Properties\<close>

text \<open>C21: Whatever order requests, handlers, the stop signal, net/http and the timers act in, shutdown
  never closes its channel twice, and when the server function returns without the cleanup timeout no
  handler is running and none will ever start, so its caller can close the shared resources; if it
  times out, the handlers' context has been cancelled.\<close>

theorem shutdown_waits_for_handlers:
  assumes "run_steps server_step es server_init = Some s"
  shows "ss_phase s \<noteq> Panicked \<and>
    (ss_phase s = Returned CleanupTimedOut \<longrightarrow> ss_canceled s) \<and>
    (\<forall>r es' t. ss_phase s = Returned r \<and> r \<noteq> CleanupTimedOut \<and> run_steps server_step es' s = Some t \<longrightarrow>
       ss_running s = {} \<and> ss_running t = {})"
proof -
  have inv: "server_inv s" using server.run_inv [OF server_inv_init assms] .
  have "ss_running s = {} \<and> ss_running t = {}"
    if r: "ss_phase s = Returned r" "r \<noteq> CleanupTimedOut" "run_steps server_step es' s = Some t" for r es' t
  proof -
    have "done_seen (ss_phase s)" using r(1,2) by simp
    with inv have "sr_done (ss_requests s)" unfolding server_inv_def by blast
    with drained.run_inv [OF _ r(3)] inv show ?thesis by (auto simp: server_inv_def)
  qed
  moreover have "ss_phase s \<noteq> Panicked" "ss_phase s = Returned CleanupTimedOut \<longrightarrow> ss_canceled s"
    using inv by (simp_all add: server_inv_def)
  ultimately show ?thesis by blast
qed

theorem shutdown_waits_for_handlers_witness:
  "\<exists>s. run_steps server_step
       [Arrive 1, StopSignal, DrainCalled, Arrive 2, ShutdownReturns None, HandlerReturns 1, DoneReceived,
        ServeReturns (Some ErrServerClosed)] server_init = Some s \<and>
     ss_phase s = Returned ReturnedNil \<and> ss_running s = {}"
proof -
  let ?es = "[Arrive 1, StopSignal, DrainCalled, Arrive 2, ShutdownReturns None, HandlerReturns 1, DoneReceived,
        ServeReturns (Some ErrServerClosed)]"
  obtain s where s: "run_steps server_step ?es server_init = Some s" "ss_phase s = Returned ReturnedNil"
    by (simp add: server_init_def wrap_enter_def drain_def wrap_exit_def close_done_def with_requests_def
        conclude_def serve_outcome_def Let_def)
  from shutdown_waits_for_handlers [OF s(1)] s show ?thesis
    by (metis run_steps.simps(1) serve_result.distinct(5))
qed

end
