(* ===== verification/Failover.thy ===== *)
theory Failover
  imports Accounts
begin

text \<open>
  The shape the broker's failover loops share: at most one attempt per account, each of which stops
  the loop, returns a result, or goes on to the next account. The loops of \<open>postSubscription\<close>
  (\<^verbatim>\<open>src/capabilities.go\<close>) and \<open>dialResponsesWebSocket\<close> (\<^verbatim>\<open>src/websocket.go\<close>) are instances; the laws an
  attempt must obey are a locale, so what follows from them is proved once.
\<close>

datatype ('s, 'r) outcome = Stop | Again 's | Answer 'r

text \<open>\<open>final\<close> is what the code does after the loop. Besides the result a loop yields the pool and the
  requests that were sent.\<close>

fun failover ::
    "(nat \<Rightarrow> 's \<Rightarrow> 'p \<Rightarrow> ('s, 'r) outcome \<times> 'p \<times> 'c list) \<Rightarrow> ('s \<Rightarrow> 'p \<Rightarrow> 'r) \<Rightarrow> nat \<Rightarrow> nat \<Rightarrow> 's \<Rightarrow> 'p \<Rightarrow>
     'r \<times> 'p \<times> 'c list" where
  "failover attempt final 0 k s p = (final s p, p, [])"
| "failover attempt final (Suc n) k s p =
     (case attempt k s p of
        (Stop, p1, calls) \<Rightarrow> (final s p1, p1, calls)
      | (Answer r, p1, calls) \<Rightarrow> (r, p1, calls)
      | (Again s1, p1, calls) \<Rightarrow>
          (let (r, p2, more) = failover attempt final n (Suc k) s1 p1 in (r, p2, calls @ more)))"

section \<open>What is sent\<close>

text \<open>An attempt sends at most one request, and the loop goes on only past requests that may be sent
  again: \<open>replayable\<close> ones. \<open>explained\<close> relates the result of an attempt to its last request.\<close>

locale failover_loop =
  fixes attempt :: "nat \<Rightarrow> 's \<Rightarrow> 'p \<Rightarrow> ('s, 'r) outcome \<times> 'p \<times> 'c list"
    and replayable :: "'c \<Rightarrow> bool"
  assumes stop_sends_nothing: "attempt k s p = (Stop, p1, calls) \<Longrightarrow> calls = []"
    and answer_sends_one: "attempt k s p = (Answer r, p1, calls) \<Longrightarrow> length calls \<le> 1"
    and again_replayable: "attempt k s p = (Again s1, p1, calls) \<Longrightarrow> length calls \<le> 1 \<and> (\<forall>c\<in>set calls. replayable c)"
begin

lemma failover_calls:
  "failover attempt final n k s p = (r, p2, calls) \<Longrightarrow>
   length calls \<le> n \<and> (\<forall>c\<in>set (butlast calls). replayable c)"
proof (induction n arbitrary: k s p calls)
  case (Suc n)
  obtain o1 p1 c1 where at: "attempt k s p = (o1, p1, c1)" by (cases "attempt k s p")
  show ?case
  proof (cases o1)
    case Stop
    then show ?thesis using Suc.prems at stop_sends_nothing by fastforce
  next
    case (Answer x)
    then have "calls = c1" "length c1 \<le> 1" using Suc.prems at answer_sends_one by fastforce+
    then show ?thesis by (cases c1) auto
  next
    case (Again s1)
    obtain r2 q more where l: "failover attempt final n (Suc k) s1 p1 = (r2, q, more)"
      by (cases "failover attempt final n (Suc k) s1 p1")
    then have eq: "calls = c1 @ more" "r2 = r" "q = p2" using Suc.prems at Again by simp_all
    have c1: "length c1 \<le> 1" "\<forall>c\<in>set c1. replayable c" using again_replayable at Again by blast+
    have more: "length more \<le> n" "\<forall>c\<in>set (butlast more). replayable c" using Suc.IH l eq(2,3) by blast+
    then have "\<forall>c\<in>set (butlast (c1 @ more)). replayable c"
      using c1(2) by (auto simp: butlast_append dest: in_set_butlastD)
    then show ?thesis using eq(1) c1(1) more(1) by simp
  qed
qed simp

end

text \<open>What holds of the requests of every attempt holds of all requests of the loop.\<close>

lemma failover_all_calls:
  assumes "\<And>k s p out p1 calls. attempt k s p = (out, p1, calls) \<Longrightarrow> \<forall>c\<in>set calls. P c"
  shows "failover attempt final n k s p = (r, p2, calls) \<Longrightarrow> \<forall>c\<in>set calls. P c"
proof (induction n arbitrary: k s p calls)
  case (Suc n)
  obtain o1 p1 c1 where at: "attempt k s p = (o1, p1, c1)" by (cases "attempt k s p")
  note c1 = assms [OF at]
  show ?case
  proof (cases o1)
    case (Again s1)
    obtain r2 q more where l: "failover attempt final n (Suc k) s1 p1 = (r2, q, more)"
      by (cases "failover attempt final n (Suc k) s1 p1")
    then have "calls = c1 @ more" "r2 = r" "q = p2" using Suc.prems at Again by simp_all
    then show ?thesis using Suc.IH l c1 by auto
  qed (use Suc.prems at c1 in auto)
qed simp

section \<open>An account that can serve is reached\<close>

text \<open>A measure on pools that every failed attempt decreases, and a property of pools that makes the
  next attempt either answer well or go on: then the loop answers well.\<close>

lemma failover_succeeds:
  assumes step: "\<And>k s p. ready p \<Longrightarrow>
      (case attempt k s p of
         (Stop, p1, calls) \<Rightarrow> False
       | (Answer r, p1, calls) \<Rightarrow> good r
       | (Again s1, p1, calls) \<Rightarrow> ready p1 \<and> left p1 < left p)"
    and pos: "\<And>p. ready p \<Longrightarrow> (0::nat) < left p"
  shows "ready p \<Longrightarrow> left p \<le> n \<Longrightarrow> good (fst (failover attempt final n k s p))"
proof (induction n arbitrary: k s p)
  case 0
  then show ?case using pos by fastforce
next
  case (Suc n)
  obtain o1 p1 c1 where at: "attempt k s p = (o1, p1, c1)" by (cases "attempt k s p")
  show ?case
  proof (cases o1)
    case Stop
    then show ?thesis using step [OF Suc.prems(1), of k s] at by simp
  next
    case (Answer r)
    then show ?thesis using step [OF Suc.prems(1), of k s] at by simp
  next
    case (Again s1)
    then have "ready p1" "left p1 < left p" using step [OF Suc.prems(1), of k s] at by simp_all
    then show ?thesis using Suc.IH [of p1 "Suc k" s1] Suc.prems(2) Again at by (simp add: split_beta Let_def)
  qed
qed

text \<open>The step for account pools: an account \<open>j\<close> that is free at \<open>t0\<close> is not the one that was benched
  beyond \<open>T\<close>, so it stays free and one free account fewer is left at \<open>T\<close>.\<close>

lemma rotate_away:
  assumes "pick p now = (Inr i, p0)" "t0 \<le> now" "now \<le> T" "j \<in> pool.free p t0" "i \<noteq> j" "T < until"
  shows "j \<in> pool.free (coolAt i now' until p0) t0 \<and>
    card (pool.free (coolAt i now' until p0) T) < card (pool.free p T)"
proof
  have "j \<in> pool.free p now"
    using assms(2,4) pool.avail_later [of p j t0] by (auto simp: pool.free_def)
  then show "card (pool.free (coolAt i now' until p0) T) < card (pool.free p T)"
    using pool.rotate_card [OF assms(1) _ assms(3,6)] by blast
  show "j \<in> pool.free (coolAt i now' until p0) t0"
    using pool.rotate_others [OF assms(1,4)] assms(5) by auto
qed

lemma free_not_refused:
  assumes "j \<in> pool.free p t0" "t0 \<le> now"
  obtains i p0 where "pick p now = (Inr i, p0)"
proof (cases "pick p now")
  case (Pair x p0)
  have "available (accounts p ! j) now"
    using assms pool.avail_later [of p j t0] by (auto simp: pool.free_def)
  then have "x \<noteq> Inl e" for e
    using pool.elect_refuses [of p now e j] assms(1) Pair by (auto simp: pool.free_def)
  then show thesis using that Pair by (cases x) auto
qed

lemma free_card_pos: "j \<in> pool.free p t0 \<Longrightarrow> t0 \<le> T \<Longrightarrow> 0 < card (pool.free p T)"
  using pool.avail_later [of p j t0 T] by (auto simp: pool.free_def card_gt_0_iff)

end
