(* ===== verification/Capabilities.thy ===== *)
theory Capabilities
  imports Dispatch Failover
begin

text \<open>
  Calls to the other subscription endpoints, \<^verbatim>\<open>src/capabilities.go\<close>: the endpoint derived from the
  configured URL, the failover loop of \<open>postSubscription\<close> and what is read of an answer. As in
  \<open>Dispatch\<close> everything outside the broker is a record, here \<open>post_env\<close>; the loop is an instance of the
  shared failover loop.
\<close>

section \<open>Definitions\<close>

subsection \<open>Endpoints\<close>

record url =
  u_Scheme :: string
  u_Host :: string
  u_Path :: string
  u_RawPath :: string
  u_RawQuery :: string
  u_Fragment :: string

text \<open>\<open>parse\<close> and \<open>render\<close> are \<open>url.Parse\<close> and \<open>URL.String\<close>.\<close>

definition codexEndpoint ::
    "(string \<Rightarrow> url option) \<Rightarrow> (url \<Rightarrow> string) \<Rightarrow> config \<Rightarrow> string \<Rightarrow> string option" where
  "codexEndpoint parse render cfg path =
     (case parse (cfg_upstreamURL cfg) of
        None \<Rightarrow> None
      | Some u \<Rightarrow>
          (if u_Host u = [] \<or> (u_Scheme u \<noteq> ''https'' \<and> u_Scheme u \<noteq> ''http'') \<or> \<not> HasSuffix (u_Path u) ''/responses''
           then None
           else Some (render (u\<lparr>u_Path := TrimSuffix (u_Path u) ''/responses'' @ ''/'' @ path, u_RawPath := [],
                                 u_RawQuery := [], u_Fragment := []\<rparr>))))"

definition endpoint_error :: string where
  "endpoint_error = ''upstream URL must end in /responses to use this capability''"

subsection \<open>Reading an answer\<close>

definition safeCapabilityCode :: "string \<Rightarrow> bool" where
  "safeCapabilityCode code \<longleftrightarrow>
     code \<in> set [''forbidden'', ''invalid_offer'', ''model_not_found'', ''permission_denied'', ''insufficient_quota'',
       ''rate_limit_exceeded'', ''invalid_api_key'', ''unsupported_model'', ''invalid_request_error'']"

text \<open>\<open>error_code\<close> decodes \<open>error.code\<close> of a JSON envelope (\<open>None\<close> when the body does not decode).\<close>

definition rejection_message :: "(string \<Rightarrow> string option) \<Rightarrow> http_response \<Rightarrow> string \<Rightarrow> string" where
  "rejection_message error_code resp body =
     (let base = ''subscription endpoint rejected the request''
      in case (case error_code body of Some c \<Rightarrow> if safeCapabilityCode c then Some c else None | None \<Rightarrow> None) of
           Some c \<Rightarrow> base @ '' ('' @ c @ '')''
         | None \<Rightarrow>
             (if Contains (ToLower (Header_Get (rs_Header resp) ''Content-Type'')) ''html''
              then base @ ''; upstream returned an HTML access challenge'' else base))"

definition readCapabilityResponse ::
    "golib \<Rightarrow> (string \<Rightarrow> string option) \<Rightarrow> gotime \<Rightarrow> bool \<Rightarrow> http_response \<Rightarrow> nat \<Rightarrow> dispatchFailure + string" where
  "readCapabilityResponse lib error_code now read_fails resp maxBytes =
     (let body = take (maxBytes + 1) (rs_Body resp)
      in if read_fails \<or> length body > maxBytes
         then Inl (failure 502 ''upstream response incomplete or too large'')
         else if rs_StatusCode resp < 200 \<or> rs_StatusCode resp \<ge> 300 then
           (let status = (if rs_StatusCode resp < 400 then 502 else rs_StatusCode resp);
                fail = failure status (rejection_message error_code resp body)
            in Inl (if rs_StatusCode resp = 429
                    then fail\<lparr>df_retryAfter := fst (deriveCooldown lib (Some (Header_Get (rs_Header resp))) body now)\<rparr>
                    else fail))
         else Inr body)"

subsection \<open>postSubscription\<close>

record post_env =
  pe_ctxErr :: "nat \<Rightarrow> bool"
  pe_now :: "nat \<Rightarrow> gotime"
  pe_current :: "nat \<Rightarrow> nat \<Rightarrow> string + accessMaterial"
  pe_ctxErrAuth :: "nat \<Rightarrow> bool"
  pe_authNow :: "nat \<Rightarrow> gotime \<times> gotime"
  pe_catalog :: "nat \<Rightarrow> nat \<Rightarrow> upstreamModel list option"
  pe_newRequestFails :: bool
  pe_do :: "nat \<Rightarrow> nat \<Rightarrow> string + http_response"
  pe_readFails :: "nat \<Rightarrow> bool"
  pe_rlNow :: "nat \<Rightarrow> gotime"
  pe_coolNow :: "nat \<Rightarrow> gotime"
  pe_end :: gotime
  pe_error_code :: "string \<Rightarrow> string option"

text \<open>The payload and headers for an account: a compaction drops \<open>priority\<close> where it is not served.\<close>

definition post_wire ::
    "golib \<Rightarrow> upstreamModel list option \<Rightarrow> string \<Rightarrow> string \<Rightarrow> header \<Rightarrow> dispatchFailure + (string \<times> header)" where
  "post_wire lib catalog endpoint payload headers =
     (if HasSuffix endpoint ''/responses/compact'' \<and>
         HasSuffix (Header_Get headers codexRoutingHintHeader) '';tier=priority'' then
        (case unmarshal_obj lib payload of
           None \<Rightarrow> Inl (failure 502 ''invalid compaction payload'')
         | Some body \<Rightarrow>
             (if accountSupportsTier catalog (stringField body ''model'') ''priority'' then Inr (payload, headers)
              else (let body' = odel body ''service_tier''
                    in (case lib_Marshal lib (JObj body') of
                          None \<Rightarrow> Inl (failure 502 ''encode compaction payload failed'')
                        | Some enc \<Rightarrow>
                            Inr (enc, Header_Set headers codexRoutingHintHeader
                                   (buildCodexRoutingHint (stringField body' ''model'') []))))))
      else Inr (payload, headers))"

definition post_header :: "config \<Rightarrow> accessMaterial \<Rightarrow> header \<Rightarrow> header" where
  "post_header cfg access headers =
     (let h1 = Header_Set [] ''Authorization'' (''Bearer '' @ am_AccessToken access);
          h2 = Header_Set h1 ''ChatGPT-Account-Id'' (am_AccountID access);
          h3 = Header_Set h2 ''Content-Type'' ''application/json'';
          h4 = foldl (\<lambda>h (key, values). AList.update key values h) h3 headers
      in setClientIdentity cfg h4)"

type_synonym post_result = "dispatchFailure + (http_response \<times> nat)"

text \<open>From \<open>client.Do\<close> to the end of an attempt.\<close>

definition post_send ::
    "golib \<Rightarrow> post_env \<Rightarrow> nat \<Rightarrow> nat \<Rightarrow> header \<Rightarrow> string \<Rightarrow> accountPool \<Rightarrow>
     (dispatchFailure option, post_result) outcome \<times> accountPool \<times> upstream_call list" where
  "post_send lib env k i hdr payload p1 =
     (let reply = pe_do env k i;
          call = \<lparr>uc_account = i, uc_header = hdr, uc_body = payload, uc_reply = reply\<rparr>
      in (case reply of
            Inl err \<Rightarrow> (Answer (Inl (failure 502 ''subscription request failed; not retried'')), p1, [call])
          | Inr resp \<Rightarrow>
              (if rs_StatusCode resp \<noteq> 429 then
                 (Answer (Inr (resp, i)), if rs_StatusCode resp < 400 then clearAt i p1 else p1, [call])
               else (case readCapabilityResponse lib (pe_error_code env) (pe_rlNow env k) (pe_readFails env k) resp (64 * 1024) of
                       Inl fail \<Rightarrow>
                         (if df_status fail \<noteq> 429 then (Answer (Inl fail), p1, [call])
                          else (Again (Some fail), coolAt i (pe_coolNow env k) (df_retryAfter fail) p1, [call]))
                     | Inr _ \<Rightarrow> (Stop, p1, [call])))))"

definition post_attempt ::
    "golib \<Rightarrow> config \<Rightarrow> post_env \<Rightarrow> string \<Rightarrow> string \<Rightarrow> header \<Rightarrow> nat \<Rightarrow> dispatchFailure option \<Rightarrow> accountPool \<Rightarrow>
     (dispatchFailure option, post_result) outcome \<times> accountPool \<times> upstream_call list" where
  "post_attempt lib cfg env endpoint payload headers k lastFailure pool =
     (if pe_ctxErr env k then (Answer (Inl (failure 408 ''request canceled'')), pool, [])
      else (case pick pool (pe_now env k) of
              (Inl _, p1) \<Rightarrow> (Stop, p1, [])
            | (Inr i, p1) \<Rightarrow>
                (case pe_current env k i of
                   Inl err \<Rightarrow>
                     (if pe_ctxErrAuth env k then (Answer (Inl (failure 408 ''request canceled'')), p1, [])
                      else (case pe_authNow env k of
                              (now1, now2) \<Rightarrow>
                                (Again (Some (failure 502 ''Codex authentication failed'')),
                                 coolAt i now1 (now2 + authErrorCooldown) p1, [])))
                 | Inr access \<Rightarrow>
                     (case post_wire lib (pe_catalog env k i) endpoint payload headers of
                        Inl fail \<Rightarrow> (Answer (Inl fail), p1, [])
                      | Inr (wirePayload, wireHeaders) \<Rightarrow>
                          (if pe_newRequestFails env
                           then (Answer (Inl (failure 502 ''invalid capability upstream URL'')), p1, [])
                           else post_send lib env k i (post_header cfg access wireHeaders) wirePayload p1)))))"

definition post_failure :: "dispatchFailure option \<Rightarrow> accountPool \<Rightarrow> post_result" where
  "post_failure lastFailure pool =
     (case lastFailure of
        Some fail \<Rightarrow> Inl fail
      | None \<Rightarrow> Inl ((failure 429 ''no Codex account is available'')\<lparr>df_retryAfter := soonestReset pool\<rparr>))"

definition postSubscription ::
    "golib \<Rightarrow> config \<Rightarrow> post_env \<Rightarrow> string \<Rightarrow> string \<Rightarrow> header \<Rightarrow> accountPool \<Rightarrow>
     post_result \<times> accountPool \<times> upstream_call list" where
  "postSubscription lib cfg env endpoint payload headers pool =
     (let n = pool_size pool
      in if n = 0 then (Inl (failure 502 ''no Codex accounts configured''), pool, [])
         else failover (post_attempt lib cfg env endpoint payload headers) post_failure n 0 None pool)"

section \<open>Attempts\<close>

text \<open>A rate-limit answer never reads as a success, so the branch of the loop body that would
  dereference a missing failure is dead.\<close>

lemma read_429_fails:
  assumes "rs_StatusCode resp = 429"
  obtains fail where "readCapabilityResponse lib ec now rf resp n = Inl fail"
    and "df_status fail = 429 \<or> df_status fail = 502"
    and "df_status fail = 429 \<Longrightarrow> now + minCooldown \<le> df_retryAfter fail"
proof -
  have sane: "now + minCooldown \<le> fst (deriveCooldown lib h b now)" for h b
    using deriveCooldown_sane [of now lib h b] by (simp add: sane_deadline_def)
  show thesis
  proof (cases "rf \<or> length (take (n + 1) (rs_Body resp)) > n")
    case True
    then show thesis
      by (intro that [of "failure 502 ''upstream response incomplete or too large''"])
        (auto simp: readCapabilityResponse_def Let_def failure_def)
  next
    case False
    then have "readCapabilityResponse lib ec now rf resp n =
        Inl ((failure 429 (rejection_message ec resp (take (n + 1) (rs_Body resp))))
          \<lparr>df_retryAfter := fst (deriveCooldown lib (Some (Header_Get (rs_Header resp))) (take (n + 1) (rs_Body resp)) now)\<rparr>)"
      using assms unfolding readCapabilityResponse_def Let_def by (simp only: if_False) simp
    then show thesis using sane by (intro that) (auto simp: failure_def)
  qed
qed

lemma post_send_cases:
  assumes "post_send lib env k i hdr payload p1 = (out, p2, calls)"
  obtains (transport) err call where "pe_do env k i = Inl err" "out = Answer (Inl (failure 502 ''subscription request failed; not retried''))"
      "calls = [call]" "uc_account call = i" "uc_reply call = Inl err" "p2 = p1"
  | (served) resp call where "pe_do env k i = Inr resp" "rs_StatusCode resp \<noteq> 429" "out = Answer (Inr (resp, i))"
      "calls = [call]" "uc_account call = i" "uc_reply call = Inr resp"
  | (unread) resp fail call where "pe_do env k i = Inr resp" "rs_StatusCode resp = 429" "out = Answer (Inl fail)" "df_status fail = 502"
      "calls = [call]" "uc_account call = i" "uc_reply call = Inr resp"
      "pe_readFails env k \<or> length (rs_Body resp) > 64 * 1024"
  | (limited) resp fail call where "pe_do env k i = Inr resp" "rs_StatusCode resp = 429" "out = Again (Some fail)"
      "calls = [call]" "uc_account call = i" "uc_reply call = Inr resp" "df_status fail = 429"
      "p2 = coolAt i (pe_coolNow env k) (df_retryAfter fail) p1" "pe_rlNow env k + minCooldown \<le> df_retryAfter fail"
proof (cases "pe_do env k i")
  case (Inl err)
  then show thesis using assms by (intro transport) (auto simp: post_send_def Let_def)
next
  case (Inr resp)
  show thesis
  proof (cases "rs_StatusCode resp = 429")
    case False
    then show thesis using assms Inr by (intro served) (auto simp: post_send_def Let_def)
  next
    case True
    from read_429_fails [OF True, of lib "pe_error_code env" "pe_rlNow env k" "pe_readFails env k" "64 * 1024"]
    obtain fail where f: "readCapabilityResponse lib (pe_error_code env) (pe_rlNow env k) (pe_readFails env k) resp (64 * 1024) = Inl fail"
      "df_status fail = 429 \<or> df_status fail = 502"
      "df_status fail = 429 \<Longrightarrow> pe_rlNow env k + minCooldown \<le> df_retryAfter fail" by blast
    let ?call = "\<lparr>uc_account = i, uc_header = hdr, uc_body = payload, uc_reply = Inr resp\<rparr>"
    have eq: "(out, p2, calls) =
        (if df_status fail \<noteq> 429 then (Answer (Inl fail), p1, [?call])
         else (Again (Some fail), coolAt i (pe_coolNow env k) (df_retryAfter fail) p1, [?call]))"
      using assms Inr True f(1) by (simp add: post_send_def Let_def)
    show thesis
    proof (cases "df_status fail = 429")
      case lim: True
      show thesis by (rule limited [OF Inr True, of fail ?call]) (use eq lim f(3) in simp_all)
    next
      case False
      have "pe_readFails env k \<or> 64 * 1024 < length (rs_Body resp)"
        by (rule ccontr) (use f(1) True False in \<open>auto simp: readCapabilityResponse_def Let_def failure_def\<close>)
      then show thesis by (intro unread [OF Inr True, of fail ?call]) (use eq False f(2) in auto)
    qed
  qed
qed

text \<open>Only rate limits are replayed.\<close>

interpretation post: failover_loop "post_attempt lib cfg env endpoint payload headers" reply_limited
proof
  fix k s p p1 s1 r calls
  let ?at = "post_attempt lib cfg env endpoint payload headers k s p"
  show "?at = (Stop, p1, calls) \<Longrightarrow> calls = []"
    by (auto simp: post_attempt_def split: if_splits prod.splits sum.splits elim: post_send_cases)
  show "?at = (Answer r, p1, calls) \<Longrightarrow> length calls \<le> 1"
    by (auto simp: post_attempt_def split: if_splits prod.splits sum.splits elim: post_send_cases)
  show "?at = (Again s1, p1, calls) \<Longrightarrow> length calls \<le> 1 \<and> (\<forall>c\<in>set calls. reply_limited c)"
    by (auto simp: post_attempt_def reply_limited_def split: if_splits prod.splits sum.splits elim: post_send_cases)
qed

lemma post_attempt_answer:
  assumes "post_attempt lib cfg env endpoint payload headers k s p = (Answer (Inr (resp, i)), p1, calls)"
  shows "\<exists>call. calls = [call] \<and> uc_account call = i \<and> uc_reply call = Inr resp \<and> rs_StatusCode resp \<noteq> 429"
  using assms
  by (auto simp: post_attempt_def split: if_splits prod.splits sum.splits elim!: post_send_cases)

lemma post_failover_answer:
  assumes "failover (post_attempt lib cfg env endpoint payload headers) post_failure n k s p = (Inr (resp, i), p', calls)"
  shows "calls \<noteq> [] \<and> uc_account (last calls) = i \<and> uc_reply (last calls) = Inr resp \<and> rs_StatusCode resp \<noteq> 429"
  using assms
proof (induction n arbitrary: k s p calls)
  case 0
  then show ?case by (auto simp: post_failure_def split: option.splits)
next
  case (Suc n)
  obtain o1 p1 c1 where at: "post_attempt lib cfg env endpoint payload headers k s p = (o1, p1, c1)"
    by (cases "post_attempt lib cfg env endpoint payload headers k s p")
  show ?case
  proof (cases o1)
    case Stop
    then show ?thesis using Suc.prems at by (auto simp: post_failure_def split: option.splits)
  next
    case (Answer x)
    then show ?thesis using Suc.prems at post_attempt_answer [of lib cfg env endpoint payload headers k s p resp i p1 c1]
      by auto
  next
    case (Again s1)
    obtain r2 q more where l: "failover (post_attempt lib cfg env endpoint payload headers) post_failure n (Suc k) s1 p1 = (r2, q, more)"
      by (cases "failover (post_attempt lib cfg env endpoint payload headers) post_failure n (Suc k) s1 p1")
    then have "calls = c1 @ more" "r2 = Inr (resp, i)" "q = p'" using Suc.prems at Again by simp_all
    with Suc.IH [of "Suc k" s1 p1 more] l show ?thesis by auto
  qed
qed

section \<open>Failover\<close>

text \<open>The request is not canceled, requests can be built and reach the upstream, rate-limit answers
  are readable and the clock advances by less than the shortest cooldown.\<close>

definition post_calm :: "golib \<Rightarrow> post_env \<Rightarrow> string \<Rightarrow> string \<Rightarrow> header \<Rightarrow> gotime \<Rightarrow> gotime \<Rightarrow> bool" where
  "post_calm lib env endpoint payload headers t0 T \<longleftrightarrow>
     (\<forall>k. \<not> pe_ctxErr env k \<and> \<not> pe_ctxErrAuth env k \<and> \<not> pe_readFails env k) \<and> \<not> pe_newRequestFails env \<and>
     (\<forall>k i. \<exists>wire. post_wire lib (pe_catalog env k i) endpoint payload headers = Inr wire) \<and>
     (\<forall>k i. \<exists>resp. pe_do env k i = Inr resp \<and> length (rs_Body resp) \<le> 64 * 1024) \<and>
     (\<forall>k. t0 \<le> pe_now env k \<and> pe_now env k \<le> T \<and> t0 \<le> snd (pe_authNow env k) \<and> t0 \<le> pe_rlNow env k) \<and>
     t0 \<le> T \<and> T < t0 + minCooldown"

definition post_serves :: "post_env \<Rightarrow> nat \<Rightarrow> bool" where
  "post_serves env j \<longleftrightarrow>
     (\<forall>k. \<exists>access. pe_current env k j = Inr access) \<and>
     (\<forall>k resp. pe_do env k j = Inr resp \<longrightarrow> rs_StatusCode resp \<noteq> 429)"

lemma post_step:
  assumes calm: "post_calm lib env endpoint payload headers t0 T" and serves: "post_serves env j"
    and free: "j \<in> pool.free p t0"
  shows "case post_attempt lib cfg env endpoint payload headers k s p of
      (Stop, p1, calls) \<Rightarrow> False
    | (Answer r, p1, calls) \<Rightarrow> (\<exists>x. r = Inr x)
    | (Again s1, p1, calls) \<Rightarrow> j \<in> pool.free p1 t0 \<and> card (pool.free p1 T) < card (pool.free p T)"
proof -
  have t: "t0 \<le> pe_now env k" "pe_now env k \<le> T" "T < snd (pe_authNow env k) + authErrorCooldown"
      "T < pe_rlNow env k + minCooldown"
    using calm by (auto simp: post_calm_def authErrorCooldown_def minCooldown_def) (smt (verit))+
  obtain i p0 where pk: "pick p (pe_now env k) = (Inr i, p0)" using free_not_refused [OF free t(1)] .
  note rotate = rotate_away [OF pk t(1,2) free]
  show ?thesis
  proof (cases "pe_current env k i")
    case (Inl err)
    then have "i \<noteq> j" using serves by (metis Inl_Inr_False post_serves_def)
    then show ?thesis using calm Inl pk rotate [OF _ t(3), of "fst (pe_authNow env k)"]
      by (simp add: post_attempt_def post_calm_def split_beta)
  next
    case (Inr access)
    obtain wp wh where w: "post_wire lib (pe_catalog env k i) endpoint payload headers = Inr (wp, wh)"
      using calm by (metis post_calm_def surj_pair)
    obtain out p2 calls where snd: "post_send lib env k i (post_header cfg access wh) wp p0 = (out, p2, calls)"
      by (cases "post_send lib env k i (post_header cfg access wh) wp p0")
    have at: "post_attempt lib cfg env endpoint payload headers k s p = (out, p2, calls)"
      using calm Inr pk w snd by (simp add: post_attempt_def post_calm_def)
    show ?thesis
      using snd
    proof (cases rule: post_send_cases)
      case (transport err call)
      then show ?thesis using calm by (metis Inl_Inr_False post_calm_def)
    next
      case (served resp call)
      then show ?thesis using at by simp
    next
      case (unread resp fail call)
      then show ?thesis using calm by (metis Inr_inject not_le post_calm_def)
    next
      case (limited resp fail call)
      then have "i \<noteq> j" using serves by (metis post_serves_def)
      then show ?thesis using at limited rotate [of "df_retryAfter fail" "pe_coolNow env k"] t(4) by simp
    qed
  qed
qed

section \<open>Properties\<close>


definition witness_post_env :: post_env where
  "witness_post_env =
     \<lparr>pe_ctxErr = \<lambda>_. False, pe_now = \<lambda>_. seconds 10, pe_current = \<lambda>_ _. Inr \<lparr>am_AccessToken = ''t'', am_AccountID = ''a''\<rparr>,
      pe_ctxErrAuth = \<lambda>_. False, pe_authNow = \<lambda>_. (seconds 10, seconds 10), pe_catalog = \<lambda>_ _. None,
      pe_newRequestFails = False,
      pe_do = \<lambda>_ i. Inr \<lparr>rs_StatusCode = (if i = 0 then 429 else 200), rs_Header = [], rs_Body = []\<rparr>,
      pe_readFails = \<lambda>_. False, pe_rlNow = \<lambda>_. seconds 11, pe_coolNow = \<lambda>_. seconds 11, pe_end = seconds 12,
      pe_error_code = \<lambda>_. None\<rparr>"

lemma witness_pool_two: "pool_size witness_pool = 2" "available (accounts witness_pool ! 1) (seconds 10)"
  by (simp_all add: witness_pool_def newAccountPool_def pool_size_def available_def Let_def split: prod.split)


text \<open>Failover of subscription calls is complete: if some account is out of its cooldown, has working
  credentials and is not rate-limited, the call gets an answer whatever the other accounts do, as
  long as it is not canceled, requests and answers get through and it takes less than the shortest
  cooldown.\<close>

theorem subscription_reaches_serving_account:
  assumes "post_calm lib env endpoint payload headers t0 T" "post_serves env j"
    and "j < pool_size pool" "available (accounts pool ! j) t0"
  shows "\<exists>resp i. fst (postSubscription lib cfg env endpoint payload headers pool) = Inr (resp, i)"
proof -
  have j: "j \<in> pool.free pool t0" using assms(3,4) by (simp add: pool.free_def)
  have T: "t0 \<le> T" using assms(1) by (simp add: post_calm_def)
  have "\<exists>x. fst (failover (post_attempt lib cfg env endpoint payload headers) post_failure (pool_size pool) 0 None pool) = Inr x"
    by (rule failover_succeeds [where ready = "\<lambda>p. j \<in> pool.free p t0" and left = "\<lambda>p. card (pool.free p T)"])
      (use j T free_card_pos post_step [OF assms(1,2)] pool.card_free_le in auto)
  then show ?thesis using assms(3) by (auto simp: postSubscription_def Let_def)
qed

theorem subscription_reaches_serving_account_witness:
  "\<exists>resp i. fst (postSubscription witness_lib witness_cfg witness_post_env ''https://h/live'' ''{}'' [] witness_pool) = Inr (resp, i)"
proof -
  have "post_calm witness_lib witness_post_env ''https://h/live'' ''{}'' [] (seconds 10) (seconds 11)"
    by (simp add: post_calm_def witness_post_env_def minCooldown_def post_wire_def suffix_def Header_Get_def)
  moreover have "post_serves witness_post_env 1" by (simp add: post_serves_def witness_post_env_def)
  ultimately show ?thesis
    by (rule subscription_reaches_serving_account) (use witness_pool_two in simp_all)
qed

end
