(* ===== verification/Broker_Result.thy ===== *)
theory Broker_Result
  imports Broker_Json
begin

text \<open>
  Results of fallible code: \<open>Inl\<close> an error, \<open>Inr\<close> a value. The sources check such results in sequence
  and in indexed loops that stop at the first error; both shapes are defined here once, with the
  characterisations of success that the component proofs unfold (collection \<open>ok_iff\<close>).
\<close>

named_theorems ok_iff \<open>when a composed computation succeeds\<close>

definition bind_ok :: "'e + 'a \<Rightarrow> ('a \<Rightarrow> 'e + 'b) \<Rightarrow> 'e + 'b" where
  "bind_ok m f = (case m of Inl e \<Rightarrow> Inl e | Inr x \<Rightarrow> f x)"

lemma bind_ok_simps [simp]: "bind_ok (Inl e) f = Inl e" "bind_ok (Inr x) f = f x"
  by (simp_all add: bind_ok_def)

lemma bind_ok_Inr [ok_iff]: "bind_ok m f = Inr y \<longleftrightarrow> (\<exists>x. m = Inr x \<and> f x = Inr y)"
  by (cases m) simp_all

definition check_ok :: "bool \<Rightarrow> 'e \<Rightarrow> 'e + 'a \<Rightarrow> 'e + 'a" where
  "check_ok b e m = (if b then m else Inl e)"

lemma check_ok_Inr [ok_iff]: "check_ok b e m = Inr y \<longleftrightarrow> b \<and> m = Inr y"
  by (simp add: check_ok_def)

lemma if_Inl_Inr [ok_iff]: "(if b then Inl e else m) = Inr y \<longleftrightarrow> \<not> b \<and> m = Inr y"
  by simp

lemma option_case_Inr [ok_iff]: "(case x of None \<Rightarrow> Inl e | Some v \<Rightarrow> f v) = Inr y \<longleftrightarrow> (\<exists>v. x = Some v \<and> f v = Inr y)"
  by (cases x) simp_all

text \<open>A loop \<open>for index, x := range xs\<close> that appends one result per element.\<close>

fun traverse_from :: "nat \<Rightarrow> (nat \<Rightarrow> 'a \<Rightarrow> 'e + 'b) \<Rightarrow> 'a list \<Rightarrow> 'e + 'b list" where
  "traverse_from k f [] = Inr []"
| "traverse_from k f (x # xs) = bind_ok (f k x) (\<lambda>y. bind_ok (traverse_from (Suc k) f xs) (\<lambda>ys. Inr (y # ys)))"

lemma traverse_from_rel:
  assumes "traverse_from k f xs = Inr ys" and "\<And>i x y. f i x = Inr y \<Longrightarrow> R x y"
  shows "list_all2 R xs ys"
  using assms(1) by (induction xs arbitrary: k ys) (auto simp: ok_iff intro: assms(2))

lemma traverse_from_map:
  assumes "traverse_from k f xs = Inr ys" and "\<And>i x y. f i x = Inr y \<Longrightarrow> g y = h x"
  shows "map g ys = map h xs"
  using assms(1) by (induction xs arbitrary: k ys) (auto simp: ok_iff intro: assms(2))

lemma traverse_from_length: "traverse_from k f xs = Inr ys \<Longrightarrow> length ys = length xs"
  by (induction xs arbitrary: k ys) (auto simp: ok_iff)

lemma traverse_from_all:
  assumes "traverse_from k f xs = Inr ys" and "\<And>i x y. f i x = Inr y \<Longrightarrow> P y"
  shows "list_all P ys"
  using assms(1) by (induction xs arbitrary: k ys) (auto simp: ok_iff intro: assms(2))

text \<open>The first error stops the loop.\<close>

lemma traverse_from_Inl:
  "traverse_from k f xs = Inl e \<longleftrightarrow>
     (\<exists>i<length xs. f (k + i) (xs ! i) = Inl e \<and> (\<forall>j<i. \<exists>y. f (k + j) (xs ! j) = Inr y))"
proof (induction xs arbitrary: k)
  case (Cons x xs)
  show ?case
  proof (cases "f k x")
    case (Inl e')
    then show ?thesis by (auto simp: less_Suc_eq_0_disj)
  next
    case (Inr y)
    have "bind_ok (traverse_from (Suc k) f xs) (\<lambda>ys. Inr (y # ys)) = Inl e \<longleftrightarrow> traverse_from (Suc k) f xs = Inl e"
      by (cases "traverse_from (Suc k) f xs") simp_all
    also have "\<dots> \<longleftrightarrow> (\<exists>i<length xs. f (Suc k + i) (xs ! i) = Inl e \<and> (\<forall>j<i. \<exists>y. f (Suc k + j) (xs ! j) = Inr y))"
      by (rule Cons.IH)
    finally have eq: "traverse_from k f (x # xs) = Inl e \<longleftrightarrow>
        (\<exists>i<length xs. f (Suc k + i) (xs ! i) = Inl e \<and> (\<forall>j<i. \<exists>y. f (Suc k + j) (xs ! j) = Inr y))"
      using Inr by simp
    show ?thesis
    proof
      assume "traverse_from k f (x # xs) = Inl e"
      then obtain i where "i < length xs" "f (Suc k + i) (xs ! i) = Inl e" "\<forall>j<i. \<exists>y. f (Suc k + j) (xs ! j) = Inr y"
        using eq by blast
      then show "\<exists>i<length (x # xs). f (k + i) ((x # xs) ! i) = Inl e \<and> (\<forall>j<i. \<exists>y. f (k + j) ((x # xs) ! j) = Inr y)"
        using Inr by (intro exI [of _ "Suc i"]) (auto simp: less_Suc_eq_0_disj)
    next
      assume "\<exists>i<length (x # xs). f (k + i) ((x # xs) ! i) = Inl e \<and> (\<forall>j<i. \<exists>y. f (k + j) ((x # xs) ! j) = Inr y)"
      then obtain i where i: "i < Suc (length xs)" "f (k + i) ((x # xs) ! i) = Inl e"
        "\<forall>j<i. \<exists>y. f (k + j) ((x # xs) ! j) = Inr y" by auto
      then obtain m where "i = Suc m" using Inr by (cases i) auto
      then show "traverse_from k f (x # xs) = Inl e"
        using i eq by (auto intro!: exI [of _ m])
    qed
  qed
qed simp

end
