(* ===== verification/ChatRequest.thy ===== *)
theory ChatRequest
  imports Normalize Broker_Result
begin

text \<open>
  Translation of a Chat Completions request into a Responses request, the first half of
  \<^verbatim>\<open>src/chat_completions.go\<close>. A rejected request gives the parameter and the message of the error; a
  message is a literal, or a literal around a value that Go prints quoted (\<open>%q\<close>).
\<close>

section \<open>Definitions\<close>

datatype chat_message = Msg string | MsgQ string string string

datatype chat_error = ChatError (ce_param: string) (ce_message: chat_message)

record chatCompletionRequestInfo =
  ci_Stream :: bool
  ci_IncludeUsage :: bool

definition numbered :: "string \<Rightarrow> nat \<Rightarrow> string \<Rightarrow> string" where
  "numbered a n b = a @ itoa n @ b"

subsection \<open>Message content\<close>

text \<open>Copy the listed keys that are present.\<close>

definition copy_fields :: "string list \<Rightarrow> obj \<Rightarrow> obj \<Rightarrow> obj" where
  "copy_fields keys from to = foldl (\<lambda>m key. if ohas from key then oset m key (oget from key) else m) to keys"

definition content_part :: "string \<Rightarrow> bool \<Rightarrow> nat \<Rightarrow> json \<Rightarrow> chat_message + json" where
  "content_part textType allowMedia index rawPart =
     (case as_obj rawPart of
        None \<Rightarrow> Inl (Msg (numbered ''content part '' index '' must be an object''))
      | Some part \<Rightarrow>
          (let partType = stringField part ''type''
           in if partType = ''text'' then
                Inr (JObj [(''type'', JStr textType), (''text'', JStr (chatPayloadString part ''text''))])
              else if partType = ''refusal'' then
                Inr (JObj [(''type'', JStr textType), (''text'', JStr (chatPayloadString part ''refusal''))])
              else if partType = ''image_url'' then
                (if \<not> allowMedia then Inl (Msg ''image content is only supported on user messages'')
                 else (case as_obj (oget part ''image_url'') of
                         None \<Rightarrow> Inl (Msg (numbered ''content part '' index '' image_url.url is required''))
                       | Some img \<Rightarrow>
                           (if stringField img ''url'' = []
                            then Inl (Msg (numbered ''content part '' index '' image_url.url is required''))
                            else Inr (JObj ([(''type'', JStr ''input_image''), (''image_url'', JStr (stringField img ''url''))] @
                                   (if stringField img ''detail'' \<noteq> [] then [(''detail'', JStr (stringField img ''detail''))]
                                    else []))))))
              else if partType = ''file'' then
                (if \<not> allowMedia then Inl (Msg ''file content is only supported on user messages'')
                 else (case as_obj (oget part ''file'') of
                         None \<Rightarrow> Inl (Msg (numbered ''content part '' index '' file must be an object''))
                       | Some file \<Rightarrow>
                           Inr (JObj (copy_fields [''file_data'', ''file_id'', ''filename''] file [(''type'', JStr ''input_file'')]))))
              else if partType = ''input_audio'' then
                Inl (Msg ''audio input is not supported by the Codex Responses backend'')
              else Inl (MsgQ ''unsupported content part type '' partType [])))"

text \<open>\<open>None\<close> is the nil slice, which is encoded as \<open>null\<close>.\<close>

definition translateChatMessageContent :: "json \<Rightarrow> string \<Rightarrow> bool \<Rightarrow> chat_message + json list option" where
  "translateChatMessageContent value textType allowMedia =
     (case value of
        JStr content \<Rightarrow> Inr (Some [JObj [(''type'', JStr textType), (''text'', JStr content)]])
      | JArr content \<Rightarrow> bind_ok (traverse_from 0 (content_part textType allowMedia) content) (\<lambda>parts. Inr (Some parts))
      | JNull \<Rightarrow> Inr None
      | _ \<Rightarrow> Inl (Msg ''content must be a string or an array''))"

definition content_json :: "json list option \<Rightarrow> json" where
  "content_json c = (case c of None \<Rightarrow> JNull | Some parts \<Rightarrow> JArr parts)"

definition text_part :: "nat \<Rightarrow> json \<Rightarrow> chat_message + string" where
  "text_part index rawPart =
     (case as_obj rawPart of
        None \<Rightarrow> Inl (Msg (numbered ''content part '' index '' must be text''))
      | Some part \<Rightarrow>
          (if stringField part ''type'' \<noteq> ''text'' then Inl (Msg (numbered ''content part '' index '' must be text''))
           else Inr (chatPayloadString part ''text'')))"

definition chatTextOnlyContent :: "json \<Rightarrow> chat_message + string" where
  "chatTextOnlyContent value =
     (case value of
        JStr content \<Rightarrow> Inr content
      | JArr content \<Rightarrow> bind_ok (traverse_from 0 text_part content) (\<lambda>parts. Inr (concat parts))
      | JNull \<Rightarrow> Inr []
      | _ \<Rightarrow> Inl (Msg ''content must be text''))"

subsection \<open>Messages\<close>

definition function_call_item :: "string \<Rightarrow> string \<Rightarrow> string \<Rightarrow> json" where
  "function_call_item callID name arguments =
     JObj [(''type'', JStr ''function_call''), (''call_id'', JStr callID), (''name'', JStr name),
           (''arguments'', JStr (valueOr arguments ''{}''))]"

definition assistant_call :: "nat \<Rightarrow> json \<Rightarrow> chat_message + json" where
  "assistant_call index rawCall =
     (case as_obj rawCall of
        None \<Rightarrow> Inl (Msg (numbered ''tool_calls.'' index '' must be an object''))
      | Some call \<Rightarrow>
          (if stringField call ''type'' \<noteq> [] \<and> stringField call ''type'' \<noteq> ''function''
           then Inl (MsgQ ''unsupported tool call type '' (stringField call ''type'') [])
           else (case as_obj (oget call ''function'') of
                   None \<Rightarrow> Inl (Msg (numbered ''tool_calls.'' index ''.function must be an object''))
                 | Some function \<Rightarrow>
                     (let callID = stringField call ''id''; name = stringField function ''name''
                      in if callID = [] \<or> name = []
                         then Inl (Msg (numbered ''tool_calls.'' index '' requires id and function.name''))
                         else Inr (function_call_item callID name (chatPayloadString function ''arguments''))))))"

definition assistant_content :: "obj \<Rightarrow> chat_message + json list" where
  "assistant_content message =
     (if oget message ''content'' = JNull then Inr []
      else bind_ok (translateChatMessageContent (oget message ''content'') ''output_text'' False)
        (\<lambda>content. Inr (case content of
                           Some (p # ps) \<Rightarrow> [JObj [(''role'', JStr ''assistant''), (''content'', JArr (p # ps))]]
                         | _ \<Rightarrow> [])))"

definition assistant_calls :: "obj \<Rightarrow> chat_message + json list" where
  "assistant_calls message =
     (if \<not> ohas message ''tool_calls'' then Inr []
      else (case as_arr (oget message ''tool_calls'') of
              None \<Rightarrow> Inl (Msg ''tool_calls must be an array'')
            | Some calls \<Rightarrow> traverse_from 0 assistant_call calls))"

definition legacy_call :: "obj \<Rightarrow> chat_message + json list" where
  "legacy_call message =
     (case as_obj (oget message ''function_call'') of
        None \<Rightarrow> Inr []
      | Some functionCall \<Rightarrow>
          (let name = stringField functionCall ''name''
           in if name = [] then Inl (Msg ''function_call.name is required'')
              else Inr [function_call_item (''call_'' @ name) name (chatPayloadString functionCall ''arguments'')]))"

definition translateChatAssistantMessage :: "obj \<Rightarrow> chat_message + json list" where
  "translateChatAssistantMessage message =
     bind_ok (assistant_content message) (\<lambda>items1.
     bind_ok (assistant_calls message) (\<lambda>items2.
     bind_ok (legacy_call message) (\<lambda>items3.
       (let items = items1 @ items2 @ items3
        in if items = [] then Inl (Msg ''assistant message requires content or tool_calls'') else Inr items))))"

text \<open>An error below a message is reported under the message's index.\<close>

definition under_param :: "string \<Rightarrow> chat_message + 'a \<Rightarrow> chat_error + 'a" where
  "under_param param m = (case m of Inl msg \<Rightarrow> Inl (ChatError param msg) | Inr x \<Rightarrow> Inr x)"

definition translate_message :: "nat \<Rightarrow> json \<Rightarrow> chat_error + json list" where
  "translate_message index rawMessage =
     (case as_obj rawMessage of
        None \<Rightarrow> Inl (ChatError (numbered ''messages.'' index []) (Msg (numbered ''message '' index '' must be an object'')))
      | Some message \<Rightarrow>
          (let role = stringField message ''role''
           in if role = ''system'' \<or> role = ''developer'' then
                bind_ok (under_param (numbered ''messages.'' index ''.content'')
                    (translateChatMessageContent (oget message ''content'') ''input_text'' False))
                  (\<lambda>content. Inr [JObj [(''role'', JStr ''developer''), (''content'', content_json content)]])
              else if role = ''user'' then
                bind_ok (under_param (numbered ''messages.'' index ''.content'')
                    (translateChatMessageContent (oget message ''content'') ''input_text'' True))
                  (\<lambda>content. Inr [JObj [(''role'', JStr ''user''), (''content'', content_json content)]])
              else if role = ''assistant'' then
                under_param (numbered ''messages.'' index []) (translateChatAssistantMessage message)
              else if role = ''tool'' then
                (let callID = stringField message ''tool_call_id''
                 in if callID = []
                    then Inl (ChatError (numbered ''messages.'' index ''.tool_call_id'') (Msg ''tool_call_id is required''))
                    else bind_ok (under_param (numbered ''messages.'' index ''.content'')
                             (chatTextOnlyContent (oget message ''content'')))
                           (\<lambda>output. Inr [JObj [(''type'', JStr ''function_call_output''), (''call_id'', JStr callID),
                                                (''output'', JStr output)]]))
              else Inl (ChatError (numbered ''messages.'' index ''.role'') (MsgQ ''unsupported message role '' role []))))"

definition translateChatMessages :: "json list \<Rightarrow> chat_error + json list" where
  "translateChatMessages messages =
     bind_ok (traverse_from 0 translate_message messages) (\<lambda>items. Inr (concat items))"

subsection \<open>Request fields\<close>

definition copied_fields :: "string list" where
  "copied_fields =
     [''metadata'', ''parallel_tool_calls'', ''service_tier'', ''store'', ''temperature'', ''top_p'', ''truncation'',
      ''prompt_cache_key'', ''prompt_cache_retention'', ''prompt_cache_options'', ''session_id'', ''conversation_id'',
      ''max_tokens'', ''max_completion_tokens'', ''logprobs'', ''top_logprobs'']"

definition camel_fields :: "(string \<times> string) list" where
  "camel_fields =
     [(''parallelToolCalls'', ''parallel_tool_calls''), (''serviceTier'', ''service_tier''), (''topP'', ''top_p''),
      (''promptCacheKey'', ''prompt_cache_key''), (''promptCacheRetention'', ''prompt_cache_retention''),
      (''promptCacheOptions'', ''prompt_cache_options''), (''sessionId'', ''session_id''),
      (''conversationId'', ''conversation_id''), (''maxTokens'', ''max_tokens''),
      (''maxCompletionTokens'', ''max_completion_tokens''), (''topLogprobs'', ''top_logprobs'')]"

definition copyChatRequestFields :: "obj \<Rightarrow> obj \<Rightarrow> obj" where
  "copyChatRequestFields from to =
     foldl (\<lambda>m (camel, snake). if ohas m snake then m
                               else if ohas from camel then oset m snake (oget from camel) else m)
       (copy_fields copied_fields from to) camel_fields"

definition object_or_empty :: "obj \<Rightarrow> string \<Rightarrow> chat_message \<Rightarrow> chat_error + obj" where
  "object_or_empty body key message =
     (case as_obj (oget body key) of
        Some source \<Rightarrow> Inr source
      | None \<Rightarrow> (if ohas body key then Inl (ChatError key message) else Inr []))"

definition translateChatReasoning :: "obj \<Rightarrow> obj \<Rightarrow> chat_error + obj" where
  "translateChatReasoning chatBody body =
     bind_ok (object_or_empty chatBody ''reasoning'' (Msg ''reasoning must be an object'')) (\<lambda>reasoning0.
       (let effort = valueOr (stringField chatBody ''reasoning_effort'') (stringField chatBody ''reasoningEffort'');
            reasoning = (if effort \<noteq> [] then oset reasoning0 ''effort'' (JStr effort) else reasoning0)
        in Inr (if length reasoning > 0 then oset body ''reasoning'' (JObj reasoning) else body)))"

definition translateChatResponseFormat :: "obj \<Rightarrow> chat_error + obj" where
  "translateChatResponseFormat responseFormat =
     (let formatType = stringField responseFormat ''type''
      in if formatType = ''text'' \<or> formatType = ''json_object'' then Inr [(''type'', JStr formatType)]
         else if formatType = ''json_schema'' then
           (case as_obj (oget responseFormat ''json_schema'') of
              None \<Rightarrow> Inl (ChatError ''response_format.json_schema'' (Msg ''response_format.json_schema must be an object''))
            | Some schema \<Rightarrow>
                (let format = copy_fields [''name'', ''description'', ''schema'', ''strict''] schema [(''type'', JStr ''json_schema'')]
                 in if stringField format ''name'' = []
                    then Inl (ChatError ''response_format.json_schema.name'' (Msg ''response_format.json_schema.name is required''))
                    else Inr format))
         else Inl (ChatError ''response_format.type'' (MsgQ ''unsupported response_format type '' formatType [])))"

definition translateChatTextOptions :: "obj \<Rightarrow> obj \<Rightarrow> chat_error + obj" where
  "translateChatTextOptions chatBody body =
     bind_ok (object_or_empty chatBody ''text'' (Msg ''text must be an object'')) (\<lambda>text0.
       (let verbosity = stringField chatBody ''verbosity'';
            text1 = (if verbosity \<noteq> [] then oset text0 ''verbosity'' (JStr verbosity) else text0)
        in bind_ok
             (case as_obj (oget chatBody ''response_format'') of
                Some responseFormat \<Rightarrow>
                  bind_ok (translateChatResponseFormat responseFormat) (\<lambda>format. Inr (oset text1 ''format'' (JObj format)))
              | None \<Rightarrow>
                  (if ohas chatBody ''response_format''
                   then Inl (ChatError ''response_format'' (Msg ''response_format must be an object''))
                   else Inr text1))
             (\<lambda>text2. Inr (if length text2 > 0 then oset body ''text'' (JObj text2) else body))))"

subsection \<open>Tools\<close>

definition translateChatTool :: "obj \<Rightarrow> bool \<Rightarrow> chat_error + json" where
  "translateChatTool tool legacy =
     bind_ok
       (if legacy then Inr tool
        else if stringField tool ''type'' \<noteq> ''function''
        then Inl (ChatError ''tools'' (MsgQ ''unsupported tool type '' (stringField tool ''type'')
                    ''; only function tools are supported''))
        else (case as_obj (oget tool ''function'') of
                None \<Rightarrow> Inl (ChatError ''tools.function'' (Msg ''function tool definition must be an object''))
              | Some def \<Rightarrow> Inr def))
       (\<lambda>def. (let name = stringField def ''name''
               in if name = [] then Inl (ChatError ''tools.function.name'' (Msg ''function tool name is required''))
                  else Inr (JObj (copy_fields [''description'', ''parameters'', ''strict''] def
                              [(''type'', JStr ''function''), (''name'', JStr name)]))))"

definition translate_tool_at :: "bool \<Rightarrow> nat \<Rightarrow> json \<Rightarrow> chat_error + json" where
  "translate_tool_at legacy index rawTool =
     (case as_obj rawTool of
        None \<Rightarrow> Inl (ChatError (numbered ''tools.'' index []) (Msg (numbered ''tool '' index '' must be an object'')))
      | Some tool \<Rightarrow> translateChatTool tool legacy)"

definition function_choice :: "string \<Rightarrow> json" where
  "function_choice name = JObj [(''type'', JStr ''function''), (''name'', JStr name)]"

definition translateChatToolChoice :: "json \<Rightarrow> chat_error + json" where
  "translateChatToolChoice choice =
     (case choice of
        JStr value \<Rightarrow>
          (if value = ''none'' \<or> value = ''auto'' \<or> value = ''required'' then Inr (JStr value)
           else Inl (ChatError ''tool_choice'' (MsgQ ''unsupported tool_choice '' value [])))
      | _ \<Rightarrow>
          (case as_obj choice of
             None \<Rightarrow> Inl (ChatError ''tool_choice'' (Msg ''tool_choice must be none, auto, required, or a function choice''))
           | Some choiceMap \<Rightarrow>
               (if stringField choiceMap ''type'' \<noteq> ''function''
                then Inl (ChatError ''tool_choice'' (Msg ''tool_choice must be none, auto, required, or a function choice''))
                else (case as_obj (oget choiceMap ''function'') of
                        None \<Rightarrow> Inl (ChatError ''tool_choice.function.name'' (Msg ''tool_choice.function.name is required''))
                      | Some function \<Rightarrow>
                          (if stringField function ''name'' = []
                           then Inl (ChatError ''tool_choice.function.name'' (Msg ''tool_choice.function.name is required''))
                           else Inr (function_choice (stringField function ''name'')))))))"

definition translateLegacyFunctionChoice :: "json \<Rightarrow> chat_error + json" where
  "translateLegacyFunctionChoice choice =
     (case choice of
        JStr value \<Rightarrow>
          (if value = ''none'' \<or> value = ''auto'' then Inr (JStr value)
           else Inl (ChatError ''function_call'' (MsgQ ''unsupported function_call '' value [])))
      | _ \<Rightarrow>
          (case as_obj choice of
             None \<Rightarrow> Inl (ChatError ''function_call.name'' (Msg ''function_call.name is required''))
           | Some choiceMap \<Rightarrow>
               (if stringField choiceMap ''name'' = []
                then Inl (ChatError ''function_call.name'' (Msg ''function_call.name is required''))
                else Inr (function_choice (stringField choiceMap ''name'')))))"

definition translate_tool_list :: "obj \<Rightarrow> obj \<Rightarrow> chat_error + obj" where
  "translate_tool_list chatBody body =
     (let legacy = (\<not> ohas chatBody ''tools'');
          key = (if legacy then ''functions'' else ''tools'')
      in if \<not> ohas chatBody key then Inr body
         else (case as_arr (oget chatBody key) of
                 None \<Rightarrow> Inl (ChatError ''tools'' (Msg ''tools must be an array''))
               | Some tools \<Rightarrow>
                   bind_ok (traverse_from 0 (translate_tool_at legacy) tools) (\<lambda>ts. Inr (oset body ''tools'' (JArr ts)))))"

definition translateChatTools :: "obj \<Rightarrow> obj \<Rightarrow> chat_error + obj" where
  "translateChatTools chatBody body =
     bind_ok (translate_tool_list chatBody body) (\<lambda>body1.
       if ohas chatBody ''tool_choice''
       then bind_ok (translateChatToolChoice (oget chatBody ''tool_choice'')) (\<lambda>c. Inr (oset body1 ''tool_choice'' c))
       else if ohas chatBody ''function_call''
       then bind_ok (translateLegacyFunctionChoice (oget chatBody ''function_call'')) (\<lambda>c. Inr (oset body1 ''tool_choice'' c))
       else Inr body1)"

subsection \<open>The whole request\<close>

definition stream_flag :: "obj \<Rightarrow> chat_error + bool" where
  "stream_flag chatBody =
     (case as_bool (oget chatBody ''stream'') of
        Some b \<Rightarrow> Inr b
      | None \<Rightarrow> (if ohas chatBody ''stream'' then Inl (ChatError ''stream'' (Msg ''stream must be a boolean'')) else Inr False))"

text \<open>\<open>info.IncludeUsage, _ = options[key].(bool)\<close>.\<close>

definition include_usage :: "obj \<Rightarrow> bool" where
  "include_usage chatBody =
     (let flag = (\<lambda>options key. case as_bool (oget options key) of Some b \<Rightarrow> b | None \<Rightarrow> False);
          u1 = (case as_obj (oget chatBody ''stream_options'') of Some o1 \<Rightarrow> flag o1 ''include_usage'' | None \<Rightarrow> False)
      in case as_obj (oget chatBody ''streamOptions'') of Some o2 \<Rightarrow> flag o2 ''includeUsage'' | None \<Rightarrow> u1)"

definition translateChatCompletionsBody :: "golib \<Rightarrow> obj \<Rightarrow> chat_error + (obj \<times> chatCompletionRequestInfo)" where
  "translateChatCompletionsBody lib chatBody =
     (let model = stringField chatBody ''model''
      in if model = [] then Inl (ChatError ''model'' (Msg ''model is required''))
         else if (case numericField lib chatBody ''n'' of Some n \<Rightarrow> n \<noteq> Fin 1 | None \<Rightarrow> False)
         then Inl (ChatError ''n'' (Msg ''n must be 1; the Codex Responses backend returns one choice''))
         else bind_ok (stream_flag chatBody) (\<lambda>stream.
              (case as_arr (oget chatBody ''messages'') of
                 None \<Rightarrow> Inl (ChatError ''messages'' (Msg ''messages must be a non-empty array''))
               | Some messages \<Rightarrow>
                   (if messages = [] then Inl (ChatError ''messages'' (Msg ''messages must be a non-empty array''))
                    else bind_ok (translateChatMessages messages) (\<lambda>input.
                         bind_ok (translateChatReasoning chatBody
                             (copyChatRequestFields chatBody
                               [(''model'', JStr model), (''input'', JArr input), (''stream'', JBool stream)])) (\<lambda>b1.
                         bind_ok (translateChatTextOptions chatBody b1) (\<lambda>b2.
                         bind_ok (translateChatTools chatBody b2) (\<lambda>b3.
                           Inr (b3, \<lparr>ci_Stream = stream, ci_IncludeUsage = include_usage chatBody\<rparr>)))))))))"

section \<open>The conversation a request stands for\<close>

text \<open>What is said in a conversation, independent of the protocol: who says which text with which
  attachments, which function is called with which arguments, what a call returned.\<close>

datatype said =
    Said (speaker: string) (words: string) (attached: "json list")
  | Called string string string
  | CallReturned string string

definition attached_file :: "obj \<Rightarrow> json list" where
  "attached_file file = [oget file ''file_data'', oget file ''file_id'', oget file ''filename'']"

text \<open>Chat Completions: the parts of a content, its text and attachments.\<close>

definition part_text :: "json \<Rightarrow> string" where
  "part_text raw =
     (case raw of
        JObj part \<Rightarrow>
          (if stringField part ''type'' = ''text'' then chatPayloadString part ''text''
           else if stringField part ''type'' = ''refusal'' then chatPayloadString part ''refusal'' else [])
      | _ \<Rightarrow> [])"

definition part_media :: "json \<Rightarrow> json list" where
  "part_media raw =
     (case raw of
        JObj part \<Rightarrow>
          (if stringField part ''type'' = ''image_url''
           then (case oget part ''image_url'' of JObj img \<Rightarrow> [JStr (stringField img ''url'')] | _ \<Rightarrow> [])
           else if stringField part ''type'' = ''file''
           then (case oget part ''file'' of JObj file \<Rightarrow> attached_file file | _ \<Rightarrow> [])
           else [])
      | _ \<Rightarrow> [])"

definition content_text :: "json \<Rightarrow> string" where
  "content_text v = (case v of JStr t \<Rightarrow> t | JArr parts \<Rightarrow> concat (map part_text parts) | _ \<Rightarrow> [])"

definition content_media :: "json \<Rightarrow> json list" where
  "content_media v = (case v of JArr parts \<Rightarrow> concat (map part_media parts) | _ \<Rightarrow> [])"

definition chat_call :: "json \<Rightarrow> said" where
  "chat_call raw =
     (case raw of
        JObj call \<Rightarrow>
          (case oget call ''function'' of
             JObj fn \<Rightarrow> Called (stringField call ''id'') (stringField fn ''name'') (valueOr (chatPayloadString fn ''arguments'') ''{}'')
           | _ \<Rightarrow> Called [] [] [])
      | _ \<Rightarrow> Called [] [] [])"

definition assistant_said :: "obj \<Rightarrow> said list" where
  "assistant_said m =
     (if oget m ''content'' = JNull \<or> oget m ''content'' = JArr [] then []
      else [Said ''assistant'' (content_text (oget m ''content'')) []]) @
     (case oget m ''tool_calls'' of JArr calls \<Rightarrow> map chat_call calls | _ \<Rightarrow> []) @
     (case oget m ''function_call'' of
        JObj fn \<Rightarrow> [Called (''call_'' @ stringField fn ''name'') (stringField fn ''name'')
                      (valueOr (chatPayloadString fn ''arguments'') ''{}'')]
      | _ \<Rightarrow> [])"

definition chat_said :: "json \<Rightarrow> said list" where
  "chat_said raw =
     (case raw of
        JObj m \<Rightarrow>
          (let role = stringField m ''role''; content = oget m ''content''
           in if role = ''system'' \<or> role = ''developer''
              then [Said ''developer'' (content_text content) []]
              else if role = ''user'' then [Said ''user'' (content_text content) (content_media content)]
              else if role = ''assistant'' then assistant_said m
              else if role = ''tool'' then [CallReturned (stringField m ''tool_call_id'') (content_text content)]
              else [])
      | _ \<Rightarrow> [])"

text \<open>Responses: the same for the items of an input.\<close>

definition wire_text :: "json \<Rightarrow> string" where
  "wire_text p = (case p of JObj part \<Rightarrow> chatPayloadString part ''text'' | _ \<Rightarrow> [])"

definition wire_media :: "json \<Rightarrow> json list" where
  "wire_media p =
     (case p of
        JObj part \<Rightarrow>
          (if oget part ''type'' = JStr ''input_image'' then [oget part ''image_url'']
           else if oget part ''type'' = JStr ''input_file'' then attached_file part else [])
      | _ \<Rightarrow> [])"

definition item_parts :: "obj \<Rightarrow> json list" where
  "item_parts item = (case oget item ''content'' of JArr ps \<Rightarrow> ps | _ \<Rightarrow> [])"

definition item_said :: "json \<Rightarrow> said" where
  "item_said raw =
     (case raw of
        JObj item \<Rightarrow>
          (if oget item ''type'' = JStr ''function_call''
           then Called (chatPayloadString item ''call_id'') (chatPayloadString item ''name'') (chatPayloadString item ''arguments'')
           else if oget item ''type'' = JStr ''function_call_output''
           then CallReturned (chatPayloadString item ''call_id'') (chatPayloadString item ''output'')
           else Said (chatPayloadString item ''role'') (concat (map wire_text (item_parts item)))
                  (concat (map wire_media (item_parts item))))
      | _ \<Rightarrow> Said [] [] [])"

section \<open>Translation keeps the conversation\<close>

lemma oget_simps [simp]: "oget [] k = JNull" "oget ((k', v) # m) k = (if k = k' then v else oget m k)"
  by (simp_all add: oget_def)

lemma oget_copy_fields:
  "oget (copy_fields keys from to) k = (if k \<in> set keys \<and> ohas from k then oget from k else oget to k)"
proof -
  have "oget (foldl (\<lambda>m key. if ohas from key then oset m key (oget from key) else m) to keys) k =
      (if k \<in> set keys \<and> ohas from k then oget from k else oget to k)"
    by (induction keys arbitrary: to) auto
  then show ?thesis by (simp add: copy_fields_def)
qed

lemma oget_missing: "\<not> ohas m k \<Longrightarrow> oget m k = JNull"
  by (simp add: ohas_def oget_def split: option.splits)

lemma copied_file: "attached_file (copy_fields [''file_data'', ''file_id'', ''filename''] file [(''type'', JStr ''input_file'')]) = attached_file file"
  by (simp add: attached_file_def oget_copy_fields oget_missing)

text \<open>A part becomes a part with the same text and attachments.\<close>

lemma content_part_cases:
  assumes "content_part tt media i raw = Inr p"
  obtains (plain) part where "raw = JObj part" "stringField part ''type'' = ''text''"
      "p = JObj [(''type'', JStr tt), (''text'', JStr (chatPayloadString part ''text''))]"
  | (refusal) part where "raw = JObj part" "stringField part ''type'' = ''refusal''"
      "p = JObj [(''type'', JStr tt), (''text'', JStr (chatPayloadString part ''refusal''))]"
  | (img) part im rest where "media" "raw = JObj part" "stringField part ''type'' = ''image_url''" "oget part ''image_url'' = JObj im"
      "p = JObj ([(''type'', JStr ''input_image''), (''image_url'', JStr (stringField im ''url''))] @ rest)" "rest = [] \<or> (\<exists>d. rest = [(''detail'', JStr d)])"
  | (attach) part f where "media" "raw = JObj part" "stringField part ''type'' = ''file''" "oget part ''file'' = JObj f"
      "p = JObj (copy_fields [''file_data'', ''file_id'', ''filename''] f [(''type'', JStr ''input_file'')])"
proof -
  from assms obtain part where part: "raw = JObj part" by (auto simp: content_part_def ok_iff)
  consider "stringField part ''type'' = ''text''" | "stringField part ''type'' = ''refusal''"
    | "stringField part ''type'' = ''image_url''" | "stringField part ''type'' = ''file''"
    using assms part by (auto simp: content_part_def Let_def ok_iff split: if_splits)
  then show thesis
  proof cases
    case 1
    then show thesis using assms part by (intro plain) (auto simp: content_part_def Let_def)
  next
    case 2
    then show thesis using assms part by (intro refusal) (auto simp: content_part_def Let_def)
  next
    case 3
    then have eq: "(if \<not> media then Inl (Msg ''image content is only supported on user messages'')
        else (case as_obj (oget part ''image_url'') of
                None \<Rightarrow> Inl (Msg (numbered ''content part '' i '' image_url.url is required''))
              | Some img \<Rightarrow>
                  (if stringField img ''url'' = [] then Inl (Msg (numbered ''content part '' i '' image_url.url is required''))
                   else Inr (JObj ([(''type'', JStr ''input_image''), (''image_url'', JStr (stringField img ''url''))] @
                          (if stringField img ''detail'' \<noteq> [] then [(''detail'', JStr (stringField img ''detail''))] else [])))))) = Inr p"
      using assms part by (simp add: content_part_def Let_def)
    then obtain im where im: "media" "oget part ''image_url'' = JObj im"
      and p: "p = JObj ([(''type'', JStr ''input_image''), (''image_url'', JStr (stringField im ''url''))] @
                          (if stringField im ''detail'' \<noteq> [] then [(''detail'', JStr (stringField im ''detail''))] else []))"
      unfolding ok_iff by auto
    show thesis by (rule img [OF im(1) part 3 im(2) p]) auto
  next
    case 4
    then have "(if \<not> media then Inl (Msg ''file content is only supported on user messages'')
        else (case as_obj (oget part ''file'') of
                None \<Rightarrow> Inl (Msg (numbered ''content part '' i '' file must be an object''))
              | Some file \<Rightarrow>
                  Inr (JObj (copy_fields [''file_data'', ''file_id'', ''filename''] file [(''type'', JStr ''input_file'')])))) = Inr p"
      using assms part by (simp add: content_part_def Let_def)
    then obtain f where f: "media" "oget part ''file'' = JObj f"
      and p: "p = JObj (copy_fields [''file_data'', ''file_id'', ''filename''] f [(''type'', JStr ''input_file'')])"
      unfolding ok_iff by auto
    show thesis by (rule attach [OF f(1) part 4 f(2) p])
  qed
qed

lemma content_part_said:
  assumes "content_part tt media i raw = Inr p" and "tt = ''input_text'' \<or> tt = ''output_text''"
  shows "wire_text p = part_text raw" and "wire_media p = part_media raw"
    and "\<not> media \<Longrightarrow> part_media raw = []"
  using assms(2)
  by (cases rule: content_part_cases [OF assms(1)];
      auto simp: wire_text_def part_text_def wire_media_def part_media_def chatPayloadString_def
        oget_copy_fields copied_file)+

lemma traverse_parts_said:
  assumes "traverse_from k (content_part tt media) raws = Inr ps" and "tt = ''input_text'' \<or> tt = ''output_text''"
  shows "concat (map wire_text ps) = concat (map part_text raws)"
    and "concat (map wire_media ps) = concat (map part_media raws)"
    and "\<not> media \<Longrightarrow> concat (map part_media raws) = []"
proof -
  have "map wire_text ps = map part_text raws"
    by (rule traverse_from_map [OF assms(1)]) (use content_part_said(1) assms(2) in blast)
  then show "concat (map wire_text ps) = concat (map part_text raws)" by simp
  have "map wire_media ps = map part_media raws"
    by (rule traverse_from_map [OF assms(1)]) (use content_part_said(2) assms(2) in blast)
  then show "concat (map wire_media ps) = concat (map part_media raws)" by simp
  assume "\<not> media"
  then have "map (\<lambda>_. []) ps = map part_media raws"
    by (intro traverse_from_map [OF assms(1)]) (use content_part_said(3) assms(2) in fastforce)
  then have "concat (map part_media raws) = concat (map (\<lambda>_. []) ps)" by simp
  then show "concat (map part_media raws) = []" by (simp add: concat_eq_Nil_conv)
qed

text \<open>A content and the parts it becomes.\<close>

lemma content_said:
  assumes "translateChatMessageContent v tt media = Inr c" and "tt = ''input_text'' \<or> tt = ''output_text''"
  shows "concat (map wire_text (case c of None \<Rightarrow> [] | Some ps \<Rightarrow> ps)) = content_text v"
    and "concat (map wire_media (case c of None \<Rightarrow> [] | Some ps \<Rightarrow> ps)) = content_media v"
    and "\<not> media \<Longrightarrow> content_media v = []"
  using assms traverse_parts_said [OF _ assms(2), of 0 media]
  by (auto simp: translateChatMessageContent_def content_text_def content_media_def wire_text_def wire_media_def
      chatPayloadString_def ok_iff split: json.splits)

lemma item_parts_content: "item_parts [(''role'', r), (''content'', content_json c)] = (case c of None \<Rightarrow> [] | Some ps \<Rightarrow> ps)"
  by (simp add: item_parts_def content_json_def split: option.split)

lemma item_said_message:
  "item_said (JObj [(''role'', JStr r), (''content'', content_json c)]) =
     Said r (concat (map wire_text (case c of None \<Rightarrow> [] | Some ps \<Rightarrow> ps)))
       (concat (map wire_media (case c of None \<Rightarrow> [] | Some ps \<Rightarrow> ps)))"
  by (simp add: item_said_def item_parts_content chatPayloadString_def)

lemma item_said_call [simp]: "item_said (function_call_item cid name args) = Called cid name (valueOr args ''{}'')"
  by (simp add: item_said_def function_call_item_def chatPayloadString_def)

lemma assistant_call_said: "assistant_call i raw = Inr item \<Longrightarrow> item_said item = chat_call raw"
  by (auto simp: assistant_call_def chat_call_def Let_def ok_iff)

lemma assistant_content_said:
  assumes "assistant_content m = Inr items"
  shows "map item_said items =
    (if oget m ''content'' = JNull \<or> oget m ''content'' = JArr [] then []
     else [Said ''assistant'' (content_text (oget m ''content'')) []])"
proof (cases "oget m ''content'' = JNull")
  case True
  then show ?thesis using assms by (simp add: assistant_content_def)
next
  case False
  then obtain c where c: "translateChatMessageContent (oget m ''content'') ''output_text'' False = Inr c"
    and items: "items = (case c of Some (p # ps) \<Rightarrow> [JObj [(''role'', JStr ''assistant''), (''content'', JArr (p # ps))]] | _ \<Rightarrow> [])"
    using assms by (auto simp: assistant_content_def ok_iff)
  have empty: "c = None \<or> c = Some [] \<longleftrightarrow> oget m ''content'' = JArr []"
    using c False by (auto simp: translateChatMessageContent_def ok_iff split: json.splits dest: traverse_from_length)
  note said = content_said [OF c, simplified]
  show ?thesis
  proof (cases c)
    case None
    then show ?thesis using empty items by simp
  next
    case (Some ps)
    show ?thesis
    proof (cases ps)
      case Nil
      then show ?thesis using empty items Some by simp
    next
      case (Cons q qs)
      then have "items = [JObj [(''role'', JStr ''assistant''), (''content'', content_json c)]]"
        using items Some by (simp add: content_json_def)
      then show ?thesis using said empty Some Cons False by (simp add: item_said_message)
    qed
  qed
qed

lemma assistant_said_items:
  assumes "translateChatAssistantMessage m = Inr items"
  shows "map item_said items = assistant_said m" and "items \<noteq> []"
proof -
  from assms obtain i1 i2 i3 where i: "assistant_content m = Inr i1" "assistant_calls m = Inr i2" "legacy_call m = Inr i3"
    and items: "items = i1 @ i2 @ i3" and ne: "items \<noteq> []"
    by (auto simp: translateChatAssistantMessage_def Let_def ok_iff split: if_splits)
  have "map item_said i2 = (case oget m ''tool_calls'' of JArr calls \<Rightarrow> map chat_call calls | _ \<Rightarrow> [])"
    using i(2) traverse_from_map [of 0 assistant_call _ i2 item_said chat_call] assistant_call_said
    by (auto simp: assistant_calls_def ok_iff oget_missing split: if_splits)
  moreover have "map item_said i3 = (case oget m ''function_call'' of
        JObj fn \<Rightarrow> [Called (''call_'' @ stringField fn ''name'') (stringField fn ''name'')
                      (valueOr (chatPayloadString fn ''arguments'') ''{}'')]
      | _ \<Rightarrow> [])"
    using i(3) by (auto simp: legacy_call_def as_obj_def Let_def split: json.splits if_splits)
  ultimately show "map item_said items = assistant_said m"
    unfolding items map_append assistant_content_said [OF i(1)] assistant_said_def by simp
  show "items \<noteq> []" by (rule ne)
qed

lemma under_param_Inr [ok_iff]: "under_param p m = Inr x \<longleftrightarrow> m = Inr x"
  by (cases m) (simp_all add: under_param_def)

lemma text_only_said: "chatTextOnlyContent v = Inr t \<Longrightarrow> t = content_text v"
proof -
  assume t: "chatTextOnlyContent v = Inr t"
  have "text_part i raw = Inr s \<Longrightarrow> s = part_text raw" for i raw s
    by (auto simp: text_part_def part_text_def ok_iff)
  then have "traverse_from 0 text_part raws = Inr parts \<Longrightarrow> map id parts = map part_text raws" for raws parts
    using traverse_from_map [of 0 text_part raws parts id part_text] by auto
  then show ?thesis using t
    by (auto simp: chatTextOnlyContent_def content_text_def ok_iff split: json.splits)
qed

lemma translate_message_said: "translate_message i raw = Inr items \<Longrightarrow> map item_said items = chat_said raw"
proof -
  assume tm: "translate_message i raw = Inr items"
  then obtain m where raw: "raw = JObj m" by (auto simp: translate_message_def ok_iff)
  let ?role = "stringField m ''role''" and ?c = "oget m ''content''"
  note tm = tm [unfolded translate_message_def raw as_obj_simps option.case Let_def]
  consider (dev) "?role = ''system'' \<or> ?role = ''developer''" | (user) "?role = ''user''"
    | (assistant) "?role = ''assistant''" | (tool) "?role = ''tool''"
    using tm by (auto split: if_splits)
  then show ?thesis
  proof cases
    case dev
    with tm obtain c where c: "translateChatMessageContent ?c ''input_text'' False = Inr c"
      and items: "items = [JObj [(''role'', JStr ''developer''), (''content'', content_json c)]]"
      by (auto simp: ok_iff)
    show ?thesis using dev content_said [OF c, simplified] unfolding items
      by (auto simp: raw chat_said_def Let_def item_said_message)
  next
    case user
    with tm obtain c where c: "translateChatMessageContent ?c ''input_text'' True = Inr c"
      and items: "items = [JObj [(''role'', JStr ''user''), (''content'', content_json c)]]"
      by (auto simp: ok_iff)
    show ?thesis using user content_said(1,2) [OF c, simplified] unfolding items
      by (auto simp: raw chat_said_def Let_def item_said_message)
  next
    case assistant
    with tm have "translateChatAssistantMessage m = Inr items" by (simp add: ok_iff)
    then show ?thesis using assistant assistant_said_items by (simp add: raw chat_said_def Let_def)
  next
    case tool
    with tm obtain t where t: "chatTextOnlyContent ?c = Inr t"
      and items: "items = [JObj [(''type'', JStr ''function_call_output''), (''call_id'', JStr (stringField m ''tool_call_id'')),
                            (''output'', JStr t)]]"
      by (auto simp: ok_iff split: if_splits)
    show ?thesis using tool text_only_said [OF t] unfolding items
      by (simp add: raw chat_said_def Let_def item_said_def chatPayloadString_def)
  qed
qed

lemma translateChatMessages_said:
  assumes "translateChatMessages messages = Inr items"
  shows "map item_said items = concat (map chat_said messages)"
proof -
  from assms obtain its where its: "traverse_from 0 translate_message messages = Inr its" "items = concat its"
    by (auto simp: translateChatMessages_def ok_iff)
  have "map (map item_said) its = map chat_said messages"
    by (rule traverse_from_map [OF its(1)]) (rule translate_message_said)
  then show ?thesis by (simp add: its(2) map_concat)
qed

section \<open>The translated body\<close>

text \<open>The fields the translation sets itself are touched by none of the later steps.\<close>

lemma copyChatRequestFields_other:
  assumes "k \<notin> set copied_fields" "k \<notin> snd ` set camel_fields"
  shows "oget (copyChatRequestFields from to) k = oget to k"
proof -
  have "k \<notin> snd ` set cs \<Longrightarrow> oget (foldl (\<lambda>m (camel, snake). if ohas m snake then m
      else if ohas from camel then oset m snake (oget from camel) else m) m cs) k = oget m k" for cs m
    by (induction cs arbitrary: m) (auto split: prod.splits)
  then show ?thesis using assms by (simp add: copyChatRequestFields_def oget_copy_fields)
qed

lemma translateChatReasoning_other: "translateChatReasoning c b = Inr b' \<Longrightarrow> k \<noteq> ''reasoning'' \<Longrightarrow> oget b' k = oget b k"
  by (auto simp: translateChatReasoning_def Let_def ok_iff split: if_splits)

lemma translateChatTextOptions_other: "translateChatTextOptions c b = Inr b' \<Longrightarrow> k \<noteq> ''text'' \<Longrightarrow> oget b' k = oget b k"
  by (auto simp: translateChatTextOptions_def Let_def ok_iff split: if_splits)

lemma translateChatTools_other:
  "translateChatTools c b = Inr b' \<Longrightarrow> k \<notin> {''tools'', ''tool_choice''} \<Longrightarrow> oget b' k = oget b k"
  by (auto simp: translateChatTools_def translate_tool_list_def Let_def ok_iff split: if_splits)

lemma translateChatCompletionsBody_fields:
  assumes "translateChatCompletionsBody lib chatBody = Inr (body, ci)"
  obtains messages items where "oget chatBody ''messages'' = JArr messages" "messages \<noteq> []"
    "translateChatMessages messages = Inr items"
    "oget body ''input'' = JArr items" "oget body ''model'' = JStr (stringField chatBody ''model'')"
    "oget body ''stream'' = JBool (ci_Stream ci)" "stringField chatBody ''model'' \<noteq> []"
proof -
  from assms obtain messages items b1 b2 where m: "oget chatBody ''messages'' = JArr messages" "messages \<noteq> []"
    "translateChatMessages messages = Inr items" "stringField chatBody ''model'' \<noteq> []"
    and b1: "translateChatReasoning chatBody (copyChatRequestFields chatBody
       [(''model'', JStr (stringField chatBody ''model'')), (''input'', JArr items), (''stream'', JBool (ci_Stream ci))]) = Inr b1"
    and b2: "translateChatTextOptions chatBody b1 = Inr b2"
    and b3: "translateChatTools chatBody b2 = Inr body"
    by (auto simp: translateChatCompletionsBody_def Let_def ok_iff)
  have keep: "oget body k = oget [(''model'', JStr (stringField chatBody ''model'')), (''input'', JArr items),
      (''stream'', JBool (ci_Stream ci))] k" if "k = ''model'' \<or> k = ''input'' \<or> k = ''stream''" for k
  proof -
    have "k \<notin> {''tools'', ''tool_choice''}" "k \<noteq> ''text''" "k \<noteq> ''reasoning''"
        "k \<notin> set copied_fields" "k \<notin> snd ` set camel_fields"
      using that by (auto simp: copied_fields_def camel_fields_def)
    note off = this
    show ?thesis
      unfolding translateChatTools_other [OF b3 off(1)] translateChatTextOptions_other [OF b2 off(2)]
        translateChatReasoning_other [OF b1 off(3)] copyChatRequestFields_other [OF off(4,5)] by (rule refl)
  qed
  show thesis
    by (rule that [OF m(1,2,3) _ _ _ m(4)]) (simp_all add: keep)
qed

lemma normalizeResponsesBody_input:
  assumes "oget body ''input'' = JArr items"
  shows "oget (snd (normalizeResponsesBody body cfg h)) ''input'' = JArr (demoteSystemRoles items)"
proof -
  obtain i1 b1 where m: "normalize_model body = (i1, b1)" by (cases "normalize_model body")
  obtain tier b2 where t: "normalizeServiceTier b1 (ri_NormalizedModel i1) = (tier, b2)"
    by (cases "normalizeServiceTier b1 (ri_NormalizedModel i1)")
  have "oget b1 ''input'' = oget body ''input''" using normalize_model_other(1) [of "''input''" body] m by simp
  then have b2: "oget b2 ''input'' = JArr items" using normalizeServiceTier_other(1) [OF t, of "''input''"] assms by simp
  have "''input'' \<notin> set rejected_always \<union> set rejected_tail" by (simp add: rejected_always_def rejected_tail_def)
  then have "oget (removeUnsupportedParams (default_field ''store'' (JBool False) b2) mdl) ''input'' = JArr items" for mdl
    using b2 by (simp add: removeUnsupported_other)
  then have "oget (normalizeInput (removeUnsupportedParams (default_field ''store'' (JBool False) b2) mdl)) ''input'' =
      JArr (demoteSystemRoles items)" for mdl
    by (simp add: normalizeInput_def)
  then have "oget (normalize_defaults (normalizeInput (removeUnsupportedParams (default_field ''store'' (JBool False) b2) mdl))) ''input'' =
      JArr (demoteSystemRoles items)" for mdl
    by (simp add: normalize_defaults_other defaulted_keys_def)
  then show ?thesis by (simp add: normalizeResponsesBody_def m t Let_def normalize_cache_key_def)
qed

section \<open>Well-typed items\<close>

text \<open>The parts a speaker may use, and the three shapes of items the backend takes.\<close>

definition part_ok :: "string \<Rightarrow> json \<Rightarrow> bool" where
  "part_ok role raw =
     (case raw of
        JObj part \<Rightarrow>
          (let ty = chatPayloadString part ''type''
           in ty = (if role = ''assistant'' then ''output_text'' else ''input_text'') \<and> as_str (oget part ''text'') \<noteq> None \<or>
              role = ''user'' \<and> ty = ''input_image'' \<and> as_str (oget part ''image_url'') \<noteq> None \<or>
              role = ''user'' \<and> ty = ''input_file'')
      | _ \<Rightarrow> False)"

definition item_ok :: "json \<Rightarrow> bool" where
  "item_ok raw =
     (case raw of
        JObj item \<Rightarrow>
          (let role = chatPayloadString item ''role''; ty = chatPayloadString item ''type''
           in if ty = ''function_call''
              then role = [] \<and> chatPayloadString item ''call_id'' \<noteq> [] \<and> chatPayloadString item ''name'' \<noteq> [] \<and>
                   chatPayloadString item ''arguments'' \<noteq> []
              else if ty = ''function_call_output''
              then role = [] \<and> chatPayloadString item ''call_id'' \<noteq> [] \<and> as_str (oget item ''output'') \<noteq> None
              else ty = [] \<and> role \<in> {''developer'', ''user'', ''assistant''} \<and>
                   (case oget item ''content'' of
                      JNull \<Rightarrow> role \<noteq> ''assistant''
                    | JArr ps \<Rightarrow> list_all (part_ok role) ps \<and> (role = ''assistant'' \<longrightarrow> ps \<noteq> [])
                    | _ \<Rightarrow> False))
      | _ \<Rightarrow> False)"

lemma content_part_ok:
  assumes "content_part tt media i raw = Inr p"
    and "tt = (if role = ''assistant'' then ''output_text'' else ''input_text'')" "media \<Longrightarrow> role = ''user''"
  shows "part_ok role p"
  using assms(2,3)
  by (cases rule: content_part_cases [OF assms(1)])
    (auto simp: part_ok_def chatPayloadString_def oget_copy_fields as_str_def split: if_splits)

lemma content_ok:
  assumes "translateChatMessageContent v tt media = Inr (Some ps)"
    and "tt = (if role = ''assistant'' then ''output_text'' else ''input_text'')" "media \<Longrightarrow> role = ''user''"
  shows "list_all (part_ok role) ps"
proof -
  have "traverse_from 0 (content_part tt media) raws = Inr qs \<Longrightarrow> list_all (part_ok role) qs" for raws qs
    by (erule traverse_from_all) (erule content_part_ok [OF _ assms(2,3)])
  moreover have "part_ok role (JObj [(''type'', JStr tt), (''text'', JStr t)])" for t
    using assms(2) by (simp add: part_ok_def chatPayloadString_def as_str_def)
  ultimately show ?thesis
    using assms(1) by (auto simp: translateChatMessageContent_def ok_iff split: json.splits)
qed

lemma item_ok_message:
  assumes "role \<in> {''developer'', ''user''}" "\<And>ps. c = Some ps \<Longrightarrow> list_all (part_ok role) ps"
  shows "item_ok (JObj [(''role'', JStr role), (''content'', content_json c)])"
  using assms by (cases c) (auto simp: item_ok_def chatPayloadString_def content_json_def)

lemma item_ok_call: "cid \<noteq> [] \<Longrightarrow> name \<noteq> [] \<Longrightarrow> item_ok (function_call_item cid name args)"
proof -
  have "valueOr args ''{}'' \<noteq> []" by (cases args) (auto simp: valueOr_def TrimSpace_idem)
  then show "cid \<noteq> [] \<Longrightarrow> name \<noteq> [] \<Longrightarrow> ?thesis"
    by (simp add: item_ok_def function_call_item_def chatPayloadString_def)
qed

lemma assistant_items_ok:
  assumes "translateChatAssistantMessage m = Inr items" shows "list_all item_ok items"
proof -
  from assms obtain i1 i2 i3 where i: "assistant_content m = Inr i1" "assistant_calls m = Inr i2" "legacy_call m = Inr i3"
    and items: "items = i1 @ i2 @ i3"
    by (auto simp: translateChatAssistantMessage_def Let_def ok_iff split: if_splits)
  have "translateChatMessageContent v ''output_text'' False = Inr (Some (q # qs)) \<Longrightarrow>
      item_ok (JObj [(''role'', JStr ''assistant''), (''content'', JArr (q # qs))])" for v q qs
    using content_ok [of v "''output_text''" False "q # qs" "''assistant''"]
    by (simp add: item_ok_def chatPayloadString_def)
  then have "translateChatMessageContent v ''output_text'' False = Inr c \<Longrightarrow>
      list_all item_ok (case c of Some (p # ps) \<Rightarrow> [JObj [(''role'', JStr ''assistant''), (''content'', JArr (p # ps))]] | _ \<Rightarrow> [])" for v c
    by (auto split: option.split list.split)
  then have "list_all item_ok i1"
    using i(1) by (fastforce simp: assistant_content_def ok_iff split: if_splits)
  moreover have "assistant_call k raw = Inr item \<Longrightarrow> item_ok item" for k raw item
    by (auto simp: assistant_call_def Let_def ok_iff item_ok_call)
  then have "list_all item_ok i2"
    using i(2) by (auto simp: assistant_calls_def ok_iff split: if_splits intro: traverse_from_all)
  moreover have "list_all item_ok i3"
    using i(3) by (auto simp: legacy_call_def Let_def item_ok_call split: option.splits if_splits)
  ultimately show ?thesis by (simp add: items)
qed

lemma translate_message_ok: "translate_message i raw = Inr items \<Longrightarrow> list_all item_ok items"
proof -
  assume tm: "translate_message i raw = Inr items"
  then obtain m where raw: "raw = JObj m" by (auto simp: translate_message_def ok_iff)
  let ?role = "stringField m ''role''" and ?c = "oget m ''content''"
  note tm = tm [unfolded translate_message_def raw as_obj_simps option.case Let_def]
  consider (dev) "?role = ''system'' \<or> ?role = ''developer''" | (user) "?role = ''user''"
    | (assistant) "?role = ''assistant''" | (tool) "?role = ''tool''"
    using tm by (auto split: if_splits)
  then show ?thesis
  proof cases
    case dev
    with tm obtain c where c: "translateChatMessageContent ?c ''input_text'' False = Inr c"
      and items: "items = [JObj [(''role'', JStr ''developer''), (''content'', content_json c)]]"
      by (auto simp: ok_iff)
    show ?thesis unfolding items list.pred_inject
      by (intro conjI item_ok_message) (use c content_ok [of ?c "''input_text''" False _ "''developer''"] in auto)
  next
    case user
    with tm obtain c where c: "translateChatMessageContent ?c ''input_text'' True = Inr c"
      and items: "items = [JObj [(''role'', JStr ''user''), (''content'', content_json c)]]"
      by (auto simp: ok_iff)
    show ?thesis unfolding items list.pred_inject
      by (intro conjI item_ok_message) (use c content_ok [of ?c "''input_text''" True _ "''user''"] in auto)
  next
    case assistant
    with tm have "translateChatAssistantMessage m = Inr items" by (simp add: ok_iff)
    then show ?thesis by (rule assistant_items_ok)
  next
    case tool
    with tm obtain t where
      items: "items = [JObj [(''type'', JStr ''function_call_output''), (''call_id'', JStr (stringField m ''tool_call_id'')),
                            (''output'', JStr t)]]" and "stringField m ''tool_call_id'' \<noteq> []"
      by (auto simp: ok_iff split: if_splits)
    then show ?thesis by (simp add: item_ok_def chatPayloadString_def as_str_def)
  qed
qed

lemma translateChatMessages_ok: "translateChatMessages messages = Inr items \<Longrightarrow> list_all item_ok items"
proof -
  assume "translateChatMessages messages = Inr items"
  then obtain its where its: "traverse_from 0 translate_message messages = Inr its" "items = concat its"
    by (auto simp: translateChatMessages_def ok_iff)
  have "list_all (list_all item_ok) its" by (rule traverse_from_all [OF its(1)]) (rule translate_message_ok)
  then show ?thesis by (auto simp: its(2) list_all_iff)
qed

text \<open>No well-typed item is a system item, so normalisation leaves the input as it is.\<close>

lemma item_ok_not_demoted: "item_ok raw \<Longrightarrow> demote_item raw = raw"
proof -
  assume ok: "item_ok raw"
  then obtain item where raw: "raw = JObj item" by (auto simp: item_ok_def split: json.splits)
  have "chatPayloadString item ''role'' \<in> {[], ''developer'', ''user'', ''assistant''}"
    using ok by (auto simp: raw item_ok_def Let_def split: if_splits)
  moreover have "TrimSpace [] \<noteq> ''system''" "TrimSpace ''developer'' \<noteq> ''system''" "TrimSpace ''user'' \<noteq> ''system''"
      "TrimSpace ''assistant'' \<noteq> ''system''"
    by code_simp+
  ultimately have "stringField item ''role'' \<noteq> ''system''"
    by (auto simp: stringField_def chatPayloadString_def split: json.splits)
  then show ?thesis by (simp add: raw demote_item_def)
qed

lemma input_kept: "list_all item_ok items \<Longrightarrow> demoteSystemRoles items = items"
  by (simp add: demoteSystemRoles_def list_all_iff item_ok_not_demoted map_idI)

section \<open>Properties\<close>


definition witness_chat :: obj where
  "witness_chat =
     [(''model'', JStr ''gpt-6-sol''),
      (''messages'', JArr [JObj [(''role'', JStr ''system''), (''content'', JStr ''be brief'')],
                           JObj [(''role'', JStr ''user''), (''content'', JArr [JObj [(''type'', JStr ''text''), (''text'', JStr '' hi '')]])]])]"




end
