(* ===== verification/ChatResponse.thy ===== *)
theory ChatResponse
  imports UsageStream ChatRequest
begin

text \<open>
  The answer half of \<^verbatim>\<open>src/chat_completions.go\<close> for a client that does not stream: a final response
  object of the backend becomes one chat completion. Clock readings are arguments, in nanoseconds
  of Unix time.
\<close>

section \<open>Definitions\<close>

text \<open>\<open>strconv.FormatInt(n, 36)\<close>.\<close>

definition digit36 :: "nat \<Rightarrow> char" where
  "digit36 d = (if d < 10 then digit_char d else char_of (87 + d))"

fun base36 :: "nat \<Rightarrow> string" where
  "base36 n = (if n < 36 then [digit36 n] else base36 (n div 36) @ [digit36 (n mod 36)])"

declare base36.simps [simp del]

definition FormatInt36 :: "int \<Rightarrow> string" where
  "FormatInt36 n = (if n < 0 then CHR ''-'' # base36 (nat (- n)) else base36 (nat n))"

definition chatCompletionID :: "int \<Rightarrow> string \<Rightarrow> string" where
  "chatCompletionID now upstreamID =
     (if HasPrefix upstreamID ''chatcmpl-'' then upstreamID
      else if HasPrefix upstreamID ''resp_'' then ''chatcmpl-'' @ TrimPrefix upstreamID ''resp_''
      else if upstreamID \<noteq> [] then ''chatcmpl-'' @ upstreamID
      else ''chatcmpl-'' @ FormatInt36 now)"

definition unix_seconds :: "int \<Rightarrow> int" where
  "unix_seconds now = now div nanos_per_second"

definition chatCompletionCreated :: "golib \<Rightarrow> int \<Rightarrow> obj \<Rightarrow> int" where
  "chatCompletionCreated lib now response =
     (case numericField lib response ''created_at'' of
        Some created \<Rightarrow> int64_of_float created
      | None \<Rightarrow>
          (case numericField lib response ''created'' of
             Some created \<Rightarrow> int64_of_float created
           | None \<Rightarrow> unix_seconds now))"

definition chatFinishReason :: "obj \<Rightarrow> bool \<Rightarrow> string" where
  "chatFinishReason response hasToolCalls =
     (if stringField response ''status'' = ''incomplete'' then ''length''
      else if hasToolCalls then ''tool_calls'' else ''stop'')"

definition int64Value :: "int option \<Rightarrow> int" where
  "int64Value v = (case v of None \<Rightarrow> 0 | Some x \<Rightarrow> x)"

definition optional :: "string \<Rightarrow> int option \<Rightarrow> obj" where
  "optional key v = (case v of None \<Rightarrow> [] | Some x \<Rightarrow> [(key, JInt64 x)])"

definition chatUsageObject :: "tokenUsage \<Rightarrow> obj" where
  "chatUsageObject usage =
     (let total = (if tu_TotalTokens usage = None
                   then wrap64 (int64Value (tu_InputTokens usage) + int64Value (tu_OutputTokens usage))
                   else int64Value (tu_TotalTokens usage));
          details = optional ''cached_tokens'' (tu_CachedTokens usage) @
                    optional ''cache_write_tokens'' (tu_CacheWriteTokens usage)
      in [(''prompt_tokens'', JInt64 (int64Value (tu_InputTokens usage))),
          (''completion_tokens'', JInt64 (int64Value (tu_OutputTokens usage))),
          (''total_tokens'', JInt64 total)] @
         (if tu_CachedTokens usage \<noteq> None \<or> tu_CacheWriteTokens usage \<noteq> None
          then [(''prompt_tokens_details'', JObj details)] else []) @
         (if tu_ReasoningTokens usage \<noteq> None
          then [(''completion_tokens_details'', JObj (optional ''reasoning_tokens'' (tu_ReasoningTokens usage)))]
          else []))"

text \<open>What one content part of an output message adds: text, a refusal, or nothing.\<close>

definition text_of_part :: "json \<Rightarrow> string list" where
  "text_of_part rawPart =
     (case rawPart of
        JObj part \<Rightarrow>
          (if stringField part ''type'' \<in> {''output_text'', ''text''} then [chatPayloadString part ''text''] else [])
      | _ \<Rightarrow> [])"

definition refusal_of_part :: "json \<Rightarrow> string list" where
  "refusal_of_part rawPart =
     (case rawPart of
        JObj part \<Rightarrow> (if stringField part ''type'' = ''refusal'' then [chatPayloadString part ''refusal''] else [])
      | _ \<Rightarrow> [])"

definition chat_tool_call :: "obj \<Rightarrow> json" where
  "chat_tool_call item =
     JObj [(''id'', JStr (valueOr (stringField item ''call_id'') (stringField item ''id''))),
           (''type'', JStr ''function''),
           (''function'', JObj [(''name'', JStr (stringField item ''name'')),
                                (''arguments'', JStr (valueOr (chatPayloadString item ''arguments'') ''{}''))])]"

definition array_or_nil :: "json \<Rightarrow> json list" where
  "array_or_nil v = (case v of JArr xs \<Rightarrow> xs | _ \<Rightarrow> [])"

fun output_item :: "string list \<times> string list \<times> json list \<Rightarrow> json \<Rightarrow> string list \<times> string list \<times> json list" where
  "output_item (textParts, refusalParts, toolCalls) (JObj item) =
     (if stringField item ''type'' = ''message'' then
        (let content = array_or_nil (oget item ''content'')
         in (textParts @ concat (map text_of_part content),
             refusalParts @ concat (map refusal_of_part content), toolCalls))
      else if stringField item ''type'' = ''function_call'' then
        (textParts, refusalParts, toolCalls @ [chat_tool_call item])
      else (textParts, refusalParts, toolCalls))"
| "output_item acc _ = acc"

definition chat_message_object :: "string list \<Rightarrow> string list \<Rightarrow> json list \<Rightarrow> obj" where
  "chat_message_object textParts refusalParts toolCalls =
     [(''role'', JStr ''assistant''),
      (''content'', if textParts = [] \<and> toolCalls \<noteq> [] then JNull else JStr (Join textParts [])),
      (''refusal'', if refusalParts \<noteq> [] then JStr (Join refusalParts []) else JNull),
      (''annotations'', JArr [])] @
     (if toolCalls \<noteq> [] then [(''tool_calls'', JArr toolCalls)] else [])"

text \<open>The two clock readings are those of the identifier and of the creation time.\<close>

definition chatCompletionFromResponse :: "golib \<Rightarrow> int \<times> int \<Rightarrow> obj \<Rightarrow> string \<Rightarrow> string + obj" where
  "chatCompletionFromResponse lib now response fallbackModel =
     (let status = stringField response ''status''
      in if status = ''failed'' \<or> status = ''cancelled'' then Inl (''upstream response status is '' @ status)
         else (let (textParts, refusalParts, toolCalls) =
                     foldl output_item ([], [], []) (array_or_nil (oget response ''output''));
                   usage = extractTokenUsage lib response;
                   tier = extractServiceTier (Some response)
               in Inr ([(''id'', JStr (chatCompletionID (fst now) (stringField response ''id''))),
                        (''object'', JStr ''chat.completion''),
                        (''created'', JInt64 (chatCompletionCreated lib (snd now) response)),
                        (''model'', JStr (valueOr (stringField response ''model'') fallbackModel)),
                        (''choices'', JArr [JObj
                           [(''index'', JInt 0),
                            (''message'', JObj (chat_message_object textParts refusalParts toolCalls)),
                            (''logprobs'', JNull),
                            (''finish_reason'', JStr (chatFinishReason response (toolCalls \<noteq> [])))]])] @
                       (if hasAny usage then [(''usage'', JObj (chatUsageObject usage))] else []) @
                       (if tier \<noteq> [] then [(''service_tier'', JStr tier)] else []))))"

section \<open>What the output says\<close>

text \<open>The texts, refusals and calls of an output list, item by item.\<close>

definition message_items :: "json list \<Rightarrow> obj list" where
  "message_items outs = concat (map (\<lambda>raw. case raw of
     JObj item \<Rightarrow> if stringField item ''type'' = ''message'' then [item] else [] | _ \<Rightarrow> []) outs)"

definition call_items :: "json list \<Rightarrow> obj list" where
  "call_items outs = concat (map (\<lambda>raw. case raw of
     JObj item \<Rightarrow> if stringField item ''type'' = ''function_call'' then [item] else [] | _ \<Rightarrow> []) outs)"

definition item_content :: "obj \<Rightarrow> json list" where
  "item_content item = array_or_nil (oget item ''content'')"

lemma output_items:
  "foldl output_item (ts, rs, cs) outs =
     (ts @ concat (map (\<lambda>item. concat (map text_of_part (item_content item))) (message_items outs)),
      rs @ concat (map (\<lambda>item. concat (map refusal_of_part (item_content item))) (message_items outs)),
      cs @ map chat_tool_call (call_items outs))"
proof (induction outs arbitrary: ts rs cs)
  case (Cons raw outs)
  have "message_items (raw # outs) = message_items [raw] @ message_items outs"
    "call_items (raw # outs) = call_items [raw] @ call_items outs"
    by (simp_all add: message_items_def call_items_def)
  moreover have "output_item (ts, rs, cs) raw =
     (ts @ concat (map (\<lambda>item. concat (map text_of_part (item_content item))) (message_items [raw])),
      rs @ concat (map (\<lambda>item. concat (map refusal_of_part (item_content item))) (message_items [raw])),
      cs @ map chat_tool_call (call_items [raw]))"
    by (cases raw) (simp_all add: message_items_def call_items_def item_content_def Let_def)
  ultimately show ?case using Cons.IH by simp
qed (simp add: message_items_def call_items_def)

end
