(* ===== verification/ChatStream.thy ===== *)
theory ChatStream
  imports ChatResponse
begin

text \<open>
  The streaming translator of \<^verbatim>\<open>src/chat_completions.go\<close>: the events of a responses stream become
  chat completion chunks. The translator's state is the record of the source with, in addition, the
  frames it has written and how often it has read the clock. The surroundings (the JSON encoder, the
  clock and the client connection, which may break at any write) are the record \<open>chat_env\<close>. An
  operation returns its error, if any, and the next state.
\<close>

section \<open>Definitions\<close>

subsection \<open>State\<close>

record chatStreamTool =
  st_index :: nat
  st_argumentsEmitted :: bool

type_synonym chatStreamContentKey = "int \<times> int \<times> string"

datatype frame = Chunk obj | Done

record chat_env =
  ce_lib :: golib
  ce_now :: "nat \<Rightarrow> int"
  ce_write_ok :: "nat \<Rightarrow> bool"
  ce_marshal_error :: string

record chatStreamTranslator =
  ct_fallback :: string
  ct_includeUsage :: bool
  ct_id :: string
  ct_created :: int
  ct_model :: string
  ct_serviceTier :: string
  ct_roleSent :: bool
  ct_toolSeen :: bool
  ct_terminal :: bool
  ct_usage :: tokenUsage
  ct_tools :: "(string \<times> chatStreamTool) list"
  ct_contentSeen :: "chatStreamContentKey list"
  ct_out :: "frame list"
  ct_ticks :: nat

type_synonym chat_op = "chatStreamTranslator \<Rightarrow> string option \<times> chatStreamTranslator"

text \<open>\<open>if err := f(); err != nil { return err }; return g()\<close>, and a loop of such steps.\<close>

definition and_then :: "chat_op \<Rightarrow> chat_op \<Rightarrow> chat_op" where
  "and_then f g t = (case f t of (Some err, t') \<Rightarrow> (Some err, t') | (None, t') \<Rightarrow> g t')"

definition skip_op :: chat_op where
  "skip_op t = (None, t)"

fun each_op :: "(nat \<Rightarrow> 'a \<Rightarrow> chat_op) \<Rightarrow> nat \<Rightarrow> 'a list \<Rightarrow> chat_op" where
  "each_op f i [] = skip_op"
| "each_op f i (x # xs) = and_then (f i x) (each_op f (Suc i) xs)"

subsection \<open>Writing\<close>

definition write_frame :: "chat_env \<Rightarrow> frame \<Rightarrow> chat_op" where
  "write_frame env fr t =
     (if ce_write_ok env (length (ct_out t)) then (None, t\<lparr>ct_out := ct_out t @ [fr]\<rparr>)
      else (Some ''write downstream stream failed'', t))"

definition writeObject :: "chat_env \<Rightarrow> obj \<Rightarrow> chat_op" where
  "writeObject env value t =
     (case lib_Marshal (ce_lib env) (JObj value) of
        None \<Rightarrow> (Some (ce_marshal_error env), t)
      | Some encoded \<Rightarrow> write_frame env (Chunk value) t)"

definition writeDone :: "chat_env \<Rightarrow> chat_op" where
  "writeDone env = write_frame env Done"

definition base_id :: "chat_env \<Rightarrow> chatStreamTranslator \<Rightarrow> chatStreamTranslator" where
  "base_id env t =
     (if ct_id t = [] then t\<lparr>ct_id := chatCompletionID (ce_now env (ct_ticks t)) [], ct_ticks := ct_ticks t + 1\<rparr> else t)"

definition base_model :: "chatStreamTranslator \<Rightarrow> chatStreamTranslator" where
  "base_model t = (if ct_model t = [] then t\<lparr>ct_model := ct_fallback t\<rparr> else t)"

definition chunk_fields :: "chatStreamTranslator \<Rightarrow> obj" where
  "chunk_fields t =
     [(''id'', JStr (ct_id t)), (''object'', JStr ''chat.completion.chunk''), (''created'', JInt64 (ct_created t)),
      (''model'', JStr (ct_model t))] @
     (if ct_serviceTier t \<noteq> [] then [(''service_tier'', JStr (ct_serviceTier t))] else [])"

definition baseChunk :: "chat_env \<Rightarrow> chatStreamTranslator \<Rightarrow> obj \<times> chatStreamTranslator" where
  "baseChunk env t = (let t' = base_model (base_id env t) in (chunk_fields t', t'))"

definition choice_fields :: "obj \<Rightarrow> json \<Rightarrow> obj" where
  "choice_fields delta finishReason =
     [(''choices'', JArr [JObj [(''index'', JInt 0), (''delta'', JObj delta), (''logprobs'', JNull),
                              (''finish_reason'', finishReason)]])]"

definition writeChoice :: "chat_env \<Rightarrow> obj \<Rightarrow> json \<Rightarrow> chat_op" where
  "writeChoice env delta finishReason t =
     (let (chunk, t') = baseChunk env t
      in writeObject env (chunk @ choice_fields delta finishReason @
           (if ct_includeUsage t' then [(''usage'', JNull)] else [])) t')"

definition chat_fail :: "chat_env \<Rightarrow> string \<Rightarrow> string \<Rightarrow> chat_op" where
  "chat_fail env message summary t =
     (if ct_terminal t then (None, t)
      else and_then
        (writeObject env [(''error'', JObj [(''message'', JStr (redactTokenLikeText message)),
                                           (''type'', JStr ''upstream_error''), (''code'', JNull)])])
        (and_then (writeDone env) (\<lambda>t. (Some summary, t)))
        (t\<lparr>ct_terminal := True\<rparr>))"

subsection \<open>Role, content and tools\<close>

definition ensureRole :: "chat_env \<Rightarrow> chat_op" where
  "ensureRole env t =
     (if ct_roleSent t then (None, t)
      else writeChoice env [(''role'', JStr ''assistant''), (''content'', JStr [])] JNull (t\<lparr>ct_roleSent := True\<rparr>))"

definition chatStreamToolKey :: "string \<Rightarrow> int \<Rightarrow> string" where
  "chatStreamToolKey itemID outputIndex = (if itemID \<noteq> [] then itemID else ''output:'' @ Itoa outputIndex)"

definition tool_key :: "obj \<Rightarrow> int \<Rightarrow> string" where
  "tool_key item outputIndex = chatStreamToolKey (stringField item ''id'') outputIndex"

definition tool_delta :: "nat \<Rightarrow> obj \<Rightarrow> obj" where
  "tool_delta index item =
     [(''tool_calls'', JArr [JObj
        [(''index'', JInt (int index)),
         (''id'', JStr (valueOr (stringField item ''call_id'') (stringField item ''id''))),
         (''type'', JStr ''function''),
         (''function'', JObj [(''name'', JStr (stringField item ''name'')),
                              (''arguments'', JStr (chatPayloadString item ''arguments''))])]])]"

text \<open>The returned pointer is the entry of \<open>ct_tools\<close> at \<open>tool_key\<close>.\<close>

definition new_tool :: "chat_env \<Rightarrow> obj \<Rightarrow> int \<Rightarrow> chat_op" where
  "new_tool env item outputIndex t =
     (let index = length (ct_tools t);
          tool = \<lparr>st_index = index, st_argumentsEmitted = chatPayloadString item ''arguments'' \<noteq> []\<rparr>
      in writeChoice env (tool_delta index item) JNull
           (t\<lparr>ct_tools := AList.update (tool_key item outputIndex) tool (ct_tools t), ct_toolSeen := True\<rparr>))"

definition ensureTool :: "chat_env \<Rightarrow> obj \<Rightarrow> int \<Rightarrow> chat_op" where
  "ensureTool env item outputIndex =
     and_then (ensureRole env)
       (\<lambda>t. if map_of (ct_tools t) (tool_key item outputIndex) \<noteq> None then (None, t)
            else new_tool env item outputIndex t)"

definition arguments_delta :: "nat \<Rightarrow> string \<Rightarrow> obj" where
  "arguments_delta index arguments =
     [(''tool_calls'', JArr [JObj [(''index'', JInt (int index)),
                                 (''function'', JObj [(''arguments'', JStr arguments)])]])]"

definition writeToolArguments :: "chat_env \<Rightarrow> nat \<Rightarrow> string \<Rightarrow> chat_op" where
  "writeToolArguments env index arguments = writeChoice env (arguments_delta index arguments) JNull"

definition mark_emitted :: "string \<Rightarrow> chatStreamTranslator \<Rightarrow> chatStreamTranslator" where
  "mark_emitted key t =
     (case map_of (ct_tools t) key of
        None \<Rightarrow> t
      | Some tool \<Rightarrow> t\<lparr>ct_tools := AList.update key (tool\<lparr>st_argumentsEmitted := True\<rparr>) (ct_tools t)\<rparr>)"

text \<open>\<open>tool.argumentsEmitted = true; return t.writeToolArguments(tool.index, arguments)\<close>.\<close>

definition emit_arguments :: "chat_env \<Rightarrow> string \<Rightarrow> string \<Rightarrow> chat_op" where
  "emit_arguments env key arguments t =
     (case map_of (ct_tools t) key of
        None \<Rightarrow> (None, t)
      | Some tool \<Rightarrow> writeToolArguments env (st_index tool) arguments (mark_emitted key t))"

definition tool_arguments_once :: "chat_env \<Rightarrow> obj \<Rightarrow> int \<Rightarrow> chat_op" where
  "tool_arguments_once env item outputIndex =
     and_then (ensureTool env item outputIndex)
       (\<lambda>t. let arguments = chatPayloadString item ''arguments''; key = tool_key item outputIndex
            in if arguments \<noteq> [] \<and> (case map_of (ct_tools t) key of Some tool \<Rightarrow> \<not> st_argumentsEmitted tool | None \<Rightarrow> False)
               then emit_arguments env key arguments t else (None, t))"

text \<open>Kind, delta field and value of a content part.\<close>

definition part_content :: "json \<Rightarrow> (string \<times> string \<times> string) option" where
  "part_content rawPart =
     (case rawPart of
        JObj part \<Rightarrow>
          (if stringField part ''type'' \<in> {''output_text'', ''text''}
           then Some (''text'', ''content'', chatPayloadString part ''text'')
           else if stringField part ''type'' = ''refusal''
           then Some (''refusal'', ''refusal'', chatPayloadString part ''refusal'')
           else None)
      | _ \<Rightarrow> None)"

definition message_part :: "chat_env \<Rightarrow> int \<Rightarrow> nat \<Rightarrow> json \<Rightarrow> chat_op" where
  "message_part env outputIndex contentIndex rawPart t =
     (case part_content rawPart of
        None \<Rightarrow> (None, t)
      | Some (kind, field, val) \<Rightarrow>
          (let key = (outputIndex, int contentIndex, kind)
           in if key \<in> set (ct_contentSeen t) then (None, t)
              else and_then (ensureRole env) (writeChoice env [(field, JStr val)] JNull)
                     (t\<lparr>ct_contentSeen := key # ct_contentSeen t\<rparr>)))"

definition emitMessageFallback :: "chat_env \<Rightarrow> obj \<Rightarrow> int \<Rightarrow> chat_op" where
  "emitMessageFallback env item outputIndex =
     each_op (message_part env outputIndex) 0 (array_or_nil (oget item ''content''))"

definition fallback_item :: "chat_env \<Rightarrow> nat \<Rightarrow> json \<Rightarrow> chat_op" where
  "fallback_item env index rawItem =
     (case rawItem of
        JObj item \<Rightarrow>
          (if stringField item ''type'' = ''message'' then emitMessageFallback env item (int index)
           else if stringField item ''type'' = ''function_call'' then tool_arguments_once env item (int index)
           else skip_op)
      | _ \<Rightarrow> skip_op)"

definition emitResponseOutputFallback :: "chat_env \<Rightarrow> obj \<Rightarrow> chat_op" where
  "emitResponseOutputFallback env response =
     each_op (fallback_item env) 0 (array_or_nil (oget response ''output''))"

subsection \<open>Events\<close>

definition capture_identity :: "chat_env \<Rightarrow> obj \<Rightarrow> chatStreamTranslator \<Rightarrow> chatStreamTranslator" where
  "capture_identity env response t =
     (if ct_roleSent t then t
      else (let upstreamID = stringField response ''id''; model = stringField response ''model''
            in t\<lparr>ct_id := (if upstreamID \<noteq> [] then chatCompletionID 0 upstreamID else ct_id t),
                 ct_model := (if model \<noteq> [] then model else ct_model t),
                 ct_created := chatCompletionCreated (ce_lib env) (ce_now env (ct_ticks t)) response,
                 ct_ticks := ct_ticks t + 1\<rparr>))"

definition captureResponse :: "chat_env \<Rightarrow> obj \<Rightarrow> chatStreamTranslator \<Rightarrow> chatStreamTranslator" where
  "captureResponse env response t =
     (let t1 = capture_identity env response t;
          usage = extractTokenUsage (ce_lib env) response;
          tier = extractServiceTier (Some response)
      in t1\<lparr>ct_usage := (if hasAny usage then usage else ct_usage t1),
            ct_serviceTier := (if tier \<noteq> [] then tier else ct_serviceTier t1)\<rparr>)"

definition usage_chunk :: "chat_env \<Rightarrow> chat_op" where
  "usage_chunk env t =
     (if ct_includeUsage t \<and> hasAny (ct_usage t)
      then (let (chunk, t') = baseChunk env t
            in writeObject env (chunk @ [(''choices'', JArr []), (''usage'', JObj (chatUsageObject (ct_usage t')))]) t')
      else (None, t))"

definition chat_finish :: "chat_env \<Rightarrow> obj option \<Rightarrow> chat_op" where
  "chat_finish env response t =
     (if ct_terminal t then (None, t)
      else (case response of
              None \<Rightarrow> chat_fail env ''terminal event is missing its response object''
                        ''terminal event is missing its response object'' t
            | Some response \<Rightarrow>
                (if stringField response ''status'' \<in> {''failed'', ''cancelled''}
                 then chat_fail env ''upstream response failed'' ''upstream response failed'' t
                 else and_then (emitResponseOutputFallback env response)
                        (and_then (ensureRole env)
                          (and_then (\<lambda>t. writeChoice env [] (JStr (chatFinishReason response (ct_toolSeen t))) t)
                            (and_then (usage_chunk env)
                              (\<lambda>t. writeDone env (t\<lparr>ct_terminal := True\<rparr>)))))
                        (captureResponse env response t))))"

definition delta_event :: "chat_env \<Rightarrow> obj \<Rightarrow> string \<Rightarrow> string \<Rightarrow> chat_op" where
  "delta_event env event kind field =
     and_then (ensureRole env)
       (\<lambda>t. writeChoice env [(field, JStr (chatPayloadString event ''delta''))] JNull
              (if chatPayloadString event ''delta'' \<noteq> []
               then t\<lparr>ct_contentSeen := (intField (ce_lib env) event ''output_index'',
                                        intField (ce_lib env) event ''content_index'', kind) # ct_contentSeen t\<rparr>
               else t))"

definition arguments_event :: "chat_env \<Rightarrow> obj \<Rightarrow> chat_op" where
  "arguments_event env event t =
     (let itemID = stringField event ''item_id''; outputIndex = intField (ce_lib env) event ''output_index'';
          key = chatStreamToolKey itemID outputIndex
      in and_then
           (if map_of (ct_tools t) key \<noteq> None then skip_op
            else ensureTool env [(''id'', JStr itemID), (''call_id'', JStr itemID), (''type'', JStr ''function_call'')] outputIndex)
           (emit_arguments env key (chatPayloadString event ''delta'')) t)"

definition error_event :: "chat_env \<Rightarrow> obj \<Rightarrow> chat_op" where
  "error_event env event =
     (let message = (case as_obj (oget event ''error'') of
                       Some upstreamError \<Rightarrow> valueOr (stringField upstreamError ''message'') ''upstream streaming error''
                     | None \<Rightarrow> (if stringField event ''message'' \<noteq> [] then stringField event ''message''
                               else ''upstream streaming error''));
          errorBody = (case as_obj (oget event ''error'') of Some b \<Rightarrow> b | None \<Rightarrow> event);
          attributes = safeErrorAttributes (lib_Sprint (ce_lib env)) errorBody
      in chat_fail env message
           (''upstream streaming error'' @ (if attributes \<noteq> [] then '' ('' @ attributes @ '')'' else [])))"

definition chat_event :: "chat_env \<Rightarrow> obj \<Rightarrow> chat_op" where
  "chat_event env event t =
     (let ty = stringField event ''type''; index = intField (ce_lib env) event ''output_index''
      in if ty \<in> {''response.created'', ''response.in_progress''} then
           ensureRole env (case as_obj (oget event ''response'') of Some r \<Rightarrow> captureResponse env r t | None \<Rightarrow> t)
         else if ty = ''response.output_item.added'' then
           (case as_obj (oget event ''item'') of
              None \<Rightarrow> (None, t)
            | Some item \<Rightarrow>
                (if stringField item ''type'' = ''function_call'' then ensureTool env item index t
                 else if stringField item ''type'' = ''message'' then ensureRole env t
                 else (None, t)))
         else if ty = ''response.output_item.done'' then
           (case as_obj (oget event ''item'') of
              None \<Rightarrow> (None, t)
            | Some item \<Rightarrow>
                (if stringField item ''type'' = ''message'' then emitMessageFallback env item index t
                 else if stringField item ''type'' \<noteq> ''function_call'' then (None, t)
                 else tool_arguments_once env item index t))
         else if ty = ''response.output_text.delta'' then delta_event env event ''text'' ''content'' t
         else if ty = ''response.refusal.delta'' then delta_event env event ''refusal'' ''refusal'' t
         else if ty = ''response.function_call_arguments.delta'' then arguments_event env event t
         else if ty \<in> {''response.completed'', ''response.done'', ''response.incomplete''} then
           chat_finish env (as_obj (oget event ''response'')) t
         else if ty = ''response.failed'' then
           chat_fail env ''upstream response failed'' ''upstream response failed''
             (case as_obj (oget event ''response'') of Some r \<Rightarrow> captureResponse env r t | None \<Rightarrow> t)
         else if ty = ''error'' then error_event env event t
         else (None, t))"

subsection \<open>The stream\<close>

definition no_terminal :: string where
  "no_terminal = ''upstream stream ended without a terminal response event''"

definition invalid_event :: string where
  "invalid_event = ''upstream stream contained an invalid JSON event''"

text \<open>The closure passed to \<open>readSSE\<close>; the captured \<open>eventErr\<close> is a part of its state.\<close>

definition chat_payload :: "chat_env \<Rightarrow> string \<Rightarrow> chat_op" where
  "chat_payload env data =
     (if data = ''[DONE]'' then chat_fail env no_terminal no_terminal
      else (case unmarshal_obj (ce_lib env) data of
              None \<Rightarrow> chat_fail env invalid_event invalid_event
            | Some event \<Rightarrow> chat_event env event))"

definition chat_consume :: "chat_env \<Rightarrow> (chatStreamTranslator \<times> string option) consumer" where
  "chat_consume env data0 st =
     (let data = TrimSpace data0
      in if data = [] then (None, st)
         else (case chat_payload env data (fst st) of
                 (Some err, t) \<Rightarrow> (Some (ConsumerError err), t, Some err)
               | (None, t) \<Rightarrow>
                   ((if ct_terminal t \<and> data \<noteq> ''[DONE]'' \<and> unmarshal_obj (ce_lib env) data \<noteq> None
                     then Some SSEComplete else None), t, None)))"

definition new_translator :: "chat_env \<Rightarrow> string \<Rightarrow> bool \<Rightarrow> chatStreamTranslator" where
  "new_translator env fallbackModel includeUsage =
     \<lparr>ct_fallback = fallbackModel, ct_includeUsage = includeUsage, ct_id = [],
      ct_created = unix_seconds (ce_now env 0), ct_model = fallbackModel, ct_serviceTier = [], ct_roleSent = False,
      ct_toolSeen = False, ct_terminal = False, ct_usage = no_usage, ct_tools = [], ct_contentSeen = [],
      ct_out = [], ct_ticks = 1\<rparr>"

text \<open>The text of an error of \<open>readSSE\<close>.\<close>

definition sse_error_text :: "sse_error \<Rightarrow> string" where
  "sse_error_text err =
     (case err of
        SSEComplete \<Rightarrow> ''SSE terminal event received''
      | EventTooLarge \<Rightarrow> ''upstream SSE event exceeds size limit''
      | StreamReadFailed \<Rightarrow> ''upstream stream read failed''
      | ConsumerError s \<Rightarrow> s)"

definition chat_conclude :: "chat_env \<Rightarrow> sse_error option \<Rightarrow> chatStreamTranslator \<Rightarrow> string option \<Rightarrow>
    string option \<times> chatStreamTranslator" where
  "chat_conclude env err t eventErr =
     (case err of
        Some e \<Rightarrow> (if eventErr = None then chat_fail env (sse_error_text e) (sse_error_text e) t
                 else (Some (sse_error_text e), t))
      | None \<Rightarrow> (if \<not> ct_terminal t then chat_fail env no_terminal no_terminal t else (None, t)))"

definition copyChatCompletionsStream ::
    "chat_env \<Rightarrow> string list \<Rightarrow> string \<times> bool \<Rightarrow> string \<Rightarrow> bool \<Rightarrow> tokenUsage \<times> string \<times> string option \<times> frame list" where
  "copyChatCompletionsStream env chunks end fallbackModel includeUsage =
     (let (err, t, eventErr) = readSSE maxRequestBodyBytes (chat_consume env)
                                 (new_translator env fallbackModel includeUsage, None) chunks end;
          (err', t') = chat_conclude env err t eventErr
      in (ct_usage t', ct_serviceTier t', err', ct_out t'))"

end
