(* ===== verification/Handlers.thy ===== *)
theory Handlers
  imports Dispatch ChatStream
begin

text \<open>
  The HTTP handlers of \<^verbatim>\<open>src/proxy.go\<close> and \<^verbatim>\<open>src/alpha_search.go\<close>, which compose authentication, body
  decoding, normalisation, the slot of the limiter, dispatch and the answer. What a handler meets
  while it runs (the authentication result, the request, the outcome of waiting for a slot, the
  upstream, how its bodies are delivered and whether client writes succeed) is the record
  \<open>http_io\<close>. A handler returns the answer, the request log entry it leaves to the deferred \<open>finish\<close>,
  the account pool and its trace: the slot it acquires and releases and the upstream calls.
\<close>

section \<open>Definitions\<close>

subsection \<open>Request bodies\<close>

datatype next_value = AtEOF | NextValue | NextError string

text \<open>The decoders of a body: \<open>zstd.NewReader\<close>, \<open>json.Decoder\<close> with \<open>UseNumber\<close> (one value,
  decoded into a map that \<open>null\<close> leaves nil, and the rest of the input) and \<open>strconv.Quote\<close>.\<close>

record body_reader =
  br_zstd :: "string \<Rightarrow> string + string"
  br_decode :: "string \<Rightarrow> string + (obj option \<times> string)"
  br_next :: "string \<Rightarrow> next_value"
  br_quote :: "string \<Rightarrow> string"

definition decode_json_body :: "body_reader \<Rightarrow> string \<Rightarrow> string + obj" where
  "decode_json_body rd bytes =
     (case br_decode rd (take (maxRequestBodyBytes + 1) bytes) of
        Inl err \<Rightarrow> Inl (''invalid JSON request body: '' @ err)
      | Inr (None, rest) \<Rightarrow> Inl ''request body must be a JSON object''
      | Inr (Some body, rest) \<Rightarrow>
          (case br_next rd rest of
             AtEOF \<Rightarrow> Inr body
           | NextValue \<Rightarrow> Inl ''invalid JSON request body: multiple JSON values''
           | NextError err \<Rightarrow> Inl (''invalid JSON request body: trailing data: '' @ err)))"

definition decodeRequestBody :: "body_reader \<Rightarrow> string \<Rightarrow> string \<Rightarrow> string + obj" where
  "decodeRequestBody rd raw contentEncoding =
     (let reader = take (maxRequestBodyBytes + 1) raw;
          encoding = ToLower (TrimSpace contentEncoding)
      in if encoding \<noteq> [] \<and> encoding \<noteq> ''identity'' then
           (if encoding \<noteq> ''zstd'' then Inl (''unsupported content encoding '' @ br_quote rd encoding)
            else (case br_zstd rd reader of
                    Inl err \<Rightarrow> Inl (''invalid zstd request body: '' @ err)
                  | Inr decoded \<Rightarrow> decode_json_body rd decoded))
         else decode_json_body rd reader)"

subsection \<open>What a handler meets and leaves\<close>

record broker_config = config +
  cfg_models :: "string list"
  cfg_modelsURL :: string
  cfg_alphaSearchURL :: string

record http_io =
  hi_lib :: golib
  hi_cfg :: broker_config
  hi_auth :: "clientIdentity option \<times> bool"
  hi_log :: pending
  hi_header :: header
  hi_body :: string
  hi_bodyErr :: "string option"
  hi_reader :: body_reader
  hi_slot :: "(acquire_error \<times> gotime) option"
  hi_failNow :: gotime
  hi_dispatch :: dispatch_env
  hi_cut :: "string \<Rightarrow> string list \<times> string \<times> bool"
  hi_write :: "nat \<Rightarrow> bool"
  hi_now :: "nat \<Rightarrow> int"

datatype handler_event = Acquired_slot | Sent upstream_call | Released_slot

record handled =
  hd_answer :: answer
  hd_log :: pending
  hd_pool :: accountPool
  hd_trace :: "handler_event list"

abbreviation lib_of :: "http_io \<Rightarrow> golib" where
  "lib_of io \<equiv> hi_lib io"

abbreviation base_cfg :: "http_io \<Rightarrow> config" where
  "base_cfg io \<equiv> config.truncate (hi_cfg io)"

text \<open>\<open>io.ReadAll(io.LimitReader(resp.Body, n))\<close>, without its error and with it.\<close>

definition delivered :: "http_io \<Rightarrow> http_response \<Rightarrow> string" where
  "delivered io resp = (case hi_cut io (rs_Body resp) of (chunks, final, eof) \<Rightarrow> concat chunks @ final)"

definition read_failed :: "http_io \<Rightarrow> http_response \<Rightarrow> bool" where
  "read_failed io resp = (case hi_cut io (rs_Body resp) of (chunks, final, eof) \<Rightarrow> \<not> eof)"

definition read_limited :: "http_io \<Rightarrow> nat \<Rightarrow> http_response \<Rightarrow> string" where
  "read_limited io n resp = take n (delivered io resp)"

definition json_answer :: "nat \<Rightarrow> header \<Rightarrow> json \<Rightarrow> answer" where
  "json_answer status w v =
     \<lparr>an_status = status, an_header = Header_Set w ''Content-Type'' ''application/json'', an_body = JSONBody v\<rparr>"

definition writeProxyError :: "nat \<Rightarrow> header \<Rightarrow> string \<Rightarrow> answer" where
  "writeProxyError status w message = json_answer status w (writeProxyError_body message)"

definition captureUpstreamHeaders :: "golib \<Rightarrow> header \<Rightarrow> header \<times> pending \<Rightarrow> header \<times> pending" where
  "captureUpstreamHeaders lib h wl =
     (let headers = diagnosticUpstreamHeaders lib h
      in (mirrorUpstreamHeaders headers (fst wl), markUpstreamHeaders headers (snd wl)))"

text \<open>A handler that ends before it acquires a slot.\<close>

definition reply :: "answer \<times> pending \<Rightarrow> accountPool \<Rightarrow> handled" where
  "reply al pool = \<lparr>hd_answer = fst al, hd_log = snd al, hd_pool = pool, hd_trace = []\<rparr>"

definition fail_reply :: "http_io \<Rightarrow> dispatchFailure \<Rightarrow> header \<times> pending \<Rightarrow> answer \<times> pending" where
  "fail_reply io fail wl = writeDispatchFailure (lib_of io) (hi_failNow io) fail wl"

text \<open>\<open>release, fail := p.acquireUpstreamSlot(ctx)\<close>; on success the rest of the handler runs and the
  deferred release ends it.\<close>

definition with_slot ::
    "http_io \<Rightarrow> pending \<Rightarrow> (accountPool \<Rightarrow> (answer \<times> pending) \<times> accountPool \<times> upstream_call list) \<Rightarrow> accountPool \<Rightarrow> handled" where
  "with_slot io entry rest pool =
     (case hi_slot io of
        Some (err, now) \<Rightarrow> reply (fail_reply io (acquireUpstreamSlot_failure err now) ([], entry)) pool
      | None \<Rightarrow>
          (let ((ans, entry'), pool', calls) = rest pool
           in \<lparr>hd_answer = ans, hd_log = entry', hd_pool = pool',
               hd_trace = Acquired_slot # map Sent calls @ [Released_slot]\<rparr>))"

definition authorized :: "http_io \<Rightarrow> bool" where
  "authorized io = snd (hi_auth io)"

definition unauthorized_reply :: "http_io \<Rightarrow> accountPool \<Rightarrow> handled" where
  "unauthorized_reply io pool = reply (writeProxyError 401 [] ''unauthorized'', markError 401 ''unauthorized'' (hi_log io)) pool"

subsection \<open>Responses\<close>

definition stream_end_text :: "stream_end \<Rightarrow> string" where
  "stream_end_text e =
     (case e of
        ClientWriteFailed \<Rightarrow> ''client stream write failed''
      | UpstreamReadFailed \<Rightarrow> ''upstream stream read failed''
      | NoTerminalEvent \<Rightarrow> ''upstream stream ended without a terminal response event''
      | StreamError err \<Rightarrow> sse_error_text err)"

fun copy_script :: "(nat \<Rightarrow> bool) \<Rightarrow> nat \<Rightarrow> string list \<Rightarrow> string \<times> bool \<Rightarrow> copy_read list" where
  "copy_script wok n (c # cs) fin = (c, wok n, None) # copy_script wok (Suc n) cs fin"
| "copy_script wok n [] (final, eof) = [(final, wok n, Some eof)]"

definition stream_copy :: "http_io \<Rightarrow> http_response \<Rightarrow> (tokenUsage \<times> string \<times> stream_end option) \<times> string" where
  "stream_copy io resp =
     (case hi_cut io (rs_Body resp) of
        (chunks, fin) \<Rightarrow>
          (case copyStreamingResponse (lib_of io) (copy_script (hi_write io) 0 chunks fin) of
             Some r \<Rightarrow> r
           | None \<Rightarrow> ((no_usage, [], None), [])))"

definition turn_state :: "http_response \<Rightarrow> header \<Rightarrow> header" where
  "turn_state resp w =
     (let state = Header_Get (rs_Header resp) ''x-codex-turn-state''
      in if state \<noteq> [] then Header_Set w ''x-codex-turn-state'' state else w)"

definition responses_error :: "http_io \<Rightarrow> requestInfo \<Rightarrow> http_response \<Rightarrow> header \<times> pending \<Rightarrow> answer \<times> pending" where
  "responses_error io info resp wl =
     (let status = rs_StatusCode resp; responseBody = read_limited io (64 * 1024) resp;
          entry = markError status (summarizeUpstreamError (lib_of io) responseBody status) (snd wl)
      in if TrimSpace responseBody = []
         then (writeProxyError status (fst wl) (''upstream returned '' @ itoa status @ '' with an empty body''), entry)
         else (\<lparr>an_status = status, an_header = copyResponseHeaders (fst wl) (rs_Header resp) (ri_Stream info),
                an_body = RawBody (normalizeUpstreamErrorBody (lib_of io) responseBody status)\<rparr>, entry))"

definition responses_aggregate :: "http_io \<Rightarrow> http_response \<Rightarrow> header \<times> pending \<Rightarrow> answer \<times> pending" where
  "responses_aggregate io resp wl =
     (case aggregateResponsesSSE (lib_of io) (fst (hi_cut io (rs_Body resp))) (snd (hi_cut io (rs_Body resp))) of
        Inl err \<Rightarrow>
          (let message = ''aggregate upstream stream failed: '' @ sse_error_text err
           in (writeProxyError 502 (fst wl) message, markError 502 message (snd wl)))
      | Inr finalResponse \<Rightarrow>
          (let status = stringField finalResponse ''status'';
               log1 = (if status = ''failed'' then markStreamError ''upstream response failed'' (snd wl)
                       else if status = ''incomplete'' then markStreamError ''upstream response incomplete'' (snd wl)
                       else snd wl);
               log2 = markUsage (extractTokenUsage (lib_of io) finalResponse) log1;
               log3 = recordAppliedServiceTier (extractServiceTier (Some finalResponse)) log2
           in (json_answer 200 (fst wl) (JObj finalResponse), markStatus 200 log3)))"

definition responses_stream :: "http_io \<Rightarrow> http_response \<Rightarrow> header \<times> pending \<Rightarrow> answer \<times> pending" where
  "responses_stream io resp wl =
     (let ((usage, appliedTier, streamErr), out) = stream_copy io resp;
          log1 = markUsage usage (markStatus (rs_StatusCode resp) (snd wl));
          log2 = (case streamErr of None \<Rightarrow> log1 | Some e \<Rightarrow> markStreamError (stream_end_text e) log1)
      in (\<lparr>an_status = rs_StatusCode resp, an_header = copyResponseHeaders (fst wl) (rs_Header resp) True, an_body = RawBody out\<rparr>,
          recordAppliedServiceTier appliedTier log2))"

definition success_status :: "http_response \<Rightarrow> bool" where
  "success_status resp \<longleftrightarrow> 200 \<le> rs_StatusCode resp \<and> rs_StatusCode resp < 300"

definition responses_answer :: "http_io \<Rightarrow> requestInfo \<Rightarrow> http_response \<Rightarrow> pending \<Rightarrow> answer \<times> pending" where
  "responses_answer io info resp entry =
     (let wl = captureUpstreamHeaders (lib_of io) (rs_Header resp) ([], markUpstreamStatus (rs_StatusCode resp) entry);
          wl' = (turn_state resp (fst wl), snd wl)
      in if \<not> success_status resp then responses_error io info resp wl'
         else if \<not> ri_Stream info then responses_aggregate io resp wl'
         else responses_stream io resp wl')"

definition dispatch_and ::
    "http_io \<Rightarrow> string \<Rightarrow> requestInfo \<Rightarrow> obj \<Rightarrow> pending \<Rightarrow> (http_response \<Rightarrow> pending \<Rightarrow> answer \<times> pending) \<Rightarrow> accountPool \<Rightarrow>
     (answer \<times> pending) \<times> accountPool \<times> upstream_call list" where
  "dispatch_and io encoded info body entry answer_with pool =
     (case dispatchUpstream (lib_of io) (base_cfg io) (hi_dispatch io) encoded info body (hi_header io) pool of
        (Inl fail, pool', calls) \<Rightarrow> (fail_reply io fail ([], entry), pool', calls)
      | (Inr resp, pool', calls) \<Rightarrow> (answer_with resp entry, pool', calls))"

definition handleResponses :: "http_io \<Rightarrow> accountPool \<Rightarrow> handled" where
  "handleResponses io pool =
     (if \<not> authorized io then unauthorized_reply io pool
      else (case decodeRequestBody (hi_reader io) (hi_body io) (Header_Get (hi_header io) ''Content-Encoding'') of
              Inl err \<Rightarrow> reply (writeProxyError 400 [] err, markError 400 err (hi_log io)) pool
            | Inr body0 \<Rightarrow>
                (let (info, body) = normalizeResponsesBody body0 (base_cfg io) (hi_header io);
                     entry = markRequest (lib_of io) body info (hi_header io) (hi_log io);
                     upstreamBody = (if \<not> ri_Stream info then oset body ''stream'' (JBool True) else body)
                 in (case lib_Marshal (lib_of io) (JObj upstreamBody) of
                       None \<Rightarrow> reply (writeProxyError 400 [] ''invalid request body'', markError 400 ''invalid request body'' entry) pool
                     | Some encoded \<Rightarrow>
                         with_slot io entry (dispatch_and io encoded info body entry (responses_answer io info)) pool))))"

subsection \<open>Search\<close>

definition maxAlphaSearchResponseBytes :: nat where
  "maxAlphaSearchResponseBytes = 16 * 1024 * 1024"

definition alpha_header :: "http_io \<Rightarrow> accessMaterial \<Rightarrow> header" where
  "alpha_header io access =
     (let h1 = Header_Set [] ''Authorization'' (''Bearer '' @ am_AccessToken access);
          h2 = Header_Set h1 ''chatgpt-account-id'' (am_AccountID access);
          h3 = Header_Set h2 ''Content-Type'' ''application/json'';
          h4 = Header_Set h3 ''Accept'' ''application/json''
      in setClientIdentity (base_cfg io) h4)"

definition alpha_answer :: "http_io \<Rightarrow> http_response \<Rightarrow> pending \<Rightarrow> answer \<times> pending" where
  "alpha_answer io resp entry =
     (let status = rs_StatusCode resp;
          wl = captureUpstreamHeaders (lib_of io) (rs_Header resp) ([], markUpstreamStatus status entry);
          body = read_limited io (maxAlphaSearchResponseBytes + 1) resp
      in if read_failed io resp \<or> length body > maxAlphaSearchResponseBytes
         then (let message = ''upstream search response incomplete or too large''
               in (writeProxyError 502 (fst wl) message, markError 502 message (snd wl)))
         else (let e1 = markStatus status (snd wl);
                   (body', e2) = (if \<not> success_status resp
                                  then (redactTokenLikeText body,
                                        markError status (summarizeUpstreamError (lib_of io) body status) e1)
                                  else (body, e1));
                   ct = Header_Get (rs_Header resp) ''Content-Type'';
                   contentType = (if ct = [] \<or> Contains (ToLower ct) ''html'' then ''text/plain; charset=utf-8'' else ct)
               in (\<lparr>an_status = status, an_header = Header_Set (fst wl) ''Content-Type'' contentType, an_body = RawBody body'\<rparr>, e2)))"

text \<open>The search request: one account, no failover. The first attempt's clock, credentials and
  upstream of the environment are used; \<open>new_request\<close> is the error of \<open>http.NewRequest\<close> for a URL, if any.\<close>

definition alpha_send :: "http_io \<Rightarrow> (string \<Rightarrow> string option) \<Rightarrow> string \<Rightarrow> pending \<Rightarrow> accountPool \<Rightarrow> (answer \<times> pending) \<times> accountPool \<times> upstream_call list" where
  "alpha_send io new_request payload entry pool =
     (let env = hi_dispatch io
      in (case preferred pool (de_now env 0) of
            (None, p1) \<Rightarrow>
              ((writeProxyError 502 [] ''no Codex accounts configured'', markError 502 ''no Codex accounts configured'' entry), p1, [])
          | (Some i, p1) \<Rightarrow>
              (case de_current env 0 i of
                 Inl err \<Rightarrow> ((writeProxyError 502 [] (''Codex auth failed: '' @ err), markError 502 err entry), p1, [])
               | Inr access \<Rightarrow>
                   (case new_request (cfg_alphaSearchURL (hi_cfg io)) of
                      Some err \<Rightarrow> ((writeProxyError 500 [] (''build upstream request failed: '' @ err), markError 500 err entry), p1, [])
                    | None \<Rightarrow> (let result = de_do env 0 i;
                              call = \<lparr>uc_account = i, uc_header = alpha_header io access, uc_body = payload, uc_reply = result\<rparr>
                          in (case result of
                                Inl err \<Rightarrow> ((writeProxyError 502 [] (''upstream request failed: '' @ err), markError 502 err entry), p1, [call])
                              | Inr resp \<Rightarrow> (alpha_answer io resp entry, p1, [call])))))))"

definition handleAlphaSearch :: "(string \<Rightarrow> string option) \<Rightarrow> http_io \<Rightarrow> accountPool \<Rightarrow> handled" where
  "handleAlphaSearch new_request io pool =
     (if \<not> authorized io then unauthorized_reply io pool
      else with_slot io (hi_log io)
        (\<lambda>pool.
           let payload = take (maxRequestBodyBytes + 1) (hi_body io)
           in (case hi_bodyErr io of
                 Some err \<Rightarrow> ((writeProxyError 400 [] (''read request body failed: '' @ err), markError 400 err (hi_log io)), pool, [])
               | None \<Rightarrow>
                   (if length payload > maxRequestBodyBytes
                    then ((writeProxyError 413 [] ''request body too large'', markError 413 ''request body too large'' (hi_log io)), pool, [])
                    else alpha_send io new_request payload (hi_log io) pool)))
        pool)"

subsection \<open>Models\<close>

text \<open>The outcome of \<open>fetchUpstreamModels\<close> on an account, with the texts of the errors it wraps;
  \<open>decode_models\<close> is the JSON decoder of the catalog.\<close>

definition models_endpoint :: "(string \<Rightarrow> string) \<Rightarrow> config \<Rightarrow> string \<Rightarrow> string" where
  "models_endpoint query_escape cfg modelsURL =
     (let clientVersion = TrimSpace (cfg_modelsClientVersion cfg)
      in if clientVersion \<noteq> []
         then modelsURL @ (if Contains modelsURL ''?'' then ''&'' else ''?'') @ ''client_version='' @ query_escape clientVersion
         else modelsURL)"

definition models_header :: "config \<Rightarrow> accessMaterial \<Rightarrow> header" where
  "models_header cfg access =
     (let h1 = Header_Set [] ''Authorization'' (''Bearer '' @ am_AccessToken access);
          h2 = Header_Set h1 ''chatgpt-account-id'' (am_AccountID access);
          h3 = setClientIdentity cfg h2;
          h4 = Header_Set h3 ''OpenAI-Beta'' ''responses=experimental''
      in Header_Set h4 ''Accept'' ''application/json'')"

definition fetchUpstreamModels ::
    "http_io \<Rightarrow> (string \<Rightarrow> string option) \<Rightarrow> (string \<Rightarrow> string) \<Rightarrow> (string \<Rightarrow> string + upstreamModel list) \<Rightarrow> nat option \<Rightarrow> (string + upstreamModel list) \<times> upstream_call list" where
  "fetchUpstreamModels io new_request query_escape decode_models acct =
     (let env = hi_dispatch io
      in (case acct of
            None \<Rightarrow> (Inl ''no Codex accounts configured'', [])
          | Some i \<Rightarrow>
              (case de_current env 0 i of
                 Inl err \<Rightarrow> (Inl (''Codex auth failed: '' @ err), [])
               | Inr access \<Rightarrow>
                   (case new_request (models_endpoint query_escape (base_cfg io) (cfg_modelsURL (hi_cfg io))) of
                      Some err \<Rightarrow> (Inl (''build upstream models request failed: '' @ err), [])
                    | None \<Rightarrow> (let result = de_do env 0 i;
                              call = \<lparr>uc_account = i, uc_header = models_header (base_cfg io) access, uc_body = [], uc_reply = result\<rparr>
                          in (case result of
                                Inl err \<Rightarrow> (Inl (''upstream request failed: '' @ err), [call])
                              | Inr resp \<Rightarrow>
                                  (let body = read_limited io (4 * 1024 * 1024) resp
                                   in if \<not> success_status resp
                                      then (Inl (''upstream returned '' @ itoa (rs_StatusCode resp) @ '': '' @
                                                 summarizeUpstreamError (lib_of io) body (rs_StatusCode resp)), [call])
                                      else (case decode_models body of
                                              Inl err \<Rightarrow> (Inl (''decode upstream models failed: '' @ err), [call])
                                            | Inr models \<Rightarrow> (Inr models, [call])))))))))"

text \<open>The effort variants of a model: each normalised effort once, in order.\<close>

fun effort_variants :: "string \<Rightarrow> string list \<Rightarrow> string list \<Rightarrow> string list" where
  "effort_variants slug seen [] = []"
| "effort_variants slug seen (level # levels) =
     (let effort = normalizeReasoningEffort level
      in if effort \<noteq> [] \<and> effort \<notin> set seen
         then (slug @ ''('' @ effort @ '')'') # effort_variants slug (effort # seen) levels
         else effort_variants slug seen levels)"

definition listed_model :: "upstreamModel \<Rightarrow> bool" where
  "listed_model m \<longleftrightarrow> um_Slug m \<noteq> [] \<and> um_Visibility m = ''list'' \<and> um_SupportedInAPI m"

definition model_ids :: "upstreamModel list \<Rightarrow> string list" where
  "model_ids models =
     concat (map (\<lambda>m. if listed_model m then um_Slug m # effort_variants (um_Slug m) [] (um_SupportedReasoningLevels m) else []) models)"

definition fetchUpstreamModelIDs ::
    "http_io \<Rightarrow> (string \<Rightarrow> string option) \<Rightarrow> (string \<Rightarrow> string) \<Rightarrow> (string \<Rightarrow> string + upstreamModel list) \<Rightarrow> accountPool \<Rightarrow> (string + string list) \<times> accountPool \<times> upstream_call list" where
  "fetchUpstreamModelIDs io new_request query_escape decode_models pool =
     (let (acct, p1) = preferred pool (de_now (hi_dispatch io) 0);
          (result, calls) = fetchUpstreamModels io new_request query_escape decode_models acct
      in (case result of Inl err \<Rightarrow> (Inl err, p1, calls) | Inr models \<Rightarrow> (Inr (model_ids models), p1, calls)))"

definition model_entry :: "int \<Rightarrow> string \<Rightarrow> json" where
  "model_entry now model =
     JObj ([(''id'', JStr model), (''object'', JStr ''model''), (''created'', JInt64 now), (''owned_by'', JStr ''codex-auth-broker'')] @
           (case modelContextWindow model of
              None \<Rightarrow> []
            | Some window \<Rightarrow> [(''context_window'', JInt64 window), (''context_length'', JInt64 window)]))"

definition handleModels ::
    "(string \<Rightarrow> string option) \<Rightarrow> (string \<Rightarrow> string) \<Rightarrow> (string \<Rightarrow> string + upstreamModel list) \<Rightarrow> http_io \<Rightarrow> accountPool \<Rightarrow> handled" where
  "handleModels new_request query_escape decode_models io pool =
     (if \<not> authorized io then unauthorized_reply io pool
      else (let (ids, p1, calls) =
                  (if cfg_models (hi_cfg io) = [] then fetchUpstreamModelIDs io new_request query_escape decode_models pool
                   else (Inr (cfg_models (hi_cfg io)), pool, []))
            in (case ids of
                  Inl err \<Rightarrow>
                    \<lparr>hd_answer = writeProxyError 502 [] (''failed to fetch upstream Codex model list: '' @ err),
                     hd_log = markError 502 (''upstream models fetch failed: '' @ err) (hi_log io),
                     hd_pool = p1, hd_trace = map Sent calls\<rparr>
                | Inr ids \<Rightarrow>
                    \<lparr>hd_answer = json_answer 200 [] (JObj [(''object'', JStr ''list''),
                       (''data'', JArr (map (model_entry (unix_seconds (hi_now io 0))) ids))]),
                     hd_log = markStatus 200 (hi_log io), hd_pool = p1, hd_trace = map Sent calls\<rparr>)))"

definition handleHealth :: "string \<Rightarrow> concurrencyLimiter option \<Rightarrow> http_io \<Rightarrow> accountPool \<Rightarrow> answer" where
  "handleHealth commit sem io pool =
     (let (total, avail) = availability pool (de_now (hi_dispatch io) 0); (mx, inflight, queued) = stats sem
      in json_answer 200 [] (JObj
           [(''status'', JStr ''ok''), (''version'', JStr (cfg_version (base_cfg io))), (''commit'', JStr commit),
            (''mode'', JStr ''responses-proxy''), (''accounts_total'', JInt (int total)), (''accounts_available'', JInt (int avail)),
            (''concurrency'', JObj [(''max_concurrent'', JInt (int mx)), (''in_flight'', JInt (int inflight)), (''queued'', JInt64 queued)])]))"

end
