(* ===== verification/LiveCalls.thy ===== *)
theory LiveCalls
  imports Capabilities Handlers
begin

text \<open>
  The registry of realtime calls and the validation of call requests, \<^verbatim>\<open>src/realtime.go\<close>. The registry
  keeps which account and which client a call belongs to until it expires; slots are reserved before
  the upstream is asked, so that the registry never outgrows its bound.
\<close>

section \<open>Definitions\<close>

subsection \<open>The registry\<close>

definition liveModel :: string where
  "liveModel = ''gpt-live-1-codex''"

definition maxLiveBodyBytes :: nat where
  "maxLiveBodyBytes = 1024 * 1024"

definition maxLiveCalls :: int where
  "maxLiveCalls = 256"

definition liveCallTTL :: duration where
  "liveCallTTL = 70 * 60 * nanos_per_second"

record liveCall =
  lc_account :: nat
  lc_owner :: string
  lc_expires :: gotime

record liveCallStore =
  ls_calls :: "(string \<times> liveCall) list"
  ls_pending :: int

definition expired :: "gotime \<Rightarrow> liveCall \<Rightarrow> bool" where
  "expired now call \<longleftrightarrow> now > lc_expires call"

definition reserve :: "gotime \<Rightarrow> liveCallStore \<Rightarrow> bool \<times> liveCallStore" where
  "reserve now s =
     (let s1 = s\<lparr>ls_calls := filter (\<lambda>(cid, call). \<not> expired now call) (ls_calls s)\<rparr>
      in if int (length (ls_calls s1)) + ls_pending s1 \<ge> maxLiveCalls then (False, s1)
         else (True, s1\<lparr>ls_pending := ls_pending s1 + 1\<rparr>))"

definition live_finish :: "string \<Rightarrow> liveCall \<Rightarrow> liveCallStore \<Rightarrow> liveCallStore" where
  "live_finish cid call s =
     (let s1 = s\<lparr>ls_pending := ls_pending s - 1\<rparr>
      in if cid \<noteq> [] then s1\<lparr>ls_calls := AList.update cid call (ls_calls s1)\<rparr> else s1)"

definition live_lookup :: "gotime \<Rightarrow> string \<Rightarrow> string \<Rightarrow> liveCallStore \<Rightarrow> (liveCall \<times> bool) option \<times> liveCallStore" where
  "live_lookup now cid owner s =
     (case map_of (ls_calls s) cid of
        None \<Rightarrow> (None, s)
      | Some call \<Rightarrow>
          (if expired now call then (Some (call, False), s\<lparr>ls_calls := AList.delete cid (ls_calls s)\<rparr>)
           else (Some (call, lc_owner call = owner), s)))"

text \<open>\<open>sha256\<close> is the digest of \<open>crypto/sha256\<close>.\<close>

definition liveOwner :: "golib \<Rightarrow> header \<Rightarrow> string" where
  "liveOwner lib r = lib_sha256_hex lib (bearerToken (Header_Get r ''Authorization''))"

subsection \<open>Call requests\<close>

definition expected_media :: string where
  "expected_media = ''expected multipart/form-data, application/sdp, or application/json''"

text \<open>A multipart body: its parts (name and data, or a failing read) and whether the reader then
  reports the end of the body.\<close>

type_synonym multipart = "(string \<times> string option) list \<times> bool"

fun multipart_fields :: "golib \<Rightarrow> (string \<times> string option) list \<Rightarrow> bool \<Rightarrow> string list \<Rightarrow> string \<times> obj \<Rightarrow> string + (string \<times> obj)" where
  "multipart_fields lib [] eof seen acc = (if eof then Inr acc else Inl ''invalid or oversized multipart request'')"
| "multipart_fields lib ((name, data) # parts) eof seen (sdp, session) =
     (if (name \<noteq> ''sdp'' \<and> name \<noteq> ''session'') \<or> name \<in> set seen
      then Inl ''expected one sdp part and at most one session part''
      else (case data of
              None \<Rightarrow> Inl ''invalid or oversized multipart field''
            | Some d \<Rightarrow>
                (if name = ''sdp'' then multipart_fields lib parts eof (name # seen) (d, session)
                 else (case lib_Unmarshal lib d of
                         Some (JObj m) \<Rightarrow> multipart_fields lib parts eof (name # seen) (sdp, m)
                       | _ \<Rightarrow> Inl ''session must be a JSON object''))))"

text \<open>\<open>http.MaxBytesReader\<close>: a body beyond the limit reads as an error.\<close>

definition json_call :: "body_reader \<Rightarrow> string \<Rightarrow> string + (string \<times> obj)" where
  "json_call rd raw =
     (case (if length raw > maxLiveBodyBytes then Inl [] else decodeRequestBody rd raw []) of
        Inl _ \<Rightarrow> Inl ''invalid or oversized call JSON''
      | Inr body \<Rightarrow>
          (let sdp = (case oget body ''sdp'' of JStr s \<Rightarrow> s | _ \<Rightarrow> [])
           in if ohas body ''session'' \<and> as_obj (oget body ''session'') = None
              then Inl ''session must be a JSON object''
              else if \<exists>(key, _)\<in>set body. key \<noteq> ''sdp'' \<and> key \<noteq> ''session'' then Inl ''unknown call field''
              else Inr (sdp, case oget body ''session'' of JObj m \<Rightarrow> m | _ \<Rightarrow> [])))"

definition call_fields :: "golib \<Rightarrow> body_reader \<Rightarrow> string option \<Rightarrow> multipart option \<Rightarrow> string \<Rightarrow> string + (string \<times> obj)" where
  "call_fields lib rd mediaType parts raw =
     (case mediaType of
        None \<Rightarrow> Inl expected_media
      | Some mt \<Rightarrow>
          (if mt = ''multipart/form-data'' then
             (case parts of
                None \<Rightarrow> Inl ''invalid multipart request''
              | Some (ps, eof) \<Rightarrow> multipart_fields lib ps eof [] ([], []))
           else if mt = ''application/json'' then json_call rd raw
           else if mt = ''application/sdp'' then
             (if length raw > maxLiveBodyBytes then Inl ''invalid or oversized SDP'' else Inr (raw, []))
           else Inl expected_media))"

definition olen :: "obj \<Rightarrow> nat" where
  "olen m = length (remdups (map fst m))"

fun delegation_fields :: "obj \<Rightarrow> string option" where
  "delegation_fields [] = None"
| "delegation_fields ((key, v) # rest) =
     (if key = ''type'' then delegation_fields rest
      else if key \<noteq> ''ack_filler'' then Some ''unsupported GPT-Live delegation field''
      else if as_bool v = None then Some ''delegation.ack_filler must be boolean''
      else delegation_fields rest)"

definition validateLiveSessionOptions :: "obj \<Rightarrow> string option" where
  "validateLiveSessionOptions session =
     (case oget session ''audio'' of
        JObj audio \<Rightarrow>
          (if olen audio \<noteq> 1 then Some ''GPT-Live audio supports only output.voice''
           else (case oget audio ''output'' of
                   JObj out \<Rightarrow>
                     (if olen out \<noteq> 1 then Some ''GPT-Live audio supports only output.voice''
                      else if \<not> (case oget out ''voice'' of JStr voice \<Rightarrow> TrimSpace voice \<noteq> [] \<and> length voice \<le> 64 | _ \<Rightarrow> False)
                      then Some ''audio.output.voice must be a non-empty voice name''
                      else (case oget session ''delegation'' of
                              JObj delegation \<Rightarrow>
                                (if oget delegation ''type'' \<noteq> JStr ''client''
                                 then Some ''GPT-Live delegation.type must be client''
                                 else (case delegation_fields delegation of
                                         Some err \<Rightarrow> Some err
                                       | None \<Rightarrow>
                                           (if ohas session ''initial_items'' \<and> as_arr (oget session ''initial_items'') = None
                                            then Some ''initial_items must be an array'' else None)))
                            | _ \<Rightarrow> Some ''GPT-Live delegation.type must be client''))
                 | _ \<Rightarrow> Some ''GPT-Live audio supports only output.voice''))
      | _ \<Rightarrow> Some ''GPT-Live audio supports only output.voice'')"

definition session_keys :: "string list" where
  "session_keys = [''type'', ''model'', ''instructions'', ''audio'', ''delegation'', ''initial_items'']"

definition default_session :: "obj \<Rightarrow> obj" where
  "default_session session =
     (let s1 = oset (odel session ''type'') ''model'' (JStr liveModel);
          s2 = (if ohas s1 ''instructions'' then s1 else oset s1 ''instructions'' (JStr []));
          s3 = (if ohas s2 ''audio'' then s2
                else oset s2 ''audio'' (JObj [(''output'', JObj [(''voice'', JStr ''marin'')])]))
      in if ohas s3 ''delegation'' then s3 else oset s3 ''delegation'' (JObj [(''type'', JStr ''client'')]))"

definition live_session :: "obj \<Rightarrow> string + obj" where
  "live_session session =
     (if \<exists>(key, _)\<in>set session. key \<notin> set session_keys
      then Inl ''unsupported GPT-Live session field; see docs/capabilities.md''
      else if ohas session ''type'' \<and> oget session ''type'' \<noteq> JStr ''realtime'' then Inl ''session.type must be realtime''
      else if ohas session ''model'' \<and> oget session ''model'' \<noteq> JStr liveModel
      then Inl ''subscription voice currently supports gpt-live-1-codex''
      else if ohas session ''instructions'' \<and> as_str (oget session ''instructions'') = None
      then Inl ''instructions must be a string''
      else (let s = default_session session
            in case validateLiveSessionOptions s of Some err \<Rightarrow> Inl err | None \<Rightarrow> Inr s))"

definition decodeLiveCall :: "golib \<Rightarrow> body_reader \<Rightarrow> string option \<Rightarrow> multipart option \<Rightarrow> string \<Rightarrow> string + (string \<times> obj)" where
  "decodeLiveCall lib rd mediaType parts raw =
     (case call_fields lib rd mediaType parts raw of
        Inl err \<Rightarrow> Inl err
      | Inr (sdp, session) \<Rightarrow>
          (if \<not> HasPrefix sdp ''v=0'' \<or> \<not> Contains sdp (nl # ''m='')
           then Inl ''sdp must contain a WebRTC offer with a media section''
           else (case live_session session of Inl err \<Rightarrow> Inl err | Inr s \<Rightarrow> Inr (sdp, s))))"

subsection \<open>Call identifiers\<close>

text \<open>\<open>path.Base\<close>.\<close>

fun strip_slashes :: "string \<Rightarrow> string" where
  "strip_slashes s = rev (dropWhile (\<lambda>c. c = CHR ''/'') (rev s))"

definition path_Base :: "string \<Rightarrow> string" where
  "path_Base p =
     (if p = [] then ''.''
      else (let q = strip_slashes p; b = rev (takeWhile (\<lambda>c. c \<noteq> CHR ''/'') (rev q))
            in if b = [] then ''/'' else b))"

definition call_id_char :: "char \<Rightarrow> bool" where
  "call_id_char c \<longleftrightarrow> (97 \<le> byte c \<and> byte c \<le> 122) \<or> (65 \<le> byte c \<and> byte c \<le> 90) \<or> (48 \<le> byte c \<and> byte c \<le> 57) \<or>
     c = CHR ''_'' \<or> c = CHR ''-''"

text \<open>\<open>url_path\<close> is the path of \<open>url.Parse\<close>.\<close>

definition liveCallID :: "(string \<Rightarrow> string option) \<Rightarrow> string \<Rightarrow> string" where
  "liveCallID url_path location =
     (case url_path location of
        None \<Rightarrow> []
      | Some p \<Rightarrow>
          (let cid = path_Base p
           in if length cid > 200 then []
              else if \<not> HasPrefix cid ''rtc_'' \<and> length cid \<noteq> 36 then []
              else if \<not> list_all call_id_char cid then []
              else if cid = ''rtc_'' then []
              else cid))"

subsection \<open>The handler\<close>

text \<open>What \<open>handleLiveCall\<close> meets beyond \<open>http_io\<close>: the parsed content type and multipart body, the clock,
  the URL functions, the upstream of \<open>postSubscription\<close> and how its answer reads. The registry is
  shared between requests, so the handler returns its registry operations: a reservation and the
  one \<open>finish\<close> that ends it.\<close>

datatype registry_op = Reserve | Finish string liveCall

record live_io = http_io +
  li_mediaType :: "string option"
  li_parts :: "multipart option"
  li_parse :: "string \<Rightarrow> url option"
  li_render :: "url \<Rightarrow> string"
  li_url_path :: "string \<Rightarrow> string option"
  li_reserved :: bool
  li_post :: post_env
  li_answerNow :: gotime
  li_publishNow :: gotime

definition set_models :: "string \<Rightarrow> pending \<Rightarrow> pending" where
  "set_models model = on_entry (\<lambda>e. e\<lparr>e_Model := model, e_NormalizedModel := model\<rparr>)"

definition no_call :: liveCall where
  "no_call = \<lparr>lc_account = 0, lc_owner = [], lc_expires = 0\<rparr>"

definition live_answer_header :: "string \<Rightarrow> header" where
  "live_answer_header cid =
     (let h1 = Header_Set [] ''Location'' (''/v1/realtime/calls/'' @ cid);
          h2 = Header_Set h1 ''Content-Type'' ''application/sdp'';
          h3 = Header_Set h2 ''Cache-Control'' ''no-store''
      in Header_Set h3 ''X-Broker-Event-Protocol'' ''gpt-live'')"

text \<open>The answer to a response of the upstream, with the registry operation that ends the reservation.\<close>

definition live_answer :: "live_io \<Rightarrow> http_response \<Rightarrow> nat \<Rightarrow> pending \<Rightarrow> (answer \<times> pending) \<times> registry_op" where
  "live_answer io resp acct entry0 =
     (let entry = markUpstreamStatus (rs_StatusCode resp) entry0;
          base = http_io.truncate io;
          fails = (\<lambda>fail. (fail_reply base fail ([], entry), Finish [] no_call))
      in (case readCapabilityResponse (hi_lib io) (pe_error_code (li_post io)) (li_answerNow io) (read_failed base resp) resp maxLiveBodyBytes of
            Inl fail \<Rightarrow> fails fail
          | Inr answer \<Rightarrow>
              (let cid = liveCallID (li_url_path io) (Header_Get (rs_Header resp) ''Location'')
               in if cid = [] \<or> \<not> HasPrefix answer ''v=0''
                  then fails (failure 502 ''upstream returned an invalid call answer'')
                  else ((\<lparr>an_status = 201, an_header = live_answer_header cid, an_body = RawBody answer\<rparr>, markStatus 201 entry),
                        Finish cid \<lparr>lc_account = acct, lc_owner = liveOwner (hi_lib io) (hi_header io),
                                    lc_expires = li_publishNow io + liveCallTTL\<rparr>))))"

definition live_post ::
    "live_io \<Rightarrow> string \<Rightarrow> string \<times> obj \<Rightarrow> pending \<Rightarrow> accountPool \<Rightarrow>
     ((answer \<times> pending) \<times> registry_op) \<times> accountPool \<times> upstream_call list" where
  "live_post io endpoint offer entry pool =
     (let payload = (case lib_Marshal (hi_lib io) (JObj [(''sdp'', JStr (fst offer)), (''session'', JObj (snd offer))]) of
                       Some enc \<Rightarrow> enc | None \<Rightarrow> [])
      in (case postSubscription (hi_lib io) (config.truncate (hi_cfg io)) (li_post io)
                 (endpoint @ ''?intent=quicksilver&architecture=avas'') payload [(''Openai-Alpha'', [''quicksilver=v2''])] pool of
            (Inl fail, pool', calls) \<Rightarrow> ((fail_reply (http_io.truncate io) fail ([], entry), Finish [] no_call), pool', calls)
          | (Inr (resp, acct), pool', calls) \<Rightarrow> (live_answer io resp acct entry, pool', calls)))"

definition handleLiveCall :: "live_io \<Rightarrow> accountPool \<Rightarrow> handled \<times> registry_op list" where
  "handleLiveCall io pool =
     (let base = http_io.truncate io;
          fails = (\<lambda>st msg entry. reply (fail_reply base (failure st msg) ([], entry)) pool)
      in if \<not> authorized base then (fails 401 ''unauthorized'' (hi_log io), [])
         else (case decodeLiveCall (hi_lib io) (hi_reader io) (li_mediaType io) (li_parts io) (hi_body io) of
                 Inl err \<Rightarrow> (fails 400 err (hi_log io), [])
               | Inr offer \<Rightarrow>
                   (let entry = set_models liveModel (hi_log io)
                    in (case codexEndpoint (li_parse io) (li_render io) (config.truncate (hi_cfg io)) ''realtime/calls'' of
                          None \<Rightarrow> (fails 502 endpoint_error entry, [])
                        | Some endpoint \<Rightarrow>
                            (if \<not> li_reserved io
                             then (fails 503 ''voice call registry is full; retry after existing calls expire'' entry, [Reserve])
                             else (case hi_slot io of
                                     Some (err, now) \<Rightarrow>
                                       (reply (fail_reply base (acquireUpstreamSlot_failure err now) ([], entry)) pool,
                                        [Reserve, Finish [] no_call])
                                   | None \<Rightarrow>
                                       (let (r, pool', calls) = live_post io endpoint offer entry pool
                                        in (with_slot base entry (\<lambda>_. (fst r, pool', calls)) pool, [Reserve, snd r]))))))))"

text \<open>The headers that \<open>handleLiveWebSocket\<close> dials the upstream with.\<close>

definition live_dial_header :: "config \<Rightarrow> accessMaterial \<Rightarrow> header" where
  "live_dial_header cfg access =
     (let h1 = Header_Set [] ''Authorization'' (''Bearer '' @ am_AccessToken access);
          h2 = Header_Set h1 ''ChatGPT-Account-Id'' (am_AccountID access);
          h3 = Header_Set h2 ''OpenAI-Alpha'' ''quicksilver=v2''
      in setClientIdentity cfg h3)"

section \<open>Many requests and one registry\<close>

text \<open>Handlers that hold a reservation are counted; each ends it with one \<open>finish\<close>.\<close>

datatype registry_event = EReserve gotime | EFinish string liveCall | ELookup gotime string string

record registry =
  rg_store :: liveCallStore
  rg_holders :: nat

definition registry_step :: "registry_event \<Rightarrow> registry \<Rightarrow> registry option" where
  "registry_step ev g =
     (case ev of
        EReserve now \<Rightarrow>
          (let (ok, s) = reserve now (rg_store g)
           in Some (g\<lparr>rg_store := s, rg_holders := (if ok then rg_holders g + 1 else rg_holders g)\<rparr>))
      | EFinish cid call \<Rightarrow>
          (if rg_holders g = 0 then None
           else Some (g\<lparr>rg_store := live_finish cid call (rg_store g), rg_holders := rg_holders g - 1\<rparr>))
      | ELookup now cid owner \<Rightarrow> Some (g\<lparr>rg_store := snd (live_lookup now cid owner (rg_store g))\<rparr>))"

definition empty_registry :: registry where
  "empty_registry = \<lparr>rg_store = \<lparr>ls_calls = [], ls_pending = 0\<rparr>, rg_holders = 0\<rparr>"

definition registry_ok :: "registry \<Rightarrow> bool" where
  "registry_ok g \<longleftrightarrow> ls_pending (rg_store g) = int (rg_holders g) \<and>
     int (length (ls_calls (rg_store g))) + ls_pending (rg_store g) \<le> maxLiveCalls \<and>
     distinct (map fst (ls_calls (rg_store g)))"

lemma length_update: "length (AList.update k v al) \<le> Suc (length al)"
  by (induction al) auto

lemma length_delete: "length (AList.delete k al) \<le> length al"
  by (simp add: AList.delete_eq)

interpretation registry: machine_invariant registry_step registry_ok
proof
  fix g t :: registry and ev
  assume ok: "registry_ok g" and step: "registry_step ev g = Some t"
  show "registry_ok t"
  proof (cases ev)
    case (EReserve now)
    let ?keep = "filter (\<lambda>(cid, call). \<not> expired now call) (ls_calls (rg_store g))"
    have "distinct (map fst ?keep)" using ok by (simp add: registry_ok_def distinct_map_filter)
    moreover have "int (length ?keep) + ls_pending (rg_store g) \<le> maxLiveCalls"
      using ok length_filter_le [of "\<lambda>(cid, call). \<not> expired now call" "ls_calls (rg_store g)"]
      unfolding registry_ok_def by linarith
    ultimately show ?thesis using ok step EReserve
      by (auto simp: registry_step_def reserve_def registry_ok_def Let_def split: if_splits)
  next
    case (EFinish cid call)
    then show ?thesis using ok step length_update [of cid call "ls_calls (rg_store g)"]
      by (auto simp: registry_step_def live_finish_def registry_ok_def Let_def distinct_update split: if_splits)
  next
    case (ELookup now cid owner)
    then show ?thesis using ok step length_delete [of cid "ls_calls (rg_store g)"]
      by (auto simp: registry_step_def live_lookup_def registry_ok_def distinct_delete split: option.splits if_splits)
  qed
qed

text \<open>Every call of the registry was published by a \<open>finish\<close>.\<close>

lemma registry_published:
  "run_steps registry_step es g = Some t \<Longrightarrow>
   (cid, call) \<in> set (ls_calls (rg_store t)) \<Longrightarrow> (cid, call) \<in> set (ls_calls (rg_store g)) \<or> EFinish cid call \<in> set es \<and> cid \<noteq> []"
proof (induction es arbitrary: g)
  case (Cons ev es)
  then obtain u where u: "registry_step ev g = Some u" "run_steps registry_step es u = Some t" by (auto split: option.splits)
  from Cons.IH [OF u(2) Cons.prems(2)]
  consider "(cid, call) \<in> set (ls_calls (rg_store u))" | "EFinish cid call \<in> set es" "cid \<noteq> []" by blast
  then show ?case
  proof cases
    case 1
    have upd: "set (AList.update k v al) \<subseteq> insert (k, v) (set al)" for k and v :: liveCall and al by (induction al) auto
    have del: "set (AList.delete k al) \<subseteq> set al" for k and al :: "(string \<times> liveCall) list" by (auto simp: AList.delete_eq)
    show ?thesis using 1 u(1)
      by (cases ev)
        (auto simp: registry_step_def reserve_def live_finish_def live_lookup_def Let_def
          split: if_splits option.splits dest!: subsetD [OF upd] subsetD [OF del])
  qed simp
qed simp

section \<open>Validated sessions\<close>

definition session_ok :: "obj \<Rightarrow> bool" where
  "session_ok s \<longleftrightarrow>
     set (map fst s) \<subseteq> {''model'', ''instructions'', ''audio'', ''delegation'', ''initial_items''} \<and>
     oget s ''model'' = JStr ''gpt-live-1-codex'' \<and>
     (\<exists>text. oget s ''instructions'' = JStr text) \<and>
     (\<exists>audio out voice. oget s ''audio'' = JObj audio \<and> set (map fst audio) = {''output''} \<and> oget audio ''output'' = JObj out \<and>
        set (map fst out) = {''voice''} \<and> oget out ''voice'' = JStr voice \<and> TrimSpace voice \<noteq> [] \<and> length voice \<le> 64) \<and>
     (\<exists>delegation. oget s ''delegation'' = JObj delegation \<and> oget delegation ''type'' = JStr ''client'' \<and>
        set (map fst delegation) \<subseteq> {''type'', ''ack_filler''}) \<and>
     (ohas s ''initial_items'' \<longrightarrow> (\<exists>items. oget s ''initial_items'' = JArr items))"

lemma oget_JObj_key: "oget m k \<noteq> JNull \<Longrightarrow> k \<in> set (map fst m)"
  by (auto simp: oget_def split: option.splits dest: map_of_SomeD) (metis fst_conv image_eqI map_of_SomeD)

lemma olen_one:
  assumes "olen m = 1" "oget m k \<noteq> JNull" shows "set (map fst m) = {k}"
proof -
  have "card (set (map fst m)) = 1" using assms(1) by (simp add: olen_def length_remdups_card_conv)
  then obtain x where "set (map fst m) = {x}" by (auto simp: card_Suc_eq)
  with oget_JObj_key [OF assms(2)] show ?thesis by simp
qed

lemma delegation_fields_ok: "delegation_fields d = None \<Longrightarrow> set (map fst d) \<subseteq> {''type'', ''ack_filler''}"
  by (induction d rule: delegation_fields.induct) (auto split: if_splits)

lemma validate_ok:
  assumes "validateLiveSessionOptions s = None"
  shows "\<exists>audio out voice. oget s ''audio'' = JObj audio \<and> set (map fst audio) = {''output''} \<and> oget audio ''output'' = JObj out \<and>
        set (map fst out) = {''voice''} \<and> oget out ''voice'' = JStr voice \<and> TrimSpace voice \<noteq> [] \<and> length voice \<le> 64"
    and "\<exists>delegation. oget s ''delegation'' = JObj delegation \<and> oget delegation ''type'' = JStr ''client'' \<and>
        set (map fst delegation) \<subseteq> {''type'', ''ack_filler''}"
    and "ohas s ''initial_items'' \<Longrightarrow> \<exists>items. oget s ''initial_items'' = JArr items"
proof -
  from assms obtain audio where audio: "oget s ''audio'' = JObj audio" "olen audio = 1"
    by (auto simp: validateLiveSessionOptions_def split: json.splits if_splits)
  from assms audio obtain out where out: "oget audio ''output'' = JObj out" "olen out = 1"
    by (auto simp: validateLiveSessionOptions_def split: json.splits if_splits)
  from assms audio out obtain voice where voice: "oget out ''voice'' = JStr voice" "TrimSpace voice \<noteq> []" "length voice \<le> 64"
    by (auto simp: validateLiveSessionOptions_def split: json.splits if_splits)
  from assms audio out voice obtain d where d: "oget s ''delegation'' = JObj d" "oget d ''type'' = JStr ''client''" "delegation_fields d = None"
    and items: "\<not> (ohas s ''initial_items'' \<and> as_arr (oget s ''initial_items'') = None)"
    by (auto simp: validateLiveSessionOptions_def split: json.splits if_splits option.splits)
  show "\<exists>audio out voice. oget s ''audio'' = JObj audio \<and> set (map fst audio) = {''output''} \<and> oget audio ''output'' = JObj out \<and>
        set (map fst out) = {''voice''} \<and> oget out ''voice'' = JStr voice \<and> TrimSpace voice \<noteq> [] \<and> length voice \<le> 64"
    using audio out voice olen_one [OF audio(2), of "''output''"] olen_one [OF out(2), of "''voice''"] by auto
  show "\<exists>delegation. oget s ''delegation'' = JObj delegation \<and> oget delegation ''type'' = JStr ''client'' \<and>
        set (map fst delegation) \<subseteq> {''type'', ''ack_filler''}"
    using d delegation_fields_ok by blast
  show "\<exists>items. oget s ''initial_items'' = JArr items" if "ohas s ''initial_items''"
    using items that by (cases "as_arr (oget s ''initial_items'')") auto
qed

lemma update_keys: "set (map fst (oset m k v)) = insert k (set (map fst m))"
  by (simp add: dom_update)

lemma live_session_ok:
  assumes "live_session session = Inr s" shows "session_ok s"
proof -
  have s: "s = default_session session" and v: "validateLiveSessionOptions s = None"
    and keys: "set (map fst session) \<subseteq> set session_keys"
    and inst: "ohas session ''instructions'' \<Longrightarrow> as_str (oget session ''instructions'') \<noteq> None"
    using assms by (auto simp: live_session_def Let_def split: if_splits option.splits)
  have step: "set (map fst (if ohas m k then m else oset m k v)) \<subseteq> insert k (set (map fst m))" for m k v
    unfolding if_distrib [of "\<lambda>m. set (map fst m)"] update_keys by auto
  have "set (map fst s) \<subseteq> insert ''delegation'' (insert ''audio'' (insert ''instructions''
      (set (map fst (oset (odel session ''type'') ''model'' (JStr liveModel))))))"
    unfolding s default_session_def Let_def
    by (rule order_trans [OF step insert_mono [OF order_trans [OF step insert_mono [OF step]]]])
  moreover have "set (map fst (odel session ''type'')) = set (map fst session) - {''type''}"
    by (auto simp: AList.delete_eq)
  ultimately have "set (map fst s) \<subseteq> insert ''model'' (set (map fst session) - {''type''}) \<union> {''instructions'', ''audio'', ''delegation''}"
    unfolding update_keys by auto
  then have "set (map fst s) \<subseteq> {''model'', ''instructions'', ''audio'', ''delegation'', ''initial_items''}"
    using keys by (auto simp: session_keys_def)
  moreover have "oget s ''model'' = JStr ''gpt-live-1-codex''"
    unfolding s default_session_def Let_def by (simp add: liveModel_def)
  moreover have "\<exists>text. oget s ''instructions'' = JStr text"
    unfolding s default_session_def Let_def using inst by (cases "as_str (oget session ''instructions'')") auto
  ultimately show ?thesis using validate_ok [OF v] unfolding session_ok_def by blast
qed

lemma liveCallID_ok:
  assumes "liveCallID url_path location = cid" "cid \<noteq> []"
  shows "list_all call_id_char cid" "length cid \<le> 200"
  using assms by (auto simp: liveCallID_def Let_def split: option.splits if_splits)

section \<open>Properties\<close>

text \<open>C24: The registry of realtime calls never holds more than 256 calls and reservations together, in any
  interleaving of requests that reserve, publish, give up and look up calls. A lookup that succeeds
  returns a call that some request published under that identifier, that belongs to the asking
  client and that has not expired.\<close>

theorem live_registry_bounded_and_owned:
  assumes "run_steps registry_step es empty_registry = Some g"
  shows "length (ls_calls (rg_store g)) + rg_holders g \<le> 256 \<and>
    (fst (live_lookup now cid owner (rg_store g)) = Some (call, True) \<longrightarrow>
       EFinish cid call \<in> set es \<and> lc_owner call = owner \<and> now \<le> lc_expires call)"
proof
  have "registry_ok empty_registry" by (simp add: registry_ok_def empty_registry_def maxLiveCalls_def)
  from registry.run_inv [OF this assms] show "length (ls_calls (rg_store g)) + rg_holders g \<le> 256"
    by (simp add: registry_ok_def maxLiveCalls_def)
  show "fst (live_lookup now cid owner (rg_store g)) = Some (call, True) \<longrightarrow>
       EFinish cid call \<in> set es \<and> lc_owner call = owner \<and> now \<le> lc_expires call"
  proof
    assume "fst (live_lookup now cid owner (rg_store g)) = Some (call, True)"
    then have m: "map_of (ls_calls (rg_store g)) cid = Some call" and "lc_owner call = owner" "\<not> expired now call"
      by (auto simp: live_lookup_def split: option.splits if_splits)
    moreover have "EFinish cid call \<in> set es"
      using registry_published [OF assms map_of_SomeD [OF m]] by (simp add: empty_registry_def)
    ultimately show "EFinish cid call \<in> set es \<and> lc_owner call = owner \<and> now \<le> lc_expires call"
      by (simp add: expired_def)
  qed
qed

theorem live_registry_bounded_and_owned_witness:
  "\<exists>g. run_steps registry_step [EReserve 0, EFinish ''rtc_1'' \<lparr>lc_account = 0, lc_owner = ''a'', lc_expires = 9\<rparr>] empty_registry = Some g \<and>
     length (ls_calls (rg_store g)) + rg_holders g \<le> 256"
proof -
  let ?es = "[EReserve 0, EFinish ''rtc_1'' \<lparr>lc_account = 0, lc_owner = ''a'', lc_expires = 9\<rparr>]"
  have "run_steps registry_step ?es empty_registry \<noteq> None" by code_simp
  then obtain g where g: "run_steps registry_step ?es empty_registry = Some g" by blast
  show ?thesis using live_registry_bounded_and_owned [OF g] g by blast
qed

text \<open>C25: A call request that is accepted is well typed: the offer is an SDP offer with a media section and
  the session has only the fields the upstream takes, with the supported model, a string of
  instructions, exactly one bounded voice name and client delegation, whatever the client left out.\<close>

theorem accepted_live_call_well_typed:
  assumes "decodeLiveCall lib rd mediaType parts raw = Inr (sdp, session)"
  shows "session_ok session \<and> prefix ''v=0'' sdp \<and> Contains sdp (nl # ''m='')"
proof -
  from assms obtain s0 where "live_session s0 = Inr session" "HasPrefix sdp ''v=0''" "Contains sdp (nl # ''m='')"
    by (auto simp: decodeLiveCall_def split: sum.splits if_splits)
  then show ?thesis using live_session_ok by simp
qed

theorem accepted_live_call_well_typed_witness:
  "\<exists>session. decodeLiveCall witness_lib \<lparr>br_zstd = Inl, br_decode = \<lambda>s. Inl [], br_next = \<lambda>s. AtEOF, br_quote = id\<rparr>
     (Some ''application/sdp'') None (''v=0'' @ [nl] @ ''m=audio'') = Inr (''v=0'' @ [nl] @ ''m=audio'', session) \<and> session_ok session"
proof -
  let ?d = "decodeLiveCall witness_lib \<lparr>br_zstd = Inl, br_decode = \<lambda>s. Inl [], br_next = \<lambda>s. AtEOF, br_quote = id\<rparr>
     (Some ''application/sdp'') None (''v=0'' @ [nl] @ ''m=audio'')"
  have "(case live_session [] of Inr _ \<Rightarrow> True | Inl _ \<Rightarrow> False)" by code_simp
  then have "\<exists>session. ?d = Inr (''v=0'' @ [nl] @ ''m=audio'', session)"
    by (cases "live_session []") (simp_all add: decodeLiveCall_def call_fields_def maxLiveBodyBytes_def)
  then obtain session where d: "?d = Inr (''v=0'' @ [nl] @ ''m=audio'', session)" by blast
  show ?thesis using accepted_live_call_well_typed [OF d] d by blast
qed

end
