(* ===== verification/ChatProtocol.thy ===== *)
theory ChatProtocol
  imports ChatStream
begin

text \<open>
  What a client of a translated stream may rely on, whatever the backend sends: the frames are a role
  chunk, content chunks, one finishing chunk, possibly a usage chunk and the end mark, all with one
  identity, or the stream breaks off with an error frame and the end mark. The operations of the
  translator are shown to keep contracts in the style of Hoare triples.
\<close>

section \<open>Invariants through the framer\<close>

text \<open>A consumer that keeps \<open>I\<close> while it goes on and leaves \<open>E\<close> when it stops.\<close>

locale consumer_contract =
  fixes consume :: "'c consumer" and I :: "'c \<Rightarrow> bool" and E :: "sse_error \<Rightarrow> 'c \<Rightarrow> bool"
  assumes goes_on: "I c \<Longrightarrow> consume d c = (None, c') \<Longrightarrow> I c'"
    and stops: "I c \<Longrightarrow> consume d c = (Some e, c') \<Longrightarrow> E e c'"
    and too_large: "I c \<Longrightarrow> E EventTooLarge c"
begin

definition result_ok :: "sse_error option \<Rightarrow> 'c \<Rightarrow> bool" where
  "result_ok err c = (case err of None \<Rightarrow> I c | Some e \<Rightarrow> E e c)"

lemma flushEvent_result: "I c \<Longrightarrow> flushEvent consume f c = (err, f', c') \<Longrightarrow> result_ok err c'"
  using goes_on stops
  by (auto simp: flushEvent_def result_ok_def split: if_splits prod.splits option.splits)

lemma flushLine_result: "I c \<Longrightarrow> flushLine consume f c = (err, f', c') \<Longrightarrow> result_ok err c'"
  using flushEvent_result [of c f] too_large
  by (auto simp: flushLine_def Let_def result_ok_def split: if_splits prod.splits)

lemma feed_result:
  "I c \<Longrightarrow> framer_ok f \<Longrightarrow> sse_feed consume f c chunk = (err, f', c') \<Longrightarrow> result_ok err c'"
proof (induction chunk arbitrary: f c rule: chunk_induct)
  case (partial pre)
  then show ?case using too_large by (auto simp: feed_partial result_ok_def split: if_splits)
next
  case (line pre rest)
  obtain e2 f2 c2 where fl: "flushLine consume (f\<lparr>fr_line := fr_line f @ pre\<rparr>) c = (e2, f2, c2)"
    by (cases "flushLine consume (f\<lparr>fr_line := fr_line f @ pre\<rparr>) c")
  have r: "result_ok e2 c2" using flushLine_result [OF line.prems(1) fl] .
  show ?case
  proof (cases "too_large f pre")
    case True
    then show ?thesis using line too_large by (auto simp: feed_line result_ok_def)
  next
    case False
    then have "framer_ok f2" using flushLine_ok [OF fl] too_large_ok line.prems(2) by blast
    with False line r fl show ?thesis
      by (cases e2) (auto simp: feed_line result_ok_def)
  qed
qed

lemma finish_result:
  assumes "I c" "sse_finish consume f c = (err, f', c')" shows "result_ok err c'"
proof -
  obtain e2 f2 c2 where fl: "flushLine consume f c = (e2, f2, c2)" by (cases "flushLine consume f c")
  show ?thesis
    using assms flushLine_result [OF assms(1) fl] flushEvent_result [of c f] flushEvent_result [of c2 f2] fl
    by (cases e2) (auto simp: sse_finish_def result_ok_def split: if_splits)
qed

text \<open>The end of a whole read: the consumer is where it stopped, or it still holds its invariant and
  the stream ended or broke.\<close>

lemma readSSE_result:
  assumes "I c" "readSSE limit consume c chunks fin = (err, c')"
  shows "(\<exists>e. E e c' \<and> err = complete (Some e)) \<or> I c' \<and> (err = None \<or> err = Some StreamReadFailed)"
proof -
  obtain final eof where fin: "fin = (final, eof)" by (cases fin)
  let ?bytes = "concat chunks @ final"
  obtain e1 f1 c1 where feed: "sse_feed consume (new_framer limit) c ?bytes = (e1, f1, c1)"
    by (cases "sse_feed consume (new_framer limit) c ?bytes")
  obtain e2 f2 c2 where finish: "sse_finish consume f1 c1 = (e2, f2, c2)" by (cases "sse_finish consume f1 c1")
  have r1: "result_ok e1 c1" using feed_result [OF assms(1) framer_ok_new feed] .
  have read: "read_bytes consume (new_framer limit, c) ?bytes eof = (err, c')"
    using assms(2) by (simp add: fin readSSE_bytes)
  show ?thesis
  proof (cases e1)
    case (Some e)
    then show ?thesis using r1 read feed by (auto simp: read_bytes_def feed_view_def result_ok_def)
  next
    case None
    then have "result_ok e2 c2" using r1 finish_result [OF _ finish] by (simp add: result_ok_def)
    then show ?thesis using None r1 read feed finish
      by (cases e2) (auto simp: read_bytes_def feed_view_def result_ok_def complete_def split: if_splits)
  qed
qed

end

section \<open>The grammar of a translated stream\<close>

text \<open>A chunk of the completion with the given identity (id, creation time, model), the one choice it
  carries, and the three kinds of chunks.\<close>

type_synonym identity = "string \<times> int \<times> string"

definition completion_chunk :: "identity \<Rightarrow> obj \<Rightarrow> bool" where
  "completion_chunk ident c \<longleftrightarrow>
     oget c ''object'' = JStr ''chat.completion.chunk'' \<and>
     (oget c ''id'', oget c ''created'', oget c ''model'') =
       (JStr (fst ident), JInt64 (fst (snd ident)), JStr (snd (snd ident)))"

definition choice_of :: "obj \<Rightarrow> obj option" where
  "choice_of c = (case oget c ''choices'' of JArr [JObj ch] \<Rightarrow> Some ch | _ \<Rightarrow> None)"

definition delta_of :: "obj \<Rightarrow> obj" where
  "delta_of c = (case choice_of c of
     Some ch \<Rightarrow> (case oget ch ''delta'' of JObj d \<Rightarrow> d | _ \<Rightarrow> []) | None \<Rightarrow> [])"

definition content_chunk :: "identity \<Rightarrow> obj \<Rightarrow> bool" where
  "content_chunk ident c \<longleftrightarrow> completion_chunk ident c \<and>
     (case choice_of c of Some ch \<Rightarrow> oget ch ''finish_reason'' = JNull | None \<Rightarrow> False)"

definition finish_chunk :: "identity \<Rightarrow> obj \<Rightarrow> bool" where
  "finish_chunk ident c \<longleftrightarrow> completion_chunk ident c \<and>
     (case choice_of c of
        Some ch \<Rightarrow> oget ch ''finish_reason'' \<in> {JStr ''stop'', JStr ''length'', JStr ''tool_calls''}
      | None \<Rightarrow> False)"

definition usage_only_chunk :: "identity \<Rightarrow> obj \<Rightarrow> bool" where
  "usage_only_chunk ident c \<longleftrightarrow> completion_chunk ident c \<and> oget c ''choices'' = JArr []"

definition role_chunk :: "obj \<Rightarrow> bool" where
  "role_chunk c \<longleftrightarrow> oget (delta_of c) ''role'' = JStr ''assistant''"

definition speech :: "identity \<Rightarrow> obj list \<Rightarrow> bool" where
  "speech ident cs \<longleftrightarrow> list_all (content_chunk ident) cs \<and> (cs \<noteq> [] \<longrightarrow> role_chunk (hd cs))"

definition answered :: "identity \<Rightarrow> frame list \<Rightarrow> bool" where
  "answered ident frames \<longleftrightarrow>
     (\<exists>cs fin us. frames = map Chunk (cs @ fin # us) @ [Done] \<and> speech ident cs \<and> cs \<noteq> [] \<and> finish_chunk ident fin \<and>
        (us = [] \<or> (\<exists>u. us = [u] \<and> usage_only_chunk ident u)))"

definition error_chunk :: "string \<Rightarrow> obj" where
  "error_chunk message = [(''error'', JObj [(''message'', JStr (redactTokenLikeText message)),
     (''type'', JStr ''upstream_error''), (''code'', JNull)])]"

definition rejected :: "identity \<Rightarrow> frame list \<Rightarrow> bool" where
  "rejected ident frames \<longleftrightarrow>
     (\<exists>cs message. frames = map Chunk cs @ [Chunk (error_chunk message), Done] \<and> speech ident cs)"

text \<open>A client that stays connected and an encoder that encodes.\<close>

definition working :: "chat_env \<Rightarrow> bool" where
  "working env \<longleftrightarrow> (\<forall>n. ce_write_ok env n) \<and> (\<forall>v. lib_Marshal (ce_lib env) v \<noteq> None)"

section \<open>Contracts of the operations\<close>

definition ident_of :: "chatStreamTranslator \<Rightarrow> identity" where
  "ident_of t = (ct_id t, ct_created t, ct_model t)"

definition settled :: "chatStreamTranslator \<Rightarrow> bool" where
  "settled t \<longleftrightarrow> ct_id t \<noteq> [] \<and> (ct_model t = [] \<longrightarrow> ct_fallback t = [])"

text \<open>The states between events: nothing terminal was written, and the identity is settled as soon as
  the role went out. \<open>spoken\<close> states have sent the role. \<open>failed\<close> is what an error leaves.\<close>

definition live :: "chatStreamTranslator \<Rightarrow> bool" where
  "live t \<longleftrightarrow> \<not> ct_terminal t \<and> (\<exists>cs. ct_out t = map Chunk cs \<and> speech (ident_of t) cs \<and>
     (ct_roleSent t \<longleftrightarrow> cs \<noteq> [])) \<and> (ct_roleSent t \<longrightarrow> settled t) \<and> (ct_tools t \<noteq> [] \<longrightarrow> ct_roleSent t)"

definition spoken :: "chatStreamTranslator \<Rightarrow> bool" where
  "spoken t \<longleftrightarrow> live t \<and> ct_roleSent t"

definition failed :: "chat_env \<Rightarrow> chatStreamTranslator \<Rightarrow> bool" where
  "failed env t \<longleftrightarrow> (\<exists>ident S. (answered ident S \<or> rejected ident S) \<and> prefix (ct_out t) S \<and>
     (working env \<longrightarrow> rejected ident (ct_out t)))"

definition meets :: "chat_env \<Rightarrow> (chatStreamTranslator \<Rightarrow> bool) \<Rightarrow> string option \<times> chatStreamTranslator \<Rightarrow> bool" where
  "meets env Q r \<longleftrightarrow> (case fst r of None \<Rightarrow> Q (snd r) | Some _ \<Rightarrow> failed env (snd r))"

definition contract ::
    "chat_env \<Rightarrow> (chatStreamTranslator \<Rightarrow> bool) \<Rightarrow> chat_op \<Rightarrow> (chatStreamTranslator \<Rightarrow> bool) \<Rightarrow> bool" where
  "contract env P f Q \<longleftrightarrow> (\<forall>t. P t \<longrightarrow> meets env Q (f t))"

lemma meets_None [simp]: "meets env Q (None, t) = Q t"
  by (simp add: meets_def)

lemma meets_Some [simp]: "meets env Q (Some e, t) = failed env t"
  by (simp add: meets_def)

lemma contractI: "(\<And>t. P t \<Longrightarrow> meets env Q (f t)) \<Longrightarrow> contract env P f Q"
  by (simp add: contract_def)

lemma contractD: "contract env P f Q \<Longrightarrow> P t \<Longrightarrow> meets env Q (f t)"
  by (simp add: contract_def)

lemma contract_then: "contract env P f Q \<Longrightarrow> contract env Q g R \<Longrightarrow> contract env P (and_then f g) R"
  unfolding contract_def meets_def and_then_def by (fastforce split: prod.splits option.splits)

lemma contract_skip: "(\<And>t. P t \<Longrightarrow> Q t) \<Longrightarrow> contract env P skip_op Q"
  by (simp add: contract_def skip_op_def)

lemma contract_each: "(\<And>i x. contract env P (f i x) P) \<Longrightarrow> contract env P (each_op f n xs) P"
  by (induction xs arbitrary: n) (auto intro: contract_skip contract_then)

lemma meets_weaken: "meets env Q r \<Longrightarrow> (\<And>t. Q t \<Longrightarrow> Q' t) \<Longrightarrow> meets env Q' r"
  by (auto simp: meets_def split: option.splits)

lemma contract_weaken: "contract env P f Q \<Longrightarrow> (\<And>t. P' t \<Longrightarrow> P t) \<Longrightarrow> (\<And>t. Q t \<Longrightarrow> Q' t) \<Longrightarrow> contract env P' f Q'"
  unfolding contract_def by (blast intro: meets_weaken)

text \<open>Updates that no clause of the states reads.\<close>

lemma live_bookkeeping [simp]:
  "live (t\<lparr>ct_contentSeen := ks\<rparr>) = live t" "live (t\<lparr>ct_usage := u\<rparr>) = live t"
  "live (t\<lparr>ct_serviceTier := tier\<rparr>) = live t" "live (t\<lparr>ct_ticks := n\<rparr>) = live t"
  by (simp_all add: live_def ident_of_def settled_def)

lemma spoken_bookkeeping [simp]:
  "spoken (t\<lparr>ct_tools := ts\<rparr>) = spoken t" "spoken (t\<lparr>ct_toolSeen := b\<rparr>) = spoken t"
  "spoken (t\<lparr>ct_contentSeen := ks\<rparr>) = spoken t"
  by (auto simp: spoken_def live_def ident_of_def settled_def)

lemma spoken_live: "spoken t \<Longrightarrow> live t"
  by (simp add: spoken_def)

subsection \<open>Writing\<close>

lemma oget_append: "oget (xs @ ys) k = (if ohas xs k then oget xs k else oget ys k)"
  by (simp add: oget_def ohas_def map_add_def split: option.split)

lemma oget_Cons: "oget ((k, v) # xs) k' = (if k = k' then v else oget xs k')"
  by (simp add: oget_def)

lemma chunk_fields_get:
  "oget (chunk_fields t @ rest) ''id'' = JStr (ct_id t)" "oget (chunk_fields t @ rest) ''created'' = JInt64 (ct_created t)"
  "oget (chunk_fields t @ rest) ''model'' = JStr (ct_model t)"
  "oget (chunk_fields t @ rest) ''object'' = JStr ''chat.completion.chunk''"
  "oget (chunk_fields t @ rest) ''choices'' = oget rest ''choices''"
  by (simp_all add: chunk_fields_def oget_def)

lemma completion_chunk_fields [simp]: "completion_chunk (ident_of t) (chunk_fields t @ rest)"
  by (simp add: completion_chunk_def ident_of_def chunk_fields_get)

lemma choice_of_fields [simp]:
  "choice_of (chunk_fields t @ choice_fields d fr @ rest) =
     Some [(''index'', JInt 0), (''delta'', JObj d), (''logprobs'', JNull), (''finish_reason'', fr)]"
  by (simp add: choice_of_def chunk_fields_get choice_fields_def oget_Cons)

lemma delta_of_fields [simp]: "delta_of (chunk_fields t @ choice_fields d fr @ rest) = d"
  by (simp add: delta_of_def oget_def)

lemma baseChunk_settled: "settled t \<Longrightarrow> baseChunk env t = (chunk_fields t, t)"
  by (cases t) (auto simp: settled_def baseChunk_def base_id_def base_model_def Let_def)

lemma chatCompletionID_nonempty: "chatCompletionID now u \<noteq> []"
  by (auto simp: chatCompletionID_def prefix_def)

lemma baseChunk_settles:
  assumes "baseChunk env t = (c, t')"
  shows "settled t'" "c = chunk_fields t'" "ct_out t' = ct_out t" "ct_roleSent t' = ct_roleSent t" "ct_terminal t' = ct_terminal t"
  using assms chatCompletionID_nonempty
  by (auto simp: settled_def baseChunk_def base_id_def base_model_def Let_def split: if_splits)

lemma writeObject_cases:
  obtains (wrote) "writeObject env v t = (None, t\<lparr>ct_out := ct_out t @ [Chunk v]\<rparr>)"
  | (broke) e where "writeObject env v t = (Some e, t)" "\<not> working env"
  by (cases "lib_Marshal (ce_lib env) (JObj v)"; cases "ce_write_ok env (length (ct_out t))")
    (auto simp: writeObject_def write_frame_def working_def)

lemma writeDone_cases:
  obtains (wrote) "writeDone env t = (None, t\<lparr>ct_out := ct_out t @ [Done]\<rparr>)"
  | (broke) e where "writeDone env t = (Some e, t)" "\<not> working env"
  by (cases "ce_write_ok env (length (ct_out t))") (auto simp: writeDone_def write_frame_def working_def)

lemma failedI:
  "rejected ident S \<Longrightarrow> prefix (ct_out t) S \<Longrightarrow> (working env \<Longrightarrow> rejected ident (ct_out t)) \<Longrightarrow> failed env t"
  unfolding failed_def by blast

text \<open>A stream that breaks while content is sent is the beginning of a rejected one.\<close>

lemma failed_speech:
  assumes "ct_out t = map Chunk cs" "speech ident cs" "\<not> working env" shows "failed env t"
proof -
  have "rejected ident (map Chunk cs @ [Chunk (error_chunk []), Done])"
    using assms unfolding rejected_def by blast
  moreover have "prefix (ct_out t) (map Chunk cs @ [Chunk (error_chunk []), Done])" using assms by simp
  ultimately show ?thesis using assms unfolding failed_def by blast
qed

lemma spokenI:
  "\<not> ct_terminal t \<Longrightarrow> ct_out t = map Chunk cs \<Longrightarrow> speech (ident_of t) cs \<Longrightarrow> cs \<noteq> [] \<Longrightarrow> ct_roleSent t \<Longrightarrow> settled t \<Longrightarrow> spoken t"
  unfolding spoken_def live_def by blast

lemma spokenE:
  assumes "spoken t"
  obtains cs where "ct_out t = map Chunk cs" "speech (ident_of t) cs" "cs \<noteq> []" "settled t" "ct_roleSent t" "\<not> ct_terminal t"
  using assms unfolding spoken_def live_def by blast

lemma speech_append: "speech ident cs \<Longrightarrow> cs \<noteq> [] \<Longrightarrow> content_chunk ident c \<Longrightarrow> speech ident (cs @ [c])"
  by (simp add: speech_def)

text \<open>A written object extends the frames; a write that fails leaves the state as it was.\<close>

lemma meets_writeObject:
  assumes "Q (t\<lparr>ct_out := ct_out t @ [Chunk v]\<rparr>)" "\<not> working env \<Longrightarrow> failed env t"
  shows "meets env Q (writeObject env v t)"
  by (cases rule: writeObject_cases [of env v t]) (use assms in auto)

lemma meets_writeDone:
  assumes "Q (t\<lparr>ct_out := ct_out t @ [Done]\<rparr>)" "\<not> working env \<Longrightarrow> failed env t"
  shows "meets env Q (writeDone env t)"
  by (cases rule: writeDone_cases [of env t]) (use assms in auto)

abbreviation usage_field :: "chatStreamTranslator \<Rightarrow> obj" where
  "usage_field t \<equiv> if ct_includeUsage t then [(''usage'', JNull)] else []"

lemma writeChoice_settled:
  "settled t \<Longrightarrow> writeChoice env d fr t = writeObject env (chunk_fields t @ choice_fields d fr @ usage_field t) t"
  by (simp add: writeChoice_def baseChunk_settled)

lemma contract_writeChoice: "contract env spoken (writeChoice env d JNull) spoken"
proof (rule contractI)
  fix t assume "spoken t"
  then obtain cs where cs: "ct_out t = map Chunk cs" "speech (ident_of t) cs" "cs \<noteq> []" and st: "settled t"
    and flags: "ct_roleSent t" "\<not> ct_terminal t"
    by (rule spokenE)
  let ?c = "chunk_fields t @ choice_fields d JNull @ usage_field t"
  let ?t = "t\<lparr>ct_out := ct_out t @ [Chunk ?c]\<rparr>"
  have c: "content_chunk (ident_of t) ?c" by (simp add: content_chunk_def oget_def)
  have "ct_out ?t = map Chunk (cs @ [?c])" "speech (ident_of ?t) (cs @ [?c])"
    using cs c speech_append by (simp_all add: ident_of_def)
  then have "spoken ?t" by (rule spokenI [rotated]) (use st flags in \<open>simp_all add: settled_def\<close>)
  then show "meets env spoken (writeChoice env d JNull t)"
    unfolding writeChoice_settled [OF st] by (rule meets_writeObject) (rule failed_speech [OF cs(1,2)])
qed

lemma contract_say: "contract env spoken (writeChoice env d JNull) live"
  by (rule contract_weaken [OF contract_writeChoice _ spoken_live])

lemma contract_ensureRole: "contract env live (ensureRole env) spoken"
proof (rule contractI)
  fix t assume t: "live t"
  show "meets env spoken (ensureRole env t)"
  proof (cases "ct_roleSent t")
    case True
    then show ?thesis using t by (simp add: ensureRole_def spoken_def)
  next
    case False
    then have out: "ct_out t = []" "\<not> ct_terminal t" using t by (auto simp: live_def)
    obtain b t1 where b: "baseChunk env (t\<lparr>ct_roleSent := True\<rparr>) = (b, t1)"
      by (cases "baseChunk env (t\<lparr>ct_roleSent := True\<rparr>)")
    note t1 = baseChunk_settles [OF b, simplified]
    let ?c = "chunk_fields t1 @ choice_fields [(''role'', JStr ''assistant''), (''content'', JStr [])] JNull @ usage_field t1"
    let ?t = "t1\<lparr>ct_out := ct_out t1 @ [Chunk ?c]\<rparr>"
    have e: "ensureRole env t = writeObject env ?c t1" using False b t1(2) by (simp add: ensureRole_def writeChoice_def)
    have "speech (ident_of t1) [?c]" by (simp add: speech_def content_chunk_def role_chunk_def oget_def)
    then have "ct_out ?t = map Chunk [?c]" "speech (ident_of ?t) [?c]" using t1 out by (simp_all add: ident_of_def)
    then have "spoken ?t" by (rule spokenI [rotated]) (use t1 out in \<open>simp_all add: settled_def\<close>)
    moreover have "\<not> working env \<Longrightarrow> failed env t1"
      using t1 out failed_speech [of t1 "[]" "ident_of t1"] by (simp add: speech_def)
    ultimately show ?thesis unfolding e by (rule meets_writeObject)
  qed
qed

subsection \<open>Tools and content\<close>

lemma contract_ensureTool: "contract env live (ensureTool env item i) spoken"
  unfolding ensureTool_def
  by (rule contract_then [OF contract_ensureRole contractI])
    (simp add: new_tool_def Let_def contractD [OF contract_writeChoice])

lemma contract_emit_arguments: "contract env live (emit_arguments env key args) live"
proof (rule contractI)
  fix t assume t: "live t"
  show "meets env live (emit_arguments env key args t)"
  proof (cases "map_of (ct_tools t) key")
    case (Some tool)
    then have "spoken t" using t by (auto simp: spoken_def live_def)
    then have "spoken (mark_emitted key t)" by (simp add: mark_emitted_def split: option.split)
    then show ?thesis using Some by (simp add: emit_arguments_def writeToolArguments_def contractD [OF contract_say])
  qed (use t in \<open>simp add: emit_arguments_def\<close>)
qed

lemma contract_tool_arguments_once: "contract env live (tool_arguments_once env item i) live"
  unfolding tool_arguments_once_def
  by (rule contract_then [OF contract_ensureTool contractI])
    (simp add: Let_def spoken_live contractD [OF contract_emit_arguments])

lemma contract_message_part: "contract env live (message_part env i j part) live"
  by (rule contractI)
    (auto simp: message_part_def Let_def contractD [OF contract_then [OF contract_ensureRole contract_say]]
      split: option.split)

lemma contract_emitMessageFallback: "contract env live (emitMessageFallback env item i) live"
  unfolding emitMessageFallback_def by (rule contract_each) (rule contract_message_part)

lemma contract_emitResponseOutputFallback: "contract env live (emitResponseOutputFallback env response) live"
  unfolding emitResponseOutputFallback_def fallback_item_def
  by (rule contract_each)
    (auto intro: contract_skip contract_emitMessageFallback contract_tool_arguments_once split: json.split)

subsection \<open>The end of a stream\<close>

lemma captureResponse_live: "live t \<Longrightarrow> live (captureResponse env r t)"
  by (auto simp: captureResponse_def capture_identity_def Let_def live_def ident_of_def settled_def speech_def)

lemma contract_fail: "contract env live (chat_fail env message summary) Q"
proof (rule contractI)
  fix t assume t: "live t"
  obtain err t' where f: "chat_fail env message summary t = (err, t')" by (cases "chat_fail env message summary t")
  from t obtain cs where cs: "ct_out t = map Chunk cs" "speech (ident_of t) cs" and nt: "\<not> ct_terminal t"
    unfolding live_def by blast
  let ?t = "t\<lparr>ct_terminal := True\<rparr>" and ?S = "map Chunk cs @ [Chunk (error_chunk message), Done]"
  have rej: "rejected (ident_of t) ?S" using cs unfolding rejected_def by blast
  have g: "and_then (writeObject env (error_chunk message)) (and_then (writeDone env) (\<lambda>t. (Some summary, t))) ?t = (err, t')"
    using f nt by (simp add: chat_fail_def error_chunk_def)
  have "\<exists>e. err = Some e \<and> prefix (ct_out t') ?S \<and> (working env \<longrightarrow> ct_out t' = ?S)"
  proof (cases rule: writeObject_cases [of env "error_chunk message" ?t])
    case wrote
    then show ?thesis using g cs
      by (cases rule: writeDone_cases [of env "?t\<lparr>ct_out := ct_out ?t @ [Chunk (error_chunk message)]\<rparr>"])
        (auto simp: and_then_def)
  next
    case broke
    then show ?thesis using g cs by (auto simp: and_then_def)
  qed
  then obtain e where e: "err = Some e" "prefix (ct_out t') ?S" "working env \<Longrightarrow> ct_out t' = ?S" by blast
  have "failed env t'" by (rule failedI [OF rej e(2)]) (use e(3) rej in simp)
  then show "meets env Q (chat_fail env message summary t)" using f e(1) by simp
qed

definition finishing :: "chatStreamTranslator \<Rightarrow> bool" where
  "finishing t \<longleftrightarrow> settled t \<and> (\<exists>cs fin. ct_out t = map Chunk (cs @ [fin]) \<and> speech (ident_of t) cs \<and> cs \<noteq> [] \<and>
     finish_chunk (ident_of t) fin)"

definition closing :: "chatStreamTranslator \<Rightarrow> bool" where
  "closing t \<longleftrightarrow> (\<exists>ident. answered ident (ct_out t @ [Done]))"

definition completed :: "chatStreamTranslator \<Rightarrow> bool" where
  "completed t \<longleftrightarrow> ct_terminal t \<and> (\<exists>ident. answered ident (ct_out t))"

lemma finishing_closing: "finishing t \<Longrightarrow> closing t"
  unfolding finishing_def closing_def answered_def by (elim conjE exE, intro exI conjI) auto

lemma closing_failed:
  assumes "closing t" "\<not> working env" shows "failed env t"
proof -
  from assms(1) obtain ident where "answered ident (ct_out t @ [Done])" unfolding closing_def by blast
  moreover have "prefix (ct_out t) (ct_out t @ [Done])" by simp
  ultimately show ?thesis using assms(2) unfolding failed_def by blast
qed

lemma contract_finish_chunk:
  "contract env spoken (\<lambda>t. writeChoice env [] (JStr (chatFinishReason response (ct_toolSeen t))) t) finishing"
proof (rule contractI)
  fix t assume "spoken t"
  then obtain cs where cs: "ct_out t = map Chunk cs" "speech (ident_of t) cs" "cs \<noteq> []" and st: "settled t"
    by (rule spokenE)
  let ?r = "chatFinishReason response (ct_toolSeen t)"
  let ?c = "chunk_fields t @ choice_fields [] (JStr ?r) @ usage_field t"
  let ?t = "t\<lparr>ct_out := ct_out t @ [Chunk ?c]\<rparr>"
  have "finish_chunk (ident_of t) ?c" by (simp add: finish_chunk_def oget_def chatFinishReason_def)
  then have "ct_out ?t = map Chunk (cs @ [?c])" "speech (ident_of ?t) cs" "finish_chunk (ident_of ?t) ?c" "settled ?t"
    using cs st by (simp_all add: ident_of_def settled_def)
  then have "finishing ?t" using cs(3) unfolding finishing_def by blast
  then show "meets env finishing (writeChoice env [] (JStr ?r) t)"
    unfolding writeChoice_settled [OF st] by (rule meets_writeObject) (rule failed_speech [OF cs(1,2)])
qed

lemma contract_usage_chunk: "contract env finishing (usage_chunk env) closing"
proof (rule contractI)
  fix t assume t: "finishing t"
  show "meets env closing (usage_chunk env t)"
  proof (cases "ct_includeUsage t \<and> hasAny (ct_usage t)")
    case False
    then show ?thesis using finishing_closing [OF t] by (auto simp: usage_chunk_def)
  next
    case True
    from t obtain cs fin where cs: "ct_out t = map Chunk (cs @ [fin])" "speech (ident_of t) cs" "cs \<noteq> []"
      "finish_chunk (ident_of t) fin" and st: "settled t"
      unfolding finishing_def by blast
    let ?c = "chunk_fields t @ [(''choices'', JArr []), (''usage'', JObj (chatUsageObject (ct_usage t)))]"
    let ?t = "t\<lparr>ct_out := ct_out t @ [Chunk ?c]\<rparr>"
    have w: "usage_chunk env t = writeObject env ?c t" using st True by (simp add: usage_chunk_def baseChunk_settled)
    have "usage_only_chunk (ident_of t) ?c" by (simp add: usage_only_chunk_def chunk_fields_get oget_Cons)
    moreover have "ct_out ?t @ [Done] = map Chunk (cs @ fin # [?c]) @ [Done]" using cs by simp
    ultimately have "closing ?t" using cs unfolding closing_def answered_def by blast
    then show ?thesis unfolding w
      by (rule meets_writeObject) (rule closing_failed [OF finishing_closing [OF t]])
  qed
qed

lemma contract_done: "contract env closing (\<lambda>t. writeDone env (t\<lparr>ct_terminal := True\<rparr>)) completed"
proof (rule contractI)
  fix t assume t: "closing t"
  have "completed (t\<lparr>ct_terminal := True, ct_out := ct_out t @ [Done]\<rparr>)"
    using t unfolding closing_def completed_def by simp
  moreover have "closing (t\<lparr>ct_terminal := True\<rparr>)" using t by (simp add: closing_def)
  ultimately show "meets env completed (writeDone env (t\<lparr>ct_terminal := True\<rparr>))"
    using closing_failed by (intro meets_writeDone) simp_all
qed

lemma contract_finish: "contract env live (chat_finish env response) completed"
proof (rule contractI)
  fix t assume t: "live t"
  then have nt: "\<not> ct_terminal t" by (simp add: live_def)
  have "contract env live (and_then (emitResponseOutputFallback env r) (and_then (ensureRole env)
      (and_then (\<lambda>t. writeChoice env [] (JStr (chatFinishReason r (ct_toolSeen t))) t)
        (and_then (usage_chunk env) (\<lambda>t. writeDone env (t\<lparr>ct_terminal := True\<rparr>)))))) completed" for r
    by (intro contract_then [OF contract_emitResponseOutputFallback] contract_then [OF contract_ensureRole]
        contract_then [OF contract_finish_chunk] contract_then [OF contract_usage_chunk] contract_done)
  from contractD [OF this captureResponse_live [OF t]] show "meets env completed (chat_finish env response t)"
    using nt contractD [OF contract_fail t] by (simp add: chat_finish_def split: option.split)
qed

subsection \<open>Events\<close>

lemma contract_delta_event: "contract env live (delta_event env event kind field) live"
  unfolding delta_event_def
  by (rule contract_then [OF contract_ensureRole contractI]) (simp add: contractD [OF contract_say])

lemma contract_arguments_event: "contract env live (arguments_event env event) live"
proof (rule contractI)
  fix t assume t: "live t"
  have "contract env live (if b then skip_op else ensureTool env item i) live" for b item i
    using contract_skip [of live live env] contract_weaken [OF contract_ensureTool _ spoken_live, of live] by simp
  from contractD [OF contract_then [OF this contract_emit_arguments] t]
  show "meets env live (arguments_event env event t)" unfolding arguments_event_def Let_def .
qed

lemma contract_event: "contract env live (chat_event env event) (\<lambda>t. live t \<or> completed t)"
proof (rule contractI)
  fix t assume t: "live t"
  let ?Q = "\<lambda>t. live t \<or> completed t"
  have keep: "contract env live f live \<Longrightarrow> live t \<Longrightarrow> meets env ?Q (f t)" for f t
    by (erule (1) meets_weaken [OF contractD]) auto
  have speak: "contract env live f spoken \<Longrightarrow> live t \<Longrightarrow> meets env ?Q (f t)" for f t
    by (erule (1) meets_weaken [OF contractD]) (auto simp: spoken_live)
  have close: "contract env live f completed \<Longrightarrow> live t \<Longrightarrow> meets env ?Q (f t)" for f t
    by (erule (1) meets_weaken [OF contractD]) auto
  have cap: "live (case r of Some r \<Rightarrow> captureResponse env r t | None \<Rightarrow> t)" for r
    using t captureResponse_live by (simp split: option.split)
  note steps = speak [OF contract_ensureRole cap] speak [OF contract_ensureTool t] speak [OF contract_ensureRole t]
    keep [OF contract_emitMessageFallback t] keep [OF contract_tool_arguments_once t] keep [OF contract_delta_event t]
    keep [OF contract_arguments_event t] close [OF contract_finish t] contractD [OF contract_fail cap]
    contractD [OF contract_fail t]
  show "meets env ?Q (chat_event env event t)"
    by (simp add: chat_event_def error_event_def Let_def steps t del: insert_iff split: option.split)
qed

subsection \<open>The whole stream\<close>

definition between_events :: "chatStreamTranslator \<times> string option \<Rightarrow> bool" where
  "between_events st \<longleftrightarrow> live (fst st) \<and> snd st = None"

definition after_stop :: "chat_env \<Rightarrow> sse_error \<Rightarrow> chatStreamTranslator \<times> string option \<Rightarrow> bool" where
  "after_stop env e st \<longleftrightarrow>
     (case e of
        SSEComplete \<Rightarrow> completed (fst st)
      | ConsumerError _ \<Rightarrow> failed env (fst st) \<and> snd st \<noteq> None
      | _ \<Rightarrow> between_events st)"

lemma contract_payload:
  "contract env live (chat_payload env data)
     (\<lambda>t. live t \<or> completed t \<and> data \<noteq> ''[DONE]'' \<and> unmarshal_obj (ce_lib env) data \<noteq> None)"
  by (rule contractI)
    (auto simp: chat_payload_def contractD [OF contract_fail] intro: meets_weaken [OF contractD [OF contract_event]]
      split: option.split)

lemma chat_consume_result:
  assumes "between_events st" "chat_consume env d st = (err, st')"
  shows "case err of None \<Rightarrow> between_events st' | Some e \<Rightarrow> after_stop env e st'"
proof (cases "TrimSpace d = []")
  case True
  then show ?thesis using assms by (simp add: chat_consume_def)
next
  case False
  obtain e t where p: "chat_payload env (TrimSpace d) (fst st) = (e, t)" by (cases "chat_payload env (TrimSpace d) (fst st)")
  have m: "meets env (\<lambda>t. live t \<or> completed t \<and> TrimSpace d \<noteq> ''[DONE]'' \<and> unmarshal_obj (ce_lib env) (TrimSpace d) \<noteq> None) (e, t)"
    unfolding p [symmetric] by (rule contractD [OF contract_payload]) (use assms in \<open>simp add: between_events_def\<close>)
  have "live t \<Longrightarrow> \<not> ct_terminal t" "completed t \<Longrightarrow> ct_terminal t" by (simp_all add: live_def completed_def)
  then show ?thesis using assms(2) False p m
    by (cases e) (auto simp: chat_consume_def Let_def between_events_def after_stop_def split: if_splits)
qed

interpretation chat: consumer_contract "chat_consume env" between_events "after_stop env"
  by unfold_locales (auto dest: chat_consume_result simp: after_stop_def)

lemma between_events_new: "between_events (new_translator env model usage, None)"
  by (simp add: between_events_def new_translator_def live_def speech_def)

lemma chat_conclude_result:
  assumes "(\<exists>e. after_stop env e (t, eventErr) \<and> err = complete (Some e)) \<or>
      between_events (t, eventErr) \<and> (err = None \<or> err = Some StreamReadFailed)"
  shows "meets env completed (chat_conclude env err t eventErr)"
proof -
  have fail: "live t \<Longrightarrow> meets env completed (chat_fail env m s t)" for m s by (rule contractD [OF contract_fail])
  consider (complete) "err = None" "completed t" | (consumer) m where "err = Some (ConsumerError m)" "failed env t" "eventErr \<noteq> None"
    | (framing) e where "err = Some e" "live t" "eventErr = None" | (ended) "err = None" "live t" "eventErr = None"
  proof (use assms in \<open>elim disjE exE conjE\<close>)
    fix e assume "after_stop env e (t, eventErr)" "err = complete (Some e)"
    then show ?thesis by (cases e) (auto simp: after_stop_def between_events_def complete_def intro: that)
  qed (auto simp: between_events_def intro: that)
  then show ?thesis
  proof cases
    case ended
    moreover from this have "\<not> ct_terminal t" by (simp add: live_def)
    ultimately show ?thesis using fail by (simp add: chat_conclude_def)
  qed (auto simp: chat_conclude_def fail completed_def)
qed

section \<open>Properties\<close>

text \<open>C15: A translated stream is always well formed, whatever the backend sends and however the network
  cuts it. When the translation reports success, the client has received chunks of one completion (the
  same id, creation time and model in all of them), the first with the role, then exactly one with a
  finish reason, at most one usage chunk after it, and the end mark as the last frame. When it reports
  an error, the client has received the beginning of such a stream or of one that ends with one error
  frame and the end mark; if the client stayed connected, it has received that error frame and the
  end mark.\<close>

theorem chat_stream_well_formed:
  assumes "copyChatCompletionsStream env chunks fin model usage = (u, tier, err, out)"
  shows "case err of
      None \<Rightarrow> \<exists>ident. answered ident out
    | Some _ \<Rightarrow> \<exists>ident S. (answered ident S \<or> rejected ident S) \<and> prefix out S \<and> (working env \<longrightarrow> rejected ident out)"
proof -
  obtain e t ev where r: "readSSE maxRequestBodyBytes (chat_consume env) (new_translator env model usage, None) chunks fin = (e, t, ev)"
    by (metis prod_cases3)
  obtain e' t' where c: "chat_conclude env e t ev = (e', t')" by (cases "chat_conclude env e t ev")
  have "meets env completed (e', t')"
    unfolding c [symmetric] by (rule chat_conclude_result [OF chat.readSSE_result [OF between_events_new r]])
  moreover have "err = e'" "out = ct_out t'" using assms r c by (auto simp: copyChatCompletionsStream_def)
  ultimately show ?thesis by (cases e') (auto simp: completed_def failed_def simp del: split_paired_Ex)
qed

definition witness_env :: chat_env where
  "witness_env = \<lparr>ce_lib = witness_lib, ce_now = \<lambda>n. 1000000000 * int n, ce_write_ok = \<lambda>_. True, ce_marshal_error = []\<rparr>"

theorem chat_stream_well_formed_witness:
  "\<exists>u tier e out ident. copyChatCompletionsStream witness_env [''data: {''] ([nl], True) ''gpt-6-sol'' False = (u, tier, Some e, out) \<and>
     rejected ident out"
proof -
  let ?c = "copyChatCompletionsStream witness_env [''data: {''] ([nl], True) ''gpt-6-sol'' False"
  let ?t0 = "(new_translator witness_env ''gpt-6-sol'' False, None)"
  let ?r = "let (err, c') = consume_all (chat_consume witness_env) ?t0 (sse_events (concat [''data: {''] @ [nl])) in (complete err, c')"
  have "readSSE maxRequestBodyBytes (chat_consume witness_env) ?t0 [''data: {''] ([nl], True) = ?r"
    by (rule readSSE_events) (simp add: maxRequestBodyBytes_def)
  moreover have "fst ?r \<noteq> None \<and> snd (snd ?r) \<noteq> None" by code_simp
  ultimately have "fst (snd (snd ?c)) \<noteq> None"
    by (cases ?r) (auto simp: copyChatCompletionsStream_def chat_conclude_def)
  then obtain u tier e out where c: "?c = (u, tier, Some e, out)" by (cases ?c) auto
  have "working witness_env" by (simp add: working_def witness_env_def witness_lib_def)
  then show ?thesis using chat_stream_well_formed [OF c] c by fastforce
qed

end
