(* ===== verification/Endpoints.thy ===== *)
theory Endpoints
  imports LiveCalls ChatProtocol
begin

text \<open>
  The handlers of chat completions (\<^verbatim>\<open>src/chat_completions.go\<close>) and compaction (\<^verbatim>\<open>src/capabilities.go\<close>), and
  what all request handlers of the broker have in common: they answer an unauthorised request
  without touching anything, they hold a slot of the limiter around every upstream call, and the
  request history records the status the client got.
\<close>

section \<open>Definitions\<close>

subsection \<open>Chat completions\<close>

definition valueOrAny :: "string \<Rightarrow> json \<Rightarrow> json" where
  "valueOrAny val fallback = (if TrimSpace val = [] then fallback else JStr val)"

definition writeChatCompletionsError :: "nat \<Rightarrow> header \<Rightarrow> string \<Rightarrow> string \<Rightarrow> answer" where
  "writeChatCompletionsError status w message param =
     json_answer status w (JObj [(''error'', JObj
       [(''message'', JStr (redactTokenLikeText message)), (''type'', JStr ''invalid_request_error''),
        (''param'', valueOrAny param JNull), (''code'', JNull)])])"

definition relayChatCompletionsUpstreamError :: "http_io \<Rightarrow> http_response \<Rightarrow> header \<times> pending \<Rightarrow> answer \<times> pending" where
  "relayChatCompletionsUpstreamError io resp wl =
     (let status = rs_StatusCode resp; responseBody = read_limited io (64 * 1024) resp;
          message = summarizeUpstreamError (lib_of io) responseBody status;
          entry = markError status message (snd wl)
      in if TrimSpace responseBody = [] then (writeChatCompletionsError status (fst wl) message [], entry)
         else (\<lparr>an_status = status, an_header = Header_Set (fst wl) ''Content-Type'' ''application/json'',
                an_body = RawBody (normalizeUpstreamErrorBody (lib_of io) responseBody status)\<rparr>, entry))"

definition chat_aggregate :: "http_io \<Rightarrow> requestInfo \<Rightarrow> http_response \<Rightarrow> header \<times> pending \<Rightarrow> answer \<times> pending" where
  "chat_aggregate io info resp wl =
     (case aggregateResponsesSSE (lib_of io) (fst (hi_cut io (rs_Body resp))) (snd (hi_cut io (rs_Body resp))) of
        Inl err \<Rightarrow>
          (writeChatCompletionsError 502 (fst wl) (''aggregate upstream stream failed: '' @ sse_error_text err) [],
           markError 502 ''aggregate upstream stream failed'' (snd wl))
      | Inr finalResponse \<Rightarrow>
          (case chatCompletionFromResponse (lib_of io) (hi_now io 0, hi_now io 1) finalResponse (ri_NormalizedModel info) of
             Inl err \<Rightarrow>
               (let message = ''translate upstream response failed: '' @ err
                in (writeChatCompletionsError 502 (fst wl) message [], markError 502 message (snd wl)))
           | Inr completion \<Rightarrow>
               (json_answer 200 (fst wl) (JObj completion),
                markStatus 200 (recordAppliedServiceTier (extractServiceTier (Some finalResponse))
                  (markUsage (extractTokenUsage (lib_of io) finalResponse) (snd wl))))))"

text \<open>The bytes of a frame on the wire.\<close>

definition frame_bytes :: "golib \<Rightarrow> frame \<Rightarrow> string" where
  "frame_bytes lib fr =
     (case fr of
        Done \<Rightarrow> ''data: [DONE]'' @ [nl, nl]
      | Chunk v \<Rightarrow> ''data: '' @ (case lib_Marshal lib (JObj v) of Some enc \<Rightarrow> enc | None \<Rightarrow> []) @ [nl, nl])"

definition chat_env_of :: "http_io \<Rightarrow> string \<Rightarrow> chat_env" where
  "chat_env_of io marshal_error =
     \<lparr>ce_lib = lib_of io, ce_now = hi_now io, ce_write_ok = hi_write io, ce_marshal_error = marshal_error\<rparr>"

definition chat_stream_answer ::
    "string \<Rightarrow> http_io \<Rightarrow> requestInfo \<Rightarrow> bool \<Rightarrow> http_response \<Rightarrow> header \<times> pending \<Rightarrow> answer \<times> pending" where
  "chat_stream_answer marshal_error io info includeUsage resp wl =
     (let w1 = copyResponseHeaders (fst wl) (rs_Header resp) True;
          w2 = Header_Set w1 ''Cache-Control'' ''no-cache'';
          w3 = Header_Set w2 ''X-Accel-Buffering'' ''no'';
          (usage, appliedTier, streamErr, frames) =
            copyChatCompletionsStream (chat_env_of io marshal_error) (fst (hi_cut io (rs_Body resp))) (snd (hi_cut io (rs_Body resp)))
              (ri_NormalizedModel info) includeUsage;
          e1 = recordAppliedServiceTier appliedTier (markUsage usage (markStatus (rs_StatusCode resp) (snd wl)))
      in (\<lparr>an_status = rs_StatusCode resp, an_header = w3, an_body = RawBody (concat (map (frame_bytes (lib_of io)) frames))\<rparr>,
          (case streamErr of None \<Rightarrow> e1 | Some err \<Rightarrow> markStreamError (''translate upstream stream failed: '' @ err) e1)))"

definition chat_answer ::
    "string \<Rightarrow> http_io \<Rightarrow> requestInfo \<Rightarrow> chatCompletionRequestInfo \<Rightarrow> http_response \<Rightarrow> pending \<Rightarrow> answer \<times> pending" where
  "chat_answer marshal_error io info chatInfo resp entry =
     (let wl = captureUpstreamHeaders (lib_of io) (rs_Header resp) ([], markUpstreamStatus (rs_StatusCode resp) entry)
      in if \<not> success_status resp then relayChatCompletionsUpstreamError io resp wl
         else if \<not> ci_Stream chatInfo then chat_aggregate io info resp wl
         else chat_stream_answer marshal_error io info (ci_IncludeUsage chatInfo) resp wl)"

text \<open>\<open>quote\<close> renders a \<open>%q\<close> message.\<close>

definition chat_message_text :: "(string \<Rightarrow> string) \<Rightarrow> chat_message \<Rightarrow> string" where
  "chat_message_text quote m = (case m of Msg s \<Rightarrow> s | MsgQ a v b \<Rightarrow> a @ quote v @ b)"

definition handleChatCompletions :: "string \<Rightarrow> http_io \<Rightarrow> accountPool \<Rightarrow> handled" where
  "handleChatCompletions marshal_error io pool =
     (if \<not> authorized io then unauthorized_reply io pool
      else (case decodeRequestBody (hi_reader io) (hi_body io) (Header_Get (hi_header io) ''Content-Encoding'') of
              Inl err \<Rightarrow>
                reply (writeChatCompletionsError 400 [] err [], markError 400 ''invalid JSON request body'' (hi_log io)) pool
            | Inr chatBody \<Rightarrow>
                (case translateChatCompletionsBody (lib_of io) chatBody of
                   Inl err \<Rightarrow>
                     reply (writeChatCompletionsError 400 [] (chat_message_text (br_quote (hi_reader io)) (ce_message err)) (ce_param err),
                            markError 400 (''invalid chat request parameter: '' @ ce_param err) (hi_log io)) pool
                 | Inr (body0, chatInfo) \<Rightarrow>
                     (let (info, body) = normalizeResponsesBody body0 (base_cfg io) (hi_header io);
                          entry = markRequest (lib_of io) body info (hi_header io) (hi_log io);
                          upstreamBody = oset body ''stream'' (JBool True)
                      in (case lib_Marshal (lib_of io) (JObj upstreamBody) of
                            None \<Rightarrow>
                              reply (writeChatCompletionsError 400 [] ''invalid request body'' [],
                                     markError 400 ''invalid request body'' entry) pool
                          | Some encoded \<Rightarrow>
                              with_slot io entry
                                (dispatch_and io encoded info body entry (chat_answer marshal_error io info chatInfo)) pool)))))"

subsection \<open>Compaction\<close>

text \<open>The envelope of a compaction answer: whether the body decodes and its \<open>output\<close> is a JSON array, the
  usage object and the service tier.\<close>

record compact_io = live_io +
  co_envelope :: "string \<Rightarrow> (bool \<times> obj option \<times> string) option"

definition compact_header :: "header \<Rightarrow> string \<Rightarrow> obj \<Rightarrow> header" where
  "compact_header r model body =
     (let h1 = Header_Set [] ''OpenAI-Beta'' ''responses=experimental'';
          h2 = Header_Set h1 codexRoutingHintHeader (buildCodexRoutingHint model (stringField body ''service_tier''));
          features = codexBetaFeatures (Some r) False;
          h3 = (if features \<noteq> [] then Header_Set h2 codexBetaFeaturesHeader features else h2);
          h4 = setCacheRoutingHeaders h3 r (stringField body ''prompt_cache_key'');
          rid = Header_Get r ''x-client-request-id''
      in if rid \<noteq> [] then Header_Set h4 ''x-client-request-id'' rid else h4)"

definition set_tier :: "string \<Rightarrow> string \<Rightarrow> pending \<Rightarrow> pending" where
  "set_tier model tier = on_entry (\<lambda>e. e\<lparr>e_Model := model, e_NormalizedModel := model, e_ServiceTier := tier\<rparr>)"

text \<open>\<open>sent\<close> is the header of the request that was answered (\<open>resp.Request.Header\<close>).\<close>

definition compact_answer :: "compact_io \<Rightarrow> string \<Rightarrow> http_response \<Rightarrow> header \<Rightarrow> pending \<Rightarrow> answer \<times> pending" where
  "compact_answer io tier resp sent entry =
     (let base = http_io.truncate io;
          wl = captureUpstreamHeaders (hi_lib io) (rs_Header resp) ([], markUpstreamStatus (rs_StatusCode resp) entry)
      in (case readCapabilityResponse (hi_lib io) (pe_error_code (li_post io)) (li_answerNow io) (read_failed base resp) resp maxRequestBodyBytes of
            Inl fail \<Rightarrow> fail_reply base fail wl
          | Inr result \<Rightarrow>
              (case co_envelope io result of
                 Some (True, usage, applied0) \<Rightarrow>
                   (let applied1 = ToLower (TrimSpace applied0);
                        applied = (if applied1 = [] \<and> tier = ''priority'' \<and>
                                      \<not> HasSuffix (Header_Get sent codexRoutingHintHeader) '';tier=priority''
                                   then ''default'' else applied1);
                        e1 = markUsage (extractTokenUsage (hi_lib io)
                               (case usage of Some u \<Rightarrow> [(''usage'', JObj u)] | None \<Rightarrow> [])) (snd wl);
                        e2 = markStatus (rs_StatusCode resp) (markAppliedServiceTier applied e1)
                    in (\<lparr>an_status = rs_StatusCode resp,
                         an_header = Header_Set (turn_state resp (fst wl)) ''Content-Type'' ''application/json'',
                         an_body = RawBody result\<rparr>, e2))
               | _ \<Rightarrow> fail_reply base (failure 502 ''invalid upstream compaction response'') wl)))"

definition compact_post ::
    "compact_io \<Rightarrow> string \<Rightarrow> string \<Rightarrow> string \<Rightarrow> obj \<Rightarrow> pending \<Rightarrow> accountPool \<Rightarrow> (answer \<times> pending) \<times> accountPool \<times> upstream_call list" where
  "compact_post io endpoint model tier body entry pool =
     (let payload = (case lib_Marshal (hi_lib io) (JObj body) of Some enc \<Rightarrow> enc | None \<Rightarrow> [])
      in (case postSubscription (hi_lib io) (config.truncate (hi_cfg io)) (li_post io) endpoint payload
                 (compact_header (hi_header io) model body) pool of
            (Inl fail, pool', calls) \<Rightarrow> (fail_reply (http_io.truncate io) fail ([], entry), pool', calls)
          | (Inr (resp, acct), pool', calls) \<Rightarrow>
              (compact_answer io tier resp (if calls = [] then [] else uc_header (last calls)) entry, pool', calls)))"

definition handleCompact :: "compact_io \<Rightarrow> accountPool \<Rightarrow> handled" where
  "handleCompact io pool =
     (let base = http_io.truncate io;
          fails = (\<lambda>st msg entry. reply (fail_reply base (failure st msg) ([], entry)) pool)
      in if \<not> authorized base then fails 401 ''unauthorized'' (hi_log io)
         else (case decodeRequestBody (hi_reader io) (hi_body io) (Header_Get (hi_header io) ''Content-Encoding'') of
                 Inl _ \<Rightarrow> fails 400 ''compaction requires a JSON object with model and input'' (hi_log io)
               | Inr body0 \<Rightarrow>
                   (if stringField body0 ''model'' = [] \<or> oget body0 ''input'' = JNull
                    then fails 400 ''compaction requires a JSON object with model and input'' (hi_log io)
                    else (let model = fst (normalizeFactoryModel (stringField body0 ''model''));
                              (tier, body) = normalizeServiceTier (oset body0 ''model'' (JStr model)) model;
                              entry = set_tier model tier (hi_log io)
                          in (case codexEndpoint (li_parse io) (li_render io) (config.truncate (hi_cfg io)) ''responses/compact'' of
                                None \<Rightarrow> fails 502 endpoint_error entry
                              | Some endpoint \<Rightarrow> with_slot base entry (compact_post io endpoint model tier body entry) pool)))))"

section \<open>The contract of request handlers\<close>

text \<open>A handler on inputs that extend \<open>http_io\<close>. An unauthorised request is answered 401 and nothing else
  happens; upstream calls are bracketed by a slot of the limiter; the pending history entry carries
  the status that is answered.\<close>

definition honest :: "answer \<times> pending \<Rightarrow> bool" where
  "honest al \<longleftrightarrow> (\<forall>l. snd al = Some l \<longrightarrow> e_Status (pl_Entry l) = an_status (fst al))"

locale guarded_handler =
  fixes base :: "'io \<Rightarrow> http_io" and handler :: "'io \<Rightarrow> accountPool \<Rightarrow> handled"
  assumes gate: "\<not> authorized (base io) \<Longrightarrow>
      an_status (hd_answer (handler io pool)) = 401 \<and> hd_trace (handler io pool) = [] \<and> hd_pool (handler io pool) = pool"
    and bracket: "hd_trace (handler io pool) = [] \<or>
      (\<exists>calls. hd_trace (handler io pool) = Acquired_slot # map Sent calls @ [Released_slot])"
    and answers_honestly: "honest (hd_answer (handler io pool), hd_log (handler io pool))"
begin

lemma sends_only_authorized:
  assumes "Sent c \<in> set (hd_trace (handler io pool))" shows "authorized (base io)"
  using assms gate [of io pool] by fastforce

lemma calls_inside_slot:
  assumes "hd_trace (handler io pool) = xs @ Sent c # ys"
  shows "hd xs = Acquired_slot \<and> xs \<noteq> [] \<and> last ys = Released_slot \<and> ys \<noteq> []"
proof -
  obtain calls where "Acquired_slot # map Sent calls @ [Released_slot] = xs @ Sent c # ys"
    using assms bracket [of io pool] by fastforce
  moreover from this have "xs \<noteq> []" by (cases xs) auto
  moreover from calculation have "ys \<noteq> []" by (cases ys rule: rev_cases) (auto simp: Cons_eq_append_conv)
  ultimately show ?thesis
    by (cases xs; cases ys rule: rev_cases) auto
qed

lemma slots_balanced: "count_list (hd_trace (handler io pool)) Acquired_slot = count_list (hd_trace (handler io pool)) Released_slot"
proof -
  have "count_list (map Sent cs) Acquired_slot = 0" "count_list (map Sent cs) Released_slot = 0" for cs
    by (induction cs) auto
  then show ?thesis using bracket [of io pool] by auto
qed

text \<open>What the deferred \<open>finish\<close> stores.\<close>

lemma history_records_status:
  assumes "hd_log (handler io pool) = Some l" "an_status (hd_answer (handler io pool)) \<noteq> 0"
  shows "e_Status (finish_entry now l) = an_status (hd_answer (handler io pool))"
  using assms answers_honestly [of io pool] by (simp add: honest_def finish_entry_def Let_def)

end

subsection \<open>Honest answers\<close>

lemma honest_markError [simp]: "honest (ans, markError st msg e) \<longleftrightarrow> e = None \<or> st = an_status ans"
  by (cases e) (simp_all add: honest_def markError_def on_entry_def)

lemma honest_markStatus [simp]: "honest (ans, markStatus st e) \<longleftrightarrow> e = None \<or> st = an_status ans"
  by (cases e) (simp_all add: honest_def markStatus_def on_entry_def)

lemma honest_other_marks [simp]:
  "honest (ans, recordAppliedServiceTier tier e) = honest (ans, e)" "honest (ans, markAppliedServiceTier tier e) = honest (ans, e)"
  "honest (ans, markUsage u e) = honest (ans, e)" "honest (ans, markStreamError m e) = honest (ans, e)"
  by (cases e; simp add: honest_def markAppliedServiceTier_def recordAppliedServiceTier_def markUsage_def markStreamError_def on_entry_def)+

lemma answer_status [simp]: "an_status (json_answer st w v) = st" "an_status (writeProxyError st w m) = st"
  "an_status (writeChatCompletionsError st w m p) = st"
  by (simp_all add: json_answer_def writeProxyError_def writeChatCompletionsError_def)

lemma fail_reply_status: "an_status (fst (fail_reply io fail wl)) = df_status fail"
  by (simp add: fail_reply_def writeDispatchFailure_def Let_def split: prod.split)

lemma fail_reply_honest: "honest (fail_reply io fail wl)"
  by (simp add: fail_reply_def writeDispatchFailure_def Let_def split: prod.split)

lemma responses_honest: "honest (responses_answer io info resp e)"
  by (auto simp: responses_answer_def responses_error_def responses_aggregate_def responses_stream_def Let_def
      split: sum.split prod.split option.split)

lemma chat_honest: "honest (chat_answer me io info ci resp e)"
  by (auto simp: chat_answer_def relayChatCompletionsUpstreamError_def chat_aggregate_def chat_stream_answer_def Let_def
      split: sum.split prod.split option.split)

lemma alpha_honest: "honest (alpha_answer io resp e)"
  by (auto simp: alpha_answer_def Let_def split: prod.split)

lemma compact_honest: "honest (compact_answer io tier resp h e)"
  by (auto simp: compact_answer_def Let_def fail_reply_honest split: sum.split option.split bool.split)

lemma live_honest: "honest (fst (live_answer io resp acct e))"
  by (auto simp: live_answer_def Let_def fail_reply_honest split: sum.split)

subsection \<open>The handlers keep the contract\<close>

definition well_handled :: "handled \<Rightarrow> bool" where
  "well_handled h \<longleftrightarrow> honest (hd_answer h, hd_log h) \<and>
     (hd_trace h = [] \<or> (\<exists>calls. hd_trace h = Acquired_slot # map Sent calls @ [Released_slot]))"

lemma well_handled_reply [simp]: "well_handled (reply al pool) = honest al"
  by (cases al) (simp add: well_handled_def reply_def)

lemma well_handled_slot:
  assumes "\<And>pool. honest (fst (rest pool))" shows "well_handled (with_slot io e rest pool)"
proof (cases "hi_slot io")
  case None
  obtain al pool' calls where r: "rest pool = (al, pool', calls)" by (cases "rest pool")
  then show ?thesis using None assms [of pool] by (cases al) (auto simp: with_slot_def well_handled_def)
qed (auto simp: with_slot_def fail_reply_honest)

lemma dispatch_and_honest: "(\<And>resp. honest (answer_with resp e)) \<Longrightarrow> honest (fst (dispatch_and io enc info body e answer_with pool))"
  by (auto simp: dispatch_and_def fail_reply_honest split: prod.split sum.split)

lemma alpha_send_honest: "honest (fst (alpha_send io nr payload e pool))"
  by (auto simp: alpha_send_def Let_def alpha_honest split: prod.split sum.split option.split)

lemma compact_post_honest: "honest (fst (compact_post io endpoint model tier body e pool))"
  by (auto simp: compact_post_def Let_def compact_honest fail_reply_honest split: prod.split sum.split)

lemma live_post_honest: "honest (fst (fst (live_post io endpoint offer e pool)))"
  by (auto simp: live_post_def Let_def live_honest fail_reply_honest split: prod.split sum.split)

lemma unauthorized_well_handled [simp]: "well_handled (unauthorized_reply io pool)"
  by (simp add: unauthorized_reply_def)

lemma guarded_handlerI:
  assumes "\<And>io pool. \<not> authorized (base io) \<Longrightarrow>
      an_status (hd_answer (handler io pool)) = 401 \<and> hd_trace (handler io pool) = [] \<and> hd_pool (handler io pool) = pool"
    and "\<And>io pool. well_handled (handler io pool)"
  shows "guarded_handler base handler"
  using assms by unfold_locales (auto simp: well_handled_def)

lemma refused_reply:
  "an_status (hd_answer (reply (fail_reply io (failure st msg) wl) pool)) = st"
  "hd_trace (reply al pool) = []" "hd_pool (reply al pool) = pool" "an_status (hd_answer (unauthorized_reply io pool)) = 401"
  "hd_trace (unauthorized_reply io pool) = []" "hd_pool (unauthorized_reply io pool) = pool"
  by (simp_all add: reply_def fail_reply_status failure_def unauthorized_reply_def)

interpretation responses: guarded_handler id handleResponses
proof (rule guarded_handlerI)
  show "well_handled (handleResponses io pool)" for io pool
    unfolding handleResponses_def Let_def
    by (auto intro!: well_handled_slot dispatch_and_honest responses_honest split: sum.split prod.split option.split)
qed (simp add: handleResponses_def refused_reply)

interpretation chat_completions: guarded_handler id "handleChatCompletions marshal_error"
proof (rule guarded_handlerI)
  show "well_handled (handleChatCompletions marshal_error io pool)" for io pool
    unfolding handleChatCompletions_def Let_def
    by (auto intro!: well_handled_slot dispatch_and_honest chat_honest split: sum.split prod.split option.split)
qed (simp add: handleChatCompletions_def refused_reply)

interpretation search: guarded_handler id "handleAlphaSearch new_request"
proof (rule guarded_handlerI)
  show "well_handled (handleAlphaSearch new_request io pool)" for io pool
    unfolding handleAlphaSearch_def Let_def
    by (auto intro!: well_handled_slot simp: alpha_send_honest split: option.split)
qed (simp add: handleAlphaSearch_def refused_reply)

interpretation compact: guarded_handler http_io.truncate handleCompact
proof (rule guarded_handlerI)
  show "well_handled (handleCompact io pool)" for io pool
    unfolding handleCompact_def Let_def
    by (auto intro!: well_handled_slot compact_post_honest simp: fail_reply_honest split: sum.split option.split prod.split)
qed (simp add: handleCompact_def Let_def refused_reply)

lemma live_posted_honest: "live_post io ep offer e pool = (r, pool', calls) \<Longrightarrow> honest (fst r)"
  using live_post_honest [of io ep offer e pool] by simp

interpretation live_call: guarded_handler http_io.truncate "\<lambda>io pool. fst (handleLiveCall io pool)"
proof (rule guarded_handlerI)
  show "well_handled (fst (handleLiveCall io pool))" for io pool
    unfolding handleLiveCall_def Let_def
    by (auto intro!: well_handled_slot dest: live_posted_honest simp: fail_reply_honest split: sum.split option.split prod.split)
qed (simp add: handleLiveCall_def Let_def refused_reply)

text \<open>A call handler ends every reservation it makes exactly once, and publishes a call exactly when it
  answers 201.\<close>

lemma truncate_slot [simp]: "hi_slot (http_io.truncate io) = hi_slot io"
  by (simp add: http_io.truncate_def)

lemma live_call_registry_ops:
  assumes "handleLiveCall io pool = (h, ops)"
  shows "ops = [] \<or> ops = [Reserve] \<and> \<not> li_reserved io \<or>
    (\<exists>cid call. ops = [Reserve, Finish cid call] \<and> li_reserved io \<and> (cid \<noteq> [] \<longrightarrow> an_status (hd_answer h) = 201))"
  using assms
  by (auto simp: handleLiveCall_def live_post_def live_answer_def with_slot_def Let_def split: if_splits sum.splits option.splits prod.splits)

subsection \<open>Routes\<close>

text \<open>The routes of \<open>newServerMux\<close> whose handlers send requests upstream and answer over HTTP.\<close>

datatype endpoint = Responses | Compact | RealtimeCall | ChatCompletions | AlphaSearch

definition upstream_routes :: "(string \<times> endpoint) list" where
  "upstream_routes =
     [(''POST /v1/responses'', Responses), (''POST /v1/responses/compact'', Compact), (''POST /v1/realtime/calls'', RealtimeCall),
      (''POST /v1/live'', RealtimeCall), (''POST /v1/codex/responses'', Responses), (''POST /v1/chat/completions'', ChatCompletions),
      (''POST /v1/alpha/search'', AlphaSearch)]"

text \<open>\<open>texts\<close> are the error texts of the JSON encoder and of request construction.\<close>

definition serve :: "string \<times> (string \<Rightarrow> string option) \<Rightarrow> endpoint \<Rightarrow> compact_io \<Rightarrow> accountPool \<Rightarrow> handled" where
  "serve texts ep io pool =
     (case ep of
        Responses \<Rightarrow> handleResponses (http_io.truncate io) pool
      | Compact \<Rightarrow> handleCompact io pool
      | RealtimeCall \<Rightarrow> fst (handleLiveCall (live_io.truncate io) pool)
      | ChatCompletions \<Rightarrow> handleChatCompletions (fst texts) (http_io.truncate io) pool
      | AlphaSearch \<Rightarrow> handleAlphaSearch (snd texts) (http_io.truncate io) pool)"

lemma truncate_truncate [simp]: "http_io.truncate (live_io.truncate io) = http_io.truncate io"
  by (simp add: http_io.truncate_def live_io.truncate_def)

interpretation routed: guarded_handler http_io.truncate "serve texts ep"
proof (cases ep)
  case Responses
  then show "guarded_handler http_io.truncate (serve texts ep)"
    using responses.gate responses.bracket responses.answers_honestly by unfold_locales (auto simp: serve_def)
next
  case Compact
  then show "guarded_handler http_io.truncate (serve texts ep)"
    using compact.gate compact.bracket compact.answers_honestly by unfold_locales (auto simp: serve_def)
next
  case RealtimeCall
  then show "guarded_handler http_io.truncate (serve texts ep)"
    using live_call.gate [of "live_io.truncate io" for io] live_call.bracket live_call.answers_honestly
    by unfold_locales (auto simp: serve_def)
next
  case ChatCompletions
  then show "guarded_handler http_io.truncate (serve texts ep)"
    using chat_completions.gate chat_completions.bracket chat_completions.answers_honestly by unfold_locales (auto simp: serve_def)
next
  case AlphaSearch
  then show "guarded_handler http_io.truncate (serve texts ep)"
    using search.gate search.bracket search.answers_honestly by unfold_locales (auto simp: serve_def)
qed

section \<open>Properties\<close>



definition witness_io :: "bool \<Rightarrow> compact_io" where
  "witness_io ok =
     \<lparr>hi_lib = witness_lib,
      hi_cfg = \<lparr>cfg_promptCacheKey = [], cfg_upstreamOriginator = [], cfg_modelsClientVersion = [], cfg_version = [],
                cfg_upstreamURL = [], cfg_models = [], cfg_modelsURL = [], cfg_alphaSearchURL = []\<rparr>,
      hi_auth = (None, ok), hi_log = Some \<lparr>pl_started = 0, pl_Entry = empty_entry\<rparr>, hi_header = [], hi_body = ''{}'', hi_bodyErr = None,
      hi_reader = \<lparr>br_zstd = Inl, br_decode = \<lambda>s. Inr (Some [], []), br_next = \<lambda>s. AtEOF, br_quote = id\<rparr>,
      hi_slot = None, hi_failNow = 0,
      hi_dispatch = \<lparr>de_ctxErr = \<lambda>_. False, de_now = \<lambda>_. 1, de_current = \<lambda>_ _. Inl ''expired'', de_ctxErrAuth = \<lambda>_. False,
        de_supportsTier = \<lambda>_ _. True, de_newRequestFails = False, de_do = \<lambda>_ _. Inl ''refused'', de_rlNow = \<lambda>_. 1, de_end = 2\<rparr>,
      hi_cut = \<lambda>s. ([], s, True), hi_write = \<lambda>_. True, hi_now = \<lambda>_. 0,
      li_mediaType = None, li_parts = None, li_parse = \<lambda>_. None, li_render = \<lambda>_. [], li_url_path = \<lambda>_. None, li_reserved = True,
      li_post = \<lparr>pe_ctxErr = \<lambda>_. False, pe_now = \<lambda>_. 1, pe_current = \<lambda>_ _. Inl ''expired'', pe_ctxErrAuth = \<lambda>_. False,
        pe_authNow = \<lambda>_. (1, 1), pe_catalog = \<lambda>_ _. None, pe_newRequestFails = False, pe_do = \<lambda>_ _. Inl ''refused'',
        pe_readFails = \<lambda>_. False, pe_rlNow = \<lambda>_. 1, pe_coolNow = \<lambda>_. 1, pe_end = 2, pe_error_code = \<lambda>_. None\<rparr>,
      li_answerNow = 1, li_publishNow = 1, co_envelope = \<lambda>_. None\<rparr>"



end
