(* ===== verification/ChatTranscript.thy ===== *)
theory ChatTranscript
  imports ChatProtocol
begin

text \<open>
  What a client assembles from a translated stream: the concatenation of the content and refusal
  deltas, and the tool calls by index. The assembled answer is compared with the answer a client
  gets that does not stream.
\<close>

section \<open>Assembling a stream\<close>

definition deltas :: "frame list \<Rightarrow> obj list" where
  "deltas frames = concat (map (\<lambda>fr. case fr of Chunk c \<Rightarrow> [delta_of c] | Done \<Rightarrow> []) frames)"

definition streamed :: "string \<Rightarrow> frame list \<Rightarrow> string" where
  "streamed field frames = concat (map (\<lambda>d. chatPayloadString d field) (deltas frames))"

type_synonym call = "string \<times> string \<times> string"

text \<open>An entry of \<open>tool_calls\<close> opens the call of its index or adds arguments to it.\<close>

definition add_entry :: "call list \<Rightarrow> obj \<Rightarrow> call list" where
  "add_entry calls e =
     (let fn = (case oget e ''function'' of JObj fn \<Rightarrow> fn | _ \<Rightarrow> []);
          args = chatPayloadString fn ''arguments''
      in case oget e ''index'' of
           JInt i \<Rightarrow>
             (if nat i = length calls then calls @ [(chatPayloadString e ''id'', chatPayloadString fn ''name'', args)]
              else (case calls ! nat i of (cid, name, old) \<Rightarrow> calls[nat i := (cid, name, old @ args)]))
         | _ \<Rightarrow> calls)"

definition add_delta :: "call list \<Rightarrow> obj \<Rightarrow> call list" where
  "add_delta calls d = (case oget d ''tool_calls'' of JArr [JObj e] \<Rightarrow> add_entry calls e | _ \<Rightarrow> calls)"

definition assembled_calls :: "frame list \<Rightarrow> call list" where
  "assembled_calls frames = foldl add_delta [] (deltas frames)"

text \<open>The finish reasons of a stream.\<close>

definition finish_reasons :: "frame list \<Rightarrow> json list" where
  "finish_reasons frames = filter (\<lambda>r. r \<noteq> JNull)
     (concat (map (\<lambda>fr. case fr of Chunk c \<Rightarrow> (case choice_of c of Some ch \<Rightarrow> [oget ch ''finish_reason''] | None \<Rightarrow> []) | Done \<Rightarrow> []) frames))"

lemma finish_reasons_append: "finish_reasons (xs @ ys) = finish_reasons xs @ finish_reasons ys"
  by (simp add: finish_reasons_def)

lemma deltas_append: "deltas (xs @ ys) = deltas xs @ deltas ys"
  by (simp add: deltas_def)

lemma streamed_append: "streamed f (xs @ ys) = streamed f xs @ streamed f ys"
  by (simp add: streamed_def deltas_append)

section \<open>Effects with a working client\<close>

definition text_of :: "string \<Rightarrow> obj list \<Rightarrow> string" where
  "text_of field ds = concat (map (\<lambda>d. chatPayloadString d field) ds)"

lemma text_of_simps [simp]:
  "text_of f [] = []" "text_of f (d # ds) = chatPayloadString d f @ text_of f ds" "text_of f (xs @ ys) = text_of f xs @ text_of f ys"
  by (simp_all add: text_of_def)

text \<open>An operation that succeeds and sends the given deltas.\<close>

definition emits :: "chat_op \<Rightarrow> chatStreamTranslator \<Rightarrow> chatStreamTranslator \<Rightarrow> obj list \<Rightarrow> bool" where
  "emits f t t' ds \<longleftrightarrow> f t = (None, t') \<and> deltas (ct_out t') = deltas (ct_out t) @ ds \<and>
     finish_reasons (ct_out t') = finish_reasons (ct_out t)"

lemma emits_then: "emits f t u xs \<Longrightarrow> emits g u v ys \<Longrightarrow> emits (and_then f g) t v (xs @ ys)"
  by (simp add: emits_def and_then_def)

lemma emits_skip: "emits skip_op t t []"
  by (simp add: emits_def skip_op_def)

text \<open>What writing leaves alone.\<close>

definition same :: "chatStreamTranslator \<Rightarrow> chatStreamTranslator \<Rightarrow> bool" where
  "same t t' \<longleftrightarrow> ct_tools t' = ct_tools t \<and> ct_toolSeen t' = ct_toolSeen t \<and> ct_contentSeen t' = ct_contentSeen t \<and>
     ct_usage t' = ct_usage t \<and> ct_includeUsage t' = ct_includeUsage t"

lemma same_trans: "same t u \<Longrightarrow> same u v \<Longrightarrow> same t v"
  by (simp add: same_def)

lemma writeChoice_effect:
  assumes "working env"
  obtains t' c where "writeChoice env d fr t = (None, t')" "ct_out t' = ct_out t @ [Chunk c]"
    "choice_of c = Some [(''index'', JInt 0), (''delta'', JObj d), (''logprobs'', JNull), (''finish_reason'', fr)]"
    "deltas [Chunk c] = [d]" "same t t'"
proof -
  obtain b t1 where b: "baseChunk env t = (b, t1)" by (cases "baseChunk env t")
  have t1: "same t t1" "ct_out t1 = ct_out t" "b = chunk_fields t1"
    using b by (auto simp: same_def baseChunk_def base_id_def base_model_def Let_def split: if_splits)
  let ?c = "chunk_fields t1 @ choice_fields d fr @ usage_field t1" and ?t = "t1\<lparr>ct_out := ct_out t @ [Chunk (chunk_fields t1 @ choice_fields d fr @ usage_field t1)]\<rparr>"
  have "writeObject env ?c t1 = (None, t1\<lparr>ct_out := ct_out t1 @ [Chunk ?c]\<rparr>)"
    by (cases rule: writeObject_cases [of env ?c t1]) (use assms in auto)
  then have w: "writeChoice env d fr t = (None, ?t)" using b t1 by (simp add: writeChoice_def)
  moreover have "delta_of ?c = d" by (rule delta_of_fields)
  then have "deltas [Chunk ?c] = [d]" unfolding deltas_def by (simp only: list.map concat.simps frame.case append_Nil2)
  moreover have "same t ?t" using t1(1) by (simp add: same_def)
  ultimately show thesis using choice_of_fields by (intro that [of ?t ?c]) simp_all
qed

lemma content_effect:
  assumes "working env"
  obtains t' where "emits (writeChoice env d JNull) t t' [d]" "same t t'"
proof -
  obtain t' c where t': "writeChoice env d JNull t = (None, t')" "ct_out t' = ct_out t @ [Chunk c]"
    "choice_of c = Some [(''index'', JInt 0), (''delta'', JObj d), (''logprobs'', JNull), (''finish_reason'', JNull)]"
    "deltas [Chunk c] = [d]" "same t t'"
    by (rule writeChoice_effect [OF assms])
  then have "emits (writeChoice env d JNull) t t' [d]"
    by (simp add: emits_def deltas_append finish_reasons_append) (simp add: finish_reasons_def oget_Cons)
  then show thesis using t'(5) by (rule that)
qed

definition role_delta :: obj where
  "role_delta = [(''role'', JStr ''assistant''), (''content'', JStr [])]"

lemma ensureRole_effect:
  assumes "working env"
  obtains t' ds where "emits (ensureRole env) t t' ds" "set ds \<subseteq> {role_delta}" "same t t'"
proof (cases "ct_roleSent t")
  case True
  then show thesis by (intro that [of t "[]"]) (simp_all add: emits_def ensureRole_def same_def)
next
  case False
  obtain t' where w: "emits (writeChoice env role_delta JNull) (t\<lparr>ct_roleSent := True\<rparr>) t' [role_delta]"
    "same (t\<lparr>ct_roleSent := True\<rparr>) t'"
    by (rule content_effect [OF assms])
  then show thesis using False
    by (intro that [of t' "[role_delta]"]) (simp_all add: emits_def ensureRole_def role_delta_def same_def)
qed

lemma say_effect:
  assumes "working env"
  obtains t' ds where "emits (and_then (ensureRole env) (writeChoice env d JNull)) t t' (ds @ [d])" "set ds \<subseteq> {role_delta}" "same t t'"
proof -
  obtain u ds where u: "emits (ensureRole env) t u ds" "set ds \<subseteq> {role_delta}" "same t u"
    by (rule ensureRole_effect [OF assms])
  obtain t' where t': "emits (writeChoice env d JNull) u t' [d]" "same u t'"
    by (rule content_effect [OF assms])
  show thesis by (rule that [OF emits_then [OF u(1) t'(1)] u(2) same_trans [OF u(3) t'(2)]])
qed

text \<open>The role delta says nothing and calls nothing.\<close>

lemma role_deltas_silent:
  assumes "set ds \<subseteq> {role_delta}"
  shows "field \<in> {''content'', ''refusal''} \<Longrightarrow> text_of field ds = []" "foldl add_delta calls ds = calls"
proof -
  have 1: "chatPayloadString role_delta f = []" if "f \<in> {''content'', ''refusal''}" for f
    using that by (auto simp: role_delta_def chatPayloadString_def oget_Cons oget_def)
  have 2: "add_delta cs role_delta = cs" for cs by (simp add: role_delta_def add_delta_def oget_Cons oget_def)
  show "field \<in> {''content'', ''refusal''} \<Longrightarrow> text_of field ds = []" "foldl add_delta calls ds = calls"
    using assms by (induction ds) (auto simp: 1 2)
qed

lemma usage_effect:
  assumes "working env"
  shows "\<exists>t'. emits (usage_chunk env) t t' [] \<or> emits (usage_chunk env) t t' [[]]"
proof (cases "ct_includeUsage t \<and> hasAny (ct_usage t)")
  case False
  then have "emits (usage_chunk env) t t []" by (auto simp: emits_def usage_chunk_def)
  then show ?thesis by blast
next
  case True
  obtain b t1 where b: "baseChunk env t = (b, t1)" by (cases "baseChunk env t")
  have t1: "ct_out t1 = ct_out t" "b = chunk_fields t1" using baseChunk_settles [OF b] by simp_all
  let ?c = "b @ [(''choices'', JArr []), (''usage'', JObj (chatUsageObject (ct_usage t1)))]"
  have "writeObject env ?c t1 = (None, t1\<lparr>ct_out := ct_out t1 @ [Chunk ?c]\<rparr>)"
    by (cases rule: writeObject_cases [of env ?c t1]) (use assms in auto)
  moreover have "choice_of ?c = None" by (simp add: choice_of_def t1(2) chunk_fields_get oget_Cons)
  ultimately have "emits (usage_chunk env) t (t1\<lparr>ct_out := ct_out t1 @ [Chunk ?c]\<rparr>) [[]]"
    using b True t1(1) by (simp add: emits_def usage_chunk_def deltas_append finish_reasons_append)
      (simp add: deltas_def finish_reasons_def delta_of_def)
  then show ?thesis by blast
qed

section \<open>Content\<close>

text \<open>The text of one part of output item \<open>i\<close> that was not sent before.\<close>

definition unseen_part :: "string \<Rightarrow> chatStreamContentKey set \<Rightarrow> int \<Rightarrow> nat \<Rightarrow> json \<Rightarrow> string" where
  "unseen_part f seen i j raw =
     (case part_content raw of
        Some (kind, field, val) \<Rightarrow> (if field = f \<and> (i, int j, kind) \<notin> seen then val else [])
      | None \<Rightarrow> [])"

fun unseen_parts :: "string \<Rightarrow> chatStreamContentKey set \<Rightarrow> int \<Rightarrow> nat \<Rightarrow> json list \<Rightarrow> string" where
  "unseen_parts f seen i j [] = []"
| "unseen_parts f seen i j (raw # raws) = unseen_part f seen i j raw @ unseen_parts f seen i (Suc j) raws"

lemma part_content_field: "part_content raw = Some (kind, field, val) \<Longrightarrow> (kind, field) \<in> {(''text'', ''content''), (''refusal'', ''refusal'')}"
  by (auto simp: part_content_def split: json.splits if_splits)

lemma message_part_effect:
  assumes "working env"
  obtains t' ds where "emits (message_part env i j raw) t t' ds"
    "\<And>f. f \<in> {''content'', ''refusal''} \<Longrightarrow> text_of f ds = unseen_part f (set (ct_contentSeen t)) i j raw"
    "\<And>calls. foldl add_delta calls ds = calls" "ct_tools t' = ct_tools t" "ct_toolSeen t' = ct_toolSeen t"
    "set (ct_contentSeen t) \<subseteq> set (ct_contentSeen t')"
    "set (ct_contentSeen t') \<subseteq> set (ct_contentSeen t) \<union> {(i, int j, ''text''), (i, int j, ''refusal'')}"
proof (cases "part_content raw")
  case None
  then show thesis by (intro that [of t "[]"]) (auto simp: emits_def message_part_def unseen_part_def)
next
  case (Some r)
  then obtain kind field val where r: "part_content raw = Some (kind, field, val)" by (cases r) auto
  note kf = part_content_field [OF r]
  let ?key = "(i, int j, kind)"
  show thesis
  proof (cases "?key \<in> set (ct_contentSeen t)")
    case True
    then show thesis using r by (intro that [of t "[]"]) (auto simp: emits_def message_part_def unseen_part_def)
  next
    case False
    let ?u = "t\<lparr>ct_contentSeen := ?key # ct_contentSeen t\<rparr>"
    obtain t' ds where e: "emits (and_then (ensureRole env) (writeChoice env [(field, JStr val)] JNull)) ?u t' (ds @ [[(field, JStr val)]])"
      "set ds \<subseteq> {role_delta}" "same ?u t'"
      by (rule say_effect [OF assms])
    have "emits (message_part env i j raw) t t' (ds @ [[(field, JStr val)]])"
      using e(1) r False by (simp add: emits_def message_part_def)
    moreover have "text_of f (ds @ [[(field, JStr val)]]) = unseen_part f (set (ct_contentSeen t)) i j raw"
      if "f \<in> {''content'', ''refusal''}" for f
      using role_deltas_silent(1) [OF e(2) that] r False
      by (auto simp: unseen_part_def chatPayloadString_def oget_Cons oget_def)
    moreover have "foldl add_delta calls (ds @ [[(field, JStr val)]]) = calls" for calls
      using role_deltas_silent(2) [OF e(2)] kf by (auto simp: add_delta_def oget_Cons oget_def)
    ultimately show thesis using e(3) kf by (intro that [of t' "ds @ [[(field, JStr val)]]"]) (auto simp: same_def)
  qed
qed

lemma unseen_parts_cong:
  "(\<And>k kind. j \<le> k \<Longrightarrow> (i, int k, kind) \<in> seen' \<longleftrightarrow> (i, int k, kind) \<in> seen) \<Longrightarrow>
   unseen_parts f seen' i j raws = unseen_parts f seen i j raws"
  by (induction raws arbitrary: j) (auto simp: unseen_part_def split: option.split)

lemma message_effect:
  assumes "working env"
  shows "\<exists>t' ds. emits (each_op (message_part env i) j raws) t t' ds \<and>
    (\<forall>f\<in>{''content'', ''refusal''}. text_of f ds = unseen_parts f (set (ct_contentSeen t)) i j raws) \<and>
    (\<forall>calls. foldl add_delta calls ds = calls) \<and> ct_tools t' = ct_tools t \<and> ct_toolSeen t' = ct_toolSeen t \<and>
    set (ct_contentSeen t) \<subseteq> set (ct_contentSeen t') \<and> set (ct_contentSeen t') \<subseteq> set (ct_contentSeen t) \<union> {k. fst k = i}"
proof (induction raws arbitrary: j t)
  case Nil
  show ?case using emits_skip [of t] by (intro exI [of _ t] exI [of _ "[]"]) auto
next
  case (Cons raw raws)
  obtain u xs where u: "emits (message_part env i j raw) t u xs"
    "\<And>f. f \<in> {''content'', ''refusal''} \<Longrightarrow> text_of f xs = unseen_part f (set (ct_contentSeen t)) i j raw"
    "\<And>calls. foldl add_delta calls xs = calls" "ct_tools u = ct_tools t" "ct_toolSeen u = ct_toolSeen t"
    "set (ct_contentSeen t) \<subseteq> set (ct_contentSeen u)"
    "set (ct_contentSeen u) \<subseteq> set (ct_contentSeen t) \<union> {(i, int j, ''text''), (i, int j, ''refusal'')}"
    by (rule message_part_effect [OF assms]) blast
  from Cons.IH [of "Suc j" u] obtain t' ys where t': "emits (each_op (message_part env i) (Suc j) raws) u t' ys"
    "\<And>f. f \<in> {''content'', ''refusal''} \<Longrightarrow> text_of f ys = unseen_parts f (set (ct_contentSeen u)) i (Suc j) raws"
    "\<And>calls. foldl add_delta calls ys = calls" "ct_tools t' = ct_tools u" "ct_toolSeen t' = ct_toolSeen u"
    "set (ct_contentSeen u) \<subseteq> set (ct_contentSeen t')" "set (ct_contentSeen t') \<subseteq> set (ct_contentSeen u) \<union> {k. fst k = i}"
    by blast
  have cong: "unseen_parts f (set (ct_contentSeen u)) i (Suc j) raws = unseen_parts f (set (ct_contentSeen t)) i (Suc j) raws" for f
    by (rule unseen_parts_cong) (use u(6,7) in auto)
  show ?case
    using emits_then [OF u(1) t'(1)] u t' cong by (intro exI [of _ t'] exI [of _ "xs @ ys"]) auto
qed

section \<open>Calls\<close>

lemma update_fresh: "map_of ps k = None \<Longrightarrow> AList.update k v ps = ps @ [(k, v)]"
  by (induction ps) auto

lemma tool_delta_silent: "f \<in> {''content'', ''refusal''} \<Longrightarrow> chatPayloadString (tool_delta n item) f = []"
    "f \<in> {''content'', ''refusal''} \<Longrightarrow> chatPayloadString (arguments_delta n args) f = []"
  by (auto simp: tool_delta_def arguments_delta_def chatPayloadString_def oget_Cons oget_def)

definition call_of :: "obj \<Rightarrow> call" where
  "call_of item = (valueOr (stringField item ''call_id'') (stringField item ''id''), stringField item ''name'',
     chatPayloadString item ''arguments'')"

lemma add_tool_delta: "length calls = n \<Longrightarrow> add_delta calls (tool_delta n item) = calls @ [call_of item]"
  by (simp add: add_delta_def add_entry_def tool_delta_def call_of_def Let_def oget_Cons chatPayloadString_def)

lemma ensureTool_effect:
  assumes "working env"
  obtains t' ds where "emits (ensureTool env item i) t t' ds"
    "\<forall>f\<in>{''content'', ''refusal''}. text_of f ds = []" "ct_contentSeen t' = ct_contentSeen t"
    "map_of (ct_tools t') (tool_key item i) \<noteq> None"
    "map_of (ct_tools t) (tool_key item i) = None \<longrightarrow>
       ct_tools t' = ct_tools t @ [(tool_key item i, \<lparr>st_index = length (ct_tools t),
                                     st_argumentsEmitted = chatPayloadString item ''arguments'' \<noteq> []\<rparr>)] \<and> ct_toolSeen t' \<and>
       (\<forall>calls. length calls = length (ct_tools t) \<longrightarrow> foldl add_delta calls ds = calls @ [call_of item])"
proof -
  obtain u xs where u: "emits (ensureRole env) t u xs" "set xs \<subseteq> {role_delta}" "same t u"
    by (rule ensureRole_effect [OF assms])
  let ?key = "tool_key item i"
  let ?tool = "\<lparr>st_index = length (ct_tools u), st_argumentsEmitted = chatPayloadString item ''arguments'' \<noteq> []\<rparr>"
  show thesis
  proof (cases "map_of (ct_tools u) ?key")
    case None
    let ?v = "u\<lparr>ct_tools := AList.update ?key ?tool (ct_tools u), ct_toolSeen := True\<rparr>"
    obtain t' where t': "emits (writeChoice env (tool_delta (length (ct_tools u)) item) JNull) ?v t' [tool_delta (length (ct_tools u)) item]"
      "same ?v t'"
      by (rule content_effect [OF assms])
    have "emits (\<lambda>t. if map_of (ct_tools t) ?key \<noteq> None then (None, t) else new_tool env item i t) u t' [tool_delta (length (ct_tools u)) item]"
      using t'(1) None by (simp add: emits_def new_tool_def)
    from emits_then [OF u(1) this] have e: "emits (ensureTool env item i) t t' (xs @ [tool_delta (length (ct_tools u)) item])"
      by (simp add: ensureTool_def)
    have "AList.update ?key ?tool (ct_tools u) = ct_tools u @ [(?key, ?tool)]"
      by (rule update_fresh [OF None])
    then show thesis using u t'(2) role_deltas_silent [OF u(2)] tool_delta_silent
      by (intro that [OF e]) (auto simp: same_def add_tool_delta)
  next
    case (Some tool)
    then have e: "emits (ensureTool env item i) t u (xs @ [])"
      unfolding ensureTool_def by (intro emits_then [OF u(1)]) (simp add: emits_def)
    show thesis using Some u role_deltas_silent [OF u(2)] by (intro that [OF e]) (auto simp: same_def)
  qed
qed

lemma tool_once_effect:
  assumes "working env"
  obtains t' ds where "emits (tool_arguments_once env item i) t t' ds"
    "\<forall>f\<in>{''content'', ''refusal''}. text_of f ds = []" "ct_contentSeen t' = ct_contentSeen t"
    "map_of (ct_tools t) (tool_key item i) = None \<longrightarrow>
       map fst (ct_tools t') = map fst (ct_tools t) @ [tool_key item i] \<and> ct_toolSeen t' \<and>
       (\<forall>calls. length calls = length (ct_tools t) \<longrightarrow> foldl add_delta calls ds = calls @ [call_of item])"
proof -
  obtain u xs where u: "emits (ensureTool env item i) t u xs"
    "\<forall>f\<in>{''content'', ''refusal''}. text_of f xs = []" "ct_contentSeen u = ct_contentSeen t"
    and fresh: "map_of (ct_tools t) (tool_key item i) = None \<longrightarrow>
       ct_tools u = ct_tools t @ [(tool_key item i, \<lparr>st_index = length (ct_tools t),
                                     st_argumentsEmitted = chatPayloadString item ''arguments'' \<noteq> []\<rparr>)] \<and> ct_toolSeen u \<and>
       (\<forall>calls. length calls = length (ct_tools t) \<longrightarrow> foldl add_delta calls xs = calls @ [call_of item])"
    by (rule ensureTool_effect [OF assms])
  let ?args = "chatPayloadString item ''arguments''" and ?key = "tool_key item i"
  let ?late = "?args \<noteq> [] \<and> (case map_of (ct_tools u) ?key of Some tool \<Rightarrow> \<not> st_argumentsEmitted tool | None \<Rightarrow> False)"
  show thesis
  proof (cases ?late)
    case False
    then have e: "emits (tool_arguments_once env item i) t u (xs @ [])"
      unfolding tool_arguments_once_def by (intro emits_then [OF u(1)]) (auto simp: emits_def Let_def)
    show thesis using u fresh by (intro that [OF e]) auto
  next
    case True
    then obtain tool where tool: "map_of (ct_tools u) ?key = Some tool" by (auto split: option.splits)
    obtain t' where t': "emits (writeChoice env (arguments_delta (st_index tool) ?args) JNull) (mark_emitted ?key u) t'
        [arguments_delta (st_index tool) ?args]" "same (mark_emitted ?key u) t'"
      by (rule content_effect [OF assms])
    have "ct_out (mark_emitted ?key u) = ct_out u" "ct_contentSeen (mark_emitted ?key u) = ct_contentSeen u"
      by (simp_all add: mark_emitted_def split: option.split)
    then have "emits (emit_arguments env ?key ?args) u t' [arguments_delta (st_index tool) ?args]"
      and seen: "ct_contentSeen t' = ct_contentSeen u"
      using t' tool by (auto simp: emits_def emit_arguments_def writeToolArguments_def same_def)
    then have "emits (\<lambda>t. let arguments = ?args; key = ?key
        in if arguments \<noteq> [] \<and> (case map_of (ct_tools t) key of Some tool \<Rightarrow> \<not> st_argumentsEmitted tool | None \<Rightarrow> False)
           then emit_arguments env key arguments t else (None, t)) u t' [arguments_delta (st_index tool) ?args]"
      using True by (simp add: emits_def Let_def)
    from emits_then [OF u(1) this]
    have e: "emits (tool_arguments_once env item i) t t' (xs @ [arguments_delta (st_index tool) ?args])"
      by (simp add: tool_arguments_once_def)
    have "map_of (ct_tools t) ?key \<noteq> None" using fresh True by (auto simp: map_add_def split: option.splits)
    then show thesis using u seen tool_delta_silent by (intro that [OF e]) auto
  qed
qed

section \<open>The terminal event\<close>

fun unseen_items :: "string \<Rightarrow> chatStreamContentKey set \<Rightarrow> nat \<Rightarrow> json list \<Rightarrow> string" where
  "unseen_items f seen i [] = []"
| "unseen_items f seen i (raw # raws) =
     concat (map (\<lambda>item. unseen_parts f seen (int i) 0 (item_content item)) (message_items [raw])) @ unseen_items f seen (Suc i) raws"

fun call_keys :: "nat \<Rightarrow> json list \<Rightarrow> string list" where
  "call_keys i [] = []"
| "call_keys i (raw # raws) = map (\<lambda>item. tool_key item (int i)) (call_items [raw]) @ call_keys (Suc i) raws"

lemma unseen_items_cong:
  "(\<And>k j kind. i \<le> k \<Longrightarrow> (int k, j, kind) \<in> seen' \<longleftrightarrow> (int k, j, kind) \<in> seen) \<Longrightarrow>
   unseen_items f seen' i raws = unseen_items f seen i raws"
proof (induction raws arbitrary: i)
  case (Cons raw raws)
  have "unseen_parts f seen' (int i) 0 ps = unseen_parts f seen (int i) 0 ps" for ps
    by (rule unseen_parts_cong) (use Cons.prems in simp)
  then show ?case using Cons by simp
qed simp

lemma fallback_item_effect:
  assumes "working env"
  shows "\<exists>t' ds. emits (fallback_item env i raw) t t' ds \<and>
    (\<forall>f\<in>{''content'', ''refusal''}. text_of f ds = unseen_items f (set (ct_contentSeen t)) i [raw]) \<and>
    set (ct_contentSeen t') \<subseteq> set (ct_contentSeen t) \<union> {k. fst k = int i} \<and> set (ct_contentSeen t) \<subseteq> set (ct_contentSeen t') \<and>
    (set (call_keys i [raw]) \<inter> fst ` set (ct_tools t) = {} \<longrightarrow>
       map fst (ct_tools t') = map fst (ct_tools t) @ call_keys i [raw] \<and>
       ct_toolSeen t' = (ct_toolSeen t \<or> call_items [raw] \<noteq> []) \<and>
       (\<forall>calls. length calls = length (ct_tools t) \<longrightarrow> foldl add_delta calls ds = calls @ map call_of (call_items [raw])))"
proof -
  consider (message) item where "raw = JObj item" "stringField item ''type'' = ''message''"
    | (call) item where "raw = JObj item" "stringField item ''type'' = ''function_call''"
    | (other) "message_items [raw] = []" "call_items [raw] = []" "fallback_item env i raw = skip_op"
    by (cases raw) (fastforce simp: message_items_def call_items_def fallback_item_def)+
  then show ?thesis
  proof cases
    case message
    then have it: "message_items [raw] = [item]" "call_items [raw] = []"
      "fallback_item env i raw = each_op (message_part env (int i)) 0 (item_content item)"
      by (simp_all add: message_items_def call_items_def fallback_item_def emitMessageFallback_def item_content_def)
    show ?thesis using message_effect [OF assms, of "int i" 0 "item_content item" t] unfolding it(3)
      by (elim exE conjE, intro exI conjI) (auto simp: it)
  next
    case call
    then have it: "message_items [raw] = []" "call_items [raw] = [item]" "fallback_item env i raw = tool_arguments_once env item (int i)"
      by (simp_all add: message_items_def call_items_def fallback_item_def)
    obtain t' ds where "emits (tool_arguments_once env item (int i)) t t' ds"
      "\<forall>f\<in>{''content'', ''refusal''}. text_of f ds = []" "ct_contentSeen t' = ct_contentSeen t"
      "map_of (ct_tools t) (tool_key item (int i)) = None \<longrightarrow>
         map fst (ct_tools t') = map fst (ct_tools t) @ [tool_key item (int i)] \<and> ct_toolSeen t' \<and>
         (\<forall>calls. length calls = length (ct_tools t) \<longrightarrow> foldl add_delta calls ds = calls @ [call_of item])"
      by (rule tool_once_effect [OF assms])
    then show ?thesis unfolding it(3) by (intro exI conjI) (auto simp: it map_of_eq_None_iff)
  next
    case other
    show ?thesis using emits_skip [of t] unfolding other(3) by (intro exI [of _ t] exI [of _ "[]"]) (simp add: other)
  qed
qed

lemma items_effect:
  assumes "working env"
  shows "\<exists>t' ds. emits (each_op (fallback_item env) i raws) t t' ds \<and>
    (\<forall>f\<in>{''content'', ''refusal''}. text_of f ds = unseen_items f (set (ct_contentSeen t)) i raws) \<and>
    (distinct (map fst (ct_tools t) @ call_keys i raws) \<longrightarrow>
       ct_toolSeen t' = (ct_toolSeen t \<or> call_items raws \<noteq> []) \<and>
       (\<forall>calls. length calls = length (ct_tools t) \<longrightarrow> foldl add_delta calls ds = calls @ map call_of (call_items raws)))"
proof (induction raws arbitrary: i t)
  case Nil
  show ?case using emits_skip [of t] by (intro exI [of _ t] exI [of _ "[]"]) (simp add: call_items_def)
next
  case (Cons raw raws)
  obtain u xs where u: "emits (fallback_item env i raw) t u xs"
    "\<forall>f\<in>{''content'', ''refusal''}. text_of f xs = unseen_items f (set (ct_contentSeen t)) i [raw]"
    "set (ct_contentSeen u) \<subseteq> set (ct_contentSeen t) \<union> {k. fst k = int i}" "set (ct_contentSeen t) \<subseteq> set (ct_contentSeen u)"
    and calls: "set (call_keys i [raw]) \<inter> fst ` set (ct_tools t) = {} \<longrightarrow>
       map fst (ct_tools u) = map fst (ct_tools t) @ call_keys i [raw] \<and>
       ct_toolSeen u = (ct_toolSeen t \<or> call_items [raw] \<noteq> []) \<and>
       (\<forall>calls. length calls = length (ct_tools t) \<longrightarrow> foldl add_delta calls xs = calls @ map call_of (call_items [raw]))"
    using fallback_item_effect [OF assms, of i raw t] by blast
  obtain t' ys where t': "emits (each_op (fallback_item env) (Suc i) raws) u t' ys"
    "\<forall>f\<in>{''content'', ''refusal''}. text_of f ys = unseen_items f (set (ct_contentSeen u)) (Suc i) raws"
    and calls': "distinct (map fst (ct_tools u) @ call_keys (Suc i) raws) \<longrightarrow>
       ct_toolSeen t' = (ct_toolSeen u \<or> call_items raws \<noteq> []) \<and>
       (\<forall>calls. length calls = length (ct_tools u) \<longrightarrow> foldl add_delta calls ys = calls @ map call_of (call_items raws))"
    using Cons.IH [of "Suc i" u] by blast
  have cong: "unseen_items f (set (ct_contentSeen u)) (Suc i) raws = unseen_items f (set (ct_contentSeen t)) (Suc i) raws" for f
    by (rule unseen_items_cong) (use u(3,4) in auto)
  have split: "call_items (raw # raws) = call_items [raw] @ call_items raws" by (simp add: call_items_def)
  have len: "length (call_keys i [raw]) = length (call_items [raw])" by simp
  have "ct_toolSeen t' = (ct_toolSeen t \<or> call_items (raw # raws) \<noteq> []) \<and>
      (\<forall>calls. length calls = length (ct_tools t) \<longrightarrow> foldl add_delta calls (xs @ ys) = calls @ map call_of (call_items (raw # raws)))"
    if d: "distinct (map fst (ct_tools t) @ call_keys i (raw # raws))"
  proof -
    have "set (call_keys i [raw]) \<inter> fst ` set (ct_tools t) = {}" using d by auto
    with calls have c: "map fst (ct_tools u) = map fst (ct_tools t) @ call_keys i [raw]"
       "ct_toolSeen u = (ct_toolSeen t \<or> call_items [raw] \<noteq> [])"
       "\<And>calls. length calls = length (ct_tools t) \<Longrightarrow> foldl add_delta calls xs = calls @ map call_of (call_items [raw])" by auto
    have "length (ct_tools u) = length (ct_tools t) + length (call_items [raw])"
      using arg_cong [OF c(1), of length] len by simp
    moreover have "distinct (map fst (ct_tools u) @ call_keys (Suc i) raws)" using d c(1) by simp
    ultimately show ?thesis using c calls' split by simp
  qed
  then show ?case
    using emits_then [OF u(1) t'(1)] u(2) t'(2) cong by (intro exI [of _ t'] exI [of _ "xs @ ys"]) auto
qed

text \<open>A terminal event sends the content that was not sent before, the calls that were not opened, and
  one finish reason.\<close>

lemma chat_finish_effect:
  assumes "working env" "\<not> ct_terminal t" "stringField r ''status'' \<notin> {''failed'', ''cancelled''}"
  defines "outs \<equiv> array_or_nil (oget r ''output'')"
  shows "\<exists>t' ds toolSeen. chat_finish env (Some r) t = (None, t') \<and> deltas (ct_out t') = deltas (ct_out t) @ ds \<and> ct_terminal t' \<and>
    (\<forall>f\<in>{''content'', ''refusal''}. text_of f ds = unseen_items f (set (ct_contentSeen t)) 0 outs) \<and>
    finish_reasons (ct_out t') = finish_reasons (ct_out t) @ [JStr (chatFinishReason r toolSeen)] \<and>
    (distinct (map fst (ct_tools t) @ call_keys 0 outs) \<longrightarrow>
       toolSeen = (ct_toolSeen t \<or> call_items outs \<noteq> []) \<and>
       (\<forall>calls. length calls = length (ct_tools t) \<longrightarrow> foldl add_delta calls ds = calls @ map call_of (call_items outs)))"
proof -
  let ?t = "captureResponse env r t"
  have cap: "ct_out ?t = ct_out t" "ct_contentSeen ?t = ct_contentSeen t" "ct_tools ?t = ct_tools t" "ct_toolSeen ?t = ct_toolSeen t"
    by (simp_all add: captureResponse_def capture_identity_def Let_def)
  obtain u xs where u: "emits (emitResponseOutputFallback env r) ?t u xs"
    "\<forall>f\<in>{''content'', ''refusal''}. text_of f xs = unseen_items f (set (ct_contentSeen t)) 0 outs"
    and calls: "distinct (map fst (ct_tools t) @ call_keys 0 outs) \<longrightarrow>
       ct_toolSeen u = (ct_toolSeen t \<or> call_items outs \<noteq> []) \<and>
       (\<forall>calls. length calls = length (ct_tools t) \<longrightarrow> foldl add_delta calls xs = calls @ map call_of (call_items outs))"
    using items_effect [OF assms(1), of 0 outs ?t] unfolding cap emitResponseOutputFallback_def outs_def by blast
  obtain v ys where v: "emits (ensureRole env) u v ys" "set ys \<subseteq> {role_delta}" "same u v"
    by (rule ensureRole_effect [OF assms(1)])
  let ?reason = "JStr (chatFinishReason r (ct_toolSeen v))"
  obtain w c where w: "writeChoice env [] ?reason v = (None, w)" "ct_out w = ct_out v @ [Chunk c]"
    "choice_of c = Some [(''index'', JInt 0), (''delta'', JObj []), (''logprobs'', JNull), (''finish_reason'', ?reason)]"
    "deltas [Chunk c] = [[]]"
    by (rule writeChoice_effect [OF assms(1)])
  have fin: "finish_reasons [Chunk c] = [?reason]" using w(3) by (simp add: finish_reasons_def oget_Cons)
  obtain x where x: "emits (usage_chunk env) w x [] \<or> emits (usage_chunk env) w x [[]]"
    using usage_effect [OF assms(1)] by blast
  have dn: "writeDone env (x\<lparr>ct_terminal := True\<rparr>) = (None, x\<lparr>ct_terminal := True, ct_out := ct_out x @ [Done]\<rparr>)"
    by (cases rule: writeDone_cases [of env "x\<lparr>ct_terminal := True\<rparr>"]) (use assms(1) in auto)
  let ?t' = "x\<lparr>ct_terminal := True, ct_out := ct_out x @ [Done]\<rparr>"
  have "chat_finish env (Some r) t = (None, ?t')"
    using assms(2,3) u(1) v(1) w(1) x dn by (auto simp: chat_finish_def and_then_def emits_def)
  moreover obtain zs where zs: "zs = [] \<or> zs = [[]]" "deltas (ct_out x) = deltas (ct_out w) @ zs"
    "finish_reasons (ct_out x) = finish_reasons (ct_out w)"
    using x by (auto simp: emits_def)
  define ds where "ds = xs @ ys @ [[]] @ zs"
  have "deltas (ct_out ?t') = deltas (ct_out t) @ ds"
    unfolding ds_def using u(1) v(1) w(2,4) zs(2) cap by (simp add: emits_def deltas_append) (simp add: deltas_def)
  moreover have "finish_reasons (ct_out ?t') = finish_reasons (ct_out t) @ [?reason]"
    using u(1) v(1) w(2) fin zs(3) cap by (simp add: emits_def finish_reasons_append) (simp add: finish_reasons_def)
  moreover have "text_of f ds = unseen_items f (set (ct_contentSeen t)) 0 outs"
    if "f \<in> {''content'', ''refusal''}" for f
    using that u(2) role_deltas_silent(1) [OF v(2) that] zs(1) by (auto simp: ds_def chatPayloadString_def oget_def)
  moreover have "foldl add_delta cs ds = foldl add_delta cs xs" for cs
    using role_deltas_silent(2) [OF v(2)] zs(1) by (auto simp: ds_def add_delta_def oget_def)
  ultimately show ?thesis using calls v(3)
    by (intro exI [of _ ?t'] exI [of _ ds] exI [of _ "ct_toolSeen v"]) (simp add: same_def)
qed

section \<open>The answer of a client that does not stream\<close>

lemma Join_empty: "Join xs [] = concat xs"
  by (induction xs "[] :: string" rule: Join.induct) auto

lemma unseen_part_fresh:
  "unseen_part ''content'' {} i j raw = concat (text_of_part raw)"
  "unseen_part ''refusal'' {} i j raw = concat (refusal_of_part raw)"
  by (simp_all add: unseen_part_def part_content_def text_of_part_def refusal_of_part_def split: json.split)

lemma unseen_parts_fresh:
  "unseen_parts ''content'' {} i j raws = concat (concat (map text_of_part raws))"
  "unseen_parts ''refusal'' {} i j raws = concat (concat (map refusal_of_part raws))"
  by (induction raws arbitrary: j) (simp_all add: unseen_part_fresh)

lemma message_items_Cons: "message_items (raw # raws) = message_items [raw] @ message_items raws"
  by (simp add: message_items_def)

lemma unseen_items_fresh:
  "unseen_items ''content'' {} i raws = concat (concat (map (\<lambda>item. concat (map text_of_part (item_content item))) (message_items raws)))"
  "unseen_items ''refusal'' {} i raws = concat (concat (map (\<lambda>item. concat (map refusal_of_part (item_content item))) (message_items raws)))"
proof (induction raws arbitrary: i)
  case Nil
  { case 1 show ?case by (simp add: message_items_def) next case 2 show ?case by (simp add: message_items_def) }
next
  case (Cons raw raws)
  have [simp]: "concat (map (\<lambda>item. concat (concat (map g (item_content item)))) ms) =
      concat (concat (map (\<lambda>item. concat (map g (item_content item))) ms))" for g :: "json \<Rightarrow> string list" and ms
    by (induction ms) simp_all
  { case 1 show ?case using Cons.IH(1) by (subst message_items_Cons) (simp add: unseen_parts_fresh) next
    case 2 show ?case using Cons.IH(2) by (subst message_items_Cons) (simp add: unseen_parts_fresh) }
qed

definition call_json :: "call \<Rightarrow> json" where
  "call_json c = (case c of (cid, name, args) \<Rightarrow>
     JObj [(''id'', JStr cid), (''type'', JStr ''function''),
           (''function'', JObj [(''name'', JStr name), (''arguments'', JStr (valueOr args ''{}''))])])"

lemma call_json_of: "call_json (call_of item) = chat_tool_call item"
  by (simp add: call_json_def call_of_def chat_tool_call_def)

text \<open>The one choice of a completion and its message.\<close>

definition completion_message :: "obj \<Rightarrow> obj" where
  "completion_message completion = (case choice_of completion of
     Some ch \<Rightarrow> (case oget ch ''message'' of JObj m \<Rightarrow> m | _ \<Rightarrow> []) | None \<Rightarrow> [])"

definition completion_finish :: "obj \<Rightarrow> json" where
  "completion_finish completion = (case choice_of completion of Some ch \<Rightarrow> oget ch ''finish_reason'' | None \<Rightarrow> JNull)"

lemma chatCompletion_parts:
  assumes "stringField r ''status'' \<notin> {''failed'', ''cancelled''}"
  defines "outs \<equiv> array_or_nil (oget r ''output'')"
  obtains c where "chatCompletionFromResponse lib now r model = Inr c"
    "chatPayloadString (completion_message c) ''content'' = unseen_items ''content'' {} 0 outs"
    "chatPayloadString (completion_message c) ''refusal'' = unseen_items ''refusal'' {} 0 outs"
    "array_or_nil (oget (completion_message c) ''tool_calls'') = map chat_tool_call (call_items outs)"
    "completion_finish c = JStr (chatFinishReason r (call_items outs \<noteq> []))"
proof -
  obtain c where c: "chatCompletionFromResponse lib now r model = Inr c"
    using assms by (simp add: chatCompletionFromResponse_def Let_def output_items)
  let ?ts = "concat (map (\<lambda>item. concat (map text_of_part (item_content item))) (message_items outs))"
  let ?rs = "concat (map (\<lambda>item. concat (map refusal_of_part (item_content item))) (message_items outs))"
  have ch: "choice_of c = Some [(''index'', JInt 0),
      (''message'', JObj (chat_message_object ?ts ?rs (map chat_tool_call (call_items outs)))),
      (''logprobs'', JNull), (''finish_reason'', JStr (chatFinishReason r (call_items outs \<noteq> [])))]"
    using c assms(1) by (auto simp: chatCompletionFromResponse_def Let_def output_items outs_def choice_of_def oget_Cons)
  show thesis
    using ch by (intro that [OF c])
      (auto simp: completion_message_def completion_finish_def chat_message_object_def oget_Cons oget_def chatPayloadString_def
        unseen_items_fresh Join_empty array_or_nil_def)
qed

section \<open>Properties\<close>

text \<open>A terminal event completes the stream without repeating anything: for a connected client the
  text (and the refusal) streamed after it is the text streamed before followed by exactly those
  content parts of the final response, in order, for which neither a non-empty delta nor an earlier
  output item was sent; then one finish reason follows.\<close>

theorem terminal_event_completes_text:
  assumes "working env" "\<not> ct_terminal t" "stringField r ''status'' \<notin> {''failed'', ''cancelled''}"
  shows "\<exists>t' reason. chat_finish env (Some r) t = (None, t') \<and> ct_terminal t' \<and>
    (\<forall>f\<in>{''content'', ''refusal''}. streamed f (ct_out t') =
       streamed f (ct_out t) @ unseen_items f (set (ct_contentSeen t)) 0 (array_or_nil (oget r ''output''))) \<and>
    finish_reasons (ct_out t') = finish_reasons (ct_out t) @ [JStr reason]"
proof -
  obtain t' ds seen where t': "chat_finish env (Some r) t = (None, t')" "deltas (ct_out t') = deltas (ct_out t) @ ds" "ct_terminal t'"
    "\<forall>f\<in>{''content'', ''refusal''}. text_of f ds = unseen_items f (set (ct_contentSeen t)) 0 (array_or_nil (oget r ''output''))"
    "finish_reasons (ct_out t') = finish_reasons (ct_out t) @ [JStr (chatFinishReason r seen)]"
    using chat_finish_effect [OF assms] by blast
  then show ?thesis
    by (intro exI [of _ t'] exI [of _ "chatFinishReason r seen"]) (simp add: streamed_def flip: text_of_def)
qed

theorem terminal_event_completes_text_witness:
  "\<exists>t' reason. chat_finish witness_env (Some [(''status'', JStr ''completed'')]) (new_translator witness_env ''gpt-6-sol'' True) = (None, t') \<and>
     ct_terminal t' \<and> finish_reasons (ct_out t') = [JStr reason]"
proof -
  have "working witness_env" by (simp add: working_def witness_env_def witness_lib_def)
  moreover have "\<not> ct_terminal (new_translator witness_env ''gpt-6-sol'' True)" by (simp add: new_translator_def)
  moreover have "stringField [(''status'', JStr ''completed'')] ''status'' \<notin> {''failed'', ''cancelled''}" by code_simp
  ultimately have "\<exists>t' reason. chat_finish witness_env (Some [(''status'', JStr ''completed'')]) (new_translator witness_env ''gpt-6-sol'' True) = (None, t') \<and>
      ct_terminal t' \<and> finish_reasons (ct_out t') = finish_reasons (ct_out (new_translator witness_env ''gpt-6-sol'' True)) @ [JStr reason]"
    using terminal_event_completes_text by blast
  then show ?thesis by (simp add: new_translator_def finish_reasons_def)
qed


definition witness_response :: obj where
  "witness_response = [(''status'', JStr ''completed''),
     (''output'', JArr [JObj [(''type'', JStr ''message''), (''content'', JArr [JObj [(''type'', JStr ''output_text''), (''text'', JStr ''hi'')]])],
                      JObj [(''type'', JStr ''function_call''), (''id'', JStr ''fc_1''), (''name'', JStr ''look''), (''arguments'', JStr ''{}'')]])]"

definition witness_full :: chat_env where
  "witness_full = witness_env\<lparr>ce_lib := witness_lib\<lparr>lib_Unmarshal :=
     (\<lambda>s. if s = ''full'' then Some (JObj [(''type'', JStr ''response.completed''), (''response'', JObj witness_response)]) else None)\<rparr>\<rparr>"


end
