(* ===== verification/Auth.thy ===== *)
theory Auth
  imports Broker_Result Headers Dispatch
begin

text \<open>
  Credentials of an account, \<^verbatim>\<open>src/auth.go\<close> (and \<open>syncDir\<close> of \<^verbatim>\<open>src/util.go\<close>): reading the auth file, the
  expiry of its access token, the refresh at the token endpoint and the atomic replacement of the
  file. A call of \<open>current\<close> is one step here and concurrent callers are sequences of calls, which theory
  CredentialLock justifies by the mutex and the lock file. The file is its bytes, \<open>None\<close> where it cannot be read; JSON, base64 and form
  encoding, the token endpoint and the operating system are arguments.
\<close>

section \<open>Definitions\<close>

record tokenSet =
  ts_IDToken :: string
  ts_AccessToken :: string
  ts_RefreshToken :: string
  ts_AccountID :: string

record authDocument =
  ad_raw :: obj
  ad_tokens :: tokenSet

record tokenResponse =
  tr_AccessToken :: string
  tr_RefreshToken :: string
  tr_ExpiresIn :: int

record authMaterial = accessMaterial +
  am_ExpiresAt :: gotime
  am_ExpiresIn :: int
  am_IssuedAt :: gotime
  am_Refreshed :: bool

text \<open>The library: \<open>json.Unmarshal\<close> (with the texts of its errors), \<open>base64.RawURLEncoding\<close>, the
  indenting encoder, the decoder of a token response, \<open>url.Values.Encode\<close> and time formatting.\<close>

record auth_lib =
  al_lib :: golib
  al_jsonErr :: "string \<Rightarrow> string"
  al_b64 :: "string \<Rightarrow> string + string"
  al_encode :: "json \<Rightarrow> string + string"
  al_tokens :: "string \<Rightarrow> string + tokenResponse"
  al_form :: "(string \<times> string) list \<Rightarrow> string"
  al_format :: "gotime \<Rightarrow> string"

text \<open>What one call meets: the context at its three checks, the lock, the clock, the token endpoint as
  a function of the posted form, and the steps of the file replacement (the text of the error of each
  step, if any).\<close>

record auth_io =
  ai_ctx :: "nat \<Rightarrow> string option"
  ai_lock :: "string option"
  ai_readErr :: string
  ai_now :: gotime
  ai_savedAt :: gotime
  ai_doneAt :: gotime
  ai_newRequest :: "string option"
  ai_endpoint :: "string \<Rightarrow> string + nat \<times> string"
  ai_temp :: "string option"
  ai_write :: "string option"
  ai_chmod :: "string option"
  ai_sync :: "string option"
  ai_close :: "string option"
  ai_rename :: "string option"
  ai_windows :: bool
  ai_openDir :: "string option"
  ai_syncDir :: "(string \<times> bool) option"

definition codexClientID :: string where
  "codexClientID = ''app_EMoamEEZ73f0CkXaXp7hrann''"

subsection \<open>Tokens\<close>

definition jwtPayload :: "auth_lib \<Rightarrow> string \<Rightarrow> string + obj" where
  "jwtPayload al token =
     (let parts = Split CHR ''.'' token
      in if length parts \<noteq> 3 then Inl ''invalid JWT format''
         else (case al_b64 al (parts ! 1) of
                 Inl err \<Rightarrow> Inl err
               | Inr payload \<Rightarrow>
                   (case unmarshal_obj (al_lib al) payload of
                      None \<Rightarrow> Inl (al_jsonErr al payload)
                    | Some parsed \<Rightarrow> Inr parsed)))"

definition jwt_time :: "auth_lib \<Rightarrow> string \<Rightarrow> string \<Rightarrow> string + gotime" where
  "jwt_time al claim token =
     (case jwtPayload al token of
        Inl err \<Rightarrow> Inl err
      | Inr payload \<Rightarrow>
          (case numericField (al_lib al) payload claim of
             None \<Rightarrow> Inl (''JWT is missing '' @ claim)
           | Some v \<Rightarrow> Inr (time_Unix (int64_of_float v))))"

definition jwtExpiresAt :: "auth_lib \<Rightarrow> string \<Rightarrow> string + gotime" where
  "jwtExpiresAt al token = jwt_time al ''exp'' token"

definition jwtIssuedAt :: "auth_lib \<Rightarrow> string \<Rightarrow> string + gotime" where
  "jwtIssuedAt al token = jwt_time al ''iat'' token"

definition accountIDFromAccessToken :: "auth_lib \<Rightarrow> string \<Rightarrow> string + string" where
  "accountIDFromAccessToken al token =
     (case jwtPayload al token of
        Inl err \<Rightarrow> Inl err
      | Inr payload \<Rightarrow>
          (case as_obj (oget payload ''https://api.openai.com/auth'') of
             None \<Rightarrow> Inl ''access token is missing ChatGPT auth claim''
           | Some authRaw \<Rightarrow>
               (let accountID = stringField authRaw ''chatgpt_account_id''
                in if accountID = [] then Inl ''access token is missing chatgpt_account_id'' else Inr accountID)))"

subsection \<open>The auth file\<close>

definition readAuthDocument :: "auth_lib \<Rightarrow> auth_io \<Rightarrow> string option \<Rightarrow> string + authDocument" where
  "readAuthDocument al io contents =
     (case contents of
        None \<Rightarrow> Inl (ai_readErr io)
      | Some rawBytes \<Rightarrow>
          (case unmarshal_obj (al_lib al) rawBytes of
             None \<Rightarrow> Inl (al_jsonErr al rawBytes)
           | Some raw \<Rightarrow>
               (case as_obj (oget raw ''tokens'') of
                  None \<Rightarrow> Inl ''auth.json is missing tokens''
                | Some tokensRaw \<Rightarrow>
                    (let tokens = \<lparr>ts_IDToken = stringField tokensRaw ''id_token'',
                                   ts_AccessToken = stringField tokensRaw ''access_token'',
                                   ts_RefreshToken = stringField tokensRaw ''refresh_token'',
                                   ts_AccountID = stringField tokensRaw ''account_id''\<rparr>
                     in if TrimSpace (ts_AccessToken tokens) = [] then Inl ''auth.json is missing access_token''
                        else if TrimSpace (ts_AccountID tokens) = [] then
                          (case accountIDFromAccessToken al (ts_AccessToken tokens) of
                             Inl err \<Rightarrow> Inl err
                           | Inr accountID \<Rightarrow> Inr \<lparr>ad_raw = raw, ad_tokens = tokens\<lparr>ts_AccountID := accountID\<rparr>\<rparr>)
                        else Inr \<lparr>ad_raw = raw, ad_tokens = tokens\<rparr>))))"

definition syncDir :: "auth_io \<Rightarrow> string option" where
  "syncDir io =
     (if ai_windows io then None
      else (case ai_openDir io of
              Some err \<Rightarrow> Some err
            | None \<Rightarrow> (case ai_syncDir io of
                       None \<Rightarrow> None
                     | Some (err, invalid) \<Rightarrow> if invalid then None else Some err)))"

definition saved_tokens :: "authDocument \<Rightarrow> obj" where
  "saved_tokens doc =
     (let t = ad_tokens doc;
          tokensRaw = (case as_obj (oget (ad_raw doc) ''tokens'') of None \<Rightarrow> [] | Some m \<Rightarrow> m);
          t1 = oset tokensRaw ''id_token'' (JStr (ts_IDToken t));
          t2 = oset t1 ''access_token'' (JStr (ts_AccessToken t));
          t3 = oset t2 ''refresh_token'' (JStr (ts_RefreshToken t))
      in oset t3 ''account_id'' (JStr (ts_AccountID t)))"

definition updated_document :: "auth_lib \<Rightarrow> gotime \<Rightarrow> authDocument \<Rightarrow> obj" where
  "updated_document al now doc =
     oset (oset (ad_raw doc) ''tokens'' (JObj (saved_tokens doc))) ''last_refresh'' (JStr (al_format al now))"

text \<open>The error, if any, and the file afterwards: it is replaced by the rename and by nothing else.\<close>

definition writeAuthDocument ::
    "auth_lib \<Rightarrow> auth_io \<Rightarrow> authDocument \<Rightarrow> string option \<Rightarrow> string option \<times> string option" where
  "writeAuthDocument al io doc contents =
     (case al_encode al (JObj (updated_document al (ai_savedAt io) doc)) of
        Inl err \<Rightarrow> (Some err, contents)
      | Inr buf \<Rightarrow>
          (case find (\<lambda>r. r \<noteq> None) [ai_temp io, ai_write io, ai_chmod io, ai_sync io, ai_close io, ai_rename io] of
             Some err \<Rightarrow> (err, contents)
           | None \<Rightarrow> (syncDir io, Some buf)))"

definition materialFromDocument :: "auth_lib \<Rightarrow> auth_io \<Rightarrow> authDocument \<Rightarrow> gotime \<Rightarrow> bool \<Rightarrow> authMaterial" where
  "materialFromDocument al io doc expiresAt refreshed =
     \<lparr>am_AccessToken = ts_AccessToken (ad_tokens doc), am_AccountID = ts_AccountID (ad_tokens doc),
      am_ExpiresAt = expiresAt, am_ExpiresIn = secondsUntil expiresAt (ai_doneAt io),
      am_IssuedAt = (case jwtIssuedAt al (ts_AccessToken (ad_tokens doc)) of Inl _ \<Rightarrow> 0 | Inr t \<Rightarrow> t),
      am_Refreshed = refreshed\<rparr>"

subsection \<open>Refresh\<close>

definition oauthErrorSuffix :: "golib \<Rightarrow> string \<Rightarrow> string" where
  "oauthErrorSuffix lib body =
     (case unmarshal_obj lib body of
        None \<Rightarrow> []
      | Some parsed \<Rightarrow>
          (let code = stringField parsed ''error''; description = stringField parsed ''error_description''
           in if code = [] \<and> description = [] then []
              else if code = [] then '': '' @ redactTokenLikeText description
              else if description = [] then '': '' @ redactTokenLikeText code
              else '': '' @ redactTokenLikeText code @ '': '' @ redactTokenLikeText description))"

definition refresh_form :: "auth_lib \<Rightarrow> string \<Rightarrow> string" where
  "refresh_form al refreshToken =
     al_form al [(''grant_type'', ''refresh_token''), (''refresh_token'', refreshToken), (''client_id'', codexClientID)]"

text \<open>The result and the forms posted to the token endpoint.\<close>

definition refresh :: "auth_lib \<Rightarrow> auth_io \<Rightarrow> string \<Rightarrow> (string + tokenResponse) \<times> string list" where
  "refresh al io refreshToken =
     (let form = refresh_form al refreshToken
      in (case ai_newRequest io of
            Some err \<Rightarrow> (Inl err, [])
          | None \<Rightarrow>
              (case ai_endpoint io form of
                 Inl err \<Rightarrow> (Inl err, [form])
               | Inr (status, delivered) \<Rightarrow>
                   (let body = take (16 * 1024) delivered
                    in if status < 200 \<or> 300 \<le> status
                       then (Inl (''token refresh failed with HTTP '' @ itoa status @ oauthErrorSuffix (al_lib al) body), [form])
                       else (case al_tokens al body of
                               Inl err \<Rightarrow> (Inl err, [form])
                             | Inr parsed \<Rightarrow>
                                 (if TrimSpace (tr_AccessToken parsed) = []
                                  then (Inl ''token refresh response missing access_token'', [form])
                                  else (Inr parsed, [form])))))))"

text \<open>The document after a refresh.\<close>

definition refreshed_document :: "authDocument \<Rightarrow> tokenResponse \<Rightarrow> string \<Rightarrow> authDocument" where
  "refreshed_document doc r accountID =
     doc\<lparr>ad_tokens := (ad_tokens doc)
       \<lparr>ts_AccessToken := tr_AccessToken r,
        ts_RefreshToken := (if TrimSpace (tr_RefreshToken r) \<noteq> [] then tr_RefreshToken r else ts_RefreshToken (ad_tokens doc)),
        ts_AccountID := accountID\<rparr>\<rparr>"

definition save_refreshed ::
    "auth_lib \<Rightarrow> auth_io \<Rightarrow> authDocument \<Rightarrow> tokenResponse \<Rightarrow> string option \<Rightarrow> (string + authMaterial) \<times> string option" where
  "save_refreshed al io doc r contents =
     (case jwtExpiresAt al (tr_AccessToken r) of
        Inl err \<Rightarrow> (Inl err, contents)
      | Inr newExpiresAt \<Rightarrow>
          (case accountIDFromAccessToken al (tr_AccessToken r) of
             Inl err \<Rightarrow> (Inl err, contents)
           | Inr accountID \<Rightarrow>
               (let doc' = refreshed_document doc r accountID
                in (case writeAuthDocument al io doc' contents of
                      (Some err, contents') \<Rightarrow> (Inl err, contents')
                    | (None, contents') \<Rightarrow> (Inr (materialFromDocument al io doc' newExpiresAt True), contents')))))"

type_synonym auth_result = "(string + authMaterial) \<times> string option \<times> string list"

definition current_locked :: "auth_lib \<Rightarrow> duration \<Rightarrow> auth_io \<Rightarrow> string option \<Rightarrow> auth_result" where
  "current_locked al refreshSkew io contents =
     (case readAuthDocument al io contents of
        Inl err \<Rightarrow> (Inl err, contents, [])
      | Inr doc \<Rightarrow>
          (case jwtExpiresAt al (ts_AccessToken (ad_tokens doc)) of
             Inl err \<Rightarrow> (Inl err, contents, [])
           | Inr expiresAt \<Rightarrow>
               (if expiresAt > ai_now io + refreshSkew then (Inr (materialFromDocument al io doc expiresAt False), contents, [])
                else if TrimSpace (ts_RefreshToken (ad_tokens doc)) = []
                then (Inl ''Codex auth file is missing refresh_token'', contents, [])
                else (case refresh al io (ts_RefreshToken (ad_tokens doc)) of
                        (Inl err, forms) \<Rightarrow> (Inl err, contents, forms)
                      | (Inr r, forms) \<Rightarrow>
                          (let (res, contents') = save_refreshed al io doc r contents in (res, contents', forms))))))"

definition current :: "auth_lib \<Rightarrow> duration \<Rightarrow> auth_io \<Rightarrow> string option \<Rightarrow> auth_result" where
  "current al refreshSkew io contents =
     (case ai_ctx io 0 of
        Some err \<Rightarrow> (Inl err, contents, [])
      | None \<Rightarrow>
          (case ai_ctx io 1 of
             Some err \<Rightarrow> (Inl err, contents, [])
           | None \<Rightarrow>
               (case ai_lock io of
                  Some err \<Rightarrow> (Inl err, contents, [])
                | None \<Rightarrow>
                    (case ai_ctx io 2 of
                       Some err \<Rightarrow> (Inl err, contents, [])
                     | None \<Rightarrow> current_locked al refreshSkew io contents))))"

text \<open>Callers one after the other, as the mutex and the lock order them.\<close>

fun callers :: "auth_lib \<Rightarrow> duration \<Rightarrow> auth_io list \<Rightarrow> string option \<Rightarrow> (string + authMaterial) list \<times> string option \<times> string list" where
  "callers al skew [] contents = ([], contents, [])"
| "callers al skew (io # ios) contents =
     (let (res, contents1, forms) = current al skew io contents;
          (results, contents2, forms') = callers al skew ios contents1
      in (res # results, contents2, forms @ forms'))"

section \<open>Documents\<close>

text \<open>Values a decoder produces: objects, arrays, strings, booleans, null and floats.\<close>

fun decoded :: "json \<Rightarrow> bool" where
  "decoded (JArr xs) \<longleftrightarrow> (\<forall>x\<in>set xs. decoded x)"
| "decoded (JObj m) \<longleftrightarrow> (\<forall>p\<in>set m. decoded (snd p))"
| "decoded (JNumber s) \<longleftrightarrow> False"
| "decoded (JInt i) \<longleftrightarrow> False"
| "decoded (JInt64 i) \<longleftrightarrow> False"
| "decoded (JStrs ss) \<longleftrightarrow> False"
| "decoded _ \<longleftrightarrow> True"

text \<open>What is documented of \<open>encoding/json\<close>: decoding yields such values, and decoding what was encoded
  from one gives it back.\<close>

definition json_codec :: "auth_lib \<Rightarrow> bool" where
  "json_codec al \<longleftrightarrow>
     (\<forall>s v. lib_Unmarshal (al_lib al) s = Some v \<longrightarrow> decoded v) \<and>
     (\<forall>v b. decoded v \<longrightarrow> al_encode al v = Inr b \<longrightarrow> lib_Unmarshal (al_lib al) b = Some v)"

lemma json_codecD:
  "json_codec al \<Longrightarrow> lib_Unmarshal (al_lib al) s = Some v \<Longrightarrow> decoded v"
  "json_codec al \<Longrightarrow> decoded v \<Longrightarrow> al_encode al v = Inr b \<Longrightarrow> lib_Unmarshal (al_lib al) b = Some v"
  unfolding json_codec_def by blast+

lemma decoded_oset: "decoded (JObj m) \<Longrightarrow> decoded v \<Longrightarrow> decoded (JObj (oset m k v))"
  by (induction m) auto

lemma decoded_oget:
  assumes "decoded (JObj m)"
  shows "decoded (oget m k)"
proof (cases "map_of m k")
  case (Some v)
  then have "(k, v) \<in> set m" by (rule map_of_SomeD)
  then show ?thesis using assms Some by (auto simp: oget_def)
qed (simp add: oget_def)

lemma decoded_updated:
  assumes "decoded (JObj (ad_raw doc))"
  shows "decoded (JObj (updated_document al now doc))"
proof -
  have "decoded (JObj (case as_obj (oget (ad_raw doc) ''tokens'') of None \<Rightarrow> [] | Some m \<Rightarrow> m))"
    using decoded_oget [OF assms, of "''tokens''"] by (cases "oget (ad_raw doc) ''tokens''") (simp_all add: as_obj_def)
  then show ?thesis
    using assms unfolding updated_document_def saved_tokens_def Let_def by (intro decoded_oset) simp_all
qed

lemma readAuthDocument_Inr:
  assumes "readAuthDocument al io contents = Inr doc"
  obtains bytes where "contents = Some bytes" "unmarshal_obj (al_lib al) bytes = Some (ad_raw doc)"
    "TrimSpace (ts_AccessToken (ad_tokens doc)) \<noteq> []"
proof -
  obtain bytes where b: "contents = Some bytes" using assms by (cases contents) (simp_all add: readAuthDocument_def)
  obtain raw where r: "unmarshal_obj (al_lib al) bytes = Some raw"
    using assms b by (cases "unmarshal_obj (al_lib al) bytes") (simp_all add: readAuthDocument_def)
  have "ad_raw doc = raw \<and> TrimSpace (ts_AccessToken (ad_tokens doc)) \<noteq> []"
    using assms b r by (auto simp: readAuthDocument_def Let_def split: option.splits if_splits sum.splits)
  then show thesis using that b r by simp
qed

lemma read_decoded:
  assumes "json_codec al" "readAuthDocument al io contents = Inr doc"
  shows "decoded (JObj (ad_raw doc))"
proof -
  obtain bytes where u: "unmarshal_obj (al_lib al) bytes = Some (ad_raw doc)"
    by (rule readAuthDocument_Inr [OF assms(2)])
  show ?thesis
  proof (cases "lib_Unmarshal (al_lib al) bytes")
    case (Some v)
    then have "decoded v" by (rule json_codecD(1) [OF assms(1)])
    then show ?thesis using u Some by (cases v) (auto simp: unmarshal_obj_def)
  qed (use u in \<open>simp add: unmarshal_obj_def\<close>)
qed

lemma oget_updated:
  "oget (updated_document al now doc) ''tokens'' = JObj (saved_tokens doc)"
  "k \<noteq> ''tokens'' \<Longrightarrow> k \<noteq> ''last_refresh'' \<Longrightarrow> oget (updated_document al now doc) k = oget (ad_raw doc) k"
  by (simp_all add: updated_document_def)

lemma stringField_oset: "stringField (oset m k (JStr v)) j = (if j = k then TrimSpace v else stringField m j)"
  by (simp add: stringField_def)

lemma saved_fields:
  "stringField (saved_tokens doc) ''id_token'' = TrimSpace (ts_IDToken (ad_tokens doc))"
  "stringField (saved_tokens doc) ''access_token'' = TrimSpace (ts_AccessToken (ad_tokens doc))"
  "stringField (saved_tokens doc) ''refresh_token'' = TrimSpace (ts_RefreshToken (ad_tokens doc))"
  "stringField (saved_tokens doc) ''account_id'' = TrimSpace (ts_AccountID (ad_tokens doc))"
  by (simp_all add: saved_tokens_def Let_def stringField_oset)

text \<open>What a successful write leaves on disk, read back.\<close>

definition trimmed :: "tokenSet \<Rightarrow> tokenSet" where
  "trimmed t = \<lparr>ts_IDToken = TrimSpace (ts_IDToken t), ts_AccessToken = TrimSpace (ts_AccessToken t),
     ts_RefreshToken = TrimSpace (ts_RefreshToken t), ts_AccountID = TrimSpace (ts_AccountID t)\<rparr>"

lemma read_back:
  assumes "json_codec al" "decoded (JObj (ad_raw doc))" "al_encode al (JObj (updated_document al now doc)) = Inr buf"
    "TrimSpace (ts_AccessToken (ad_tokens doc)) \<noteq> []" "TrimSpace (ts_AccountID (ad_tokens doc)) \<noteq> []"
  shows "readAuthDocument al io (Some buf) =
    Inr \<lparr>ad_raw = updated_document al now doc, ad_tokens = trimmed (ad_tokens doc)\<rparr>"
proof -
  have "lib_Unmarshal (al_lib al) buf = Some (JObj (updated_document al now doc))"
    by (rule json_codecD(2) [OF assms(1) decoded_updated [OF assms(2)] assms(3)])
  then have "unmarshal_obj (al_lib al) buf = Some (updated_document al now doc)" by (simp add: unmarshal_obj_def)
  then show ?thesis
    using assms(4,5) by (simp add: readAuthDocument_def oget_updated(1) saved_fields trimmed_def Let_def)
qed

lemma writeAuthDocument_cases:
  assumes "writeAuthDocument al io doc contents = (err, contents')"
  obtains (kept) e where "contents' = contents" "err = Some e"
  | (replaced) buf where "al_encode al (JObj (updated_document al (ai_savedAt io) doc)) = Inr buf" "contents' = Some buf"
proof (cases "al_encode al (JObj (updated_document al (ai_savedAt io) doc))")
  case (Inl e)
  then show thesis using assms kept [of e] by (simp add: writeAuthDocument_def)
next
  case (Inr buf)
  show thesis
  proof (cases "find (\<lambda>r. r \<noteq> None) [ai_temp io, ai_write io, ai_chmod io, ai_sync io, ai_close io, ai_rename io]")
    case None
    then show thesis using assms Inr replaced by (simp add: writeAuthDocument_def)
  next
    case (Some r)
    then have "r \<noteq> None" by (metis (mono_tags, lifting) find_Some_iff)
    then show thesis using assms Inr Some kept by (auto simp: writeAuthDocument_def)
  qed
qed

section \<open>Calls\<close>

lemma accountID_nonblank: "accountIDFromAccessToken al t = Inr a \<Longrightarrow> TrimSpace a = a \<and> a \<noteq> []"
  by (auto simp: accountIDFromAccessToken_def stringField_def Let_def split: sum.splits option.splits json.splits if_splits)

lemma refresh_Inr: "refresh al io t = (Inr r, forms) \<Longrightarrow> TrimSpace (tr_AccessToken r) \<noteq> [] \<and> forms = [refresh_form al t]"
  by (auto simp: refresh_def Let_def split: option.splits sum.splits if_splits)

text \<open>The ways a call ends.\<close>

lemma current_cases:
  assumes "current al skew io contents = (res, contents', forms)"
  obtains (failed) e where "res = Inl e" "contents' = contents"
  | (valid) doc t where "readAuthDocument al io contents = Inr doc" "jwtExpiresAt al (ts_AccessToken (ad_tokens doc)) = Inr t"
      "t > ai_now io + skew" "res = Inr (materialFromDocument al io doc t False)" "contents' = contents" "forms = []"
  | (refreshed) doc r t a buf err where "readAuthDocument al io contents = Inr doc"
      "TrimSpace (tr_AccessToken r) \<noteq> []" "jwtExpiresAt al (tr_AccessToken r) = Inr t"
      "accountIDFromAccessToken al (tr_AccessToken r) = Inr a"
      "al_encode al (JObj (updated_document al (ai_savedAt io) (refreshed_document doc r a))) = Inr buf" "contents' = Some buf"
      "forms = [refresh_form al (ts_RefreshToken (ad_tokens doc))]"
      "res = (case err of None \<Rightarrow> Inr (materialFromDocument al io (refreshed_document doc r a) t True) | Some e \<Rightarrow> Inl e)"
proof (cases "res = Inl (projl res) \<and> contents' = contents")
  case True
  then show thesis using failed by blast
next
  case False
  then have lck: "current_locked al skew io contents = (res, contents', forms)"
    using assms by (auto simp: current_def split: option.splits)
  obtain doc where doc: "readAuthDocument al io contents = Inr doc"
    using lck False by (cases "readAuthDocument al io contents") (auto simp: current_locked_def)
  obtain t where t: "jwtExpiresAt al (ts_AccessToken (ad_tokens doc)) = Inr t"
    using lck False doc by (cases "jwtExpiresAt al (ts_AccessToken (ad_tokens doc))") (auto simp: current_locked_def)
  show thesis
  proof (cases "t > ai_now io + skew")
    case True
    then show thesis using lck doc t by (intro valid [OF doc t True]) (auto simp: current_locked_def)
  next
    case old: False
    obtain r where r: "refresh al io (ts_RefreshToken (ad_tokens doc)) = (Inr r, forms)"
      and sv: "save_refreshed al io doc r contents = (res, contents')"
      using lck False doc t old by (auto simp: current_locked_def split: if_splits prod.splits sum.splits)
    obtain t' a where ta: "jwtExpiresAt al (tr_AccessToken r) = Inr t'" "accountIDFromAccessToken al (tr_AccessToken r) = Inr a"
      using sv False by (auto simp: save_refreshed_def split: sum.splits)
    obtain err c where w: "writeAuthDocument al io (refreshed_document doc r a) contents = (err, c)" by fastforce
    then have out: "contents' = c" "res = (case err of None \<Rightarrow> Inr (materialFromDocument al io (refreshed_document doc r a) t' True) | Some e \<Rightarrow> Inl e)"
      using sv ta by (auto simp: save_refreshed_def split: option.splits)
    from w show thesis
    proof (cases rule: writeAuthDocument_cases)
      case (kept e)
      then show thesis using False out by simp
    next
      case (replaced buf)
      then show thesis using refreshed [OF doc _ ta] refresh_Inr [OF r] out by blast
    qed
  qed
qed

lemma material_fields [simp]:
  "am_AccessToken (materialFromDocument al io doc t b) = ts_AccessToken (ad_tokens doc)"
  "am_AccountID (materialFromDocument al io doc t b) = ts_AccountID (ad_tokens doc)"
  "am_ExpiresAt (materialFromDocument al io doc t b) = t"
  "am_Refreshed (materialFromDocument al io doc t b) = b"
  by (simp_all add: materialFromDocument_def)

lemma refreshed_fields [simp]:
  "ad_raw (refreshed_document doc r a) = ad_raw doc"
  "ts_AccessToken (ad_tokens (refreshed_document doc r a)) = tr_AccessToken r"
  "ts_AccountID (ad_tokens (refreshed_document doc r a)) = a"
  "ts_IDToken (ad_tokens (refreshed_document doc r a)) = ts_IDToken (ad_tokens doc)"
  by (simp_all add: refreshed_document_def)

text \<open>The file a refresh leaves, read by any later call.\<close>

lemma refreshed_on_disk:
  assumes "json_codec al" "current al skew io contents = (Inr m, contents', forms)" "am_Refreshed m"
  shows "\<exists>doc. readAuthDocument al io' contents' = Inr doc \<and>
    ts_AccessToken (ad_tokens doc) = TrimSpace (am_AccessToken m) \<and> ts_AccountID (ad_tokens doc) = am_AccountID m \<and>
    jwtExpiresAt al (am_AccessToken m) = Inr (am_ExpiresAt m) \<and> length forms = 1"
  using assms(2)
proof (cases rule: current_cases)
  case (refreshed doc r t a buf err)
  then have m: "m = materialFromDocument al io (refreshed_document doc r a) t True" by (cases err) auto
  have a: "TrimSpace a = a" "a \<noteq> []" using accountID_nonblank [OF refreshed(4)] by simp_all
  have "decoded (JObj (ad_raw (refreshed_document doc r a)))" using read_decoded [OF assms(1) refreshed(1)] by simp
  from read_back [OF assms(1) this refreshed(5), of io'] refreshed(2,3,6,7) a m
  show ?thesis by (simp add: trimmed_def)
qed (use assms(3) in auto)

lemma current_valid:
  assumes "\<forall>k. ai_ctx io k = None" "ai_lock io = None" "readAuthDocument al io contents = Inr doc"
    "jwtExpiresAt al (ts_AccessToken (ad_tokens doc)) = Inr t" "t > ai_now io + skew"
  shows "current al skew io contents = (Inr (materialFromDocument al io doc t False), contents, [])"
  using assms by (simp add: current_def current_locked_def)

lemma callers_append:
  "callers al skew (ios @ ios') f =
     (let (results, f1, forms) = callers al skew ios f; (results', f2, forms') = callers al skew ios' f1
      in (results @ results', f2, forms @ forms'))"
  by (induction ios arbitrary: f) (simp_all add: Let_def split: prod.splits)

text \<open>Calls that find a token that outlives their margin.\<close>

lemma callers_valid:
  assumes disk: "\<And>io. \<exists>doc. readAuthDocument al io contents = Inr doc \<and> ts_AccessToken (ad_tokens doc) = am_AccessToken m \<and>
      ts_AccountID (ad_tokens doc) = am_AccountID m \<and> jwtExpiresAt al (am_AccessToken m) = Inr (am_ExpiresAt m)"
    and "\<forall>j\<in>set ios. (\<forall>k. ai_ctx j k = None) \<and> ai_lock j = None \<and> am_ExpiresAt m > ai_now j + skew"
  shows "\<exists>results. callers al skew ios contents = (results, contents, []) \<and> length results = length ios \<and>
    (\<forall>r\<in>set results. \<exists>m'. r = Inr m' \<and> am_AccessToken m' = am_AccessToken m \<and> am_AccountID m' = am_AccountID m \<and>
       am_ExpiresAt m' = am_ExpiresAt m \<and> \<not> am_Refreshed m')"
  using assms(2)
proof (induction ios)
  case (Cons j ios)
  then obtain results where rest: "callers al skew ios contents = (results, contents, [])" "length results = length ios"
    "\<forall>r\<in>set results. \<exists>m'. r = Inr m' \<and> am_AccessToken m' = am_AccessToken m \<and> am_AccountID m' = am_AccountID m \<and>
       am_ExpiresAt m' = am_ExpiresAt m \<and> \<not> am_Refreshed m'"
    by auto
  obtain doc where doc: "readAuthDocument al j contents = Inr doc" "ts_AccessToken (ad_tokens doc) = am_AccessToken m"
    "ts_AccountID (ad_tokens doc) = am_AccountID m" "jwtExpiresAt al (am_AccessToken m) = Inr (am_ExpiresAt m)"
    using disk [of j] by auto
  have "current al skew j contents = (Inr (materialFromDocument al j doc (am_ExpiresAt m) False), contents, [])"
    using Cons.prems doc by (intro current_valid) auto
  then show ?case using rest doc by simp
qed simp

section \<open>Properties\<close>



text \<open>An account whose token has run out, an endpoint that answers with a new one, and a codec that
  knows the documents involved.\<close>

definition old_document :: obj where
  "old_document = [(''tokens'', JObj [(''access_token'', JStr ''h.p.s''), (''refresh_token'', JStr ''r1''),
     (''account_id'', JStr ''acct''), (''scope'', JStr ''all'')]), (''version'', JFloat 2)]"

definition new_document :: obj where
  "new_document = [(''tokens'', JObj [(''access_token'', JStr ''h.q.s''), (''refresh_token'', JStr ''r2''),
     (''account_id'', JStr ''acct''), (''scope'', JStr ''all''), (''id_token'', JStr [])]), (''version'', JFloat 2),
     (''last_refresh'', JStr ''now'')]"

definition witness_auth :: auth_lib where
  "witness_auth =
     \<lparr>al_lib = witness_lib\<lparr>lib_Unmarshal := \<lambda>s.
        if s = ''old'' then Some (JObj old_document) else if s = ''new'' then Some (JObj new_document)
        else if s = ''P1'' then Some (JObj [(''exp'', JFloat 1)])
        else if s = ''P2'' then Some (JObj [(''exp'', JFloat 1000),
          (''https://api.openai.com/auth'', JObj [(''chatgpt_account_id'', JStr ''acct'')])])
        else None\<rparr>,
      al_jsonErr = \<lambda>_. ''json'', al_b64 = \<lambda>s. if s = ''p'' then Inr ''P1'' else if s = ''q'' then Inr ''P2'' else Inl ''base64'',
      al_encode = \<lambda>v. if v = JObj new_document then Inr ''new'' else Inl ''unsupported'',
      al_tokens = \<lambda>_. Inr \<lparr>tr_AccessToken = ''h.q.s'', tr_RefreshToken = ''r2'', tr_ExpiresIn = 3600\<rparr>,
      al_form = \<lambda>kvs. concat (map snd kvs), al_format = \<lambda>_. ''now''\<rparr>"

definition witness_call :: auth_io where
  "witness_call =
     \<lparr>ai_ctx = \<lambda>_. None, ai_lock = None, ai_readErr = [], ai_now = time_Unix 500, ai_savedAt = 0, ai_doneAt = time_Unix 500,
      ai_newRequest = None, ai_endpoint = \<lambda>_. Inr (200, []), ai_temp = None, ai_write = None, ai_chmod = None,
      ai_sync = None, ai_close = None, ai_rename = None, ai_windows = False, ai_openDir = None, ai_syncDir = None\<rparr>"

lemma witness_codec_auth: "json_codec witness_auth"
  unfolding json_codec_def by (auto simp: witness_auth_def old_document_def new_document_def)

lemma witness_refresh:
  "case current witness_auth (seconds 60) witness_call (Some ''old'') of
     (Inr m, contents', forms) \<Rightarrow> am_Refreshed m \<and> am_AccessToken m = ''h.q.s'' \<and> am_ExpiresAt m = time_Unix 1000 \<and> contents' = Some ''new''
   | _ \<Rightarrow> False"
  by code_simp



text \<open>Callers that wait while one of them refreshes do not refresh again: as long as the new token
  outlives their margin, every one of them gets the same token and account from the file, which stays
  as it is, and the endpoint sees no second request. (Refresh tokens are rotated, so a second request
  with the old one would fail.) Theory CredentialLock has the same of calls that overlap.\<close>

theorem one_refresh_serves_all:
  assumes "json_codec al" "current al skew io contents = (Inr m, contents', forms)" "am_Refreshed m"
    "TrimSpace (am_AccessToken m) = am_AccessToken m"
    "\<forall>j\<in>set ios. (\<forall>k. ai_ctx j k = None) \<and> ai_lock j = None \<and> am_ExpiresAt m > ai_now j + skew"
  shows "length forms = 1 \<and> (\<exists>results. callers al skew ios contents' = (results, contents', []) \<and> length results = length ios \<and>
    (\<forall>r\<in>set results. \<exists>m'. r = Inr m' \<and> am_AccessToken m' = am_AccessToken m \<and> am_AccountID m' = am_AccountID m \<and>
       am_ExpiresAt m' = am_ExpiresAt m \<and> \<not> am_Refreshed m'))"
proof -
  note disk = refreshed_on_disk [OF assms(1-3)]
  have "\<exists>doc. readAuthDocument al io' contents' = Inr doc \<and> ts_AccessToken (ad_tokens doc) = am_AccessToken m \<and>
      ts_AccountID (ad_tokens doc) = am_AccountID m \<and> jwtExpiresAt al (am_AccessToken m) = Inr (am_ExpiresAt m)" for io'
    using disk [of io'] assms(4) by auto
  from callers_valid [OF this assms(5)] show ?thesis using disk [of io] by blast
qed

theorem one_refresh_serves_all_witness:
  "\<exists>results. callers witness_auth (seconds 60) [witness_call, witness_call] (Some ''new'') = (results, Some ''new'', []) \<and>
     length results = 2 \<and> (\<forall>r\<in>set results. \<exists>m'. r = Inr m' \<and> am_AccessToken m' = ''h.q.s'')"
proof -
  obtain m forms where c: "current witness_auth (seconds 60) witness_call (Some ''old'') = (Inr m, Some ''new'', forms)"
      "am_Refreshed m" "am_AccessToken m = ''h.q.s''" "am_ExpiresAt m = time_Unix 1000"
    using witness_refresh by (auto split: prod.splits sum.splits)
  have t: "TrimSpace (am_AccessToken m) = am_AccessToken m" unfolding c(3) by code_simp
  have "\<forall>j\<in>set [witness_call, witness_call]. (\<forall>k. ai_ctx j k = None) \<and> ai_lock j = None \<and> am_ExpiresAt m > ai_now j + seconds 60"
    unfolding c(4) by (simp add: witness_call_def time_Unix_def wrap64_def)
  from one_refresh_serves_all [OF witness_codec_auth c(1,2) t this]
  obtain results where r: "callers witness_auth (seconds 60) [witness_call, witness_call] (Some ''new'') = (results, Some ''new'', [])"
    "length results = length [witness_call, witness_call]"
    "\<forall>r\<in>set results. \<exists>m'. r = Inr m' \<and> am_AccessToken m' = am_AccessToken m \<and> am_AccountID m' = am_AccountID m \<and>
       am_ExpiresAt m' = am_ExpiresAt m \<and> \<not> am_Refreshed m'" by (elim exE conjE)
  moreover have "length [witness_call, witness_call] = 2" by simp
  ultimately show ?thesis using c(3) by metis
qed

end
