(* ===== verification/CredentialLock.thy ===== *)
theory CredentialLock
  imports Auth
begin

text \<open>
  Calls of \<open>current\<close> that overlap, \<^verbatim>\<open>src/auth.go\<close> with the lock files of \<^verbatim>\<open>src/lock_common.go\<close>,
  \<^verbatim>\<open>src/lock_posix.go\<close> and \<^verbatim>\<open>src/lock_other.go\<close>. A call stops at the mutex of its manager, at the lock
  file, at the read of the auth file, at the token endpoint, at the replacement of the file and at the
  two releases; between these points the calls of any number of managers (accounts opened by one or by
  several processes) interleave. The machine refines \<open>callers\<close> of theory Auth, the calls one
  after the other, where the lock file excludes or where all calls share a manager.
\<close>

section \<open>Definitions\<close>

text \<open>\<open>LockPosix\<close> is the build for linux and darwin, with \<open>flock\<close>; \<open>LockOther\<close> only creates the file.\<close>

datatype lock_build = LockPosix | LockOther

text \<open>A call: the manager it is made on, what it meets, and the errors of opening the lock file and of
  \<open>flock\<close>, if any.\<close>

record lock_call =
  lk_manager :: nat
  lk_io :: auth_io
  lk_open :: "string option"
  lk_flock :: "string option"

text \<open>The error of \<open>lockFile\<close>, if any.\<close>

definition openLockFile :: "lock_call \<Rightarrow> string option" where
  "openLockFile k = lk_open k"

definition lockFile :: "lock_build \<Rightarrow> lock_call \<Rightarrow> string option" where
  "lockFile b k =
     (case openLockFile k of
        Some err \<Rightarrow> Some err
      | None \<Rightarrow> (case b of LockOther \<Rightarrow> None | LockPosix \<Rightarrow> lk_flock k))"

text \<open>Where a call stands. It holds the mutex from \<open>Opening\<close> to \<open>Leaving\<close> and the lock file from
  \<open>Locked\<close> to \<open>Unlocking\<close>; the result is fixed from \<open>Unlocking\<close> on.\<close>

datatype call_phase =
    Entered
  | AtMutex
  | Opening
  | Flocking
  | Locked
  | Refreshing authDocument
  | Saving authDocument tokenResponse
  | Unlocking "string + authMaterial"
  | Leaving "string + authMaterial"
  | Returned "string + authMaterial"

text \<open>The state: the phases, the mutex of each manager and the lock on the lock file with their holders,
  the auth file, the forms posted to the token endpoint, and the calls whose result is fixed, in order.\<close>

record lock_state =
  cl_phase :: "nat \<Rightarrow> call_phase"
  cl_mutex :: "nat \<Rightarrow> nat option"
  cl_flock :: "nat option"
  cl_file :: "string option"
  cl_forms :: "string list"
  cl_ended :: "nat list"

definition lock_start :: "string option \<Rightarrow> lock_state" where
  "lock_start contents =
     \<lparr>cl_phase = \<lambda>_. Entered, cl_mutex = \<lambda>_. None, cl_flock = None, cl_file = contents, cl_forms = [], cl_ended = []\<rparr>"

abbreviation at_phase :: "lock_state \<Rightarrow> nat \<Rightarrow> call_phase \<Rightarrow> lock_state" where
  "at_phase s c ph \<equiv> s\<lparr>cl_phase := (cl_phase s)(c := ph)\<rparr>"

abbreviation ends_at :: "lock_state \<Rightarrow> nat \<Rightarrow> call_phase \<Rightarrow> lock_state" where
  "ends_at s c ph \<equiv> s\<lparr>cl_phase := (cl_phase s)(c := ph), cl_ended := cl_ended s @ [c]\<rparr>"

text \<open>The mutex is taken, and the context checked once more.\<close>

definition take_mutex :: "lock_call \<Rightarrow> nat \<Rightarrow> lock_state \<Rightarrow> lock_state option" where
  "take_mutex k c s =
     (if cl_mutex s (lk_manager k) \<noteq> None then None
      else (let s' = s\<lparr>cl_mutex := (cl_mutex s)(lk_manager k := Some c)\<rparr>
            in Some (case ai_ctx (lk_io k) 1 of
                       Some err \<Rightarrow> ends_at s' c (Leaving (Inl err))
                     | None \<Rightarrow> at_phase s' c Opening)))"

text \<open>\<open>lockFile\<close> has returned without an error; the context is checked a third time.\<close>

definition lock_taken :: "lock_call \<Rightarrow> nat \<Rightarrow> lock_state \<Rightarrow> lock_state" where
  "lock_taken k c s =
     (case ai_ctx (lk_io k) 2 of
        Some err \<Rightarrow> ends_at s c (Unlocking (Inl err))
      | None \<Rightarrow> at_phase s c Locked)"

definition open_lock :: "lock_build \<Rightarrow> lock_call \<Rightarrow> nat \<Rightarrow> lock_state \<Rightarrow> lock_state" where
  "open_lock b k c s =
     (case openLockFile k of
        Some err \<Rightarrow> ends_at s c (Leaving (Inl err))
      | None \<Rightarrow> (case b of LockOther \<Rightarrow> lock_taken k c s | LockPosix \<Rightarrow> at_phase s c Flocking))"

text \<open>\<open>flock\<close> blocks while another call holds the lock.\<close>

definition take_flock :: "lock_call \<Rightarrow> nat \<Rightarrow> lock_state \<Rightarrow> lock_state option" where
  "take_flock k c s =
     (case lk_flock k of
        Some err \<Rightarrow> Some (ends_at s c (Leaving (Inl err)))
      | None \<Rightarrow> if cl_flock s \<noteq> None then None else Some (lock_taken k c (s\<lparr>cl_flock := Some c\<rparr>)))"

text \<open>The auth file is read and its token judged.\<close>

definition read_locked :: "auth_lib \<Rightarrow> duration \<Rightarrow> lock_call \<Rightarrow> nat \<Rightarrow> lock_state \<Rightarrow> lock_state" where
  "read_locked al skew k c s =
     (case readAuthDocument al (lk_io k) (cl_file s) of
        Inl err \<Rightarrow> ends_at s c (Unlocking (Inl err))
      | Inr doc \<Rightarrow>
          (case jwtExpiresAt al (ts_AccessToken (ad_tokens doc)) of
             Inl err \<Rightarrow> ends_at s c (Unlocking (Inl err))
           | Inr expiresAt \<Rightarrow>
               (if expiresAt > ai_now (lk_io k) + skew
                then ends_at s c (Unlocking (Inr (materialFromDocument al (lk_io k) doc expiresAt False)))
                else if TrimSpace (ts_RefreshToken (ad_tokens doc)) = []
                then ends_at s c (Unlocking (Inl ''Codex auth file is missing refresh_token''))
                else at_phase s c (Refreshing doc))))"

definition post_refresh :: "auth_lib \<Rightarrow> lock_call \<Rightarrow> nat \<Rightarrow> authDocument \<Rightarrow> lock_state \<Rightarrow> lock_state" where
  "post_refresh al k c doc s =
     (let (res, forms) = refresh al (lk_io k) (ts_RefreshToken (ad_tokens doc));
          s' = s\<lparr>cl_forms := cl_forms s @ forms\<rparr>
      in (case res of
            Inl err \<Rightarrow> ends_at s' c (Unlocking (Inl err))
          | Inr r \<Rightarrow> at_phase s' c (Saving doc r)))"

definition save_locked :: "auth_lib \<Rightarrow> lock_call \<Rightarrow> nat \<Rightarrow> authDocument \<Rightarrow> tokenResponse \<Rightarrow> lock_state \<Rightarrow> lock_state" where
  "save_locked al k c doc r s =
     (let (res, contents) = save_refreshed al (lk_io k) doc r (cl_file s)
      in ends_at (s\<lparr>cl_file := contents\<rparr>) c (Unlocking res))"

text \<open>The deferred calls: \<open>unlock\<close>, then the mutex.\<close>

definition unlock :: "lock_build \<Rightarrow> nat \<Rightarrow> (string + authMaterial) \<Rightarrow> lock_state \<Rightarrow> lock_state" where
  "unlock b c res s =
     at_phase (case b of LockOther \<Rightarrow> s | LockPosix \<Rightarrow> s\<lparr>cl_flock := None\<rparr>) c (Leaving res)"

definition leave_mutex :: "lock_call \<Rightarrow> nat \<Rightarrow> (string + authMaterial) \<Rightarrow> lock_state \<Rightarrow> lock_state" where
  "leave_mutex k c res s = at_phase (s\<lparr>cl_mutex := (cl_mutex s)(lk_manager k := None)\<rparr>) c (Returned res)"

text \<open>One step of call \<open>c\<close>; \<open>None\<close> where it waits or has returned.\<close>

definition lock_step ::
    "auth_lib \<Rightarrow> duration \<Rightarrow> lock_build \<Rightarrow> (nat \<Rightarrow> lock_call) \<Rightarrow> nat \<Rightarrow> lock_state \<Rightarrow> lock_state option" where
  "lock_step al skew b calls c s =
     (let k = calls c
      in (case cl_phase s c of
            Entered \<Rightarrow>
              Some (case ai_ctx (lk_io k) 0 of
                      Some err \<Rightarrow> ends_at s c (Returned (Inl err))
                    | None \<Rightarrow> at_phase s c AtMutex)
          | AtMutex \<Rightarrow> take_mutex k c s
          | Opening \<Rightarrow> Some (open_lock b k c s)
          | Flocking \<Rightarrow> take_flock k c s
          | Locked \<Rightarrow> Some (read_locked al skew k c s)
          | Refreshing doc \<Rightarrow> Some (post_refresh al k c doc s)
          | Saving doc r \<Rightarrow> Some (save_locked al k c doc r s)
          | Unlocking res \<Rightarrow> Some (unlock b c res s)
          | Leaving res \<Rightarrow> Some (leave_mutex k c res s)
          | Returned res \<Rightarrow> None))"

abbreviation lock_run ::
    "auth_lib \<Rightarrow> duration \<Rightarrow> lock_build \<Rightarrow> (nat \<Rightarrow> lock_call) \<Rightarrow> nat list \<Rightarrow> lock_state \<Rightarrow> lock_state option" where
  "lock_run al skew b calls \<equiv> run_steps (lock_step al skew b calls)"


section \<open>Holders\<close>

fun holds_mutex :: "call_phase \<Rightarrow> bool" where
  "holds_mutex Entered = False"
| "holds_mutex AtMutex = False"
| "holds_mutex (Returned res) = False"
| "holds_mutex ph = True"

fun inside :: "call_phase \<Rightarrow> bool" where
  "inside Locked = True"
| "inside (Refreshing doc) = True"
| "inside (Saving doc r) = True"
| "inside (Unlocking res) = True"
| "inside ph = False"

fun result_of :: "call_phase \<Rightarrow> (string + authMaterial) option" where
  "result_of (Unlocking res) = Some res"
| "result_of (Leaving res) = Some res"
| "result_of (Returned res) = Some res"
| "result_of ph = None"

definition outcome_of :: "lock_state \<Rightarrow> nat \<Rightarrow> string + authMaterial" where
  "outcome_of s c = the (result_of (cl_phase s c))"

text \<open>What a call meets, with the outcome of its \<open>lockFile\<close>.\<close>

definition spec_io :: "lock_build \<Rightarrow> lock_call \<Rightarrow> auth_io" where
  "spec_io b k = (lk_io k)\<lparr>ai_lock := lockFile b k\<rparr>"

text \<open>What a call has found on its way to its phase.\<close>

fun passed :: "lock_build \<Rightarrow> lock_call \<Rightarrow> call_phase \<Rightarrow> bool" where
  "passed b k AtMutex \<longleftrightarrow> ai_ctx (lk_io k) 0 = None"
| "passed b k Opening \<longleftrightarrow> ai_ctx (lk_io k) 0 = None \<and> ai_ctx (lk_io k) 1 = None"
| "passed b k Flocking \<longleftrightarrow> ai_ctx (lk_io k) 0 = None \<and> ai_ctx (lk_io k) 1 = None \<and> lk_open k = None \<and> b = LockPosix"
| "passed b k Locked \<longleftrightarrow> (\<forall>i<3. ai_ctx (lk_io k) i = None) \<and> lockFile b k = None"
| "passed b k (Refreshing doc) \<longleftrightarrow> (\<forall>i<3. ai_ctx (lk_io k) i = None) \<and> lockFile b k = None"
| "passed b k (Saving doc r) \<longleftrightarrow> (\<forall>i<3. ai_ctx (lk_io k) i = None) \<and> lockFile b k = None"
| "passed b k ph \<longleftrightarrow> True"

lemmas lock_step_defs =
  lock_step_def Let_def take_mutex_def open_lock_def lock_taken_def take_flock_def read_locked_def post_refresh_def
  save_locked_def unlock_def leave_mutex_def

lemmas lock_step_splits =
  call_phase.splits option.splits sum.splits prod.splits if_splits lock_build.splits

lemma less_three: "(\<forall>i<3::nat. P i) \<longleftrightarrow> P 0 \<and> P 1 \<and> P 2"
  by (auto simp: less_Suc_eq numeral_3_eq_3 numeral_2_eq_2)

text \<open>A step moves one call and either leaves its result alone or fixes it.\<close>

lemma lock_step_shape:
  assumes "lock_step al skew b calls c s = Some t"
  obtains (moved) ph where "cl_phase t = (cl_phase s)(c := ph)" "cl_ended t = cl_ended s" "result_of ph = result_of (cl_phase s c)"
  | (ended) ph res where "cl_phase t = (cl_phase s)(c := ph)" "cl_ended t = cl_ended s @ [c]"
      "result_of (cl_phase s c) = None" "result_of ph = Some res"
  using assms by (cases "cl_phase s c") (force simp: lock_step_defs split: lock_step_splits)+

definition mutex_held :: "(nat \<Rightarrow> lock_call) \<Rightarrow> lock_state \<Rightarrow> bool" where
  "mutex_held calls s \<longleftrightarrow>
     (\<forall>m c. cl_mutex s m = Some c \<longleftrightarrow> lk_manager (calls c) = m \<and> holds_mutex (cl_phase s c))"

definition flock_held :: "lock_state \<Rightarrow> bool" where
  "flock_held s \<longleftrightarrow> (\<forall>c. cl_flock s = Some c \<longleftrightarrow> inside (cl_phase s c))"

definition calls_passed :: "lock_build \<Rightarrow> (nat \<Rightarrow> lock_call) \<Rightarrow> lock_state \<Rightarrow> bool" where
  "calls_passed b calls s \<longleftrightarrow> (\<forall>c. passed b (calls c) (cl_phase s c))"

definition ended_once :: "lock_state \<Rightarrow> bool" where
  "ended_once s \<longleftrightarrow> distinct (cl_ended s) \<and> (\<forall>c. c \<in> set (cl_ended s) \<longleftrightarrow> result_of (cl_phase s c) \<noteq> None)"

lemma mutex_step:
  assumes "mutex_held calls s" "lock_step al skew b calls c s = Some t"
  shows "mutex_held calls t"
proof -
  have own: "cl_phase s c = Leaving res \<Longrightarrow> holds_mutex (cl_phase s d) \<Longrightarrow> lk_manager (calls d) = lk_manager (calls c) \<Longrightarrow> d = c" for d res
    using assms(1) unfolding mutex_held_def by (metis option.inject holds_mutex.simps(10))
  show ?thesis
    using assms unfolding mutex_held_def
    by (cases "cl_phase s c") (auto simp: lock_step_defs split: lock_step_splits dest: own)
qed

lemma flock_step:
  assumes "flock_held s" "lock_step al skew LockPosix calls c s = Some t"
  shows "flock_held t"
proof -
  have own: "cl_phase s c = Unlocking res \<Longrightarrow> inside (cl_phase s d) \<Longrightarrow> d = c" for d res
    using assms(1) unfolding flock_held_def by (metis option.inject inside.simps(4))
  show ?thesis
    using assms unfolding flock_held_def
    by (cases "cl_phase s c") (auto simp: lock_step_defs split: lock_step_splits dest: own)
qed

lemma passed_step:
  assumes "calls_passed b calls s" "lock_step al skew b calls c s = Some t"
  shows "calls_passed b calls t"
proof -
  have "passed b (calls c) (cl_phase s c)" using assms(1) by (simp add: calls_passed_def)
  then have "passed b (calls c) (cl_phase t c)"
    using assms(2) by (cases "cl_phase s c")
      (auto simp: lock_step_defs lockFile_def openLockFile_def less_three split: lock_step_splits)
  moreover have "cl_phase t d = cl_phase s d" if "d \<noteq> c" for d
    using lock_step_shape [OF assms(2)] that by (metis fun_upd_other)
  ultimately show ?thesis using assms(1) unfolding calls_passed_def by metis
qed

lemma ended_step: "ended_once s \<Longrightarrow> lock_step al skew b calls c s = Some t \<Longrightarrow> ended_once t"
  unfolding ended_once_def by (erule lock_step_shape) auto


section \<open>Overlapping calls are calls in a row\<close>

lemma spec_io_fields [simp]:
  "ai_ctx (spec_io b k) = ai_ctx (lk_io k)" "ai_readErr (spec_io b k) = ai_readErr (lk_io k)" "ai_now (spec_io b k) = ai_now (lk_io k)"
  "ai_savedAt (spec_io b k) = ai_savedAt (lk_io k)" "ai_doneAt (spec_io b k) = ai_doneAt (lk_io k)" "ai_newRequest (spec_io b k) = ai_newRequest (lk_io k)"
  "ai_endpoint (spec_io b k) = ai_endpoint (lk_io k)" "ai_temp (spec_io b k) = ai_temp (lk_io k)" "ai_write (spec_io b k) = ai_write (lk_io k)"
  "ai_chmod (spec_io b k) = ai_chmod (lk_io k)" "ai_sync (spec_io b k) = ai_sync (lk_io k)" "ai_close (spec_io b k) = ai_close (lk_io k)"
  "ai_rename (spec_io b k) = ai_rename (lk_io k)" "ai_windows (spec_io b k) = ai_windows (lk_io k)" "ai_openDir (spec_io b k) = ai_openDir (lk_io k)"
  "ai_syncDir (spec_io b k) = ai_syncDir (lk_io k)"
  "ai_lock (spec_io b k) = lockFile b k"
  by (simp_all add: spec_io_def)

lemma spec_io_same [simp]:
  "readAuthDocument al (spec_io b k) f = readAuthDocument al (lk_io k) f"
  "refresh al (spec_io b k) token = refresh al (lk_io k) token"
  "save_refreshed al (spec_io b k) doc r f = save_refreshed al (lk_io k) doc r f"
  "materialFromDocument al (spec_io b k) doc t fresh = materialFromDocument al (lk_io k) doc t fresh"
  unfolding readAuthDocument_def refresh_def save_refreshed_def writeAuthDocument_def syncDir_def
    materialFromDocument_def spec_io_fields by (rule refl)+

lemma current_inside:
  "passed b k Locked \<Longrightarrow> current al skew (spec_io b k) f = current_locked al skew (spec_io b k) f"
  by (simp add: current_def less_three)

text \<open>The token in the file has run out, and there is a token to refresh it with.\<close>

definition due :: "auth_lib \<Rightarrow> duration \<Rightarrow> lock_call \<Rightarrow> string option \<Rightarrow> authDocument \<Rightarrow> bool" where
  "due al skew k contents doc \<longleftrightarrow>
     readAuthDocument al (lk_io k) contents = Inr doc \<and>
     (\<exists>t. jwtExpiresAt al (ts_AccessToken (ad_tokens doc)) = Inr t \<and> \<not> t > ai_now (lk_io k) + skew) \<and>
     TrimSpace (ts_RefreshToken (ad_tokens doc)) \<noteq> []"

lemma current_locked_due:
  "due al skew k f doc \<Longrightarrow>
   current_locked al skew (spec_io b k) f =
     (case refresh al (lk_io k) (ts_RefreshToken (ad_tokens doc)) of
        (Inl err, forms) \<Rightarrow> (Inl err, f, forms)
      | (Inr r, forms) \<Rightarrow> (let (res, f') = save_refreshed al (lk_io k) doc r f in (res, f', forms)))"
  unfolding current_locked_def spec_io_same spec_io_fields by (auto simp: due_def)

text \<open>What a call inside has found, the forms of the calls that have ended being \<open>forms\<close>.\<close>

fun under_way :: "auth_lib \<Rightarrow> duration \<Rightarrow> lock_call \<Rightarrow> lock_state \<Rightarrow> string list \<Rightarrow> call_phase \<Rightarrow> bool" where
  "under_way al skew k s forms (Refreshing doc) \<longleftrightarrow> due al skew k (cl_file s) doc \<and> cl_forms s = forms"
| "under_way al skew k s forms (Saving doc r) \<longleftrightarrow> due al skew k (cl_file s) doc \<and>
     (\<exists>fs. refresh al (lk_io k) (ts_RefreshToken (ad_tokens doc)) = (Inr r, fs) \<and> cl_forms s = forms @ fs)"
| "under_way al skew k s forms ph \<longleftrightarrow> True"

fun saving :: "call_phase \<Rightarrow> bool" where
  "saving (Saving doc r) = True"
| "saving ph = False"

definition in_a_row ::
    "auth_lib \<Rightarrow> duration \<Rightarrow> lock_build \<Rightarrow> (nat \<Rightarrow> lock_call) \<Rightarrow> string option \<Rightarrow> lock_state \<Rightarrow> string list \<Rightarrow> bool" where
  "in_a_row al skew b calls f s forms \<longleftrightarrow>
     callers al skew (map (\<lambda>c. spec_io b (calls c)) (cl_ended s)) f = (map (outcome_of s) (cl_ended s), cl_file s, forms) \<and>
     (\<forall>c. under_way al skew (calls c) s forms (cl_phase s c)) \<and>
     ((\<forall>c. \<not> saving (cl_phase s c)) \<longrightarrow> cl_forms s = forms)"

lemma under_way_cong:
  "cl_file t = cl_file s \<Longrightarrow> cl_forms t = cl_forms s \<Longrightarrow> under_way al skew k t forms ph = under_way al skew k s forms ph"
  by (cases ph) simp_all

lemma outside_under_way: "\<not> inside ph \<Longrightarrow> under_way al skew k s forms ph \<and> \<not> saving ph"
  by (cases ph) simp_all

lemma saving_inside: "saving ph \<Longrightarrow> inside ph"
  by (cases ph) simp_all

lemma row_forms: "in_a_row al skew b calls f s forms \<Longrightarrow> prefix forms (cl_forms s)"
proof (cases "\<forall>c. \<not> saving (cl_phase s c)")
  case False
  then obtain c doc r where "cl_phase s c = Saving doc r" by (metis saving.elims(2))
  moreover assume "in_a_row al skew b calls f s forms"
  ultimately show ?thesis unfolding in_a_row_def prefix_def by (metis under_way.simps(2))
qed (simp add: in_a_row_def)

lemma outcome_moved:
  assumes "ended_once s" "cl_phase t = (cl_phase s)(c := ph)" "result_of (cl_phase s c) = None \<or> result_of ph = result_of (cl_phase s c)"
  shows "map (outcome_of t) (cl_ended s) = map (outcome_of s) (cl_ended s)"
  using assms by (auto simp: ended_once_def outcome_of_def)

lemma row_moved:
  assumes "in_a_row al skew b calls f s forms" "ended_once s" "cl_phase t = (cl_phase s)(c := ph)" "cl_ended t = cl_ended s"
    "cl_file t = cl_file s" "cl_forms t = cl_forms s" "result_of ph = result_of (cl_phase s c)"
    "under_way al skew (calls c) s forms ph" "\<not> saving (cl_phase s c)" "\<not> saving ph"
  shows "in_a_row al skew b calls f t forms"
  using assms outcome_moved [OF assms(2,3)] unfolding in_a_row_def
  by (auto simp: under_way_cong [of t s])

lemma row_ended:
  assumes row: "in_a_row al skew b calls f s forms" and once: "ended_once s"
    and t: "cl_phase t = (cl_phase s)(c := ph)" "cl_ended t = cl_ended s @ [c]" "result_of ph = Some res"
    and c: "result_of (cl_phase s c) = None" "current al skew (spec_io b (calls c)) (cl_file s) = (res, cl_file t, fs)"
    and others: "\<forall>d. under_way al skew (calls d) t (forms @ fs) (cl_phase t d)"
      "(\<forall>d. \<not> saving (cl_phase t d)) \<longrightarrow> cl_forms t = forms @ fs"
  shows "in_a_row al skew b calls f t (forms @ fs)"
proof -
  have "map (outcome_of t) (cl_ended s) = map (outcome_of s) (cl_ended s)" "outcome_of t c = res"
    using outcome_moved [OF once t(1)] t c by (simp_all add: outcome_of_def)
  then show ?thesis using row c(2) others t(2) unfolding in_a_row_def by (simp add: callers_append)
qed

text \<open>A call that ends without having entered, and one that ends alone inside.\<close>

lemma row_ended_outside:
  assumes row: "in_a_row al skew b calls f s forms" and once: "ended_once s"
    and t: "cl_phase t = (cl_phase s)(c := ph)" "cl_ended t = cl_ended s @ [c]" "result_of ph = Some res"
      "cl_file t = cl_file s" "cl_forms t = cl_forms s"
    and c: "result_of (cl_phase s c) = None" "current al skew (spec_io b (calls c)) (cl_file s) = (res, cl_file s, [])"
      "\<not> saving (cl_phase s c)"
  shows "in_a_row al skew b calls f t forms"
proof -
  have ph: "\<not> saving ph" "under_way al skew (calls c) t forms ph" using t(3) by (cases ph; simp)+
  have "under_way al skew (calls d) t forms (cl_phase t d)" for d
    using row t ph unfolding in_a_row_def by (cases "d = c") (simp_all add: under_way_cong [of t s])
  moreover have "(\<forall>d. \<not> saving (cl_phase t d)) \<longrightarrow> cl_forms t = forms"
    using row t ph c(3) unfolding in_a_row_def by (metis fun_upd_apply)
  ultimately show ?thesis
    using row_ended [OF row once t(1-3) c(1), of "[]"] c(2) t(4) by simp
qed

lemma row_ended_inside:
  assumes row: "in_a_row al skew b calls f s forms" and once: "ended_once s"
    and t: "cl_phase t = (cl_phase s)(c := ph)" "cl_ended t = cl_ended s @ [c]" "result_of ph = Some res" "cl_forms t = forms @ fs"
    and c: "result_of (cl_phase s c) = None" "current al skew (spec_io b (calls c)) (cl_file s) = (res, cl_file t, fs)"
    and alone: "\<And>d. inside (cl_phase s d) \<Longrightarrow> d = c"
  shows "in_a_row al skew b calls f t (forms @ fs)"
proof -
  have ph: "\<not> saving ph" "under_way al skew (calls c) t (forms @ fs) ph" using t(3) by (cases ph; simp)+
  have "\<not> inside (cl_phase s d)" if "d \<noteq> c" for d using alone that by blast
  then have "under_way al skew (calls d) t (forms @ fs) (cl_phase t d)" for d
    using t(1) ph by (cases "d = c") (simp_all add: outside_under_way)
  then show ?thesis using row_ended [OF row once t(1-3) c] t(4) by simp
qed


text \<open>A step of a call, alone inside where it is inside.\<close>

lemma quiet_current:
  "ai_ctx (lk_io k) 0 = Some err \<Longrightarrow> current al skew (spec_io b k) f = (Inl err, f, [])"
  "ai_ctx (lk_io k) 0 = None \<Longrightarrow> ai_ctx (lk_io k) 1 = Some err \<Longrightarrow> current al skew (spec_io b k) f = (Inl err, f, [])"
  "ai_ctx (lk_io k) 0 = None \<Longrightarrow> ai_ctx (lk_io k) 1 = None \<Longrightarrow> lockFile b k = Some err \<Longrightarrow>
   current al skew (spec_io b k) f = (Inl err, f, [])"
  "ai_ctx (lk_io k) 0 = None \<Longrightarrow> ai_ctx (lk_io k) 1 = None \<Longrightarrow> lockFile b k = None \<Longrightarrow> ai_ctx (lk_io k) 2 = Some err \<Longrightarrow>
   current al skew (spec_io b k) f = (Inl err, f, [])"
  by (simp_all add: current_def)

lemma row_step_outside:
  assumes row: "in_a_row al skew b calls f s forms" and once: "ended_once s" and "calls_passed b calls s"
    and step: "lock_step al skew b calls c s = Some t" and out: "\<not> inside (cl_phase s c)"
  shows "in_a_row al skew b calls f t forms"
proof -
  have p: "passed b (calls c) (cl_phase s c)" using assms(3) by (simp add: calls_passed_def)
  have q: "\<not> saving (cl_phase s c)" using out by (simp add: outside_under_way)
  have kept: "cl_file t = cl_file s" "cl_forms t = cl_forms s"
    using step out by (cases "cl_phase s c"; auto simp: lock_step_defs split: lock_step_splits)+
  show ?thesis
  proof (cases rule: lock_step_shape [OF step])
    case (1 ph)
    have ph: "ph = cl_phase t c" using 1(1) by simp
    have "\<not> saving ph" "under_way al skew (calls c) s forms ph"
      using step out unfolding ph by (cases "cl_phase s c"; auto simp: lock_step_defs split: lock_step_splits)+
    then show ?thesis by (rule row_moved [OF row once 1(1,2) kept 1(3) _ q, rotated])
  next
    case (2 ph res)
    have "result_of (cl_phase t c) = Some res" using 2(1,4) by simp
    then have "current al skew (spec_io b (calls c)) (cl_file s) = (res, cl_file s, [])"
      using step out p 2(3)
      by (cases "cl_phase s c") (auto simp: lock_step_defs openLockFile_def lockFile_def quiet_current split: lock_step_splits)
    then show ?thesis by (rule row_ended_outside [OF row once 2(1,2,4) kept 2(3) _ q])
  qed
qed


lemma read_not_due:
  assumes "\<nexists>doc. due al skew k (cl_file s) doc"
  shows "\<exists>res. read_locked al skew k c s = ends_at s c (Unlocking res) \<and>
    current_locked al skew (spec_io b k) (cl_file s) = (res, cl_file s, [])"
proof (cases "readAuthDocument al (lk_io k) (cl_file s)")
  case (Inr doc)
  then show ?thesis
    using assms by (cases "jwtExpiresAt al (ts_AccessToken (ad_tokens doc))")
      (auto simp: read_locked_def current_locked_def due_def)
qed (simp add: read_locked_def current_locked_def)

lemma row_step_inside:
  assumes row: "in_a_row al skew b calls f s forms" and once: "ended_once s" and "calls_passed b calls s"
    and step: "lock_step al skew b calls c s = Some t" and alone: "\<And>d. inside (cl_phase s d) \<longleftrightarrow> d = c"
  shows "\<exists>forms'. in_a_row al skew b calls f t forms'"
proof -
  have p: "passed b (calls c) (cl_phase s c)" using assms(3) by (simp add: calls_passed_def)
  have w: "under_way al skew (calls c) s forms (cl_phase s c)" using row by (simp add: in_a_row_def)
  have in_c: "inside (cl_phase s c)" using alone by simp
  have others: "\<not> saving (cl_phase s d)" if "d \<noteq> c" for d using alone that outside_under_way by blast
  have nosave: "\<not> saving (cl_phase s c) \<Longrightarrow> cl_forms s = forms"
    using row others unfolding in_a_row_def by metis
  have ends: "\<exists>forms'. in_a_row al skew b calls f t forms'"
    if "cl_ended t = cl_ended s @ [c]" "cl_phase t = (cl_phase s)(c := Unlocking res)" "cl_forms t = forms @ fs"
      "result_of (cl_phase s c) = None" "current_locked al skew (spec_io b (calls c)) (cl_file s) = (res, cl_file t, fs)" for res fs
  proof -
    have "passed b (calls c) Locked" using p in_c that(4) by (cases "cl_phase s c") simp_all
    then have "current al skew (spec_io b (calls c)) (cl_file s) = (res, cl_file t, fs)" using that(5) by (simp add: current_inside)
    then show ?thesis using row_ended_inside [OF row once that(2,1) _ that(3,4)] alone by fastforce
  qed
  show ?thesis
  proof (cases "cl_phase s c")
    case Locked
    then have t: "t = read_locked al skew (calls c) c s" and fm: "cl_forms s = forms" using step nosave by (simp_all add: lock_step_def)
    show ?thesis
    proof (cases "\<exists>doc. due al skew (calls c) (cl_file s) doc")
      case True
      then obtain doc where d: "due al skew (calls c) (cl_file s) doc" by blast
      then have "t = at_phase s c (Refreshing doc)" by (auto simp: t read_locked_def due_def)
      then have "in_a_row al skew b calls f t forms"
        using d fm Locked by (intro row_moved [OF row once, of t c "Refreshing doc"]) simp_all
      then show ?thesis ..
    next
      case False
      then obtain res where "t = ends_at s c (Unlocking res)"
        "current_locked al skew (spec_io b (calls c)) (cl_file s) = (res, cl_file s, [])"
        unfolding t by (metis read_not_due)
      then show ?thesis using Locked fm by (intro ends [of res "[]"]) simp_all
    qed
  next
    case (Refreshing doc)
    then have t: "t = post_refresh al (calls c) c doc s" using step by (simp add: lock_step_def)
    have d: "due al skew (calls c) (cl_file s) doc" "cl_forms s = forms" using w Refreshing by simp_all
    obtain r fs where r: "refresh al (lk_io (calls c)) (ts_RefreshToken (ad_tokens doc)) = (r, fs)" by fastforce
    show ?thesis
    proof (cases r)
      case (Inl err)
      then show ?thesis using Refreshing r d
        by (intro ends [of "Inl err" fs]) (simp_all add: t post_refresh_def current_locked_due)
    next
      case (Inr tr)
      have "in_a_row al skew b calls f t forms"
        using row d r Inr Refreshing others alone outside_under_way unfolding in_a_row_def t post_refresh_def
        by (auto simp: outcome_of_def)
      then show ?thesis ..
    qed
  next
    case (Saving doc r)
    then have t: "t = save_locked al (calls c) c doc r s" using step by (simp add: lock_step_def)
    obtain fs where fs: "due al skew (calls c) (cl_file s) doc" "cl_forms s = forms @ fs"
      "refresh al (lk_io (calls c)) (ts_RefreshToken (ad_tokens doc)) = (Inr r, fs)" using w Saving by auto
    obtain res f' where "save_refreshed al (lk_io (calls c)) doc r (cl_file s) = (res, f')" by fastforce
    then show ?thesis using Saving fs
      by (intro ends [of res fs]) (simp_all add: t save_locked_def current_locked_due)
  next
    case (Unlocking res)
    then have t: "t = unlock b c res s" using step by (simp add: lock_step_def)
    have "in_a_row al skew b calls f t forms"
      using Unlocking t by (intro row_moved [OF row once, of t c "Leaving res"]) (simp_all add: unlock_def split: lock_build.splits)
    then show ?thesis ..
  qed (use in_c in simp_all)
qed


text \<open>Results are fixed in the order of the list.\<close>

lemma run_ended: "lock_run al skew b calls es s = Some t \<Longrightarrow> \<exists>later. cl_ended t = cl_ended s @ later"
proof (induction rule: run_steps_induct)
  case (step es s' c t)
  then show ?case by (auto elim!: lock_step_shape)
qed simp

lemma saved_call:
  assumes row: "in_a_row al skew b calls f s forms" and "calls_passed b calls s"
    and c: "cl_phase s c = Saving doc r" "lock_step al skew b calls c s = Some t" "cl_phase t c = Unlocking (Inr m)"
  shows "current al skew (spec_io b (calls c)) (cl_file s) =
    (Inr m, cl_file t, snd (refresh al (lk_io (calls c)) (ts_RefreshToken (ad_tokens doc)))) \<and> am_Refreshed m"
proof -
  have p: "passed b (calls c) Locked" using assms(2) c(1) unfolding calls_passed_def by (metis passed.simps(4,6))
  obtain fs where fs: "due al skew (calls c) (cl_file s) doc"
    "refresh al (lk_io (calls c)) (ts_RefreshToken (ad_tokens doc)) = (Inr r, fs)"
    using row c(1) unfolding in_a_row_def by (metis under_way.simps(2))
  have sv: "save_refreshed al (lk_io (calls c)) doc r (cl_file s) = (Inr m, cl_file t)"
    using c by (auto simp: lock_step_def save_locked_def split: prod.splits)
  then have "am_Refreshed m"
    by (auto simp: save_refreshed_def materialFromDocument_def Let_def split: sum.splits prod.splits option.splits)
  then show ?thesis using sv fs by (simp add: current_inside [OF p] current_locked_due)
qed

text \<open>What the calls rely on: no two of them are inside at once.\<close>

locale serialized_calls =
  fixes b :: lock_build
    and calls :: "nat \<Rightarrow> lock_call"
  assumes one_inside: "lock_run al skew b calls es (lock_start f) = Some s \<Longrightarrow>
    inside (cl_phase s c) \<Longrightarrow> inside (cl_phase s d) \<Longrightarrow> c = d"
begin

lemma run_in_a_row:
  "lock_run al skew b calls es (lock_start f) = Some s \<Longrightarrow>
   ended_once s \<and> calls_passed b calls s \<and> (\<exists>forms. in_a_row al skew b calls f s forms)"
proof (induction rule: run_steps_induct)
  case start
  then show ?case by (simp add: lock_start_def ended_once_def calls_passed_def in_a_row_def)
next
  case (step es s c t)
  then obtain forms where row: "in_a_row al skew b calls f s forms" "ended_once s" "calls_passed b calls s" by blast
  have "\<exists>forms'. in_a_row al skew b calls f t forms'"
  proof (cases "inside (cl_phase s c)")
    case True
    then show ?thesis using row_step_inside [OF row step(2)] one_inside [OF step(1)] by metis
  next
    case False
    then show ?thesis using row_step_outside [OF row step(2)] by blast
  qed
  then show ?case using row step(2) ended_step passed_step by blast
qed

text \<open>From a save that succeeded on, with calls whose margin the new token outlives.\<close>

lemma after_save:
  assumes codec: "json_codec al"
    and run: "lock_run al skew b calls es (lock_start f) = Some s1" "cl_phase s1 c = Saving doc r"
    and save: "lock_step al skew b calls c s1 = Some s2" "cl_phase s2 c = Unlocking (Inr m)"
    and rest: "lock_run al skew b calls es' s2 = Some s3"
    and token: "TrimSpace (am_AccessToken m) = am_AccessToken m"
    and margin: "\<And>d. d \<notin> set (cl_ended s2) \<Longrightarrow>
      (\<forall>k. ai_ctx (lk_io (calls d)) k = None) \<and> lockFile b (calls d) = None \<and> am_ExpiresAt m > ai_now (lk_io (calls d)) + skew"
  shows "cl_file s3 = cl_file s2 \<and> cl_forms s3 = cl_forms s2 \<and>
    (\<forall>d\<in>set (cl_ended s3) - set (cl_ended s2). \<exists>m'. outcome_of s3 d = Inr m' \<and> am_AccessToken m' = am_AccessToken m \<and>
       am_AccountID m' = am_AccountID m \<and> am_ExpiresAt m' = am_ExpiresAt m \<and> \<not> am_Refreshed m')"
proof -
  obtain forms1 where row1: "in_a_row al skew b calls f s1 forms1" "ended_once s1" "calls_passed b calls s1"
    using run_in_a_row [OF run(1)] by blast
  have run2: "lock_run al skew b calls (es @ [c]) (lock_start f) = Some s2" using run(1) save(1) by (simp add: run_steps_append)
  have run3: "lock_run al skew b calls ((es @ [c]) @ es') (lock_start f) = Some s3" using run2 rest by (simp only: run_steps_append option.case)
  obtain forms2 forms3 where row2: "in_a_row al skew b calls f s2 forms2" and row3: "in_a_row al skew b calls f s3 forms3" "ended_once s3"
    using run_in_a_row [OF run2] run_in_a_row [OF run3] by blast
  have "\<not> saving (cl_phase s2 d)" for d
    using one_inside [OF run2, of d c] save(2) saving_inside [of "cl_phase s2 d"] by (cases "d = c") auto
  then have forms2: "cl_forms s2 = forms2" using row2 by (simp add: in_a_row_def)
  have saved: "current al skew (spec_io b (calls c)) (cl_file s1) = (Inr m, cl_file s2, snd (refresh al (lk_io (calls c)) (ts_RefreshToken (ad_tokens doc)))) \<and> am_Refreshed m"
    using saved_call [OF row1(1,3) run(2) save] .
  have disk: "\<exists>doc. readAuthDocument al io (cl_file s2) = Inr doc \<and> ts_AccessToken (ad_tokens doc) = am_AccessToken m \<and>
      ts_AccountID (ad_tokens doc) = am_AccountID m \<and> jwtExpiresAt al (am_AccessToken m) = Inr (am_ExpiresAt m)" for io
    using refreshed_on_disk [OF codec conjunct1 [OF saved] conjunct2 [OF saved], of io] token by auto
  obtain later where later: "cl_ended s3 = cl_ended s2 @ later" using run_ended [OF rest] by blast
  then have new: "set later = set (cl_ended s3) - set (cl_ended s2)" using row3(2) by (auto simp: ended_once_def)
  then have "\<forall>j\<in>set (map (\<lambda>d. spec_io b (calls d)) later). (\<forall>k. ai_ctx j k = None) \<and> ai_lock j = None \<and> am_ExpiresAt m > ai_now j + skew"
    using margin by simp
  from callers_valid [OF disk this] obtain results where
    results: "callers al skew (map (\<lambda>d. spec_io b (calls d)) later) (cl_file s2) = (results, cl_file s2, [])"
      "length results = length later"
      "\<forall>r\<in>set results. \<exists>m'. r = Inr m' \<and> am_AccessToken m' = am_AccessToken m \<and> am_AccountID m' = am_AccountID m \<and>
         am_ExpiresAt m' = am_ExpiresAt m \<and> \<not> am_Refreshed m'" by auto
  have s3: "cl_file s3 = cl_file s2" "forms3 = forms2" "map (outcome_of s3) later = results"
    using row2 row3(1) results(1,2) unfolding in_a_row_def later by (simp_all add: callers_append)
  have "\<not> saving (cl_phase s3 d)" for d
  proof
    assume "saving (cl_phase s3 d)"
    then obtain doc' r' where d: "cl_phase s3 d = Saving doc' r'" by (cases "cl_phase s3 d") simp_all
    then have "due al skew (calls d) (cl_file s2) doc'" using row3(1) s3(1) unfolding in_a_row_def by (metis under_way.simps(2))
    moreover have "result_of (cl_phase s3 d) = None" using d by simp
    then have "d \<notin> set (cl_ended s2)" using row3(2) later unfolding ended_once_def by (metis Un_iff set_append)
    ultimately show False using disk [of "lk_io (calls d)"] margin [of d] by (auto simp: due_def)
  qed
  then have "cl_forms s3 = cl_forms s2" using row3(1) forms2 s3(2) by (simp add: in_a_row_def)
  then show ?thesis using s3(1,3) results(3) new by (metis imageI list.set_map)
qed

end

text \<open>The lock file excludes on a posix build; elsewhere the mutex does, among the calls of one manager.\<close>

lemma posix_flock_held:
  "lock_run al skew LockPosix calls es (lock_start f) = Some s \<Longrightarrow> flock_held s"
proof (induction rule: run_steps_induct)
  case start
  then show ?case by (simp add: lock_start_def flock_held_def)
qed (rule flock_step)

lemma run_mutex_held:
  "lock_run al skew b calls es (lock_start f) = Some s \<Longrightarrow> mutex_held calls s"
proof (induction rule: run_steps_induct)
  case start
  then show ?case by (simp add: lock_start_def mutex_held_def)
qed (rule mutex_step)

lemma inside_holds_mutex: "inside ph \<Longrightarrow> holds_mutex ph"
  by (cases ph) simp_all

interpretation posix: serialized_calls LockPosix calls for calls
  by unfold_locales (metis posix_flock_held flock_held_def option.inject)

definition of_manager :: "nat \<Rightarrow> (nat \<Rightarrow> lock_call) \<Rightarrow> nat \<Rightarrow> lock_call" where
  "of_manager m calls c = (calls c)\<lparr>lk_manager := m\<rparr>"

interpretation shared: serialized_calls b "of_manager m calls" for b m calls
proof
  fix al skew es f s c d
  assume "lock_run al skew b (of_manager m calls) es (lock_start f) = Some s" "inside (cl_phase s c)" "inside (cl_phase s d)"
  then have "cl_mutex s m = Some c" "cl_mutex s m = Some d"
    using run_mutex_held unfolding mutex_held_def by (metis inside_holds_mutex lock_call.select_convs(1) lock_call.surjective lock_call.update_convs(1) of_manager_def)+
  then show "c = d" by simp
qed


text \<open>Both at once: the builds and managers where calls are serialized.\<close>

definition exclusive :: "lock_build \<Rightarrow> (nat \<Rightarrow> lock_call) \<Rightarrow> bool" where
  "exclusive b calls \<longleftrightarrow> b = LockPosix \<or> (\<forall>c d. lk_manager (calls c) = lk_manager (calls d))"

lemma one_manager: "\<forall>c d. lk_manager (calls c) = lk_manager (calls d) \<Longrightarrow> calls = of_manager (lk_manager (calls 0)) calls"
  by (rule ext) (metis lock_call.surjective lock_call.update_convs(1) of_manager_def)

lemma exclusive_serialized: "exclusive b calls \<Longrightarrow> serialized_calls b calls"
  unfolding exclusive_def
  by (metis one_manager posix.serialized_calls_axioms shared.serialized_calls_axioms)

section \<open>Every call returns\<close>

fun steps_left :: "call_phase \<Rightarrow> nat" where
  "steps_left Entered = 9"
| "steps_left AtMutex = 8"
| "steps_left Opening = 7"
| "steps_left Flocking = 6"
| "steps_left Locked = 5"
| "steps_left (Refreshing doc) = 4"
| "steps_left (Saving doc r) = 3"
| "steps_left (Unlocking res) = 2"
| "steps_left (Leaving res) = 1"
| "steps_left (Returned res) = 0"

lemma lock_step_moves:
  assumes "lock_step al skew b calls c s = Some t"
  shows "\<exists>ph. cl_phase t = (cl_phase s)(c := ph) \<and> steps_left ph < steps_left (cl_phase s c)"
  using assms by (cases "cl_phase s c") (force simp: lock_step_defs split: lock_step_splits)+

lemma steps_bounded:
  assumes "lock_run al skew b calls es (lock_start f) = Some s"
  shows "set es \<subseteq> {..<n} \<Longrightarrow> length es + (\<Sum>c<n. steps_left (cl_phase s c)) \<le> 9 * n"
  using assms
proof (induction rule: run_steps_induct)
  case start
  then show ?case by (simp add: lock_start_def)
next
  case (step es s c t)
  obtain ph where ph: "cl_phase t = (cl_phase s)(c := ph)" "steps_left ph < steps_left (cl_phase s c)"
    using lock_step_moves [OF step(2)] by blast
  have c: "c < n" "set es \<subseteq> {..<n}" using step.prems by auto
  have "(\<Sum>d<n. steps_left (cl_phase t d)) < (\<Sum>d<n. steps_left (cl_phase s d))"
    using c(1) ph by (intro sum_strict_mono_ex1) auto
  then show ?case using step.IH [OF c(2)] by simp
qed

lemma untouched:
  assumes "lock_run al skew b calls es (lock_start f) = Some s"
  shows "c \<notin> set es \<Longrightarrow> cl_phase s c = Entered"
  using assms
proof (induction rule: run_steps_induct)
  case (step es s d t)
  then show ?case using lock_step_moves [OF step(2)] by auto
qed (simp add: lock_start_def)

lemma holder_moves:
  assumes "holds_mutex (cl_phase s c)" "cl_phase s c \<noteq> Flocking"
  shows "lock_step al skew b calls c s \<noteq> None"
  using assms by (cases "cl_phase s c") (simp_all add: lock_step_def)

lemma stuck_cases:
  assumes "lock_step al skew b calls c s = None"
  obtains res where "cl_phase s c = Returned res"
  | h where "cl_phase s c = AtMutex" "cl_mutex s (lk_manager (calls c)) = Some h"
  | h where "cl_phase s c = Flocking" "cl_flock s = Some h"
  using assms by (cases "cl_phase s c") (auto simp: lock_step_defs split: lock_step_splits)


text \<open>While a call has not returned, some call can go on.\<close>

lemma run_passed: "lock_run al skew b calls es (lock_start f) = Some s \<Longrightarrow> calls_passed b calls s"
proof (induction rule: run_steps_induct)
  case start
  then show ?case by (simp add: lock_start_def calls_passed_def)
qed (rule passed_step)

lemma flock_free:
  assumes run: "lock_run al skew b calls es (lock_start f) = Some s" and c: "cl_phase s c = Flocking"
    and held: "cl_flock s = Some h"
  shows "inside (cl_phase s h)"
proof -
  have "b = LockPosix" using run_passed [OF run] c unfolding calls_passed_def by (metis passed.simps(3))
  then show ?thesis using posix_flock_held run held unfolding flock_held_def by blast
qed

lemma some_call_goes_on:
  assumes run: "lock_run al skew b calls es (lock_start f) = Some s" and es: "set es \<subseteq> {..<n}"
    and c: "c < n" "\<nexists>res. cl_phase s c = Returned res"
  shows "\<exists>d<n. lock_step al skew b calls d s \<noteq> None"
proof (rule ccontr)
  assume "\<not> ?thesis"
  then have stuck: "lock_step al skew b calls d s = None" if "d < n" for d using that by blast
  have low: "d < n" if "cl_phase s d \<noteq> Entered" for d using untouched [OF run, of d] that es by blast
  have no_flocking: "cl_phase s d \<noteq> Flocking" for d
  proof
    assume d: "cl_phase s d = Flocking"
    then have "lock_step al skew b calls d s = None" using stuck low by simp
    then obtain h where "cl_flock s = Some h" using d by (cases rule: stuck_cases) simp_all
    then have "inside (cl_phase s h)" using flock_free [OF run d] by simp
    then show False using holder_moves [of s h] inside_holds_mutex stuck low by (metis holds_mutex.simps(1) inside.simps(8))
  qed
  have "lock_step al skew b calls c s = None" using stuck c by simp
  then obtain h where "cl_mutex s (lk_manager (calls c)) = Some h" using c no_flocking by (cases rule: stuck_cases) simp_all
  then have "holds_mutex (cl_phase s h)" using run_mutex_held [OF run] unfolding mutex_held_def by blast
  then show False using holder_moves [of s h] no_flocking stuck low by (metis holds_mutex.simps(1))
qed

section \<open>Properties\<close>

text \<open>C4: Calls of \<open>current\<close> that overlap, on any number of managers and processes where the lock file
  excludes and on one manager anywhere, do what the same calls do one after the other: the results that
  are fixed, the auth file and the forms at the token endpoint are those of \<open>callers\<close> in the order in
  which the results were fixed (a form posted by a call still saving is all the endpoint has seen more),
  and that order only grows, so a call that had returned before another one entered comes first.\<close>

theorem overlapping_calls_serialized:
  assumes "exclusive b calls" "lock_run al skew b calls es (lock_start f) = Some s"
  shows "distinct (cl_ended s) \<and> set (cl_ended s) = {c. result_of (cl_phase s c) \<noteq> None} \<and>
    (\<exists>forms. callers al skew (map (\<lambda>c. spec_io b (calls c)) (cl_ended s)) f = (map (outcome_of s) (cl_ended s), cl_file s, forms) \<and>
       prefix forms (cl_forms s) \<and> ((\<forall>c. \<not> saving (cl_phase s c)) \<longrightarrow> cl_forms s = forms)) \<and>
    (\<forall>n. \<exists>u. lock_run al skew b calls (take n es) (lock_start f) = Some u \<and> prefix (cl_ended u) (cl_ended s))"
proof -
  obtain forms where s: "ended_once s" "in_a_row al skew b calls f s forms"
    using serialized_calls.run_in_a_row [OF exclusive_serialized [OF assms(1)] assms(2)] by blast
  have "prefix forms (cl_forms s)" using row_forms [OF s(2)] .
  moreover have "\<exists>u. lock_run al skew b calls (take n es) (lock_start f) = Some u \<and> prefix (cl_ended u) (cl_ended s)" for n
  proof -
    have "lock_run al skew b calls (take n es @ drop n es) (lock_start f) = Some s" using assms(2) by simp
    then obtain u where "lock_run al skew b calls (take n es) (lock_start f) = Some u" "lock_run al skew b calls (drop n es) u = Some s"
      unfolding run_steps_append by (auto split: option.splits)
    then show ?thesis using run_ended unfolding prefix_def by blast
  qed
  ultimately show ?thesis using s by (auto simp: ended_once_def in_a_row_def)
qed


text \<open>C6: Calls do not block each other for good, on any build and with any managers: of \<open>n\<close> calls, no
  schedule makes more than \<open>9 * n\<close> steps, and when none of them can go on, all of them have returned.\<close>

theorem overlapping_calls_return:
  assumes "lock_run al skew b calls es (lock_start f) = Some s" "set es \<subseteq> {..<n}"
  shows "length es \<le> 9 * n \<and>
    ((\<forall>c<n. lock_step al skew b calls c s = None) \<longrightarrow> (\<forall>c<n. \<exists>res. cl_phase s c = Returned res))"
  using steps_bounded [OF assms] some_call_goes_on [OF assms] by fastforce

section \<open>Witnesses\<close>

text \<open>Two processes whose calls meet at the lock file.\<close>

definition two_processes :: "nat \<Rightarrow> lock_call" where
  "two_processes c = \<lparr>lk_manager = c, lk_io = witness_call, lk_open = None, lk_flock = None\<rparr>"

definition met_schedule :: "nat list" where
  "met_schedule = [0, 1, 0, 1, 0, 1, 0, 0, 0]"

definition saved_schedule :: "nat list" where
  "saved_schedule = [0, 1, 1, 1, 1, 0]"

text \<open>What the two runs come to, evaluated once.\<close>

definition met_view :: "lock_state \<Rightarrow> bool \<times> string option \<times> nat list" where
  "met_view s = (saving (cl_phase s 0), cl_file s, cl_ended s)"

lemma met_run:
  "map_option met_view (lock_run witness_auth (seconds 60) LockPosix two_processes met_schedule (lock_start (Some ''old''))) =
     Some (True, Some ''old'', [])"
  by code_simp

definition saved_view :: "lock_state \<Rightarrow> bool \<times> string option \<times> nat list \<times> nat \<times> string list" where
  "saved_view s =
     (case cl_phase s 0 of
        Unlocking (Inr m) \<Rightarrow>
          (am_ExpiresAt m = time_Unix 1000, cl_file s, cl_ended s, length (cl_forms s), [am_AccessToken m])
      | _ \<Rightarrow> (False, None, [], 0, []))"

lemma saved_run:
  "map_option saved_view (lock_run witness_auth (seconds 60) LockPosix two_processes (met_schedule @ [0]) (lock_start (Some ''old''))) =
     Some (True, Some ''new'', [0], 1, [''h.q.s''])"
  by code_simp

definition returned_view :: "lock_state \<Rightarrow> bool \<times> string option \<times> nat list \<times> nat" where
  "returned_view s =
     (\<forall>c\<in>{0, 1}. lock_step witness_auth (seconds 60) LockPosix two_processes c s = None \<and> \<not> saving (cl_phase s c),
      cl_file s, cl_ended s, length (cl_forms s))"

lemma returned_run:
  "map_option returned_view
     (lock_run witness_auth (seconds 60) LockPosix two_processes (met_schedule @ [0] @ saved_schedule) (lock_start (Some ''old''))) =
     Some (True, Some ''new'', [0, 1], 1)"
  by code_simp


lemma two_exclusive: "exclusive LockPosix two_processes"
  by (simp add: exclusive_def)

lemma low_schedules: "set (met_schedule @ [0] @ saved_schedule) \<subseteq> {..<2}"
  by (simp add: met_schedule_def saved_schedule_def)

lemma low_cases: "c < 2 \<Longrightarrow> c \<in> {0, 1::nat}"
  by auto

theorem overlapping_calls_serialized_witness:
  "\<exists>s. lock_run witness_auth (seconds 60) LockPosix two_processes (met_schedule @ [0] @ saved_schedule) (lock_start (Some ''old'')) = Some s \<and>
     callers witness_auth (seconds 60) (map (\<lambda>c. spec_io LockPosix (two_processes c)) [0, 1]) (Some ''old'') =
       (map (outcome_of s) [0, 1], Some ''new'', cl_forms s) \<and> length (cl_forms s) = 1"
proof -
  obtain s where s: "lock_run witness_auth (seconds 60) LockPosix two_processes (met_schedule @ [0] @ saved_schedule) (lock_start (Some ''old'')) = Some s"
    "returned_view s = (True, Some ''new'', [0, 1], 1)"
    using returned_run unfolding map_option_eq_Some by blast
  have "\<not> saving (cl_phase s c)" for c
  proof (cases "c < 2")
    case True
    then show ?thesis using s(2) low_cases [OF True] by (auto simp: returned_view_def)
  next
    case False
    then have "c \<notin> set (met_schedule @ [0] @ saved_schedule)" using low_schedules by auto
    then show ?thesis using untouched [OF s(1)] by simp
  qed
  moreover note overlapping_calls_serialized [OF two_exclusive s(1)]
  ultimately show ?thesis using s by (simp add: returned_view_def)
qed


theorem overlapping_calls_return_witness:
  "\<exists>s. lock_run witness_auth (seconds 60) LockPosix two_processes (met_schedule @ [0] @ saved_schedule) (lock_start (Some ''old'')) = Some s \<and>
     length (met_schedule @ [0] @ saved_schedule) \<le> 9 * 2 \<and> (\<forall>c<2. \<exists>res. cl_phase s c = Returned res)"
proof -
  obtain s where s: "lock_run witness_auth (seconds 60) LockPosix two_processes (met_schedule @ [0] @ saved_schedule) (lock_start (Some ''old'')) = Some s"
    "returned_view s = (True, Some ''new'', [0, 1], 1)"
    using returned_run unfolding map_option_eq_Some by blast
  then have "\<forall>c<2. lock_step witness_auth (seconds 60) LockPosix two_processes c s = None"
    using low_cases by (auto simp: returned_view_def)
  then show ?thesis using overlapping_calls_return [OF s(1) low_schedules] s(1) by blast
qed

text \<open>Where the lock file only exists, two processes that meet there both spend the refresh token.\<close>

lemma unlocked_build_refreshes_twice:
  "case lock_run witness_auth (seconds 60) LockOther two_processes [0, 1, 0, 1, 0, 1, 0, 1, 0, 1] (lock_start (Some ''old'')) of
     None \<Rightarrow> False
   | Some s \<Rightarrow> cl_forms s = [refresh_form witness_auth ''r1'', refresh_form witness_auth ''r1'']"
  by code_simp

end
