(* ===== verification/TierCatalog.thy ===== *)
theory TierCatalog
  imports Dispatch
begin

text \<open>
  The per-account model catalog behind \<open>accountSupportsTier\<close>, \<^verbatim>\<open>src/service_tiers.go\<close>: a cache with an
  expiry, filled by one fetch at a time. The loop of \<open>accountTierModels\<close> is split where a goroutine
  can be suspended: the critical section that answers from the cache, waits for the fetch in flight or
  becomes the fetcher; the wait on the channel \<open>ready\<close>; and the critical section that publishes the
  result and closes the channel. Channels are numbered in the order they are made.
\<close>

section \<open>Definitions\<close>

type_synonym catalog_result = "string + upstreamModel list"

record accountTierCatalog =
  tc_ready :: "nat option"
  tc_result :: catalog_result
  tc_expires :: gotime

definition empty_catalog :: accountTierCatalog where
  "empty_catalog = \<lparr>tc_ready = None, tc_result = Inr [], tc_expires = 0\<rparr>"

datatype catalog_caller = Asking | Waiting nat | Fetching nat | Answered catalog_result

text \<open>The first critical section of the loop; \<open>ch\<close> is the channel \<open>make\<close> would return.\<close>

definition catalog_ask :: "gotime \<Rightarrow> nat \<Rightarrow> accountTierCatalog \<Rightarrow> catalog_caller \<times> accountTierCatalog" where
  "catalog_ask now ch cache =
     (if now < tc_expires cache then (Answered (tc_result cache), cache)
      else (case tc_ready cache of
              Some ready \<Rightarrow> (Waiting ready, cache)
            | None \<Rightarrow> (Fetching ch, cache\<lparr>tc_ready := Some ch\<rparr>)))"

definition catalog_ttl :: "catalog_result \<Rightarrow> bool \<Rightarrow> duration" where
  "catalog_ttl res cancelled =
     (if cancelled then 0 else (case res of Inl err \<Rightarrow> seconds 30 | Inr models \<Rightarrow> minutes 5))"

definition catalog_publish :: "gotime \<Rightarrow> catalog_result \<Rightarrow> bool \<Rightarrow> accountTierCatalog \<Rightarrow> accountTierCatalog" where
  "catalog_publish now res cancelled cache =
     cache\<lparr>tc_result := res, tc_expires := now + catalog_ttl res cancelled, tc_ready := None\<rparr>"

text \<open>One account's catalog and its callers. With \<open>cancels\<close> a waiting caller may give up because its
  context ends; a fetch may be cut short by the end of the fetcher's context.\<close>

record catalog_sys =
  cy_cache :: accountTierCatalog
  cy_made :: nat
  cy_closed :: "nat set"
  cy_callers :: "catalog_caller list"

inductive catalog_step :: "bool \<Rightarrow> catalog_sys \<Rightarrow> catalog_sys \<Rightarrow> bool" for cancels where
  ask: "i < length (cy_callers s) \<Longrightarrow> cy_callers s ! i = Asking \<Longrightarrow>
    catalog_ask now (cy_made s) (cy_cache s) = (c, cache) \<Longrightarrow>
    catalog_step cancels s (s\<lparr>cy_cache := cache, cy_callers := (cy_callers s)[i := c],
      cy_made := (if c = Fetching (cy_made s) then Suc (cy_made s) else cy_made s)\<rparr>)"
| woken: "i < length (cy_callers s) \<Longrightarrow> cy_callers s ! i = Waiting ch \<Longrightarrow> ch \<in> cy_closed s \<Longrightarrow>
    catalog_step cancels s (s\<lparr>cy_callers := (cy_callers s)[i := Asking]\<rparr>)"
| gave_up: "cancels \<Longrightarrow> i < length (cy_callers s) \<Longrightarrow> cy_callers s ! i = Waiting ch \<Longrightarrow>
    catalog_step cancels s (s\<lparr>cy_callers := (cy_callers s)[i := Answered (Inl err)]\<rparr>)"
| fetched: "i < length (cy_callers s) \<Longrightarrow> cy_callers s ! i = Fetching ch \<Longrightarrow>
    catalog_step cancels s (s\<lparr>cy_cache := catalog_publish now res cancelled (cy_cache s), cy_closed := insert ch (cy_closed s),
      cy_callers := (cy_callers s)[i := Answered res]\<rparr>)"

inductive_cases catalog_stepE: "catalog_step cancels s t"

inductive catalog_reach :: "catalog_sys \<Rightarrow> catalog_sys \<Rightarrow> bool" for s0 where
  start: "catalog_reach s0 s0"
| step: "catalog_reach s0 s \<Longrightarrow> catalog_step True s t \<Longrightarrow> catalog_reach s0 t"

definition catalog_init :: "nat \<Rightarrow> catalog_sys" where
  "catalog_init n = \<lparr>cy_cache = empty_catalog, cy_made = 0, cy_closed = {}, cy_callers = replicate n Asking\<rparr>"

section \<open>Invariant\<close>

text \<open>A fetch is in flight exactly when the cache has a channel, which only its fetcher holds; whoever
  waits, waits for that channel or for one already closed.\<close>

definition fetching :: "catalog_caller \<Rightarrow> bool" where
  "fetching c \<longleftrightarrow> (\<exists>ch. c = Fetching ch)"

definition caller_ok :: "accountTierCatalog \<Rightarrow> nat set \<Rightarrow> catalog_caller \<Rightarrow> bool" where
  "caller_ok cache cl c \<longleftrightarrow> (\<forall>ch. c = Waiting ch \<longrightarrow> ch \<in> cl \<or> tc_ready cache = Some ch)"

definition catalog_inv :: "catalog_sys \<Rightarrow> bool" where
  "catalog_inv s \<longleftrightarrow>
     (\<forall>i<length (cy_callers s). caller_ok (cy_cache s) (cy_closed s) (cy_callers s ! i)) \<and>
     (case tc_ready (cy_cache s) of
        None \<Rightarrow> \<forall>i<length (cy_callers s). \<not> fetching (cy_callers s ! i)
      | Some ch \<Rightarrow> ch \<notin> cy_closed s \<and> ch < cy_made s \<and>
          (\<exists>k<length (cy_callers s). cy_callers s ! k = Fetching ch \<and>
             (\<forall>i<length (cy_callers s). i \<noteq> k \<longrightarrow> \<not> fetching (cy_callers s ! i)))) \<and>
     (\<forall>ch\<in>cy_closed s. ch < cy_made s)"

lemma catalog_inv_init: "catalog_inv (catalog_init n)"
  by (auto simp: catalog_inv_def catalog_init_def empty_catalog_def fetching_def caller_ok_def)

lemma fetching_simps [simp]: "\<not> fetching Asking" "\<not> fetching (Waiting c)" "fetching (Fetching c)" "\<not> fetching (Answered r)"
  by (simp_all add: fetching_def)

lemma caller_ok_simps [simp]: "caller_ok cache cl Asking" "caller_ok cache cl (Fetching c)" "caller_ok cache cl (Answered r)"
  "caller_ok cache cl (Waiting c) \<longleftrightarrow> c \<in> cl \<or> tc_ready cache = Some c"
  by (simp_all add: caller_ok_def)

lemma catalog_ask_cases:
  assumes "catalog_ask now ch cache = (c, cache')"
  obtains (hit) "c = Answered (tc_result cache)" "cache' = cache"
  | (wait) ready where "c = Waiting ready" "tc_ready cache = Some ready" "cache' = cache"
  | (lead) "c = Fetching ch" "tc_ready cache = None" "cache' = cache\<lparr>tc_ready := Some ch\<rparr>"
proof (cases "now < tc_expires cache")
  case True
  then show thesis using assms by (intro hit) (auto simp: catalog_ask_def)
next
  case False
  show thesis
  proof (cases "tc_ready cache")
    case None
    then show thesis using assms False by (intro lead) (auto simp: catalog_ask_def)
  next
    case (Some r)
    then show thesis using assms False by (intro wait [of r]) (auto simp: catalog_ask_def)
  qed
qed

text \<open>A caller that neither fetches before nor after can be updated.\<close>

lemma catalog_inv_update:
  assumes "catalog_inv s" "i < length (cy_callers s)" "\<not> fetching (cy_callers s ! i)" "\<not> fetching c"
    "caller_ok (cy_cache s) (cy_closed s) c"
  shows "catalog_inv (s\<lparr>cy_callers := (cy_callers s)[i := c]\<rparr>)"
proof (cases "tc_ready (cy_cache s)")
  case None
  then show ?thesis using assms by (auto simp: catalog_inv_def nth_list_update)
next
  case (Some ch)
  then obtain k where k: "k < length (cy_callers s)" "cy_callers s ! k = Fetching ch"
      "\<forall>i<length (cy_callers s). i \<noteq> k \<longrightarrow> \<not> fetching (cy_callers s ! i)" "ch \<notin> cy_closed s" "ch < cy_made s"
    using assms(1) by (auto simp: catalog_inv_def)
  have "i \<noteq> k" using assms(3) k(2) by auto
  then have "\<exists>k<length (cy_callers s). (cy_callers s)[i := c] ! k = Fetching ch \<and>
      (\<forall>j<length (cy_callers s). j \<noteq> k \<longrightarrow> \<not> fetching ((cy_callers s)[i := c] ! j))"
    using k assms(2,4) by (intro exI [of _ k]) (simp add: nth_list_update)
  then show ?thesis using assms Some k(4,5) by (simp add: catalog_inv_def nth_list_update)
qed

lemma catalog_inv_lead:
  assumes "catalog_inv s" "i < length (cy_callers s)" "tc_ready (cy_cache s) = None"
  shows "catalog_inv (s\<lparr>cy_cache := (cy_cache s)\<lparr>tc_ready := Some (cy_made s)\<rparr>,
    cy_callers := (cy_callers s)[i := Fetching (cy_made s)], cy_made := Suc (cy_made s)\<rparr>)"
proof -
  have "caller_ok ((cy_cache s)\<lparr>tc_ready := Some (cy_made s)\<rparr>) (cy_closed s) ((cy_callers s)[i := Fetching (cy_made s)] ! j)"
    if "j < length (cy_callers s)" for j
    using that assms by (auto simp: catalog_inv_def nth_list_update caller_ok_def)
  moreover have "\<exists>k<length (cy_callers s). (cy_callers s)[i := Fetching (cy_made s)] ! k = Fetching (cy_made s) \<and>
      (\<forall>j<length (cy_callers s). j \<noteq> k \<longrightarrow> \<not> fetching ((cy_callers s)[i := Fetching (cy_made s)] ! j))"
    using assms by (intro exI [of _ i]) (simp add: catalog_inv_def nth_list_update)
  moreover have "cy_made s \<notin> cy_closed s" "\<forall>ch\<in>cy_closed s. ch < Suc (cy_made s)"
    using assms(1) by (auto simp: catalog_inv_def less_SucI)
  ultimately show ?thesis by (simp add: catalog_inv_def)
qed

lemma catalog_inv_fetched:
  assumes "catalog_inv s" "i < length (cy_callers s)" "cy_callers s ! i = Fetching ch"
  shows "catalog_inv (s\<lparr>cy_cache := catalog_publish now res cancelled (cy_cache s), cy_closed := insert ch (cy_closed s),
    cy_callers := (cy_callers s)[i := Answered res]\<rparr>)"
proof (cases "tc_ready (cy_cache s)")
  case None
  then have "\<not> fetching (cy_callers s ! i)" using assms(1,2) by (simp add: catalog_inv_def)
  then show ?thesis using assms(3) by simp
next
  case (Some r)
  then obtain k where k: "cy_callers s ! k = Fetching r" "k < length (cy_callers s)"
      "\<forall>i<length (cy_callers s). i \<noteq> k \<longrightarrow> \<not> fetching (cy_callers s ! i)" "r < cy_made s"
    using assms(1) by (auto simp: catalog_inv_def)
  then have "i = k" using assms(2,3) by fastforce
  then have r: "r = ch" using k(1) assms(3) by simp
  have "caller_ok (catalog_publish now res cancelled (cy_cache s)) (insert ch (cy_closed s)) ((cy_callers s)[i := Answered res] ! j)"
    if "j < length (cy_callers s)" for j
    using that assms(1) Some r by (cases "j = i") (auto simp: catalog_inv_def caller_ok_def)
  then show ?thesis
    using assms(1,2) k \<open>i = k\<close> r by (simp add: catalog_inv_def catalog_publish_def nth_list_update)
qed

lemma catalog_inv_step:
  assumes "catalog_inv s" "catalog_step cancels s t"
  shows "catalog_inv t"
  using assms(2)
proof cases
  case (ask i now c cache)
  from ask(4) show ?thesis
  proof (cases rule: catalog_ask_cases)
    case hit
    then show ?thesis using catalog_inv_update [OF assms(1) ask(2)] ask by simp
  next
    case (wait ready)
    then show ?thesis using catalog_inv_update [OF assms(1) ask(2)] ask by simp
  next
    case lead
    then show ?thesis using catalog_inv_lead [OF assms(1) ask(2)] ask by simp
  qed
next
  case (woken i ch)
  then show ?thesis using catalog_inv_update [OF assms(1) woken(2)] by simp
next
  case (gave_up i ch err)
  then show ?thesis using catalog_inv_update [OF assms(1) gave_up(3)] by simp
next
  case (fetched i ch now res cancelled)
  then show ?thesis using catalog_inv_fetched [OF assms(1)] by simp
qed

lemma catalog_inv_reach: "catalog_reach (catalog_init n) s \<Longrightarrow> catalog_inv s"
  by (induction rule: catalog_reach.induct) (auto intro: catalog_inv_init catalog_inv_step)

section \<open>Termination\<close>

text \<open>A caller still waiting for an open channel is closer to its answer than one that asks, and that
  one closer than one whose channel was closed; every answer outweighs all of these.\<close>

fun rank :: "nat set \<Rightarrow> catalog_caller \<Rightarrow> nat" where
  "rank cl Asking = 2"
| "rank cl (Waiting ch) = (if ch \<in> cl then 3 else 1)"
| "rank cl (Fetching ch) = 1"
| "rank cl (Answered r) = 0"

fun answered :: "catalog_caller \<Rightarrow> bool" where
  "answered (Answered r) = True"
| "answered _ = False"

definition weight :: "nat \<Rightarrow> nat set \<Rightarrow> catalog_caller \<Rightarrow> nat" where
  "weight n cl c = (if answered c then 0 else 3 * n + rank cl c)"

definition work_left :: "catalog_sys \<Rightarrow> nat" where
  "work_left s = sum_list (map (weight (length (cy_callers s)) (cy_closed s)) (cy_callers s))"

lemma work_left_update:
  assumes "i < length (cy_callers s)"
    and "weight (length (cy_callers s)) (cy_closed s) c < weight (length (cy_callers s)) (cy_closed s) (cy_callers s ! i)"
    and "cy_callers t = (cy_callers s)[i := c]" "cy_closed t = cy_closed s"
  shows "work_left t < work_left s"
proof -
  let ?w = "weight (length (cy_callers s)) (cy_closed s)"
  have "?w (cy_callers s ! i) \<le> work_left s"
    unfolding work_left_def using assms(1) by (intro member_le_sum_list) simp_all
  then show ?thesis
    using assms unfolding work_left_def by (simp add: map_update sum_list_update)
qed

lemma work_left_fetched:
  assumes i: "i < length (cy_callers s)" and f: "cy_callers s ! i = Fetching ch"
    and t: "cy_callers t = (cy_callers s)[i := Answered res]" "cy_closed t = insert ch (cy_closed s)"
  shows "work_left t < work_left s"
proof -
  let ?n = "length (cy_callers s)"
  let ?w = "weight ?n (cy_closed s)" and ?w' = "weight ?n (insert ch (cy_closed s))"
  have le: "?w' c \<le> ?w c + 2" for c by (cases c) (simp_all add: weight_def)
  have "sum_list (map ?w' (cy_callers s)) \<le> sum_list (map (\<lambda>c. ?w c + 2) (cy_callers s))"
    by (rule sum_list_mono) (use le in auto)
  also have "\<dots> = work_left s + 2 * ?n" unfolding work_left_def sum_list_addf by (simp add: sum_list_triv)
  finally have up: "sum_list (map ?w' (cy_callers s)) \<le> work_left s + 2 * ?n" .
  have "?w (cy_callers s ! i) \<le> work_left s"
    unfolding work_left_def using i by (intro member_le_sum_list) simp_all
  moreover have "work_left t = sum_list (map ?w' (cy_callers s)) - (3 * ?n + 1)"
    using i f t by (simp add: work_left_def map_update sum_list_update weight_def)
  ultimately show ?thesis using up i f by (simp add: weight_def)
qed

lemma work_left_step:
  assumes "catalog_inv s" "catalog_step cancels s t"
  shows "work_left t < work_left s"
  using assms(2)
proof cases
  case (ask i now c cache)
  have "weight (length (cy_callers s)) (cy_closed s) c < weight (length (cy_callers s)) (cy_closed s) Asking"
    using ask(4)
  proof (cases rule: catalog_ask_cases)
    case (wait ready)
    then have "ready \<notin> cy_closed s" using assms(1) by (simp add: catalog_inv_def)
    then show ?thesis using wait by (simp add: weight_def)
  qed (simp_all add: weight_def)
  then show ?thesis using ask by (intro work_left_update [of i s c t]) simp_all
next
  case (woken i ch)
  then show ?thesis by (intro work_left_update [of i s Asking t]) (simp_all add: weight_def)
next
  case (gave_up i ch err)
  then show ?thesis by (intro work_left_update [of i s "Answered (Inl err)" t]) (simp_all add: weight_def)
next
  case (fetched i ch)
  then show ?thesis by (intro work_left_fetched [of i s ch t]) simp_all
qed

text \<open>Nobody is stuck: an unanswered caller can move, or the fetcher it waits for can.\<close>

lemma catalog_progress:
  assumes "catalog_inv s" "c \<in> set (cy_callers s)" "\<not> answered c"
  shows "\<exists>t. catalog_step False s t"
proof -
  obtain i where i: "i < length (cy_callers s)" "cy_callers s ! i = c" using assms(2) by (auto simp: in_set_conv_nth)
  show ?thesis
  proof (cases c)
    case Asking
    obtain c' cache where "catalog_ask 0 (cy_made s) (cy_cache s) = (c', cache)" by fastforce
    then show ?thesis using i Asking catalog_step.ask by blast
  next
    case (Waiting ch)
    have "caller_ok (cy_cache s) (cy_closed s) (cy_callers s ! i)" using assms(1) i(1) unfolding catalog_inv_def by blast
    then consider "ch \<in> cy_closed s" | "tc_ready (cy_cache s) = Some ch" using i(2) Waiting by auto
    then show ?thesis
    proof cases
      case 1
      then show ?thesis using i Waiting catalog_step.woken by blast
    next
      case 2
      then obtain k where "k < length (cy_callers s)" "cy_callers s ! k = Fetching ch" using assms(1) by (auto simp: catalog_inv_def)
      then show ?thesis using catalog_step.fetched by blast
    qed
  next
    case (Fetching ch)
    then show ?thesis using i catalog_step.fetched by blast
  qed (use assms(3) in simp)
qed

section \<open>Properties\<close>

text \<open>C27: However the callers of one account's catalog interleave, at most one of them fetches at a time,
  every run ends (there is no infinite run of the lookup loop: each step lowers a bound), and no
  reachable state is stuck before every caller is answered, even if none of them gives up.\<close>

theorem tier_catalog_answers_everyone:
  "wf {(t, s). catalog_reach (catalog_init n) s \<and> catalog_step True s t} \<and>
   (catalog_reach (catalog_init n) s \<longrightarrow>
      (\<forall>i j. i < length (cy_callers s) \<and> j < length (cy_callers s) \<and>
         fetching (cy_callers s ! i) \<and> fetching (cy_callers s ! j) \<longrightarrow> i = j) \<and>
      ((\<forall>c\<in>set (cy_callers s). answered c) \<or> (\<exists>t. catalog_step False s t)))"
proof (intro conjI impI allI)
  have "{(t, s). catalog_reach (catalog_init n) s \<and> catalog_step True s t} \<subseteq> measure work_left"
    using catalog_inv_reach work_left_step by auto
  then show "wf {(t, s). catalog_reach (catalog_init n) s \<and> catalog_step True s t}" using wf_measure wf_subset by blast
next
  fix i j
  assume r: "catalog_reach (catalog_init n) s"
    and ij: "i < length (cy_callers s) \<and> j < length (cy_callers s) \<and> fetching (cy_callers s ! i) \<and> fetching (cy_callers s ! j)"
  show "i = j"
    using catalog_inv_reach [OF r] ij unfolding catalog_inv_def by (auto split: option.splits)
next
  assume "catalog_reach (catalog_init n) s"
  then show "(\<forall>c\<in>set (cy_callers s). answered c) \<or> (\<exists>t. catalog_step False s t)"
    using catalog_inv_reach catalog_progress by blast
qed

theorem tier_catalog_answers_everyone_witness:
  "(\<forall>c\<in>set (cy_callers (catalog_init 2)). answered c) \<or> (\<exists>t. catalog_step False (catalog_init 2) t)"
  using tier_catalog_answers_everyone [of 2 "catalog_init 2"] catalog_reach.start by blast

text \<open>What a fetch leaves behind: callers that ask within five minutes of a successful fetch, or
  within 30 seconds of a failed one, get its result without another fetch, and after that a caller
  fetches again. The result of a fetch whose caller was cancelled is never given to anyone who asks
  afterwards.\<close>

theorem tier_catalog_freshness:
  assumes "published \<le> now"
  shows "catalog_ask now ch (catalog_publish published res cancelled cache) =
    (if \<not> cancelled \<and> now < published + (case res of Inl err \<Rightarrow> seconds 30 | Inr models \<Rightarrow> minutes 5)
     then (Answered res, catalog_publish published res cancelled cache)
     else (Fetching ch, (catalog_publish published res cancelled cache)\<lparr>tc_ready := Some ch\<rparr>))"
  using assms by (cases res) (simp_all add: catalog_ask_def catalog_publish_def catalog_ttl_def)

theorem tier_catalog_freshness_witness:
  "fst (catalog_ask 7 3 (catalog_publish 5 (Inr []) True empty_catalog)) = Fetching 3"
  using tier_catalog_freshness [of 5 7 3 "Inr []" True empty_catalog] by simp

end
