(* ===== verification/Reports.thy ===== *)
theory Reports
  imports RequestStore "HOL-Library.Multiset" "HOL-Library.Char_ord" "HOL-Library.List_Lexorder" "HOL-Library.Product_Lexorder"
begin

text \<open>
  The aggregations over the retained request history: \<^verbatim>\<open>src/costs.go\<close> (totals per time window and
  model) and \<^verbatim>\<open>src/usage_by_user.go\<close> (totals per user and model). Token counts are int64 sums that
  wrap, costs are rationals. A Go map of rows is an association list; the sorts compare as the code
  does, and the lemmas show what the rows are whatever the order of the map.
\<close>

section \<open>Definitions\<close>

subsection \<open>Rows keyed by a group\<close>

text \<open>\<open>row := rows[k]; if row == nil { row = fresh; rows[k] = row }; update row\<close>\<close>

definition upsert :: "'k \<Rightarrow> 'r \<Rightarrow> ('r \<Rightarrow> 'r) \<Rightarrow> ('k \<times> 'r) list \<Rightarrow> ('k \<times> 'r) list" where
  "upsert k fresh upd rows =
     AList.update k (upd (case map_of rows k of None \<Rightarrow> fresh | Some row \<Rightarrow> row)) rows"

text \<open>\<open>if entry.X != nil { total += *entry.X }\<close>\<close>

definition add_tokens :: "int option \<Rightarrow> int \<Rightarrow> int" where
  "add_tokens t acc = (case t of None \<Rightarrow> acc | Some n \<Rightarrow> wrap64 (acc + n))"

definition report_model :: "requestLogEntry \<Rightarrow> string" where
  "report_model entry = valueOr (e_NormalizedModel entry) (e_Model entry)"

text \<open>The age filter of both reports; an age of 0 is no filter.\<close>

definition too_old :: "gotime \<Rightarrow> duration \<Rightarrow> gotime \<Rightarrow> bool" where
  "too_old now age started \<longleftrightarrow> age > 0 \<and> time_sub now started > age"

text \<open>What \<open>visitRetainedEntries\<close> reports of the source beside the entries; \<open>path\<close> is the file's.\<close>

record requestHistorySource =
  hs_Source :: string
  hs_PersistPath :: string
  hs_PersistBytes :: nat
  hs_PersistError :: string

definition history_info :: "string \<Rightarrow> requestLogStore \<Rightarrow> requestHistorySource" where
  "history_info path s =
     (case st_persist s of
        None \<Rightarrow> \<lparr>hs_Source = ''memory'', hs_PersistPath = [], hs_PersistBytes = 0, hs_PersistError = []\<rparr>
      | Some f \<Rightarrow> \<lparr>hs_Source = ''file'', hs_PersistPath = path, hs_PersistBytes = length (lf_bytes f),
                   hs_PersistError = lf_lastError f\<rparr>)"

subsection \<open>Costs\<close>

record costModelTotals =
  cm_Model :: string
  cm_Requests :: nat
  cm_CostUSD :: rat
  cm_InputTokens :: int
  cm_OutputTokens :: int
  cm_CachedTokens :: int
  cm_CacheWriteTokens :: int

record costWindowTotals =
  cw_Requests :: nat
  cw_Priced :: nat
  cw_CostUSD :: rat
  cw_InputTokens :: int
  cw_OutputTokens :: int
  cw_CachedTokens :: int
  cw_CacheWriteTokens :: int
  cw_Models :: "costModelTotals list"

record accumulator =
  ac_totals :: costWindowTotals
  ac_models :: "(string \<times> costModelTotals) list"

record costSummary =
  cs_Source :: requestHistorySource
  cs_Windows :: "(string \<times> costWindowTotals) list"
  cs_GeneratedAt :: gotime

definition costWindows :: "(string \<times> duration) list" where
  "costWindows = [(''24h'', hours 24), (''7d'', 7 * hours 24), (''30d'', 30 * hours 24), (''all'', 0)]"

definition fresh_model :: "string \<Rightarrow> costModelTotals" where
  "fresh_model model =
     \<lparr>cm_Model = model, cm_Requests = 0, cm_CostUSD = 0, cm_InputTokens = 0, cm_OutputTokens = 0,
      cm_CachedTokens = 0, cm_CacheWriteTokens = 0\<rparr>"

definition fresh_window :: costWindowTotals where
  "fresh_window =
     \<lparr>cw_Requests = 0, cw_Priced = 0, cw_CostUSD = 0, cw_InputTokens = 0, cw_OutputTokens = 0,
      cw_CachedTokens = 0, cw_CacheWriteTokens = 0, cw_Models = []\<rparr>"

definition fresh_acc :: accumulator where
  "fresh_acc = \<lparr>ac_totals = fresh_window, ac_models = []\<rparr>"

definition count_model :: "requestLogEntry \<Rightarrow> rat \<Rightarrow> costModelTotals \<Rightarrow> costModelTotals" where
  "count_model entry cost m =
     m\<lparr>cm_Requests := Suc (cm_Requests m), cm_CostUSD := cm_CostUSD m + cost,
       cm_InputTokens := add_tokens (e_InputTokens entry) (cm_InputTokens m),
       cm_OutputTokens := add_tokens (e_OutputTokens entry) (cm_OutputTokens m),
       cm_CachedTokens := add_tokens (e_CachedTokens entry) (cm_CachedTokens m),
       cm_CacheWriteTokens := add_tokens (e_CacheWriteTokens entry) (cm_CacheWriteTokens m)\<rparr>"

definition entry_cost :: "bool \<Rightarrow> requestLogEntry \<Rightarrow> rat option" where
  "entry_cost apiPricing entry = (if apiPricing then e_APICostUSD entry else e_CostUSD entry)"

text \<open>The body of the loop over the windows, for one window.\<close>

definition count_window :: "bool \<Rightarrow> requestLogEntry \<Rightarrow> accumulator \<Rightarrow> accumulator" where
  "count_window apiPricing entry acc =
     (let t = ac_totals acc;
          t1 = t\<lparr>cw_Requests := Suc (cw_Requests t),
                 cw_InputTokens := add_tokens (e_InputTokens entry) (cw_InputTokens t),
                 cw_OutputTokens := add_tokens (e_OutputTokens entry) (cw_OutputTokens t),
                 cw_CachedTokens := add_tokens (e_CachedTokens entry) (cw_CachedTokens t),
                 cw_CacheWriteTokens := add_tokens (e_CacheWriteTokens entry) (cw_CacheWriteTokens t)\<rparr>
      in (case entry_cost apiPricing entry of
            None \<Rightarrow> acc\<lparr>ac_totals := t1\<rparr>
          | Some cost \<Rightarrow>
              (let model = report_model entry
               in \<lparr>ac_totals = t1\<lparr>cw_Priced := Suc (cw_Priced t1), cw_CostUSD := cw_CostUSD t1 + cost\<rparr>,
                   ac_models = upsert model (fresh_model model) (count_model entry cost) (ac_models acc)\<rparr>)))"

type_synonym cost_accs = "((string \<times> duration) \<times> accumulator) list"

definition cost_consume :: "golib \<Rightarrow> gotime \<Rightarrow> bool \<Rightarrow> requestLogEntry \<Rightarrow> cost_accs \<Rightarrow> cost_accs" where
  "cost_consume lib now apiPricing entry accs =
     (case lib_ParseRFC3339Nano lib (e_StartedAt entry) of
        None \<Rightarrow> accs
      | Some started \<Rightarrow>
          map (\<lambda>((key, age), acc).
                 ((key, age), if too_old now age started then acc else count_window apiPricing entry acc)) accs)"

definition close_window :: "accumulator \<Rightarrow> costWindowTotals" where
  "close_window acc = (ac_totals acc)\<lparr>cw_Models := sort_key (\<lambda>m. - cm_CostUSD m) (map snd (ac_models acc))\<rparr>"

definition costSummary ::
    "codec \<Rightarrow> bool \<Rightarrow> string \<Rightarrow> gotime \<Rightarrow> bool \<Rightarrow> requestLogStore \<Rightarrow> persist_error + costSummary" where
  "costSummary co file_ok path now apiPricing s =
     (case snd (visitRetainedEntries co file_ok s) of
        Inl err \<Rightarrow> Inl err
      | Inr entries \<Rightarrow>
          (let accs = fold (cost_consume (co_lib co) now apiPricing) entries (map (\<lambda>win. (win, fresh_acc)) costWindows)
           in Inr \<lparr>cs_Source = history_info path s,
                   cs_Windows = map (\<lambda>((key, age), acc). (key, close_window acc)) accs,
                   cs_GeneratedAt = now\<rparr>))"

subsection \<open>Usage by user\<close>

record userUsageRow =
  ur_User :: string
  ur_Model :: string
  ur_Requests :: nat
  ur_InputTokens :: int
  ur_OutputTokens :: int
  ur_CachedTokens :: int
  ur_CacheWriteTokens :: int
  ur_CostUSD :: rat

record userUsageSummary =
  us_Source :: requestHistorySource
  us_Window :: string
  us_Requests :: nat
  us_Users :: "userUsageRow list"
  us_GeneratedAt :: gotime

datatype window_error = InvalidWindow string

definition parseUsageWindow :: "golib \<Rightarrow> string \<Rightarrow> window_error + (duration \<times> string)" where
  "parseUsageWindow lib raw =
     (let value = TrimSpace raw
      in if value = [] \<or> value = ''all'' then Inr (0, ''all'')
         else if HasSuffix value ''d'' then
           (case Atoi (TrimSuffix value ''d'') of
              None \<Rightarrow> Inl (InvalidWindow value)
            | Some n \<Rightarrow> if n \<le> 0 then Inl (InvalidWindow value) else Inr (wrap64 (n * hours 24), value))
         else (case lib_ParseDuration lib value of
                 None \<Rightarrow> Inl (InvalidWindow value)
               | Some parsed \<Rightarrow> if parsed \<le> 0 then Inl (InvalidWindow value) else Inr (parsed, value)))"

type_synonym user_key = "string \<times> string"

definition user_key :: "requestLogEntry \<Rightarrow> user_key" where
  "user_key entry = (e_User entry, report_model entry)"

definition fresh_row :: "user_key \<Rightarrow> userUsageRow" where
  "fresh_row k =
     \<lparr>ur_User = fst k, ur_Model = snd k, ur_Requests = 0, ur_InputTokens = 0, ur_OutputTokens = 0,
      ur_CachedTokens = 0, ur_CacheWriteTokens = 0, ur_CostUSD = 0\<rparr>"

definition count_row :: "requestLogEntry \<Rightarrow> userUsageRow \<Rightarrow> userUsageRow" where
  "count_row entry r =
     r\<lparr>ur_Requests := Suc (ur_Requests r),
       ur_InputTokens := add_tokens (e_InputTokens entry) (ur_InputTokens r),
       ur_OutputTokens := add_tokens (e_OutputTokens entry) (ur_OutputTokens r),
       ur_CachedTokens := add_tokens (e_CachedTokens entry) (ur_CachedTokens r),
       ur_CacheWriteTokens := add_tokens (e_CacheWriteTokens entry) (ur_CacheWriteTokens r),
       ur_CostUSD := (case e_CostUSD entry of None \<Rightarrow> ur_CostUSD r | Some c \<Rightarrow> ur_CostUSD r + c)\<rparr>"

type_synonym user_rows = "(user_key \<times> userUsageRow) list"

definition user_consume :: "golib \<Rightarrow> gotime \<Rightarrow> duration \<Rightarrow> requestLogEntry \<Rightarrow> nat \<times> user_rows \<Rightarrow> nat \<times> user_rows" where
  "user_consume lib now age entry st =
     (case lib_ParseRFC3339Nano lib (e_StartedAt entry) of
        None \<Rightarrow> st
      | Some started \<Rightarrow>
          (if too_old now age started then st
           else (Suc (fst st), upsert (user_key entry) (fresh_row (user_key entry)) (count_row entry) (snd st))))"

definition userUsageSummary ::
    "codec \<Rightarrow> bool \<Rightarrow> string \<Rightarrow> gotime \<Rightarrow> duration \<Rightarrow> string \<Rightarrow> requestLogStore \<Rightarrow> persist_error + userUsageSummary" where
  "userUsageSummary co file_ok path now age window s =
     (case snd (visitRetainedEntries co file_ok s) of
        Inl err \<Rightarrow> Inl err
      | Inr entries \<Rightarrow>
          (let (requests, rows) = fold (user_consume (co_lib co) now age) entries (0, [])
           in Inr \<lparr>us_Source = history_info path s, us_Window = window, us_Requests = requests,
                   us_Users = sort_key (\<lambda>r. (ur_User r, ur_Model r)) (map snd rows), us_GeneratedAt = now\<rparr>))"

section \<open>Groups\<close>

text \<open>A list of rows that is filled entry by entry: what both reports rely on. \<open>key\<close> groups the
  entries, \<open>fresh\<close> is an empty row, \<open>count\<close> adds an entry to its row, \<open>row_key\<close> reads a row's group.\<close>

locale grouped_rows =
  fixes key :: "'e \<Rightarrow> 'k" and fresh :: "'k \<Rightarrow> 'r" and count :: "'e \<Rightarrow> 'r \<Rightarrow> 'r" and row_key :: "'r \<Rightarrow> 'k"
  assumes fresh_key: "row_key (fresh k) = k"
    and count_key: "row_key (count e r) = row_key r"
begin

definition fill :: "'e list \<Rightarrow> ('k \<times> 'r) list \<Rightarrow> ('k \<times> 'r) list" where
  "fill = fold (\<lambda>e. upsert (key e) (fresh (key e)) (count e))"

definition group_row :: "'e list \<Rightarrow> 'k \<Rightarrow> 'r" where
  "group_row es k = fold count (filter (\<lambda>e. key e = k) es) (fresh k)"

lemma fill_snoc: "fill (es @ [e]) rows = upsert (key e) (fresh (key e)) (count e) (fill es rows)"
  by (simp add: fill_def)

lemma fill_lookup: "map_of (fill es []) k = (if k \<in> key ` set es then Some (group_row es k) else None)"
proof (induction es rule: rev_induct)
  case (snoc e es)
  have empty: "key e \<notin> key ` set es \<Longrightarrow> filter (\<lambda>x. key x = key e) es = []"
    by (auto simp: filter_empty_conv intro: rev_image_eqI)
  show ?case
    using snoc empty by (auto simp: fill_snoc upsert_def group_row_def)
qed (simp add: fill_def)

lemma fill_keys: "set (map fst (fill es [])) = key ` set es \<and> distinct (map fst (fill es []))"
proof (induction es rule: rev_induct)
  case (snoc e es)
  then show ?case by (auto simp: fill_snoc upsert_def dom_update distinct_update)
qed (simp add: fill_def)

lemma group_row_key: "row_key (group_row es k) = k"
proof -
  have "row_key (fold count xs r) = row_key r" for xs r by (induction xs arbitrary: r) (simp_all add: count_key)
  then show ?thesis by (simp add: group_row_def fresh_key)
qed

text \<open>The rows are those of the groups, once each, in the order of their keys in the map.\<close>

lemma rows_are_groups: "map snd (fill es []) = map (group_row es) (map fst (fill es []))"
proof (rule nth_equalityI)
  fix i assume i: "i < length (map snd (fill es []))"
  let ?r = "fill es [] ! i"
  have "?r \<in> set (fill es [])" using i by simp
  then have "map_of (fill es []) (fst ?r) = Some (snd ?r)" using fill_keys [of es] by simp
  then have "snd ?r = group_row es (fst ?r)" by (simp add: fill_lookup split: if_splits)
  then show "map snd (fill es []) ! i = map (group_row es) (map fst (fill es [])) ! i" using i by simp
qed simp

lemma rows_mset: "mset (map snd (fill es [])) = image_mset (group_row es) (mset_set (key ` set es))"
proof -
  have "mset (map fst (fill es [])) = mset_set (key ` set es)"
    using fill_keys [of es] by (metis mset_set_set)
  then show ?thesis unfolding rows_are_groups by (metis mset_map)
qed

end

text \<open>Rows that carry an additive amount: the amounts of all rows together are those of the entries.\<close>

locale grouped_totals = grouped_rows key fresh count row_key
  for key :: "'e \<Rightarrow> 'k" and fresh :: "'k \<Rightarrow> 'r" and count :: "'e \<Rightarrow> 'r \<Rightarrow> 'r" and row_key :: "'r \<Rightarrow> 'k" +
  fixes amount :: "'r \<Rightarrow> 'v::comm_monoid_add" and val :: "'e \<Rightarrow> 'v"
  assumes fresh_amount: "amount (fresh k) = 0"
    and count_amount: "amount (count e r) = amount r + val e"
begin

lemma group_amount: "amount (group_row es k) = sum_list (map val (filter (\<lambda>e. key e = k) es))"
proof -
  have "amount (fold count xs r) = amount r + sum_list (map val xs)" for xs r
    by (induction xs arbitrary: r) (simp_all add: count_amount ac_simps)
  then show ?thesis by (simp add: group_row_def fresh_amount)
qed

lemma sum_groups:
  "finite K \<Longrightarrow> key ` set es \<subseteq> K \<Longrightarrow> (\<Sum>k\<in>K. sum_list (map val (filter (\<lambda>e. key e = k) es))) = sum_list (map val es)"
proof (induction es)
  case (Cons e es)
  have "(\<Sum>k\<in>K. sum_list (map val (filter (\<lambda>x. key x = k) (e # es)))) =
      (\<Sum>k\<in>K. (if key e = k then val e else 0) + sum_list (map val (filter (\<lambda>x. key x = k) es)))"
    by (rule sum.cong) auto
  then show ?case using Cons by (simp add: sum.distrib)
qed simp

lemma rows_total: "sum_mset (image_mset amount (mset (map snd (fill es [])))) = sum_list (map val es)"
proof -
  have "sum_mset (image_mset amount (mset (map snd (fill es [])))) = (\<Sum>k\<in>key ` set es. amount (group_row es k))"
    unfolding rows_mset by (simp add: image_mset.compositionality comp_def sum_unfold_sum_mset)
  then show ?thesis by (simp add: group_amount sum_groups)
qed

end

interpretation user_rows: grouped_rows user_key fresh_row count_row "\<lambda>r. (ur_User r, ur_Model r)"
  by unfold_locales (simp_all add: fresh_row_def count_row_def)

interpretation user_costs: grouped_totals user_key fresh_row count_row "\<lambda>r. (ur_User r, ur_Model r)"
    ur_Requests "\<lambda>_. 1"
  by unfold_locales (simp_all add: fresh_row_def count_row_def)

abbreviation count_priced :: "bool \<Rightarrow> requestLogEntry \<Rightarrow> costModelTotals \<Rightarrow> costModelTotals" where
  "count_priced api e \<equiv> count_model e (the (entry_cost api e))"

interpretation model_rows: grouped_totals report_model fresh_model "count_priced api" cm_Model
    cm_CostUSD "\<lambda>e. the (entry_cost api e)"
  by unfold_locales (simp_all add: fresh_model_def count_model_def)

section \<open>Totals of a set of entries\<close>

text \<open>The reference: what a row of the entries \<open>es\<close> should hold.\<close>

definition token_total :: "(requestLogEntry \<Rightarrow> int option) \<Rightarrow> requestLogEntry list \<Rightarrow> int" where
  "token_total f es = wrap64 (sum_list (map (\<lambda>e. case f e of None \<Rightarrow> 0 | Some n \<Rightarrow> n) es))"

definition user_total :: "requestLogEntry list \<Rightarrow> user_key \<Rightarrow> userUsageRow" where
  "user_total es k =
     (let g = filter (\<lambda>e. user_key e = k) es
      in \<lparr>ur_User = fst k, ur_Model = snd k, ur_Requests = length g,
          ur_InputTokens = token_total e_InputTokens g, ur_OutputTokens = token_total e_OutputTokens g,
          ur_CachedTokens = token_total e_CachedTokens g, ur_CacheWriteTokens = token_total e_CacheWriteTokens g,
          ur_CostUSD = sum_list (map (\<lambda>e. case e_CostUSD e of None \<Rightarrow> 0 | Some c \<Rightarrow> c) g)\<rparr>)"

definition model_total :: "bool \<Rightarrow> requestLogEntry list \<Rightarrow> string \<Rightarrow> costModelTotals" where
  "model_total api es m =
     (let g = filter (\<lambda>e. report_model e = m) es
      in \<lparr>cm_Model = m, cm_Requests = length g, cm_CostUSD = sum_list (map (\<lambda>e. the (entry_cost api e)) g),
          cm_InputTokens = token_total e_InputTokens g, cm_OutputTokens = token_total e_OutputTokens g,
          cm_CachedTokens = token_total e_CachedTokens g, cm_CacheWriteTokens = token_total e_CacheWriteTokens g\<rparr>)"

text \<open>The entries a report counts, and among them the priced ones.\<close>

definition counted :: "golib \<Rightarrow> gotime \<Rightarrow> duration \<Rightarrow> requestLogEntry list \<Rightarrow> requestLogEntry list" where
  "counted lib now age =
     filter (\<lambda>e. case lib_ParseRFC3339Nano lib (e_StartedAt e) of None \<Rightarrow> False | Some t \<Rightarrow> \<not> too_old now age t)"

definition priced :: "bool \<Rightarrow> requestLogEntry list \<Rightarrow> requestLogEntry list" where
  "priced api = filter (\<lambda>e. entry_cost api e \<noteq> None)"

lemma fold_add_tokens:
  "- (2 ^ 63) \<le> n \<Longrightarrow> n < 2 ^ 63 \<Longrightarrow>
   fold (\<lambda>e. add_tokens (f e)) es n = wrap64 (n + sum_list (map (\<lambda>e. case f e of None \<Rightarrow> 0 | Some k \<Rightarrow> k) es))"
proof (induction es arbitrary: n)
  case Nil
  then show ?case by (simp add: wrap64_id)
next
  case (Cons e es)
  show ?case
  proof (cases "f e")
    case None
    then show ?thesis using Cons by (simp add: add_tokens_def)
  next
    case (Some k)
    then show ?thesis
      using Cons.IH [of "wrap64 (n + k)"] wrap64_range [of "n + k"]
      by (simp add: add_tokens_def wrap64_add add.assoc)
  qed
qed

lemma fold_tokens_0: "fold (\<lambda>e. add_tokens (f e)) es 0 = token_total f es"
  using fold_add_tokens [of 0 f es] by (simp add: token_total_def)

lemma fold_count_row:
  "fold count_row es r = r\<lparr>ur_Requests := ur_Requests r + length es,
     ur_InputTokens := fold (\<lambda>e. add_tokens (e_InputTokens e)) es (ur_InputTokens r),
     ur_OutputTokens := fold (\<lambda>e. add_tokens (e_OutputTokens e)) es (ur_OutputTokens r),
     ur_CachedTokens := fold (\<lambda>e. add_tokens (e_CachedTokens e)) es (ur_CachedTokens r),
     ur_CacheWriteTokens := fold (\<lambda>e. add_tokens (e_CacheWriteTokens e)) es (ur_CacheWriteTokens r),
     ur_CostUSD := ur_CostUSD r + sum_list (map (\<lambda>e. case e_CostUSD e of None \<Rightarrow> 0 | Some c \<Rightarrow> c) es)\<rparr>"
  by (induction es arbitrary: r) (simp_all add: count_row_def split: option.split)

lemma fold_count_priced:
  "fold (count_priced api) es m = m\<lparr>cm_Requests := cm_Requests m + length es,
     cm_CostUSD := cm_CostUSD m + sum_list (map (\<lambda>e. the (entry_cost api e)) es),
     cm_InputTokens := fold (\<lambda>e. add_tokens (e_InputTokens e)) es (cm_InputTokens m),
     cm_OutputTokens := fold (\<lambda>e. add_tokens (e_OutputTokens e)) es (cm_OutputTokens m),
     cm_CachedTokens := fold (\<lambda>e. add_tokens (e_CachedTokens e)) es (cm_CachedTokens m),
     cm_CacheWriteTokens := fold (\<lambda>e. add_tokens (e_CacheWriteTokens e)) es (cm_CacheWriteTokens m)\<rparr>"
  by (induction es arbitrary: m) (simp_all add: count_model_def add.assoc)

lemma user_group_row: "user_rows.group_row es k = user_total es k"
  by (simp add: user_rows.group_row_def user_total_def Let_def fold_count_row fresh_row_def fold_tokens_0)

lemma model_group_row: "model_rows.group_row api es m = model_total api es m"
  by (simp add: model_rows.group_row_def model_total_def Let_def fold_count_priced fresh_model_def fold_tokens_0)

lemma user_fold:
  "fold (user_consume lib now age) es (n, rows) =
     (n + length (counted lib now age es), user_rows.fill (counted lib now age es) rows)"
  by (induction es arbitrary: n rows) (auto simp: user_consume_def counted_def user_rows.fill_def split: option.split)

lemma window_fold:
  "fold (count_window api) es acc =
     \<lparr>ac_totals = (ac_totals acc)
        \<lparr>cw_Requests := cw_Requests (ac_totals acc) + length es,
         cw_Priced := cw_Priced (ac_totals acc) + length (priced api es),
         cw_CostUSD := cw_CostUSD (ac_totals acc) + sum_list (map (\<lambda>e. the (entry_cost api e)) (priced api es)),
         cw_InputTokens := fold (\<lambda>e. add_tokens (e_InputTokens e)) es (cw_InputTokens (ac_totals acc)),
         cw_OutputTokens := fold (\<lambda>e. add_tokens (e_OutputTokens e)) es (cw_OutputTokens (ac_totals acc)),
         cw_CachedTokens := fold (\<lambda>e. add_tokens (e_CachedTokens e)) es (cw_CachedTokens (ac_totals acc)),
         cw_CacheWriteTokens := fold (\<lambda>e. add_tokens (e_CacheWriteTokens e)) es (cw_CacheWriteTokens (ac_totals acc))\<rparr>,
      ac_models = model_rows.fill api (priced api es) (ac_models acc)\<rparr>"
  by (induction es arbitrary: acc)
    (simp_all add: count_window_def Let_def priced_def model_rows.fill_def add.assoc split: option.split)

lemma cost_fold:
  "fold (cost_consume lib now api) es accs =
     map (\<lambda>((k, age), acc). ((k, age), fold (count_window api) (counted lib now age es) acc)) accs"
proof (induction es arbitrary: accs)
  case (Cons e es)
  then show ?case
    by (cases "lib_ParseRFC3339Nano lib (e_StartedAt e)") (auto simp: cost_consume_def counted_def)
qed (simp add: counted_def)

text \<open>The value of one window of the cost report.\<close>

definition window_total :: "bool \<Rightarrow> requestLogEntry list \<Rightarrow> costWindowTotals" where
  "window_total api es =
     close_window (fold (count_window api) es fresh_acc)"

lemma costSummary_windows:
  assumes "snd (visitRetainedEntries co file_ok s) = Inr entries"
  shows "costSummary co file_ok path now api s =
    Inr \<lparr>cs_Source = history_info path s,
         cs_Windows = map (\<lambda>(k, age). (k, window_total api (counted (co_lib co) now age entries))) costWindows,
         cs_GeneratedAt = now\<rparr>"
  using assms by (simp add: costSummary_def Let_def cost_fold window_total_def comp_def case_prod_beta)

lemma window_total_fields:
  fixes api :: bool and es :: "requestLogEntry list"
  defines "w \<equiv> window_total api es"
  shows "cw_Requests w = length es" "cw_Priced w = length (priced api es)"
    "cw_CostUSD w = sum_list (map (\<lambda>e. the (entry_cost api e)) (priced api es))"
    "cw_InputTokens w = token_total e_InputTokens es" "cw_OutputTokens w = token_total e_OutputTokens es"
    "cw_CachedTokens w = token_total e_CachedTokens es" "cw_CacheWriteTokens w = token_total e_CacheWriteTokens es"
    "mset (cw_Models w) = image_mset (model_total api (priced api es)) (mset_set (report_model ` set (priced api es)))"
    "sorted_wrt (\<lambda>a b. cm_CostUSD a \<ge> cm_CostUSD b) (cw_Models w)"
proof -
  note defs = w_def window_total_def close_window_def window_fold fresh_acc_def fresh_window_def fold_tokens_0
  show "cw_Requests w = length es" "cw_Priced w = length (priced api es)"
    "cw_CostUSD w = sum_list (map (\<lambda>e. the (entry_cost api e)) (priced api es))"
    "cw_InputTokens w = token_total e_InputTokens es" "cw_OutputTokens w = token_total e_OutputTokens es"
    "cw_CachedTokens w = token_total e_CachedTokens es" "cw_CacheWriteTokens w = token_total e_CacheWriteTokens es"
    by (simp_all add: defs)
  have m: "cw_Models w = sort_key (\<lambda>m. - cm_CostUSD m) (map snd (model_rows.fill api (priced api es) []))"
    by (simp add: defs)
  show "mset (cw_Models w) = image_mset (model_total api (priced api es)) (mset_set (report_model ` set (priced api es)))"
    unfolding m mset_sort model_rows.rows_mset [of api] by (simp add: model_group_row [abs_def])
  have "sorted (map (\<lambda>m. - cm_CostUSD m) (cw_Models w))" unfolding m by simp
  then show "sorted_wrt (\<lambda>a b. cm_CostUSD a \<ge> cm_CostUSD b) (cw_Models w)"
    by (simp add: sorted_map)
qed

lemma counted_mono:
  assumes "0 < age" "age \<le> age' \<or> age' = 0"
  shows "set (counted lib now age es) \<subseteq> set (counted lib now age' es) \<and>
    length (counted lib now age es) \<le> length (counted lib now age' es)"
proof -
  have *: "too_old now age' t \<Longrightarrow> too_old now age t" for t using assms by (auto simp: too_old_def)
  have "counted lib now age es = counted lib now age (counted lib now age' es)"
    using * by (auto simp: counted_def intro!: filter_cong split: option.splits)
  then show ?thesis by (metis counted_def filter_is_subset length_filter_le)
qed

section \<open>Properties\<close>

text \<open>The usage report of a readable history is the reference report: it counts exactly the entries
  whose start time parses and is not older than the window, and its rows are one row per user and
  model among them, in lexicographic order of user and model, each holding the number of its
  requests, its token sums modulo 2^64 and its cost sum. In particular the report does not depend on
  the iteration order of the row map.\<close>

theorem usage_rows_are_group_totals:
  assumes "snd (visitRetainedEntries co file_ok s) = Inr entries"
  shows "userUsageSummary co file_ok path now age window s =
    (let es = counted (co_lib co) now age entries
     in Inr \<lparr>us_Source = history_info path s, us_Window = window, us_Requests = length es,
             us_Users = map (user_total es) (sorted_list_of_set (user_key ` set es)), us_GeneratedAt = now\<rparr>)"
proof -
  let ?es = "counted (co_lib co) now age entries"
  let ?rows = "map snd (user_rows.fill ?es [])" and ?k = "\<lambda>r. (ur_User r, ur_Model r)"
  have key: "?k (user_total ?es k) = k" for k by (simp add: user_total_def Let_def)
  have rows: "mset ?rows = mset (map (user_total ?es) (sorted_list_of_set (user_key ` set ?es)))"
    using mset_set_set [of "sorted_list_of_set (user_key ` set ?es)"]
    by (simp add: user_rows.rows_mset [unfolded mset_map] user_group_row [abs_def])
  have "map ?k (map (user_total ?es) (sorted_list_of_set (user_key ` set ?es))) = sorted_list_of_set (user_key ` set ?es)"
    by (simp add: key comp_def del: sorted_list_of_set.sorted_key_list_of_set_remove)
  then have "sorted (map ?k (map (user_total ?es) (sorted_list_of_set (user_key ` set ?es))))"
    and dist: "distinct (map ?k (map (user_total ?es) (sorted_list_of_set (user_key ` set ?es))))" by simp_all
  moreover have "inj_on ?k (set ?rows)"
    using dist unfolding mset_eq_setD [OF rows] by (simp only: distinct_map)
  ultimately have "sort_key ?k ?rows = map (user_total ?es) (sorted_list_of_set (user_key ` set ?es))"
    using rows by (intro sort_key_inj_key_eq)
  then show ?thesis using assms by (simp add: userUsageSummary_def user_fold Let_def)
qed

text \<open>Two requests of one user and one of an unattributed client, in memory.\<close>

definition witness_history :: requestLogStore where
  "witness_history = (newRequestLogStore 10)\<lparr>st_entries :=
     [empty_entry\<lparr>e_User := ''u'', e_Model := ''m'', e_InputTokens := Some 3, e_CostUSD := Some 1\<rparr>,
      empty_entry\<lparr>e_Model := ''m''\<rparr>,
      empty_entry\<lparr>e_User := ''u'', e_Model := ''m'', e_InputTokens := Some 4, e_CostUSD := Some 2\<rparr>]\<rparr>"

definition clock_codec :: codec where
  "clock_codec = witness_codec\<lparr>co_lib := witness_lib\<lparr>lib_ParseRFC3339Nano := \<lambda>_. Some 5\<rparr>\<rparr>"

lemma witness_history_entries:
  "snd (visitRetainedEntries clock_codec True witness_history) = Inr (st_entries witness_history)"
  by (simp add: visitRetainedEntries_def witness_history_def newRequestLogStore_def priceEntry_def)

lemma witness_history_counted:
  "counted (co_lib clock_codec) 7 age (st_entries witness_history) = (if 0 < age \<and> age < 2 then [] else st_entries witness_history)"
  by (simp add: counted_def clock_codec_def too_old_def time_sub_def witness_history_def newRequestLogStore_def)

theorem usage_rows_are_group_totals_witness:
  "\<exists>r. userUsageSummary clock_codec True [] 7 (hours 24) ''24h'' witness_history = Inr r \<and> us_Requests r = 3 \<and>
     map ur_User (us_Users r) = [[], ''u''] \<and> map ur_InputTokens (us_Users r) = [0, 7] \<and> map ur_CostUSD (us_Users r) = [0, 3]"
proof -
  let ?es = "st_entries witness_history"
  have "map user_key ?es = [(''u'', ''m''), ([], ''m''), (''u'', ''m'')]" by code_simp
  then have "user_key ` set ?es = set [(''u'', ''m''), ([], ''m'')]"
    by (simp only: set_map [symmetric]) auto
  then have ks: "sorted_list_of_set (user_key ` set ?es) = [([], ''m''), (''u'', ''m'')]"
    by (simp only: sorted_list_of_set_sort_remdups) code_simp
  have "map (user_total ?es) [([], ''m''), (''u'', ''m'')] = rows \<Longrightarrow> map ur_User rows = [[], ''u''] \<and>
     map ur_InputTokens rows = [0, 7] \<and> map ur_CostUSD rows = [0, 3]" for rows by (erule subst) code_simp
  moreover have "length ?es = 3" by code_simp
  ultimately show ?thesis
    using usage_rows_are_group_totals [OF witness_history_entries, of "[]" 7 "hours 24" "''24h''"]
    by (simp add: witness_history_counted Let_def ks)
qed



text \<open>The windows are nested: whatever 24 hours count, 7 days count too, and so on.\<close>

lemma cost_windows_nested:
  assumes "snd (visitRetainedEntries co file_ok s) = Inr entries"
  shows "\<exists>r a b c d. costSummary co file_ok path now api s = Inr r \<and>
    cs_Windows r = [(''24h'', a), (''7d'', b), (''30d'', c), (''all'', d)] \<and>
    cw_Requests a \<le> cw_Requests b \<and> cw_Requests b \<le> cw_Requests c \<and> cw_Requests c \<le> cw_Requests d"
  unfolding costSummary_windows [OF assms]
  by (simp add: costWindows_def window_total_fields counted_mono)

text \<open>A window of n days is the age of exactly n days for n up to 106751, and is then positive.\<close>

theorem usage_window_days_exact:
  assumes "TrimSpace raw = ds @ ''d''" "Atoi ds = Some n" "0 < n" "n \<le> 106751"
  shows "parseUsageWindow lib raw = Inr (n * hours 24, ds @ ''d'') \<and> 0 < n * hours 24"
proof -
  have "ds @ ''d'' \<noteq> ''all''" by (simp add: append_eq_Cons_conv)
  moreover have "TrimSuffix (ds @ ''d'') ''d'' = ds" by (simp add: TrimSuffix_def)
  moreover have "wrap64 (n * hours 24) = n * hours 24" using assms(3,4) by (intro wrap64_id) auto
  ultimately show ?thesis using assms by (simp add: parseUsageWindow_def Let_def)
qed

theorem usage_window_days_exact_witness:
  "parseUsageWindow witness_lib ''7d '' = Inr (7 * hours 24, ''7d'') \<and> (0::int) < 7 * hours 24"
proof -
  have "TrimSpace ''7d '' = ''7'' @ ''d''" "Atoi ''7'' = Some 7" by code_simp+
  from usage_window_days_exact [OF this, of witness_lib] show ?thesis by simp
qed

text \<open>One day more and the product wraps: the window is negative, which the age filter reads as no
  filter at all.\<close>

lemma usage_window_day_overflow:
  "\<exists>age. parseUsageWindow lib ''106752d'' = Inr (age, ''106752d'') \<and> age < 0 \<and> (\<forall>now t. \<not> too_old now age t)"
proof -
  have v: "TrimSpace ''106752d'' = ''106752d''" "Atoi ''106752'' = Some 106752"
    by code_simp (simp add: Atoi_def is_digit_def digit_val_def)
  have "wrap64 (106752 * hours 24) < 0" by (simp add: wrap64_def)
  then show ?thesis using v by (auto simp: parseUsageWindow_def Let_def TrimSuffix_def suffix_def too_old_def)
qed

end
