(* ===== verification/UsageSummary.thy ===== *)
theory UsageSummary
  imports Handlers
begin

text \<open>
  The view of an account's rate limits: \<^verbatim>\<open>src/usage_summary.go\<close> and the usage request of
  \<^verbatim>\<open>src/dashboard.go\<close>. The usage document is decoded without \<open>UseNumber\<close>, so its numbers are floats.
  The lemmas show that percentages stay within their range, that the two windows are classified by
  their declared length, and which answers every failure of the usage request gets.
\<close>

section \<open>Definitions\<close>

subsection \<open>Windows\<close>

definition shortUsageWindowMaxSeconds :: rat where
  "shortUsageWindowMaxSeconds = 24 * 60 * 60"

fun float_gt :: "gofloat \<Rightarrow> rat \<Rightarrow> bool" where
  "float_gt (Fin q) r \<longleftrightarrow> q > r"
| "float_gt PosInf r \<longleftrightarrow> True"
| "float_gt _ r \<longleftrightarrow> False"

text \<open>\<open>math.Max(0, math.Min(100, 100-used))\<close>\<close>

fun remaining_percent :: "gofloat \<Rightarrow> gofloat" where
  "remaining_percent (Fin q) = Fin (max 0 (min 100 (100 - q)))"
| "remaining_percent PosInf = Fin 0"
| "remaining_percent NegInf = Fin 100"
| "remaining_percent NaN = NaN"

record usageWindowSummary =
  uw_UsedPercent :: gofloat
  uw_RemainingPercent :: gofloat
  uw_ResetsInSeconds :: int
  uw_LimitReached :: bool
  uw_resetAt :: gotime

record usageCreditsSummary =
  uc_Balance :: json
  uc_Unlimited :: bool

record usageSummary =
  su_Plan :: string
  su_Email :: string
  su_FetchedAt :: gotime
  su_Weekly :: "usageWindowSummary option"
  su_FiveHour :: "usageWindowSummary option"
  su_LimitReached :: bool
  su_ResetCreditsAvailable :: int
  su_Credits :: "usageCreditsSummary option"
  su_Models :: "(string \<times> bool) list"

definition truncate_second :: "gotime \<Rightarrow> gotime" where
  "truncate_second t = t - t mod nanos_per_second"

definition window_reset :: "golib \<Rightarrow> obj \<Rightarrow> gotime \<Rightarrow> gotime" where
  "window_reset lib window now =
     (case numericField lib window ''reset_at'' of
        Some resetAt \<Rightarrow>
          (if float_gt resetAt 0 then time_Unix (int64_of_float resetAt)
           else (case numericField lib window ''reset_after_seconds'' of
                   Some after \<Rightarrow> if float_ge after 0 then truncate_second (now + wrap64 (int64_of_float after * nanos_per_second)) else 0
                 | None \<Rightarrow> 0))
      | None \<Rightarrow>
          (case numericField lib window ''reset_after_seconds'' of
             Some after \<Rightarrow> if float_ge after 0 then truncate_second (now + wrap64 (int64_of_float after * nanos_per_second)) else 0
           | None \<Rightarrow> 0))"

definition summarizeUsageWindow :: "golib \<Rightarrow> obj \<Rightarrow> gotime \<Rightarrow> usageWindowSummary" where
  "summarizeUsageWindow lib window now =
     (let used = (case numericField lib window ''used_percent'' of Some v \<Rightarrow> v | None \<Rightarrow> Fin 0);
          resetAt = window_reset lib window now
      in \<lparr>uw_UsedPercent = used, uw_RemainingPercent = remaining_percent used,
          uw_ResetsInSeconds = (if resetAt = 0 then 0 else secondsUntil resetAt now),
          uw_LimitReached = float_ge used 100, uw_resetAt = resetAt\<rparr>)"

definition short_window :: "golib \<Rightarrow> string \<Rightarrow> obj \<Rightarrow> bool" where
  "short_window lib slot window =
     (case numericField lib window ''limit_window_seconds'' of
        Some secs \<Rightarrow> if float_gt secs 0 then float_le secs shortUsageWindowMaxSeconds else slot = ''primary_window''
      | None \<Rightarrow> slot = ''primary_window'')"

definition add_slot :: "golib \<Rightarrow> obj \<Rightarrow> gotime \<Rightarrow> string \<Rightarrow> usageSummary \<Rightarrow> usageSummary" where
  "add_slot lib rateLimit now slot s =
     (case as_obj (oget rateLimit slot) of
        None \<Rightarrow> s
      | Some window \<Rightarrow>
          (let w = summarizeUsageWindow lib window now
           in if short_window lib slot window then
                (if su_FiveHour s \<noteq> None then s
                 else s\<lparr>su_FiveHour := Some w, su_LimitReached := su_LimitReached s \<or> uw_LimitReached w\<rparr>)
              else
                (if su_Weekly s \<noteq> None then s
                 else s\<lparr>su_Weekly := Some w, su_LimitReached := su_LimitReached s \<or> uw_LimitReached w\<rparr>)))"

definition model_availability :: "obj \<Rightarrow> (string \<times> bool) list" where
  "model_availability models =
     map (\<lambda>(ident, v). (ident, as_bool (oget (case as_obj v of Some m \<Rightarrow> m | None \<Rightarrow> []) ''available'') = Some True)) models"

definition rate_limit_of :: "obj \<Rightarrow> obj" where
  "rate_limit_of raw = (case as_obj (oget raw ''rate_limit'') of Some m \<Rightarrow> m | None \<Rightarrow> [])"

definition summarizeCodexUsage :: "golib \<Rightarrow> obj \<Rightarrow> gotime \<Rightarrow> usageSummary" where
  "summarizeCodexUsage lib raw now =
     (let s0 = \<lparr>su_Plan = stringField raw ''plan_type'', su_Email = stringField raw ''email'', su_FetchedAt = now,
                su_Weekly = None, su_FiveHour = None,
                su_LimitReached = (as_bool (oget (rate_limit_of raw) ''limit_reached'') = Some True),
                su_ResetCreditsAvailable = 0, su_Credits = None, su_Models = []\<rparr>;
          s1 = fold (add_slot lib (rate_limit_of raw) now) [''primary_window'', ''secondary_window''] s0
      in s1\<lparr>su_ResetCreditsAvailable :=
              (case as_obj (oget raw ''rate_limit_reset_credits'') of
                 Some c \<Rightarrow> intField lib c ''available_count'' | None \<Rightarrow> 0),
            su_Credits :=
              (case as_obj (oget raw ''credits'') of
                 Some c \<Rightarrow> Some \<lparr>uc_Balance = oget c ''balance'', uc_Unlimited = (as_bool (oget c ''unlimited'') = Some True)\<rparr>
               | None \<Rightarrow> None),
            su_Models := (case as_obj (oget raw ''model_usage'') of Some ms \<Rightarrow> model_availability ms | None \<Rightarrow> [])\<rparr>)"

subsection \<open>Text\<close>

text \<open>Integer division and remainder as Go has them.\<close>

definition quot :: "int \<Rightarrow> int \<Rightarrow> int" where
  "quot a b = sgn a * (\<bar>a\<bar> div b)"

definition remn :: "int \<Rightarrow> int \<Rightarrow> int" where
  "remn a b = a - b * quot a b"

definition formatUsageDuration :: "int \<Rightarrow> string" where
  "formatUsageDuration secs =
     (let days = quot secs 86400; hrs = quot (remn secs 86400) 3600; mins = quot (remn secs 3600) 60
      in if days > 0 then Itoa days @ ''d'' @ Itoa hrs @ ''h''
         else if hrs > 0 then Itoa hrs @ ''h'' @ Itoa mins @ ''m''
         else Itoa mins @ ''m'')"

text \<open>\<open>strconv.FormatFloat(math.Round(value*10)/10, 'f', -1, 64)\<close>\<close>

definition tenths :: "rat \<Rightarrow> int" where
  "tenths q = (if q < 0 then - \<lfloor>- q * 10 + 1 / 2\<rfloor> else \<lfloor>q * 10 + 1 / 2\<rfloor>)"

fun formatUsagePercent :: "gofloat \<Rightarrow> string" where
  "formatUsagePercent (Fin q) =
     (let n = tenths q; a = nat \<bar>n\<bar>
      in (if q < 0 then ''-'' else []) @ itoa (a div 10) @ (if a mod 10 = 0 then [] else CHR ''.'' # itoa (a mod 10)))"
| "formatUsagePercent NaN = ''NaN''"
| "formatUsagePercent PosInf = ''+Inf''"
| "formatUsagePercent NegInf = ''-Inf''"

text \<open>\<open>ist\<close> formats an instant in the IST zone.\<close>

definition window_text :: "(gotime \<Rightarrow> string) \<Rightarrow> usageWindowSummary option \<Rightarrow> string" where
  "window_text ist wo =
     (case wo of
        None \<Rightarrow> ''n/a''
      | Some w \<Rightarrow>
          formatUsagePercent (uw_UsedPercent w) @ ''% used ('' @ formatUsagePercent (uw_RemainingPercent w) @ ''% left)'' @
          (if uw_resetAt w = 0 then []
           else '', resets in '' @ formatUsageDuration (uw_ResetsInSeconds w) @ '' ('' @ ist (uw_resetAt w) @ '')'') @
          (if uw_LimitReached w then '', limit reached'' else []))"

definition textLine :: "(gotime \<Rightarrow> string) \<Rightarrow> usageSummary \<Rightarrow> string" where
  "textLine ist s =
     (let credits = (if su_ResetCreditsAvailable s = 1 then ''1 reset credit''
                     else Itoa (su_ResetCreditsAvailable s) @ '' reset credits'');
          parts = [valueOr (su_Plan s) ''unknown'', ''weekly '' @ window_text ist (su_Weekly s),
                   ''5h '' @ window_text ist (su_FiveHour s), credits];
          window_limited = (\<lambda>wo. case wo of None \<Rightarrow> False | Some w \<Rightarrow> uw_LimitReached w)
      in Join (if su_LimitReached s \<and> \<not> window_limited (su_Weekly s) \<and> \<not> window_limited (su_FiveHour s)
               then parts @ [''limit reached''] else parts)
           [CHR '' '', CHR 0xC2, CHR 0xB7, CHR '' ''])"

subsection \<open>The usage request\<close>

datatype usage_error =
    PlainError string
  | usageUpstreamError nat string string

datatype usage_fetch = Fetched obj | FetchFailed nat usage_error | FetchPanics

fun usage_error_text :: "usage_error \<Rightarrow> string" where
  "usage_error_text (PlainError msg) = msg"
| "usage_error_text (usageUpstreamError status code msg) = msg"

definition upstreamErrorCode :: "golib \<Rightarrow> string \<Rightarrow> string" where
  "upstreamErrorCode lib body =
     (case unmarshal_obj lib body of
        None \<Rightarrow> []
      | Some parsed \<Rightarrow>
          (let nested = (\<lambda>code key. if code \<noteq> [] then code
                 else (case as_obj (oget parsed key) of Some m \<Rightarrow> stringField m ''code'' | None \<Rightarrow> code))
           in truncateLogField (redactTokenLikeText (foldl nested (stringField parsed ''code'') [''error'', ''detail''])) 64))"

definition dashboardErrorSuffix :: "golib \<Rightarrow> string \<Rightarrow> string" where
  "dashboardErrorSuffix lib body =
     (if body = [] then []
      else (let fallback = '': '' @ truncateLogField (redactTokenLikeText body) 240
            in (case unmarshal_obj lib body of
                  None \<Rightarrow> fallback
                | Some parsed \<Rightarrow>
                    (let message = first_nonempty (map (stringField parsed) [''detail'', ''message'', ''error''])
                     in if message \<noteq> [] then '': '' @ redactTokenLikeText message else fallback))))"

definition usage_header :: "config \<Rightarrow> accessMaterial \<Rightarrow> header" where
  "usage_header cfg access =
     (let h1 = Header_Set [] ''Authorization'' (''Bearer '' @ am_AccessToken access);
          h2 = Header_Set h1 ''Accept'' ''application/json'';
          h3 = setClientIdentity cfg h2
      in if am_AccountID access \<noteq> [] then Header_Set h3 ''ChatGPT-Account-Id'' (am_AccountID access) else h3)"

text \<open>What the request meets: the error texts of the JSON decoder and of \<open>http.NewRequest\<close>, and the
  formatted time of the answer.\<close>

record usage_io = http_io +
  ui_usageURL :: string
  ui_newRequest :: "string \<Rightarrow> string option"
  ui_jsonErr :: "string \<Rightarrow> string"
  ui_stamp :: string

definition usage_reply :: "usage_io \<Rightarrow> accessMaterial \<Rightarrow> http_response \<Rightarrow> usage_fetch" where
  "usage_reply io access resp =
     (let body = take (128 * 1024) (delivered (http_io.truncate io) resp); status = rs_StatusCode resp
      in if status < 200 \<or> 300 \<le> status
         then FetchFailed status (usageUpstreamError status (upstreamErrorCode (hi_lib io) body)
                (''usage API returned HTTP '' @ itoa status @ dashboardErrorSuffix (hi_lib io) body))
         else (case lib_Unmarshal (hi_lib io) body of
                 Some (JObj parsed) \<Rightarrow>
                   Fetched (oset parsed ''_broker'' (JObj
                     [(''fetched_at'', JStr (ui_stamp io)), (''account_id_present'', JBool (am_AccountID access \<noteq> [])),
                      (''source'', JStr ''chatgpt.com/backend-api/wham/usage'')]))
               | Some JNull \<Rightarrow> FetchPanics
               | _ \<Rightarrow> FetchFailed 502 (PlainError (''usage API returned invalid JSON: '' @ ui_jsonErr io body))))"

definition fetchCodexUsage :: "usage_io \<Rightarrow> accountPool \<Rightarrow> usage_fetch \<times> accountPool \<times> upstream_call list" where
  "fetchCodexUsage io pool =
     (let env = hi_dispatch io
      in (case preferred pool (de_now env 0) of
            (None, p1) \<Rightarrow> (FetchFailed 502 (PlainError ''no Codex accounts configured''), p1, [])
          | (Some i, p1) \<Rightarrow>
              (case de_current env 0 i of
                 Inl err \<Rightarrow> (FetchFailed 502 (PlainError (''Codex auth failed: '' @ err)), p1, [])
               | Inr access \<Rightarrow>
                   (case ui_newRequest io (ui_usageURL io) of
                      Some err \<Rightarrow> (FetchFailed 502 (PlainError (''build usage request failed: '' @ err)), p1, [])
                    | None \<Rightarrow>
                        (let result = de_do env 0 i;
                             call = \<lparr>uc_account = i, uc_header = usage_header (config.truncate (hi_cfg io)) access,
                                     uc_body = [], uc_reply = result\<rparr>
                         in (case result of
                               Inl err \<Rightarrow> (FetchFailed 502 (PlainError (''usage request failed: '' @ err)), p1, [call])
                             | Inr resp \<Rightarrow> (usage_reply io access resp, p1, [call])))))))"

subsection \<open>The endpoint\<close>

datatype usage_body = UsageError json | UsageText string | UsageJSON usageSummary

record usage_answer =
  ua_status :: nat
  ua_header :: header
  ua_body :: usage_body

definition error_body :: "string \<Rightarrow> json" where
  "error_body message = writeProxyError_body message"

definition usage_failure :: "nat \<Rightarrow> json \<Rightarrow> usage_answer" where
  "usage_failure status v =
     \<lparr>ua_status = status, ua_header = Header_Set [] ''Content-Type'' ''application/json'', ua_body = UsageError v\<rparr>"

definition writeUsageFetchError :: "usage_error \<Rightarrow> usage_answer" where
  "writeUsageFetchError err =
     (let base = [(''message'', JStr (redactTokenLikeText (usage_error_text err))), (''type'', JStr ''codex_auth_broker_error'')];
          body = (case err of
                    PlainError _ \<Rightarrow> base
                  | usageUpstreamError status code _ \<Rightarrow>
                      base @ [(''upstream_status'', JInt (int status))] @ (if code \<noteq> [] then [(''upstream_code'', JStr code)] else []))
      in usage_failure 502 (JObj [(''error'', JObj body)]))"

definition usage_success :: "(gotime \<Rightarrow> string) \<Rightarrow> string \<Rightarrow> usageSummary \<Rightarrow> usage_answer" where
  "usage_success ist fmt s =
     (let h = Header_Set [] ''Cache-Control'' ''no-store''
      in if fmt = ''text''
         then \<lparr>ua_status = 200, ua_header = Header_Set h ''Content-Type'' ''text/plain; charset=utf-8'',
               ua_body = UsageText (textLine ist s @ [CHR 0x0A])\<rparr>
         else \<lparr>ua_status = 200, ua_header = Header_Set h ''Content-Type'' ''application/json'', ua_body = UsageJSON s\<rparr>)"

text \<open>\<open>None\<close>: the handler panics and the server drops the connection.\<close>

definition handleUsageSummary ::
    "(gotime \<Rightarrow> string) \<Rightarrow> string \<Rightarrow> gotime \<Rightarrow> usage_io \<Rightarrow> accountPool \<Rightarrow> usage_answer option \<times> accountPool \<times> upstream_call list" where
  "handleUsageSummary ist query now io pool =
     (if \<not> authorized (http_io.truncate io) then (Some (usage_failure 401 (error_body ''unauthorized'')), pool, [])
      else (let fmt = ToLower (TrimSpace query)
            in if fmt \<noteq> [] \<and> fmt \<noteq> ''json'' \<and> fmt \<noteq> ''text''
               then (Some (usage_failure 400 (error_body ''format must be json or text'')), pool, [])
               else (case fetchCodexUsage io pool of
                       (FetchFailed status err, pool', calls) \<Rightarrow> (Some (writeUsageFetchError err), pool', calls)
                     | (FetchPanics, pool', calls) \<Rightarrow> (None, pool', calls)
                     | (Fetched raw, pool', calls) \<Rightarrow>
                         (Some (usage_success ist fmt (summarizeCodexUsage (hi_lib io) raw now)), pool', calls))))"

section \<open>Windows\<close>

lemma window_bounds:
  "0 \<le> uw_ResetsInSeconds (summarizeUsageWindow lib window now)"
  "uw_UsedPercent (summarizeUsageWindow lib window now) = Fin q \<Longrightarrow>
     \<exists>r. uw_RemainingPercent (summarizeUsageWindow lib window now) = Fin r \<and> 0 \<le> r \<and> r \<le> 100 \<and>
         (0 \<le> q \<longrightarrow> q \<le> 100 \<longrightarrow> q + r = 100) \<and> (uw_LimitReached (summarizeUsageWindow lib window now) \<longleftrightarrow> r = 0)"
  by (auto simp: summarizeUsageWindow_def Let_def secondsUntil_def)

text \<open>The windows of a slot, by their class.\<close>

definition slot_window :: "golib \<Rightarrow> obj \<Rightarrow> bool \<Rightarrow> string \<Rightarrow> obj option" where
  "slot_window lib raw short slot =
     (case as_obj (oget (rate_limit_of raw) slot) of
        None \<Rightarrow> None
      | Some window \<Rightarrow> if short_window lib slot window = short then Some window else None)"

definition first_window :: "golib \<Rightarrow> obj \<Rightarrow> bool \<Rightarrow> obj option" where
  "first_window lib raw short =
     (case slot_window lib raw short ''primary_window'' of
        Some w \<Rightarrow> Some w | None \<Rightarrow> slot_window lib raw short ''secondary_window'')"

lemma add_slot_window:
  "add_slot lib (rate_limit_of raw) now slot s =
     s\<lparr>su_FiveHour := (case su_FiveHour s of Some w \<Rightarrow> Some w
         | None \<Rightarrow> map_option (\<lambda>w. summarizeUsageWindow lib w now) (slot_window lib raw True slot)),
       su_Weekly := (case su_Weekly s of Some w \<Rightarrow> Some w
         | None \<Rightarrow> map_option (\<lambda>w. summarizeUsageWindow lib w now) (slot_window lib raw False slot)),
       su_LimitReached := su_LimitReached s \<or>
         (su_FiveHour s = None \<and> (\<exists>w. slot_window lib raw True slot = Some w \<and> uw_LimitReached (summarizeUsageWindow lib w now))) \<or>
         (su_Weekly s = None \<and> (\<exists>w. slot_window lib raw False slot = Some w \<and> uw_LimitReached (summarizeUsageWindow lib w now)))\<rparr>"
proof (cases "as_obj (oget (rate_limit_of raw) slot)")
  case None
  then show ?thesis by (simp add: add_slot_def slot_window_def split: option.split)
next
  case (Some window)
  then show ?thesis
    by (cases "short_window lib slot window"; cases "su_FiveHour s"; cases "su_Weekly s")
      (simp_all add: add_slot_def slot_window_def Let_def)
qed

lemma summarize_windows:
  "su_FiveHour (summarizeCodexUsage lib raw now) = map_option (\<lambda>w. summarizeUsageWindow lib w now) (first_window lib raw True)"
  "su_Weekly (summarizeCodexUsage lib raw now) = map_option (\<lambda>w. summarizeUsageWindow lib w now) (first_window lib raw False)"
  "su_LimitReached (summarizeCodexUsage lib raw now) \<longleftrightarrow>
     as_bool (oget (rate_limit_of raw) ''limit_reached'') = Some True \<or>
     (\<exists>short w. first_window lib raw short = Some w \<and> uw_LimitReached (summarizeUsageWindow lib w now))"
proof -
  show "su_FiveHour (summarizeCodexUsage lib raw now) = map_option (\<lambda>w. summarizeUsageWindow lib w now) (first_window lib raw True)"
    "su_Weekly (summarizeCodexUsage lib raw now) = map_option (\<lambda>w. summarizeUsageWindow lib w now) (first_window lib raw False)"
    by (simp_all add: summarizeCodexUsage_def Let_def add_slot_window first_window_def split: option.split)
  show "su_LimitReached (summarizeCodexUsage lib raw now) \<longleftrightarrow>
     as_bool (oget (rate_limit_of raw) ''limit_reached'') = Some True \<or>
     (\<exists>short w. first_window lib raw short = Some w \<and> uw_LimitReached (summarizeUsageWindow lib w now))"
    unfolding ex_bool_eq
    by (cases "slot_window lib raw True ''primary_window''"; cases "slot_window lib raw False ''primary_window''")
      (auto simp: summarizeCodexUsage_def Let_def add_slot_window first_window_def)
qed

section \<open>Properties\<close>

text \<open>The usage view shows as its five-hour window the first slot whose declared length is at most a day
  and as its weekly window the first that is longer (a slot without a declared length counts by its
  position); a finite percentage of remaining quota lies between 0 and 100, complements the used one
  and is 0 exactly when that window's limit is reached; the time to the reset is not negative; and the
  view says "limit reached" exactly when the document or one of the two windows says so.\<close>

theorem usage_view_sound:
  assumes "s = summarizeCodexUsage lib raw now"
  shows "su_FiveHour s = map_option (\<lambda>w. summarizeUsageWindow lib w now) (first_window lib raw True) \<and>
    su_Weekly s = map_option (\<lambda>w. summarizeUsageWindow lib w now) (first_window lib raw False) \<and>
    (su_LimitReached s \<longleftrightarrow> as_bool (oget (rate_limit_of raw) ''limit_reached'') = Some True \<or>
       (\<exists>w\<in>set_option (su_FiveHour s) \<union> set_option (su_Weekly s). uw_LimitReached w)) \<and>
    (\<forall>w\<in>set_option (su_FiveHour s) \<union> set_option (su_Weekly s).
       0 \<le> uw_ResetsInSeconds w \<and>
       (\<forall>q. uw_UsedPercent w = Fin q \<longrightarrow>
          (\<exists>r. uw_RemainingPercent w = Fin r \<and> 0 \<le> r \<and> r \<le> 100 \<and> (0 \<le> q \<longrightarrow> q \<le> 100 \<longrightarrow> q + r = 100) \<and>
               (uw_LimitReached w \<longleftrightarrow> r = 0))))"
proof -
  have "(\<exists>short w. first_window lib raw short = Some w \<and> uw_LimitReached (summarizeUsageWindow lib w now)) \<longleftrightarrow>
      (\<exists>w\<in>set_option (su_FiveHour s) \<union> set_option (su_Weekly s). uw_LimitReached w)"
    unfolding assms summarize_windows ex_bool_eq by auto
  then have lim: "su_LimitReached s \<longleftrightarrow> as_bool (oget (rate_limit_of raw) ''limit_reached'') = Some True \<or>
      (\<exists>w\<in>set_option (su_FiveHour s) \<union> set_option (su_Weekly s). uw_LimitReached w)"
    using summarize_windows(3) [of lib raw now] assms by simp
  have bounds: "0 \<le> uw_ResetsInSeconds w \<and>
      (\<forall>q. uw_UsedPercent w = Fin q \<longrightarrow>
        (\<exists>r. uw_RemainingPercent w = Fin r \<and> 0 \<le> r \<and> r \<le> 100 \<and> (0 \<le> q \<longrightarrow> q \<le> 100 \<longrightarrow> q + r = 100) \<and>
             (uw_LimitReached w \<longleftrightarrow> r = 0)))"
    if w: "w \<in> set_option (su_FiveHour s) \<union> set_option (su_Weekly s)" for w
  proof -
    obtain v where "w = summarizeUsageWindow lib v now"
      using w unfolding assms summarize_windows(1,2) by auto
    then show ?thesis using window_bounds [of lib v now] by simp
  qed
  show ?thesis
  proof (intro conjI ballI)
    show "su_FiveHour s = map_option (\<lambda>w. summarizeUsageWindow lib w now) (first_window lib raw True)"
      "su_Weekly s = map_option (\<lambda>w. summarizeUsageWindow lib w now) (first_window lib raw False)"
      unfolding assms by (rule summarize_windows)+
  qed (use lim bounds in blast)+
qed

theorem usage_view_sound_witness:
  "\<exists>w. su_Weekly (summarizeCodexUsage witness_lib
       [(''rate_limit'', JObj [(''primary_window'', JObj [(''used_percent'', JFloat 30), (''limit_window_seconds'', JFloat 604800)])])] 5) = Some w \<and>
     uw_RemainingPercent w = Fin 70 \<and> \<not> uw_LimitReached w"
proof -
  let ?w = "[(''used_percent'', JFloat 30), (''limit_window_seconds'', JFloat 604800)]"
  let ?raw = "[(''rate_limit'', JObj [(''primary_window'', JObj ?w)])]"
  have f: "first_window witness_lib ?raw False = Some ?w" by code_simp
  have "uw_UsedPercent (summarizeUsageWindow witness_lib ?w 5) = Fin 30" by code_simp
  then show ?thesis using usage_view_sound [OF refl, of witness_lib ?raw 5] unfolding f by force
qed

text \<open>Every failed usage request is answered 502 with an error object whose message is redacted; when the
  usage API itself answered, its status is reported. No answer passes on the usage API's status as
  the broker's own.\<close>

lemma usage_failure_is_bad_gateway:
  assumes "authorized (http_io.truncate io)" "ToLower (TrimSpace query) \<in> {[], ''json'', ''text''}"
    "fetchCodexUsage io pool = (FetchFailed status err, pool', calls)"
  shows "\<exists>e. handleUsageSummary ist query now io pool =
      (Some (usage_failure 502 (JObj [(''error'', JObj e)])), pool', calls) \<and>
    oget e ''message'' = JStr (redactTokenLikeText (usage_error_text err)) \<and>
    (\<forall>code msg. err = usageUpstreamError status code msg \<longrightarrow> oget e ''upstream_status'' = JInt (int status))"
proof -
  have "handleUsageSummary ist query now io pool = (Some (writeUsageFetchError err), pool', calls)"
    using assms by (auto simp: handleUsageSummary_def Let_def)
  then show ?thesis by (cases err) (auto simp: writeUsageFetchError_def Let_def oget_def)
qed

end
