(* ===== verification/Dashboard.thy ===== *)
theory Dashboard
  imports Reports UsageSummary Keys
begin

text \<open>
  The dashboard's pages and API, \<^verbatim>\<open>src/dashboard.go\<close>, with the report endpoints of \<^verbatim>\<open>src/costs.go\<close> and
  \<^verbatim>\<open>src/usage_by_user.go\<close>. A handler maps the request and the broker's state (key registry, request
  history, account pool) to an answer, the state afterwards and its upstream calls; an answer \<open>None\<close>
  is a panic. The locale \<open>admin_endpoint\<close> is what the gate promises, interpreted on every handler of the
  API.
\<close>

section \<open>Definitions\<close>

record dash_io = usage_io +
  di_windows :: bool
  di_decode :: "string \<Rightarrow> clientKey list option"
  di_fs :: "string \<Rightarrow> file_state"
  di_now1 :: gotime
  di_now2 :: gotime
  di_cookie :: "string option"
  di_query :: "string \<Rightarrow> string"
  di_path :: string
  di_method :: string
  di_tls :: bool
  di_codec :: codec
  di_disk :: disk
  di_fileOk :: bool
  di_fileErr :: "persist_error \<Rightarrow> string"
  di_quote :: "string \<Rightarrow> string"
  di_logPath :: string
  di_now :: gotime

record dash_state =
  ds_reg :: keyRegistry
  ds_store :: requestLogStore
  ds_pool :: accountPool

record set_cookie =
  sc_Name :: string
  sc_Value :: string
  sc_Path :: string
  sc_HttpOnly :: bool
  sc_Secure :: bool
  sc_SameSiteStrict :: bool
  sc_MaxAge :: int

datatype dash_body =
    DashError json
  | DashNotFound
  | DashPage
  | DashRedirect string
  | DashLoggedOut
  | DashSnapshot requestLogSnapshot
  | DashCleared gotime
  | DashCosts costSummary
  | DashUsers userUsageSummary
  | DashUsage obj

record dash_answer =
  da_status :: nat
  da_header :: header
  da_cookie :: "set_cookie option"
  da_body :: dash_body

record dash_out =
  do_answer :: "dash_answer option"
  do_state :: dash_state
  do_calls :: "upstream_call list"

definition dashboardCookieName :: string where
  "dashboardCookieName = ''codex_broker_dashboard_key''"

subsection \<open>The gate\<close>

definition dash_status :: "dash_io \<Rightarrow> dash_state \<Rightarrow> nat" where
  "dash_status io st =
     dashboardAuthStatus (di_windows io) (di_decode io) (di_fs io) (di_now1 io) (di_now2 io) (ds_reg st)
       (Header_Get (hi_header io) ''Authorization'') (di_cookie io)"

text \<open>\<open>reg.resolve\<close> and the registry after the reload it may perform.\<close>

definition dash_resolve :: "dash_io \<Rightarrow> dash_state \<Rightarrow> string \<Rightarrow> clientIdentity option \<times> dash_state" where
  "dash_resolve io st token =
     (let (r, reg) = resolve (di_windows io) (di_decode io) (di_fs io) (di_now1 io) (di_now2 io) (ds_reg st) token
      in (r, st\<lparr>ds_reg := reg\<rparr>))"

definition dash_token :: "dash_io \<Rightarrow> string" where
  "dash_token io =
     (let t = bearerToken (Header_Get (hi_header io) ''Authorization'')
      in if t = [] then (case di_cookie io of Some v \<Rightarrow> v | None \<Rightarrow> []) else t)"

definition gated_state :: "dash_io \<Rightarrow> dash_state \<Rightarrow> dash_state" where
  "gated_state io st =
     (if \<not> enabled (ds_reg st) \<or> dash_token io = [] then st else snd (dash_resolve io st (dash_token io)))"

definition dash_json :: "nat \<Rightarrow> header \<Rightarrow> dash_body \<Rightarrow> dash_answer" where
  "dash_json status w b =
     \<lparr>da_status = status, da_header = Header_Set w ''Content-Type'' ''application/json'', da_cookie = None, da_body = b\<rparr>"

definition dash_error :: "nat \<Rightarrow> header \<Rightarrow> string \<Rightarrow> dash_answer" where
  "dash_error status w message = dash_json status w (DashError (writeProxyError_body message))"

definition answered_with :: "dash_answer \<Rightarrow> dash_state \<Rightarrow> dash_out" where
  "answered_with a st = \<lparr>do_answer = Some a, do_state = st, do_calls = []\<rparr>"

text \<open>\<open>if !p.requireDashboardAdmin(w, r) { return }\<close>, then the rest of the handler.\<close>

definition requireDashboardAdmin :: "dash_io \<Rightarrow> header \<Rightarrow> (dash_state \<Rightarrow> dash_out) \<Rightarrow> dash_state \<Rightarrow> dash_out" where
  "requireDashboardAdmin io w rest st =
     (let status = dash_status io st; st' = gated_state io st
      in if status = 401 then answered_with (dash_error 401 w ''unauthorized'') st'
         else if status = 403 then answered_with (dash_error 403 w ''admin key required'') st'
         else rest st')"

subsection \<open>Handlers\<close>

definition no_store :: header where
  "no_store = Header_Set [] ''Cache-Control'' ''no-store''"

definition login_cookie :: "dash_io \<Rightarrow> string \<Rightarrow> set_cookie" where
  "login_cookie io key =
     \<lparr>sc_Name = dashboardCookieName, sc_Value = key, sc_Path = ''/'', sc_HttpOnly = True, sc_Secure = di_tls io,
      sc_SameSiteStrict = True, sc_MaxAge = 0\<rparr>"

definition handleDashboard :: "dash_io \<Rightarrow> dash_state \<Rightarrow> dash_out" where
  "handleDashboard io st =
     (if di_path io \<noteq> ''/'' \<and> di_path io \<noteq> ''/dashboard''
      then answered_with \<lparr>da_status = 404,
             da_header = Header_Set (Header_Set [] ''Content-Type'' ''text/plain; charset=utf-8'') ''X-Content-Type-Options'' ''nosniff'',
             da_cookie = None, da_body = DashNotFound\<rparr> st
      else (let w = Header_Set no_store ''Referrer-Policy'' ''no-referrer''; key = di_query io ''key''
            in if key \<noteq> [] \<and> enabled (ds_reg st) then
                 (case dash_resolve io st key of
                    (None, st') \<Rightarrow> answered_with (dash_error 401 w ''unauthorized'') st'
                  | (Some c, st') \<Rightarrow>
                      (if \<not> admin c then answered_with (dash_error 403 w ''admin key required'') st'
                       else answered_with \<lparr>da_status = 303, da_header = Header_Set (Header_Set w ''Location'' (di_path io)) ''Content-Type'' ''text/html; charset=utf-8'',
                              da_cookie = Some (login_cookie io key), da_body = DashRedirect (di_path io)\<rparr> st'))
               else requireDashboardAdmin io w (\<lambda>st'.
                 answered_with \<lparr>da_status = 200, da_header = Header_Set w ''Content-Type'' ''text/html; charset=utf-8'',
                   da_cookie = None, da_body = DashPage\<rparr> st') st))"

definition handleDashboardLogout :: "dash_io \<Rightarrow> dash_state \<Rightarrow> dash_out" where
  "handleDashboardLogout io st =
     answered_with ((dash_json 200 no_store DashLoggedOut)
       \<lparr>da_cookie := Some ((login_cookie io [])\<lparr>sc_MaxAge := -1\<rparr>)\<rparr>) st"

definition handleDashboardRequests :: "dash_io \<Rightarrow> dash_state \<Rightarrow> dash_out" where
  "handleDashboardRequests io = requireDashboardAdmin io [] (\<lambda>st.
     if di_method io = ''GET'' then
       answered_with (dash_json 200 [] (DashSnapshot
         (store_snapshot (requestLimitFromQuery (di_query io ''limit'') 250) (ds_store st)))) st
     else if di_method io = ''DELETE'' then
       (case store_clear (di_disk io) (ds_store st) of
          (Some err, s') \<Rightarrow> answered_with (dash_error 500 [] ''clear request history failed'') (st\<lparr>ds_store := s'\<rparr>)
        | (None, s') \<Rightarrow> answered_with (dash_json 200 [] (DashCleared (di_now io))) (st\<lparr>ds_store := s'\<rparr>))
     else answered_with (dash_error 405 [] ''method not allowed'') st)"

definition handleDashboardCosts :: "dash_io \<Rightarrow> dash_state \<Rightarrow> dash_out" where
  "handleDashboardCosts io = requireDashboardAdmin io [] (\<lambda>st.
     (case costSummary (di_codec io) (di_fileOk io) (di_logPath io) (di_now io) (di_query io ''pricing'' = ''api'') (ds_store st) of
        Inl err \<Rightarrow> answered_with (dash_error 500 [] (''cost aggregation failed: '' @ di_fileErr io err)) st
      | Inr summary \<Rightarrow> answered_with (dash_json 200 [] (DashCosts summary)) st))"

fun window_error_text :: "(string \<Rightarrow> string) \<Rightarrow> window_error \<Rightarrow> string" where
  "window_error_text quote (InvalidWindow v) = ''invalid window '' @ quote v @ '': use 24h, 7d, 30d, all, or a duration''"

definition handleUsageByUser :: "dash_io \<Rightarrow> dash_state \<Rightarrow> dash_out" where
  "handleUsageByUser io = requireDashboardAdmin io [] (\<lambda>st.
     (case parseUsageWindow (hi_lib io) (di_query io ''window'') of
        Inl err \<Rightarrow> answered_with (dash_error 400 [] (window_error_text (di_quote io) err)) st
      | Inr (age, window) \<Rightarrow>
          (case userUsageSummary (di_codec io) (di_fileOk io) (di_logPath io) (di_now io) age window (ds_store st) of
             Inl err \<Rightarrow> answered_with (dash_error 500 [] (''usage aggregation failed: '' @ di_fileErr io err)) st
           | Inr summary \<Rightarrow> answered_with (dash_json 200 [] (DashUsers summary)) st)))"

definition handleCodexUsage :: "dash_io \<Rightarrow> dash_state \<Rightarrow> dash_out" where
  "handleCodexUsage io = requireDashboardAdmin io [] (\<lambda>st.
     (case fetchCodexUsage (usage_io.truncate io) (ds_pool st) of
        (FetchFailed status err, pool', calls) \<Rightarrow>
          \<lparr>do_answer = Some (dash_error status [] (usage_error_text err)), do_state = st\<lparr>ds_pool := pool'\<rparr>, do_calls = calls\<rparr>
      | (FetchPanics, pool', calls) \<Rightarrow> \<lparr>do_answer = None, do_state = st\<lparr>ds_pool := pool'\<rparr>, do_calls = calls\<rparr>
      | (Fetched usage, pool', calls) \<Rightarrow>
          \<lparr>do_answer = Some (dash_json 200 [] (DashUsage usage)), do_state = st\<lparr>ds_pool := pool'\<rparr>, do_calls = calls\<rparr>))"

text \<open>The dashboard routes of the mux.\<close>

datatype dash_route = RequestsRoute | CostsRoute | ByUserRoute | UsageRoute

definition dash_serve :: "dash_route \<Rightarrow> dash_io \<Rightarrow> dash_state \<Rightarrow> dash_out" where
  "dash_serve r =
     (case r of RequestsRoute \<Rightarrow> handleDashboardRequests | CostsRoute \<Rightarrow> handleDashboardCosts
              | ByUserRoute \<Rightarrow> handleUsageByUser | UsageRoute \<Rightarrow> handleCodexUsage)"

section \<open>The gate\<close>

lemma gated_state_fields [simp]:
  "ds_store (gated_state io st) = ds_store st" "ds_pool (gated_state io st) = ds_pool st"
  by (simp_all add: gated_state_def dash_resolve_def case_prod_beta)

lemma dash_status_cases: "dash_status io st \<in> {200, 401, 403}"
  by (auto simp: dash_status_def dashboardAuthStatus_def Let_def split: option.split)

lemma gate_refuses:
  assumes "dash_status io st \<noteq> 200"
  shows "requireDashboardAdmin io w rest st =
    answered_with (dash_error (dash_status io st) w (if dash_status io st = 401 then ''unauthorized'' else ''admin key required''))
      (gated_state io st)"
  using assms dash_status_cases [of io st] by (auto simp: requireDashboardAdmin_def Let_def)

text \<open>What a handler behind the gate promises.\<close>

locale admin_endpoint =
  fixes handler :: "dash_io \<Rightarrow> dash_state \<Rightarrow> dash_out"
  assumes refuses: "dash_status io st \<noteq> 200 \<Longrightarrow>
    \<exists>msg. handler io st = answered_with (dash_error (dash_status io st) [] msg) (gated_state io st)"
begin

lemma refused_effects:
  assumes "dash_status io st \<noteq> 200"
  shows "\<exists>a msg. do_answer (handler io st) = Some a \<and> da_status a = dash_status io st \<and>
    da_body a = DashError (writeProxyError_body msg) \<and> ds_store (do_state (handler io st)) = ds_store st \<and>
    ds_pool (do_state (handler io st)) = ds_pool st \<and> do_calls (handler io st) = []"
proof -
  obtain msg where "handler io st = answered_with (dash_error (dash_status io st) [] msg) (gated_state io st)"
    using refuses [OF assms] by blast
  then show ?thesis by (auto simp: answered_with_def dash_error_def dash_json_def)
qed

end

interpretation requests_endpoint: admin_endpoint handleDashboardRequests
  by unfold_locales (use gate_refuses in \<open>auto simp: handleDashboardRequests_def\<close>)

interpretation costs_endpoint: admin_endpoint handleDashboardCosts
  by unfold_locales (use gate_refuses in \<open>auto simp: handleDashboardCosts_def\<close>)

interpretation by_user_endpoint: admin_endpoint handleUsageByUser
  by unfold_locales (use gate_refuses in \<open>auto simp: handleUsageByUser_def\<close>)

interpretation usage_endpoint: admin_endpoint handleCodexUsage
  by unfold_locales (use gate_refuses in \<open>auto simp: handleCodexUsage_def\<close>)

interpretation dashboard_api: admin_endpoint "dash_serve r"
  using requests_endpoint.refuses costs_endpoint.refuses by_user_endpoint.refuses usage_endpoint.refuses
  by unfold_locales (cases r, simp_all add: dash_serve_def)

section \<open>Properties\<close>


text \<open>Logging in and coming back: if the dashboard exchanges a key for a cookie, the key is that of an
  enabled admin, the cookie carries it and cannot be read by scripts, and a later request that presents
  the cookie and no bearer token passes the gate as long as the keys have not changed.\<close>

theorem dashboard_login_roundtrip:
  assumes "do_answer (handleDashboard io st) = Some a" "da_cookie a = Some c"
    and "bearerToken (Header_Get (hi_header io') ''Authorization'') = []" "di_cookie io' = Some (sc_Value c)"
    and "all_entries (reload (di_windows io') (di_decode io') (di_fs io') (di_now1 io') (di_now2 io') (ds_reg (do_state (handleDashboard io st))))
         = all_entries (ds_reg (do_state (handleDashboard io st)))"
  shows "sc_Name c = dashboardCookieName \<and> sc_HttpOnly c \<and> sc_SameSiteStrict c \<and> da_status a = 303 \<and>
    sc_Value c = di_query io ''key'' \<and> dash_status io' (do_state (handleDashboard io st)) = 200"
proof -
  let ?key = "di_query io ''key''"
  let ?reg = "reload (di_windows io) (di_decode io) (di_fs io) (di_now1 io) (di_now2 io) (ds_reg st)"
  have res: "dash_resolve io st ?key = (resolve_entries (all_entries ?reg) ?key, st\<lparr>ds_reg := ?reg\<rparr>)"
    by (simp add: dash_resolve_def resolve_def currentEntries_def Let_def)
  have page: "da_cookie b = None" if "do_answer (requireDashboardAdmin io w (answered_with d) st) = Some b" "da_cookie d = None" for w d b
    using that by (auto simp: requireDashboardAdmin_def Let_def answered_with_def dash_error_def dash_json_def split: if_splits)
  have path: "di_path io = ''/'' \<or> di_path io = ''/dashboard''" and key: "?key \<noteq> []" "enabled (ds_reg st)"
    using assms(1,2) by (auto simp: handleDashboard_def Let_def answered_with_def dest!: page split: if_splits)
  obtain ident where ident: "resolve_entries (all_entries ?reg) ?key = Some ident" "admin ident"
    using assms(1,2) path key
    by (auto simp: handleDashboard_def Let_def res answered_with_def dash_error_def dash_json_def split: option.splits if_splits)
  have out: "handleDashboard io st = answered_with a (st\<lparr>ds_reg := ?reg\<rparr>)" "c = login_cookie io ?key" "da_status a = 303"
    using assms(1,2) path key ident by (auto simp: handleDashboard_def Let_def res answered_with_def)
  have en: "enabled ?reg" using key(2) by (auto simp: enabled_def reload_def Let_def split: sum.splits if_splits option.splits)
  then have "dash_status io' (do_state (handleDashboard io st)) = 200"
    using assms(3-5) out(1,2) ident key(1)
    by (simp add: dash_status_def dashboardAuthStatus_def resolve_def currentEntries_def Let_def answered_with_def login_cookie_def)
  then show ?thesis using out by (simp add: login_cookie_def)
qed

text \<open>A broker with one admin key, an empty history and no accounts.\<close>

definition dash_request :: "string \<Rightarrow> string option \<Rightarrow> dash_io" where
  "dash_request key cookie =
     \<lparr>hi_lib = witness_lib,
      hi_cfg = \<lparr>cfg_promptCacheKey = [], cfg_upstreamOriginator = [], cfg_modelsClientVersion = [], cfg_version = [],
                cfg_upstreamURL = [], cfg_models = [], cfg_modelsURL = [], cfg_alphaSearchURL = []\<rparr>,
      hi_auth = (None, False), hi_log = None, hi_header = [], hi_body = [], hi_bodyErr = None,
      hi_reader = \<lparr>br_zstd = Inl, br_decode = \<lambda>s. Inr (Some [], []), br_next = \<lambda>s. AtEOF, br_quote = id\<rparr>,
      hi_slot = None, hi_failNow = 0,
      hi_dispatch = \<lparr>de_ctxErr = \<lambda>_. False, de_now = \<lambda>_. 1, de_current = \<lambda>_ _. Inl ''expired'', de_ctxErrAuth = \<lambda>_. False,
        de_supportsTier = \<lambda>_ _. True, de_newRequestFails = False, de_do = \<lambda>_ _. Inl ''refused'', de_rlNow = \<lambda>_. 1, de_end = 2\<rparr>,
      hi_cut = \<lambda>s. ([], s, True), hi_write = \<lambda>_. True, hi_now = \<lambda>_. 0,
      ui_usageURL = [], ui_newRequest = \<lambda>_. None, ui_jsonErr = \<lambda>_. [], ui_stamp = [],
      di_windows = False, di_decode = \<lambda>_. None,
      di_fs = \<lambda>_. \<lparr>f_openable = False, f_statable = False, f_regular = False, f_perm = 0, f_readable = False, f_content = [],
                  f_mtime = 0, f_size = 0\<rparr>,
      di_now1 = 1, di_now2 = 1, di_cookie = cookie, di_query = \<lambda>k. if k = ''key'' then key else [], di_path = ''/dashboard'',
      di_method = ''GET'', di_tls = True, di_codec = witness_codec, di_disk = good_disk, di_fileOk = True, di_fileErr = \<lambda>_. [],
      di_quote = id, di_logPath = [], di_now = 1\<rparr>"

definition dash_witness_state :: dash_state where
  "dash_witness_state =
     \<lparr>ds_reg = \<lparr>kr_implicit = Some \<lparr>ck_Name = implicitClientName, ck_Key = ''k1'', ck_Role = roleAdmin, ck_Disabled = False\<rparr>,
        kr_path = [], kr_entries = [], kr_mtime = 0, kr_size = 0, kr_checked = 0, kr_statInterval = 0\<rparr>,
      ds_store = newRequestLogStore 5, ds_pool = \<lparr>accounts = [], active = 0\<rparr>\<rparr>"


theorem dashboard_login_roundtrip_witness:
  "dash_status (dash_request [] (Some ''k1'')) (do_state (handleDashboard (dash_request ''k1'' None) dash_witness_state)) = 200"
proof -
  let ?h = "handleDashboard (dash_request ''k1'' None) dash_witness_state"
  have "\<exists>a c. do_answer ?h = Some a \<and> da_cookie a = Some c \<and> sc_Value c = ''k1''"
  proof -
    have "case do_answer ?h of None \<Rightarrow> False | Some a \<Rightarrow> (case da_cookie a of None \<Rightarrow> False | Some c \<Rightarrow> sc_Value c = ''k1'')" by code_simp
    then show ?thesis by (auto split: option.splits)
  qed
  then obtain a c where ac: "do_answer ?h = Some a" "da_cookie a = Some c" "sc_Value c = ''k1''" by blast
  have path: "kr_path (ds_reg (do_state ?h)) = []" by code_simp
  have b: "bearerToken (Header_Get (hi_header (dash_request [] (Some ''k1''))) ''Authorization'') = []" by code_simp
  have v: "di_cookie (dash_request [] (Some ''k1'')) = Some (sc_Value c)" unfolding ac(3) by (simp add: dash_request_def)
  have "reload w d f n1 n2 (ds_reg (do_state ?h)) = ds_reg (do_state ?h)" for w d f n1 n2
    using path by (simp add: reload_def)
  then show ?thesis using dashboard_login_roundtrip [OF ac(1,2) b v] by simp
qed

end
