(* ===== verification/ImageFormats.thy ===== *)
theory ImageFormats
  imports RequestLog
begin

text \<open>
  Image data, \<^verbatim>\<open>src/images.go\<close>: base64 as the broker writes and checks it, and the recognition of
  uploaded images with the WebP header parser. The parser reads uploaded bytes, so every slice and
  index expression of the source is a checked access whose failure is the outcome \<open>Panic\<close>; that it
  never happens is a theorem. The PNG and JPEG header decoders of the Go library are arguments.
\<close>

section \<open>Definitions\<close>

subsection \<open>Base64\<close>

definition b64_alphabet :: string where
  "b64_alphabet = ''ABCDEFGHIJKLMNOPQRSTUVWXYZabcdefghijklmnopqrstuvwxyz0123456789+/''"

definition b64_char :: "nat \<Rightarrow> char" where
  "b64_char n = b64_alphabet ! n"

definition b64_value :: "char \<Rightarrow> nat option" where
  "b64_value c = (let n = length (takeWhile (\<lambda>x. x \<noteq> c) b64_alphabet) in if n < 64 then Some n else None)"

text \<open>\<open>base64.StdEncoding.EncodeToString\<close>\<close>

fun EncodeToString :: "string \<Rightarrow> string" where
  "EncodeToString [] = []"
| "EncodeToString [a] = [b64_char (byte a div 4), b64_char (byte a mod 4 * 16), CHR ''='', CHR ''='']"
| "EncodeToString [a, b] =
     [b64_char (byte a div 4), b64_char (byte a mod 4 * 16 + byte b div 16), b64_char (byte b mod 16 * 4), CHR ''='']"
| "EncodeToString (a # b # c # s) =
     b64_char (byte a div 4) # b64_char (byte a mod 4 * 16 + byte b div 16) #
     b64_char (byte b mod 16 * 4 + byte c div 64) # b64_char (byte c mod 64) # EncodeToString s"

text \<open>\<open>base64.StdEncoding.Strict().DecodeString\<close>: line breaks are skipped, padding ends the input and
  its unused bits are zero.\<close>

fun decode_quanta :: "string \<Rightarrow> string option" where
  "decode_quanta [] = Some []"
| "decode_quanta (w # x # y # z # s) =
     (case (b64_value w, b64_value x) of
        (Some p, Some q) \<Rightarrow>
          (if y = CHR ''='' then
             (if z = CHR ''='' \<and> s = [] \<and> q mod 16 = 0 then Some [char_of (p * 4 + q div 16)] else None)
           else (case b64_value y of
                   None \<Rightarrow> None
                 | Some r \<Rightarrow>
                     (if z = CHR ''='' then
                        (if s = [] \<and> r mod 4 = 0
                         then Some [char_of (p * 4 + q div 16), char_of (q mod 16 * 16 + r div 4)] else None)
                      else (case (b64_value z, decode_quanta s) of
                              (Some t, Some rest) \<Rightarrow>
                                Some (char_of (p * 4 + q div 16) # char_of (q mod 16 * 16 + r div 4) # char_of (r mod 4 * 64 + t) # rest)
                            | _ \<Rightarrow> None))))
      | _ \<Rightarrow> None)"
| "decode_quanta _ = None"

definition DecodeString :: "string \<Rightarrow> string option" where
  "DecodeString s = decode_quanta (filter (\<lambda>c. c \<noteq> CHR 0x0A \<and> c \<noteq> CHR 0x0D) s)"

definition maxImageBase64Chars :: nat where
  "maxImageBase64Chars = 64 * 1024 * 1024"

datatype image_error =
    PayloadTooLarge | NotCanonical | MalformedBase64

definition validateImageBase64 :: "string \<Rightarrow> image_error option" where
  "validateImageBase64 payload =
     (if length payload > maxImageBase64Chars then Some PayloadTooLarge
      else if payload = [] \<or> payload \<noteq> TrimSpace payload then Some NotCanonical
      else (case DecodeString payload of
              None \<Rightarrow> Some MalformedBase64
            | Some d \<Rightarrow> if EncodeToString d \<noteq> payload then Some MalformedBase64 else None))"

subsection \<open>Recognition\<close>

text \<open>The outcome of code that indexes: a value, an error, or an index out of range.\<close>

datatype 'a outcome = Ok 'a | Err string | Panic

text \<open>\<open>data[i:j]\<close> and \<open>data[i]\<close>\<close>

definition slice :: "string \<Rightarrow> nat \<Rightarrow> nat \<Rightarrow> string outcome" where
  "slice s i j = (if i \<le> j \<and> j \<le> length s then Ok (take (j - i) (drop i s)) else Panic)"

definition byte_at :: "string \<Rightarrow> nat \<Rightarrow> nat outcome" where
  "byte_at s i = (if i < length s then Ok (byte (s ! i)) else Panic)"

definition outcome_bind :: "'a outcome \<Rightarrow> ('a \<Rightarrow> 'b outcome) \<Rightarrow> 'b outcome" where
  "outcome_bind m f = (case m of Ok x \<Rightarrow> f x | Err e \<Rightarrow> Err e | Panic \<Rightarrow> Panic)"

text \<open>\<open>binary.LittleEndian\<close>; both panic on short input.\<close>

definition Uint16 :: "string \<Rightarrow> nat outcome" where
  "Uint16 s = (if length s < 2 then Panic else Ok (byte (s ! 0) + byte (s ! 1) * 256))"

definition Uint32 :: "string \<Rightarrow> nat outcome" where
  "Uint32 s = (if length s < 4 then Panic
     else Ok (byte (s ! 0) + byte (s ! 1) * 256 + byte (s ! 2) * 65536 + byte (s ! 3) * 16777216))"

definition maxWebPChunks :: nat where
  "maxWebPChunks = 256"

type_synonym dims = "nat \<times> nat"

definition vp8x :: "string \<Rightarrow> dims outcome" where
  "vp8x payload =
     (if length payload \<noteq> 10 then Err ''invalid WebP VP8X header''
      else outcome_bind (byte_at payload 0) (\<lambda>flags.
           if flags div 64 \<noteq> 0 \<or> flags mod 2 \<noteq> 0 then Err ''invalid WebP VP8X header''
           else outcome_bind (slice payload 1 4) (\<lambda>reserved.
                if reserved \<noteq> [CHR 0x00, CHR 0x00, CHR 0x00] then Err ''invalid WebP VP8X header''
                else outcome_bind (slice payload 4 7) (\<lambda>w. outcome_bind (slice payload 7 10) (\<lambda>h.
                     Ok (1 + byte (w ! 0) + byte (w ! 1) * 256 + byte (w ! 2) * 65536,
                         1 + byte (h ! 0) + byte (h ! 1) * 256 + byte (h ! 2) * 65536))))))"

definition vp8l :: "string \<Rightarrow> dims \<Rightarrow> dims outcome" where
  "vp8l payload d =
     (if length payload < 5 then Err ''invalid WebP VP8L header''
      else outcome_bind (byte_at payload 0) (\<lambda>sig.
           if sig \<noteq> 0x2f then Err ''invalid WebP VP8L header''
           else outcome_bind (slice payload 1 5) (\<lambda>b. outcome_bind (Uint32 b) (\<lambda>bits.
                if bits div 2 ^ 29 \<noteq> 0 then Err ''unsupported WebP VP8L version''
                else if fst d = 0 then Ok (1 + bits mod 2 ^ 14, 1 + bits div 2 ^ 14 mod 2 ^ 14) else Ok d))))"

definition vp8 :: "string \<Rightarrow> dims \<Rightarrow> dims outcome" where
  "vp8 payload d =
     (if length payload < 10 then Err ''invalid WebP VP8 header''
      else outcome_bind (byte_at payload 0) (\<lambda>frame.
           if frame mod 2 \<noteq> 0 then Err ''invalid WebP VP8 header''
           else outcome_bind (slice payload 3 6) (\<lambda>start.
                if start \<noteq> [CHR 0x9d, CHR 0x01, CHR 0x2a] then Err ''invalid WebP VP8 header''
                else outcome_bind (slice payload 6 8) (\<lambda>ws. outcome_bind (slice payload 8 10) (\<lambda>hs.
                     outcome_bind (Uint16 ws) (\<lambda>w16. outcome_bind (Uint16 hs) (\<lambda>h16.
                       (let frameWidth = w16 mod 2 ^ 14; frameHeight = h16 mod 2 ^ 14
                        in if frameWidth = 0 \<or> frameHeight = 0 then Err ''invalid WebP dimensions''
                           else if fst d = 0 then Ok (frameWidth, frameHeight) else Ok d))))))))"

definition webp_chunk :: "string \<Rightarrow> string \<Rightarrow> dims \<Rightarrow> dims outcome" where
  "webp_chunk chunkType payload d =
     (if chunkType = ''VP8X'' then vp8x payload
      else if chunkType = ''VP8L'' then vp8l payload d
      else if chunkType = ''VP8 '' then vp8 payload d
      else Ok d)"

text \<open>One chunk at \<open>offset\<close>: the dimensions known after it and where the next chunk starts.\<close>

definition webp_step :: "string \<Rightarrow> nat \<Rightarrow> nat \<Rightarrow> dims \<Rightarrow> (dims \<times> nat) outcome" where
  "webp_step data offset chunks d =
     (if chunks \<ge> maxWebPChunks \<or> length data - offset < 8 then Err ''invalid WebP chunk table''
      else outcome_bind (slice data offset (offset + 4)) (\<lambda>chunkType.
           outcome_bind (slice data (offset + 4) (offset + 8)) (\<lambda>size_bytes.
           outcome_bind (Uint32 size_bytes) (\<lambda>chunkSize.
             (let payloadStart = offset + 8; payloadEnd = payloadStart + chunkSize; paddedEnd = payloadEnd + chunkSize mod 2
              in if paddedEnd > length data then Err ''invalid WebP chunk size''
                 else outcome_bind (if chunkSize mod 2 \<noteq> 0 then byte_at data payloadEnd else Ok 0) (\<lambda>pad.
                      if pad \<noteq> 0 then Err ''invalid WebP chunk padding''
                      else outcome_bind (slice data payloadStart payloadEnd) (\<lambda>payload.
                           outcome_bind (webp_chunk chunkType payload d) (\<lambda>d'. Ok (d', paddedEnd)))))))))"

lemma outcome_bind_Ok: "outcome_bind m f = Ok y \<longleftrightarrow> (\<exists>x. m = Ok x \<and> f x = Ok y)"
  by (cases m) (simp_all add: outcome_bind_def)

lemma webp_step_advances: "webp_step data offset chunks d = Ok (d', next) \<Longrightarrow> offset + 8 \<le> next \<and> next \<le> length data"
  by (auto simp: webp_step_def outcome_bind_Ok Let_def split: if_splits)

function webp_loop :: "string \<Rightarrow> nat \<Rightarrow> nat \<Rightarrow> dims \<Rightarrow> dims outcome" where
  "webp_loop data offset chunks d =
     (if offset < length data
      then (case webp_step data offset chunks d of
              Ok (d', next) \<Rightarrow> webp_loop data next (Suc chunks) d'
            | Err e \<Rightarrow> Err e
            | Panic \<Rightarrow> Panic)
      else Ok d)"
  by pat_completeness auto
termination
  by (relation "measure (\<lambda>(data, offset, chunks, d). length data - offset)") (auto dest: webp_step_advances)

declare webp_loop.simps [simp del]

definition webPConfig :: "string \<Rightarrow> dims outcome" where
  "webPConfig data =
     (if length data < 20 then Err ''invalid WebP header''
      else outcome_bind (slice data 0 4) (\<lambda>riff. outcome_bind (slice data 8 12) (\<lambda>webp.
           if riff \<noteq> ''RIFF'' \<or> webp \<noteq> ''WEBP'' then Err ''invalid WebP header''
           else outcome_bind (slice data 4 8) (\<lambda>b. outcome_bind (Uint32 b) (\<lambda>n.
                if n + 8 \<noteq> length data then Err ''invalid WebP RIFF size''
                else outcome_bind (webp_loop data 12 0 (0, 0)) (\<lambda>(width, height).
                     if width > 0 \<and> height > 0 then Ok (width, height)
                     else Err ''WebP image configuration not found''))))))"

definition png_signature :: string where
  "png_signature = [CHR 0x89, CHR ''P'', CHR ''N'', CHR ''G'', CHR 0x0D, CHR 0x0A, CHR 0x1A, CHR 0x0A]"

definition hasPNGSignature :: "string \<Rightarrow> bool" where
  "hasPNGSignature data \<longleftrightarrow> length data \<ge> 8 \<and> take 8 data = png_signature"

text \<open>\<open>png\<close> and \<open>jpeg\<close> are \<open>DecodeConfig\<close> of the image packages: width and height, \<open>None\<close> an error.\<close>

definition decoded_config :: "(string \<Rightarrow> (int \<times> int) option) \<Rightarrow> string \<Rightarrow> string \<Rightarrow> string \<Rightarrow> (string \<times> dims) outcome" where
  "decoded_config decode data mime err =
     (case decode data of
        None \<Rightarrow> Err err
      | Some (w, h) \<Rightarrow> if w \<le> 0 \<or> h \<le> 0 then Err err else Ok (mime, nat w, nat h))"

definition rasterImageConfig ::
    "(string \<Rightarrow> (int \<times> int) option) \<Rightarrow> (string \<Rightarrow> (int \<times> int) option) \<Rightarrow> string \<Rightarrow> (string \<times> dims) outcome" where
  "rasterImageConfig png jpeg data =
     (if hasPNGSignature data then decoded_config png data ''image/png'' ''invalid PNG configuration''
      else if length data \<ge> 3 \<and> take 3 data = [CHR 0xff, CHR 0xd8, CHR 0xff]
      then decoded_config jpeg data ''image/jpeg'' ''invalid JPEG configuration''
      else if length data \<ge> 12 \<and> take 4 data = ''RIFF'' \<and> take 4 (drop 8 data) = ''WEBP''
      then outcome_bind (webPConfig data) (\<lambda>d. Ok (''image/webp'', d))
      else Err ''unsupported raster image'')"

record imageInput =
  im_MIME :: string
  im_Data :: string
  im_Width :: nat
  im_Height :: nat

definition imageDataURL :: "imageInput \<Rightarrow> string" where
  "imageDataURL input = ''data:'' @ im_MIME input @ '';base64,'' @ EncodeToString (im_Data input)"

section \<open>Base64\<close>

lemma index_nth: "distinct xs \<Longrightarrow> n < length xs \<Longrightarrow> length (takeWhile (\<lambda>x. x \<noteq> xs ! n) xs) = n"
proof (induction xs arbitrary: n)
  case (Cons x xs)
  then show ?case by (cases n) auto
qed simp

lemma b64_alphabet_length [simp]: "length b64_alphabet = 64"
  by (simp add: b64_alphabet_def)

lemma b64_alphabet_distinct: "distinct b64_alphabet"
  by (simp add: b64_alphabet_def)

lemma b64_alphabet_visible: "\<forall>c\<in>set b64_alphabet. visible c \<and> c \<noteq> CHR ''=''"
  by (simp add: b64_alphabet_def visible_def)

lemma b64_value_char: "n < 64 \<Longrightarrow> b64_value (b64_char n) = Some n"
  using index_nth [OF b64_alphabet_distinct, of n] by (simp add: b64_value_def b64_char_def)

lemma b64_char_visible: "n < 64 \<Longrightarrow> visible (b64_char n)" "n < 64 \<Longrightarrow> b64_char n \<noteq> CHR ''=''"
  using b64_alphabet_visible nth_mem [of n b64_alphabet] by (auto simp: b64_char_def)

lemma sextet_bounds:
  "byte a div 4 < 64" "byte a mod 4 * 16 < 64" "byte a mod 4 * 16 + byte b div 16 < 64" "byte b mod 16 * 4 < 64"
  "byte b mod 16 * 4 + byte c div 64 < 64" "byte c mod 64 < 64"
  using nat_of_char_less_256 [of a] nat_of_char_less_256 [of b] nat_of_char_less_256 [of c] by linarith+

lemma sextet_bytes:
  "byte b div 16 div 16 = 0" "byte b div 16 mod 16 = byte b div 16" "byte c div 64 div 4 = 0" "byte c div 64 mod 4 = byte c div 64"
proof -
  have "byte b div 16 < 16" "byte c div 64 < 4"
    using nat_of_char_less_256 [of b] nat_of_char_less_256 [of c] by linarith+
  then show "byte b div 16 div 16 = 0" "byte b div 16 mod 16 = byte b div 16" "byte c div 64 div 4 = 0" "byte c div 64 mod 4 = byte c div 64"
    by simp_all
qed

lemmas b64_simps = b64_value_char b64_char_visible sextet_bounds sextet_bytes

lemma decode_encode: "decode_quanta (EncodeToString d) = Some d"
  by (induction d rule: EncodeToString.induct) (simp_all add: b64_simps)

lemma encode_visible: "\<forall>c\<in>set (EncodeToString d). visible c"
proof -
  have "visible CHR ''=''" by (simp add: visible_def)
  then show ?thesis by (induction d rule: EncodeToString.induct) (simp_all add: b64_simps)
qed

lemma encode_Nil_iff [simp]: "EncodeToString d = [] \<longleftrightarrow> d = []"
  by (cases d rule: EncodeToString.cases) simp_all

lemma DecodeString_encode: "DecodeString (EncodeToString d) = Some d"
proof -
  have "\<forall>c\<in>set (EncodeToString d). c \<noteq> CHR 0x0A \<and> c \<noteq> CHR 0x0D"
    using encode_visible [of d] by (auto simp: visible_def)
  then have "filter (\<lambda>c. c \<noteq> CHR 0x0A \<and> c \<noteq> CHR 0x0D) (EncodeToString d) = EncodeToString d"
    by (simp add: filter_id_conv)
  then show ?thesis by (simp add: DecodeString_def decode_encode)
qed

section \<open>No index out of range\<close>

lemma outcome_bind_Panic: "outcome_bind m f \<noteq> Panic \<longleftrightarrow> m \<noteq> Panic \<and> (\<forall>x. m = Ok x \<longrightarrow> f x \<noteq> Panic)"
  by (cases m) (simp_all add: outcome_bind_def)

lemma slice_Ok: "slice s i j = Ok t \<longleftrightarrow> i \<le> j \<and> j \<le> length s \<and> t = take (j - i) (drop i s)"
  by (auto simp: slice_def)

lemma slice_Panic: "slice s i j \<noteq> Panic \<longleftrightarrow> i \<le> j \<and> j \<le> length s"
  by (simp add: slice_def)

lemma byte_at_Panic: "byte_at s i \<noteq> Panic \<longleftrightarrow> i < length s"
  by (simp add: byte_at_def)

lemma uint_Panic: "Uint16 s \<noteq> Panic \<longleftrightarrow> 2 \<le> length s" "Uint32 s \<noteq> Panic \<longleftrightarrow> 4 \<le> length s"
  by (simp_all add: Uint16_def Uint32_def not_less)

lemmas no_panic = outcome_bind_Panic slice_Ok slice_Panic byte_at_Panic uint_Panic

lemma webp_chunk_no_panic: "webp_chunk ty payload d \<noteq> Panic"
proof -
  have "vp8x payload \<noteq> Panic" by (simp add: vp8x_def no_panic)
  moreover have "vp8l payload d \<noteq> Panic" by (auto simp: vp8l_def no_panic)
  moreover have "vp8 payload d \<noteq> Panic" by (auto simp: vp8_def no_panic Let_def)
  ultimately show ?thesis by (simp add: webp_chunk_def)
qed

lemma webp_step_no_panic: "webp_step data offset chunks d \<noteq> Panic"
  using webp_chunk_no_panic by (auto simp: webp_step_def no_panic Let_def)

lemma webp_loop_no_panic: "webp_loop data offset chunks d \<noteq> Panic"
proof (induction data offset chunks d rule: webp_loop.induct)
  case (1 data offset chunks d)
  then show ?case
    using webp_step_no_panic [of data offset chunks d]
    by (subst webp_loop.simps) (auto split: outcome.split)
qed

text \<open>Dimensions fit in 24 bits, as the format has it.\<close>

definition dims_ok :: "dims \<Rightarrow> bool" where
  "dims_ok d \<longleftrightarrow> fst d \<le> 2 ^ 24 \<and> snd d \<le> 2 ^ 24"

lemma three_bytes: "byte a + byte b * 256 + byte c * 65536 \<le> 16777215"
  using nat_of_char_less_256 [of a] nat_of_char_less_256 [of b] nat_of_char_less_256 [of c] by linarith

lemma chunk_dims:
  "vp8x payload = Ok d' \<Longrightarrow> dims_ok d'"
  "vp8l payload d = Ok d' \<Longrightarrow> dims_ok d \<Longrightarrow> dims_ok d'"
  "vp8 payload d = Ok d' \<Longrightarrow> dims_ok d \<Longrightarrow> dims_ok d'"
proof -
  show "vp8x payload = Ok d' \<Longrightarrow> dims_ok d'"
    by (auto simp: vp8x_def outcome_bind_Ok dims_ok_def three_bytes split: if_splits)
  have m: "(n::nat) mod 16384 \<le> 16777215" for n using mod_less_divisor [of 16384 n] by linarith
  have m': "(n::nat) mod 16384 \<le> 16777216" for n using mod_less_divisor [of 16384 n] by linarith
  show "vp8l payload d = Ok d' \<Longrightarrow> dims_ok d \<Longrightarrow> dims_ok d'"
    by (auto simp: vp8l_def outcome_bind_Ok dims_ok_def m split: if_splits)
  show "vp8 payload d = Ok d' \<Longrightarrow> dims_ok d \<Longrightarrow> dims_ok d'"
    by (auto simp: vp8_def outcome_bind_Ok dims_ok_def Let_def m' split: if_splits)
qed

lemma webp_step_dims: "webp_step data offset chunks d = Ok (d', next) \<Longrightarrow> dims_ok d \<Longrightarrow> dims_ok d'"
  by (auto simp: webp_step_def webp_chunk_def outcome_bind_Ok Let_def dest: chunk_dims split: if_splits)

lemma webp_loop_dims: "webp_loop data offset chunks d = Ok d' \<Longrightarrow> dims_ok d \<Longrightarrow> dims_ok d'"
proof (induction data offset chunks d rule: webp_loop.induct)
  case (1 data offset chunks d)
  show ?case
  proof (cases "offset < length data")
    case True
    then obtain e next' where s: "webp_step data offset chunks d = Ok (e, next')" "webp_loop data next' (Suc chunks) e = Ok d'"
      using 1(2) by (subst (asm) webp_loop.simps) (auto split: outcome.splits prod.splits)
    then show ?thesis using 1(1) [OF True s(1) refl] webp_step_dims [OF s(1) 1(3)] by simp
  qed (use 1 in \<open>simp add: webp_loop.simps\<close>)
qed

section \<open>Properties\<close>

text \<open>Image payloads are passed on exactly when they are the canonical base64 of some non-empty data
  within the size limit: no line breaks, no missing or superfluous padding, no stray bits.\<close>

theorem image_payload_canonical:
  "validateImageBase64 payload = None \<longleftrightarrow>
     length payload \<le> maxImageBase64Chars \<and> (\<exists>d. d \<noteq> [] \<and> payload = EncodeToString d)"
proof
  assume "validateImageBase64 payload = None"
  then show "length payload \<le> maxImageBase64Chars \<and> (\<exists>d. d \<noteq> [] \<and> payload = EncodeToString d)"
    by (auto simp: validateImageBase64_def split: if_splits option.splits)
next
  assume "length payload \<le> maxImageBase64Chars \<and> (\<exists>d. d \<noteq> [] \<and> payload = EncodeToString d)"
  then obtain d where d: "length payload \<le> maxImageBase64Chars" "d \<noteq> []" "payload = EncodeToString d" by blast
  have "TrimSpace payload = payload" unfolding d(3) by (rule TrimSpace_visible [OF encode_visible])
  then show "validateImageBase64 payload = None"
    using d by (simp add: validateImageBase64_def DecodeString_encode)
qed

text \<open>The data URL of an uploaded image carries the upload unchanged: what follows the base64 marker
  decodes to exactly its bytes.\<close>

theorem data_url_roundtrip:
  "\<exists>payload. imageDataURL input = ''data:'' @ im_MIME input @ '';base64,'' @ payload \<and>
     DecodeString payload = Some (im_Data input)"
  by (rule exI [of _ "EncodeToString (im_Data input)"]) (simp add: imageDataURL_def DecodeString_encode)

text \<open>C30: No upload makes the image recognition fault: for all bytes the WebP parser stays within the data
  (no slice or index is out of range) and ends, and dimensions it reports are between 1 and 2^24.\<close>

theorem image_recognition_safe:
  "rasterImageConfig png jpeg data \<noteq> Panic \<and> webPConfig data \<noteq> Panic \<and>
   (webPConfig data = Ok (w, h) \<longrightarrow> 1 \<le> w \<and> w \<le> 2 ^ 24 \<and> 1 \<le> h \<and> h \<le> 2 ^ 24)"
proof -
  have np: "webPConfig data \<noteq> Panic"
    using webp_loop_no_panic by (auto simp: webPConfig_def no_panic split: prod.split)
  then have "rasterImageConfig png jpeg data \<noteq> Panic"
    by (auto simp: rasterImageConfig_def decoded_config_def no_panic split: option.split)
  moreover have "webPConfig data = Ok (w, h) \<Longrightarrow> 1 \<le> w \<and> w \<le> 2 ^ 24 \<and> 1 \<le> h \<and> h \<le> 2 ^ 24"
  proof -
    assume "webPConfig data = Ok (w, h)"
    then have l: "webp_loop data 12 0 (0, 0) = Ok (w, h)" "0 < w" "0 < h"
      by (auto simp: webPConfig_def outcome_bind_Ok split: if_splits prod.splits)
    have "dims_ok (0, 0)" by (simp add: dims_ok_def)
    from webp_loop_dims [OF l(1) this] l(2,3) show ?thesis by (simp add: dims_ok_def)
  qed
  ultimately show ?thesis using np by blast
qed

text \<open>A lossless WebP file of 3 by 2 pixels.\<close>

definition tiny_webp :: string where
  "tiny_webp = ''RIFF'' @ [CHR 0x12, CHR 0x00, CHR 0x00, CHR 0x00] @ ''WEBP'' @ ''VP8L'' @ [CHR 0x05, CHR 0x00, CHR 0x00, CHR 0x00] @
     [CHR 0x2f, CHR 0x02, CHR 0x40, CHR 0x00, CHR 0x00] @ [CHR 0x00]"

lemma tiny_webp_dims: "webPConfig tiny_webp = Ok (3, 2)"
  by (simp add: webPConfig_def tiny_webp_def slice_def Uint32_def outcome_bind_def webp_loop.simps webp_step_def
      maxWebPChunks_def byte_at_def webp_chunk_def vp8l_def Let_def)

theorem image_recognition_safe_witness: "webPConfig tiny_webp = Ok (3, 2) \<and> (1::nat) \<le> 3 \<and> (3::nat) \<le> 2 ^ 24"
  using image_recognition_safe [of "\<lambda>_. None" "\<lambda>_. None" tiny_webp 3 2] tiny_webp_dims by simp

end
