(* ===== verification/ImageRequest.thy ===== *)
theory ImageRequest
  imports ImageFormats Broker_Result Headers "HOL-Library.Multiset"
begin

text \<open>
  Requests of the image endpoints, \<^verbatim>\<open>src/images.go\<close>: the JSON body of a generation, the multipart form
  of an edit, and the Responses body the broker sends for either. \<open>quote\<close> is \<open>%q\<close>. A multipart form is
  the sequence of parts the reader yields, each with the bytes it delivers and the error that ends
  them; the loop over the enumerated form fields ranges over a Go map, so its order is an argument.
\<close>

section \<open>Definitions\<close>

definition defaultImageModel :: string where "defaultImageModel = ''gpt-image-2''"
definition imageResponsesModel :: string where "imageResponsesModel = ''gpt-5.6-sol''"
definition imageGenerationInstructions :: string where
  "imageGenerationInstructions = ''You are an image generation assistant.''"
definition maxImageCount :: int where "maxImageCount = 4"
definition maxImageInputBytes :: nat where "maxImageInputBytes = 50 * 1024 * 1024"
definition maxImageMaskBytes :: nat where "maxImageMaskBytes = 4 * 1024 * 1024"
definition maxImageRequestBytes :: int where "maxImageRequestBytes = 128 * 1024 * 1024"
definition maxImageTextFieldBytes :: nat where "maxImageTextFieldBytes = 1024 * 1024"
definition maxImageReferences :: nat where "maxImageReferences = 5"
definition maxPartialImages :: int where "maxPartialImages = 3"

record imageGenerationRequest =
  ig_Model :: string
  ig_Prompt :: string
  ig_Count :: int
  ig_Size :: string
  ig_Quality :: string
  ig_OutputFormat :: string
  ig_Background :: string
  ig_Moderation :: string
  ig_OutputCompression :: "int option"
  ig_Stream :: bool
  ig_PartialImages :: int
  ig_Action :: string
  ig_InputImages :: "imageInput list"
  ig_Mask :: "imageInput option"
  ig_InputFidelity :: string

subsection \<open>Fields\<close>

definition exactJSONInt :: "json \<Rightarrow> int option" where
  "exactJSONInt v = (case v of JNumber s \<Rightarrow> Atoi s | _ \<Rightarrow> None)"

definition exactAnyInt :: "json \<Rightarrow> int option" where
  "exactAnyInt v =
     (case exactJSONInt v of
        Some n \<Rightarrow> Some n
      | None \<Rightarrow>
          (case v of
             JFloat q \<Rightarrow> (let n = int64_of_float (Fin q) in if q \<noteq> of_int n then None else Some n)
           | _ \<Rightarrow> None))"

text \<open>The bounds a size has to keep.\<close>

definition size_allowed :: "int \<Rightarrow> int \<Rightarrow> bool" where
  "size_allowed width height \<longleftrightarrow>
     0 < width \<and> 0 < height \<and> width \<le> 3840 \<and> height \<le> 3840 \<and> width mod 16 = 0 \<and> height mod 16 = 0 \<and>
     max width height \<le> 3 * min width height \<and> 655360 \<le> width * height \<and> width * height \<le> 8294400"

definition check_image_size :: "(string \<Rightarrow> string) \<Rightarrow> string \<Rightarrow> string + string" where
  "check_image_size quote text =
     (if text = ''auto'' then Inr text
      else (case Split CHR ''x'' text of
              [w, h] \<Rightarrow>
                (case (Atoi w, Atoi h) of
                   (Some width, Some height) \<Rightarrow>
                     (if width \<le> 0 \<or> height \<le> 0 \<or> width > 3840 \<or> height > 3840 \<or> width mod 16 \<noteq> 0 \<or> height mod 16 \<noteq> 0
                      then Inl (''unsupported size '' @ quote text)
                      else (let (shortEdge, longEdge) = (if width > height then (height, width) else (width, height));
                                pixels = width * height
                            in if longEdge > 3 * shortEdge \<or> pixels < 655360 \<or> pixels > 8294400
                               then Inl (''unsupported size '' @ quote text) else Inr text))
                 | _ \<Rightarrow> Inl (''unsupported size '' @ quote text))
            | _ \<Rightarrow> Inl (''unsupported size '' @ quote text)))"

definition optionalImageSize :: "(string \<Rightarrow> string) \<Rightarrow> obj \<Rightarrow> string + string" where
  "optionalImageSize quote body =
     (if \<not> ohas body ''size'' then Inr []
      else (case as_str (oget body ''size'') of
              None \<Rightarrow> Inl ''size must be a string''
            | Some text \<Rightarrow> check_image_size quote text))"

definition optionalImageEnum :: "(string \<Rightarrow> string) \<Rightarrow> obj \<Rightarrow> string \<Rightarrow> string list \<Rightarrow> string + string" where
  "optionalImageEnum quote body key allowed =
     (if \<not> ohas body key then Inr []
      else (case as_str (oget body key) of
              None \<Rightarrow> Inl (key @ '' must be a string'')
            | Some text \<Rightarrow> if text \<in> set allowed then Inr text else Inl (''unsupported '' @ key @ '' '' @ quote text)))"

definition image_enum :: "string \<Rightarrow> string list" where
  "image_enum key =
     (if key = ''quality'' then [''auto'', ''low'', ''medium'', ''high'']
      else if key = ''output_format'' then [''png'', ''jpeg'', ''webp'']
      else if key = ''background'' then [''auto'', ''opaque'', ''transparent'']
      else if key = ''moderation'' then [''auto'', ''low'']
      else if key = ''input_fidelity'' then [''low'', ''high''] else [])"

subsection \<open>Generations\<close>

definition int_between :: "obj \<Rightarrow> string \<Rightarrow> int \<Rightarrow> int \<Rightarrow> string \<Rightarrow> string + int option" where
  "int_between body key lo hi err =
     (if \<not> ohas body key then Inr None
      else (case exactJSONInt (oget body key) of
              None \<Rightarrow> Inl err
            | Some n \<Rightarrow> if n < lo \<or> n > hi then Inl err else Inr (Some n)))"

definition image_model_field :: "obj \<Rightarrow> string + string" where
  "image_model_field body =
     (if \<not> ohas body ''model'' then Inr defaultImageModel
      else (case as_str (oget body ''model'') of
              None \<Rightarrow> Inl ''model must be a non-empty string''
            | Some m \<Rightarrow> if TrimSpace m = [] then Inl ''model must be a non-empty string'' else Inr (TrimSpace m)))"

definition image_prompt_field :: "obj \<Rightarrow> string + string" where
  "image_prompt_field body =
     (case as_str (oget body ''prompt'') of
        None \<Rightarrow> Inl ''prompt must be a non-empty string''
      | Some p \<Rightarrow> if TrimSpace p = [] then Inl ''prompt must be a non-empty string'' else Inr p)"

definition image_stream_field :: "obj \<Rightarrow> string + bool" where
  "image_stream_field body =
     (if \<not> ohas body ''stream'' then Inr False
      else (case as_bool (oget body ''stream'') of None \<Rightarrow> Inl ''stream must be a boolean'' | Some b \<Rightarrow> Inr b))"

text \<open>The checks both endpoints end with.\<close>

definition final_checks :: "imageGenerationRequest \<Rightarrow> string + imageGenerationRequest" where
  "final_checks req =
     (if ig_Stream req \<and> ig_Count req \<noteq> 1 then Inl ''streaming image requests require n:1''
      else if ig_Background req = ''transparent'' \<and> ig_OutputFormat req = ''jpeg''
      then Inl ''transparent background requires png or webp output_format''
      else Inr req)"

definition parseImageGenerationRequest :: "(string \<Rightarrow> string) \<Rightarrow> obj \<Rightarrow> string + imageGenerationRequest" where
  "parseImageGenerationRequest quote body =
     bind_ok (image_model_field body) (\<lambda>model.
     bind_ok (image_prompt_field body) (\<lambda>prompt.
     bind_ok (int_between body ''n'' 1 maxImageCount (''n must be an integer between 1 and '' @ Itoa maxImageCount)) (\<lambda>n.
     bind_ok (optionalImageSize quote body) (\<lambda>sz.
     bind_ok (optionalImageEnum quote body ''quality'' (image_enum ''quality'')) (\<lambda>quality.
     bind_ok (optionalImageEnum quote body ''output_format'' (image_enum ''output_format'')) (\<lambda>format.
     bind_ok (optionalImageEnum quote body ''background'' (image_enum ''background'')) (\<lambda>background.
     bind_ok (optionalImageEnum quote body ''moderation'' (image_enum ''moderation'')) (\<lambda>moderation.
     bind_ok (int_between body ''output_compression'' 0 100 ''output_compression must be an integer between 0 and 100'') (\<lambda>compression.
     if ohas body ''user'' \<and> as_str (oget body ''user'') = None then Inl ''user must be a string''
     else bind_ok (image_stream_field body) (\<lambda>stream.
     bind_ok (int_between body ''partial_images'' 0 maxPartialImages
               (''partial_images must be an integer between 0 and '' @ Itoa maxPartialImages)) (\<lambda>partial.
     if partial \<noteq> None \<and> \<not> stream then Inl ''partial_images requires stream:true''
     else final_checks
       \<lparr>ig_Model = model, ig_Prompt = prompt, ig_Count = (case n of Some k \<Rightarrow> k | None \<Rightarrow> 1), ig_Size = sz, ig_Quality = quality,
        ig_OutputFormat = format, ig_Background = background, ig_Moderation = moderation, ig_OutputCompression = compression,
        ig_Stream = stream, ig_PartialImages = (case partial of Some k \<Rightarrow> k | None \<Rightarrow> 0), ig_Action = ''generate'',
        ig_InputImages = [], ig_Mask = None, ig_InputFidelity = []\<rparr>)))))))))))"

subsection \<open>Edits\<close>

text \<open>An error and whether it is \<open>errImageRequestTooLarge\<close> (possibly wrapped).\<close>

type_synonym edit_error = "bool \<times> string"

definition too_large :: edit_error where
  "too_large = (True, ''image request exceeds size limit'')"

datatype read_error = BodyTooLarge | OtherReadError

record form_part =
  fp_name :: string
  fp_bytes :: string
  fp_err :: "read_error option"

text \<open>\<open>io.ReadAll(io.LimitReader(part, n))\<close>: an error is only met if the limit is not reached before.\<close>

definition read_part :: "form_part \<Rightarrow> nat \<Rightarrow> string \<times> read_error option" where
  "read_part p n = (take n (fp_bytes p), if length (fp_bytes p) \<ge> n then None else fp_err p)"

type_synonym image_decoders = "(string \<Rightarrow> (int \<times> int) option) \<times> (string \<Rightarrow> (int \<times> int) option)"

definition readMultipartRaster :: "image_decoders \<Rightarrow> form_part \<Rightarrow> nat \<Rightarrow> bool \<Rightarrow> edit_error + imageInput" where
  "readMultipartRaster dec part maxBytes pngOnly =
     (case read_part part (maxBytes + 1) of
        (data, Some BodyTooLarge) \<Rightarrow> Inl too_large
      | (data, Some OtherReadError) \<Rightarrow> Inl (False, ''could not read uploaded image'')
      | (data, None) \<Rightarrow>
          (if data = [] then Inl (False, if pngOnly then ''mask is empty'' else ''image is empty'')
           else if length data \<ge> maxBytes
           then Inl (False, if pngOnly then ''mask must be smaller than 4 MiB'' else ''image must be smaller than 50 MB'')
           else if pngOnly \<and> \<not> hasPNGSignature data then Inl (False, ''mask must be a PNG image'')
           else (case rasterImageConfig (fst dec) (snd dec) data of
                   Ok (mime, width, height) \<Rightarrow>
                     (if pngOnly \<and> mime \<noteq> ''image/png'' then Inl (False, ''mask must be a PNG image'')
                      else Inr \<lparr>im_MIME = mime, im_Data = data, im_Width = width, im_Height = height\<rparr>)
                 | _ \<Rightarrow> Inl (False, if pngOnly then ''mask must be a structurally valid PNG image''
                                     else ''unsupported image data; expected PNG, JPEG, or WebP''))))"

definition readMultipartImage :: "image_decoders \<Rightarrow> form_part \<Rightarrow> edit_error + imageInput" where
  "readMultipartImage dec part = readMultipartRaster dec part maxImageInputBytes False"

definition readMultipartMask :: "image_decoders \<Rightarrow> form_part \<Rightarrow> edit_error + imageInput" where
  "readMultipartMask dec part = readMultipartRaster dec part maxImageMaskBytes True"

record form_data =
  fd_images :: "imageInput list"
  fd_mask :: "imageInput option"
  fd_fields :: "(string \<times> string) list"

definition wrap_error :: "string \<Rightarrow> edit_error \<Rightarrow> edit_error" where
  "wrap_error name err = (fst err, name @ '': '' @ snd err)"

definition add_part :: "image_decoders \<Rightarrow> form_part \<Rightarrow> form_data \<Rightarrow> edit_error + form_data" where
  "add_part dec part fd =
     (let name = fp_name part
      in if name = ''mask'' then
           (case readMultipartMask dec part of
              Inl err \<Rightarrow> Inl (wrap_error name err)
            | Inr input \<Rightarrow> if fd_mask fd \<noteq> None then Inl (False, ''mask may be provided only once'')
                          else Inr (fd\<lparr>fd_mask := Some input\<rparr>))
         else if name = ''image'' \<or> name = ''image[]'' then
           (case readMultipartImage dec part of
              Inl err \<Rightarrow> Inl (wrap_error name err)
            | Inr input \<Rightarrow>
                (let images = fd_images fd @ [input]
                 in if length images > maxImageReferences
                    then Inl (False, ''at most '' @ itoa maxImageReferences @ '' images may be provided'')
                    else Inr (fd\<lparr>fd_images := images\<rparr>)))
         else (let (val, err) = read_part part (maxImageTextFieldBytes + 1)
               in if err = Some BodyTooLarge then Inl too_large
                  else if err \<noteq> None \<or> length val > maxImageTextFieldBytes then Inl (False, ''field '' @ name @ '' exceeds size limit'')
                  else if name \<noteq> [] then Inr (fd\<lparr>fd_fields := AList.update name val (fd_fields fd)\<rparr>)
                  else Inr fd))"

text \<open>How the sequence of parts ends: \<open>io.EOF\<close>, a body over the limit, or malformed data.\<close>

datatype form_end = FormEOF | FormTooLarge | FormMalformed

fun read_form :: "image_decoders \<Rightarrow> form_part list \<Rightarrow> form_end \<Rightarrow> form_data \<Rightarrow> edit_error + form_data" where
  "read_form dec [] FormEOF fd = Inr fd"
| "read_form dec [] FormTooLarge fd = Inl too_large"
| "read_form dec [] FormMalformed fd = Inl (False, ''malformed multipart request'')"
| "read_form dec (p # ps) e fd = bind_ok (add_part dec p fd) (read_form dec ps e)"

definition parseFormInt :: "string \<Rightarrow> string \<Rightarrow> int \<Rightarrow> int \<Rightarrow> edit_error + int" where
  "parseFormInt val name lo hi =
     (let err = Inl (False, name @ '' must be an integer between '' @ Itoa lo @ '' and '' @ Itoa hi)
      in (case Atoi val of
            None \<Rightarrow> err
          | Some n \<Rightarrow> if Itoa n \<noteq> val \<or> n < lo \<or> n > hi then err else Inr n))"

definition ParseBool :: "string \<Rightarrow> bool option" where
  "ParseBool s =
     (if s \<in> {''1'', ''t'', ''T'', ''TRUE'', ''true'', ''True''} then Some True
      else if s \<in> {''0'', ''f'', ''F'', ''FALSE'', ''false'', ''False''} then Some False else None)"

definition field :: "form_data \<Rightarrow> string \<Rightarrow> string" where
  "field fd key = (case map_of (fd_fields fd) key of Some v \<Rightarrow> v | None \<Rightarrow> [])"

definition plain :: "string + 'a \<Rightarrow> edit_error + 'a" where
  "plain r = (case r of Inl e \<Rightarrow> Inl (False, e) | Inr v \<Rightarrow> Inr v)"

definition set_enum :: "string \<Rightarrow> string \<Rightarrow> imageGenerationRequest \<Rightarrow> imageGenerationRequest" where
  "set_enum key v req =
     (if key = ''quality'' then req\<lparr>ig_Quality := v\<rparr>
      else if key = ''output_format'' then req\<lparr>ig_OutputFormat := v\<rparr>
      else if key = ''background'' then req\<lparr>ig_Background := v\<rparr>
      else if key = ''moderation'' then req\<lparr>ig_Moderation := v\<rparr>
      else if key = ''input_fidelity'' then req\<lparr>ig_InputFidelity := v\<rparr> else req)"

definition edit_enum :: "(string \<Rightarrow> string) \<Rightarrow> form_data \<Rightarrow> string \<Rightarrow> imageGenerationRequest \<Rightarrow> edit_error + imageGenerationRequest" where
  "edit_enum quote fd key req =
     (let v = field fd key
      in if v = [] then Inr req
         else bind_ok (plain (optionalImageEnum quote [(key, JStr v)] key (image_enum key))) (\<lambda>parsed. Inr (set_enum key parsed req)))"

fun edit_enums :: "(string \<Rightarrow> string) \<Rightarrow> form_data \<Rightarrow> string list \<Rightarrow> imageGenerationRequest \<Rightarrow> edit_error + imageGenerationRequest" where
  "edit_enums quote fd [] req = Inr req"
| "edit_enums quote fd (k # ks) req = bind_ok (edit_enum quote fd k req) (edit_enums quote fd ks)"

definition form_int :: "form_data \<Rightarrow> string \<Rightarrow> int \<Rightarrow> int \<Rightarrow> edit_error + int option" where
  "form_int fd key lo hi =
     (if field fd key = [] then Inr None else bind_ok (parseFormInt (field fd key) key lo hi) (\<lambda>n. Inr (Some n)))"

definition edit_defaults :: imageGenerationRequest where
  "edit_defaults =
     \<lparr>ig_Model = defaultImageModel, ig_Prompt = [], ig_Count = 1, ig_Size = ''auto'', ig_Quality = ''auto'', ig_OutputFormat = [],
      ig_Background = ''auto'', ig_Moderation = [], ig_OutputCompression = None, ig_Stream = False, ig_PartialImages = 0,
      ig_Action = ''edit'', ig_InputImages = [], ig_Mask = None, ig_InputFidelity = []\<rparr>"

definition form_stream :: "form_data \<Rightarrow> edit_error + bool" where
  "form_stream fd =
     (if field fd ''stream'' = [] then Inr False
      else (case ParseBool (field fd ''stream'') of None \<Rightarrow> Inl (False, ''stream must be a boolean'') | Some b \<Rightarrow> Inr b))"

definition mask_fits :: "form_data \<Rightarrow> bool" where
  "mask_fits fd =
     (case fd_mask fd of
        None \<Rightarrow> True
      | Some m \<Rightarrow> im_Width m = im_Width (hd (fd_images fd)) \<and> im_Height m = im_Height (hd (fd_images fd)))"

definition edit_request :: "(string \<Rightarrow> string) \<Rightarrow> string list \<Rightarrow> form_data \<Rightarrow> edit_error + imageGenerationRequest" where
  "edit_request quote order fd =
     (if fd_images fd = [] then Inl (False, ''at least one image or image[] file is required'')
      else if \<not> mask_fits fd then Inl (False, ''mask dimensions must match the first input image'')
      else if TrimSpace (field fd ''prompt'') = [] then Inl (False, ''prompt must be a non-empty string'')
      else (let model = TrimSpace (field fd ''model'');
                req0 = edit_defaults\<lparr>ig_InputImages := fd_images fd, ig_Mask := fd_mask fd, ig_Prompt := field fd ''prompt'',
                                     ig_Model := (if model \<noteq> [] then model else defaultImageModel)\<rparr>
            in bind_ok (form_int fd ''n'' 1 maxImageCount) (\<lambda>n.
               bind_ok (if field fd ''size'' = [] then Inr ''auto'' else plain (optionalImageSize quote [(''size'', JStr (field fd ''size''))])) (\<lambda>sz.
               bind_ok (edit_enums quote fd order (req0\<lparr>ig_Count := (case n of Some k \<Rightarrow> k | None \<Rightarrow> 1), ig_Size := sz\<rparr>)) (\<lambda>req1.
               bind_ok (form_int fd ''output_compression'' 0 100) (\<lambda>compression.
               bind_ok (form_stream fd) (\<lambda>stream.
               bind_ok (form_int fd ''partial_images'' 0 maxPartialImages) (\<lambda>partial.
               if partial \<noteq> None \<and> \<not> stream then Inl (False, ''partial_images requires stream:true'')
               else plain (final_checks (req1\<lparr>ig_OutputCompression := compression, ig_Stream := stream,
                      ig_PartialImages := (case partial of Some k \<Rightarrow> k | None \<Rightarrow> 0)\<rparr>))))))))))"

text \<open>\<open>boundary\<close> is the boundary of a well-formed multipart/form-data media type.\<close>

definition parseImageEditRequest ::
    "(string \<Rightarrow> string) \<Rightarrow> image_decoders \<Rightarrow> string list \<Rightarrow> int \<Rightarrow> string option \<Rightarrow> form_part list \<Rightarrow> form_end \<Rightarrow>
     edit_error + imageGenerationRequest" where
  "parseImageEditRequest quote dec order contentLength boundary parts fin =
     (if contentLength > maxImageRequestBytes then Inl too_large
      else if boundary = None \<or> boundary = Some [] then Inl (False, ''Content-Type must be multipart/form-data with a boundary'')
      else bind_ok (read_form dec parts fin \<lparr>fd_images = [], fd_mask = None, fd_fields = []\<rparr>) (edit_request quote order))"

subsection \<open>The upstream request\<close>

definition imageBackingModel :: "string \<Rightarrow> string" where
  "imageBackingModel configured = valueOr (TrimSpace configured) imageResponsesModel"

definition image_tool :: "imageGenerationRequest \<Rightarrow> obj" where
  "image_tool req =
     [(''type'', JStr ''image_generation''), (''model'', JStr (ig_Model req))] @
     (if ig_Action req = ''edit'' then [(''action'', JStr ''edit'')] else []) @
     map (\<lambda>(k, v). (k, JStr v)) (filter (\<lambda>(k, v). v \<noteq> [])
       [(''size'', ig_Size req), (''quality'', ig_Quality req), (''output_format'', ig_OutputFormat req),
        (''background'', ig_Background req), (''moderation'', ig_Moderation req)]) @
     (case ig_OutputCompression req of
        Some c \<Rightarrow> if ig_OutputFormat req = ''jpeg'' \<or> ig_OutputFormat req = ''webp'' then [(''output_compression'', JInt c)] else []
      | None \<Rightarrow> []) @
     (if ig_PartialImages req > 0 then [(''partial_images'', JInt (ig_PartialImages req))] else []) @
     (if ig_InputFidelity req \<noteq> [] \<and> ig_Model req \<noteq> defaultImageModel then [(''input_fidelity'', JStr (ig_InputFidelity req))] else []) @
     (case ig_Mask req of Some m \<Rightarrow> [(''input_image_mask'', JObj [(''image_url'', JStr (imageDataURL m))])] | None \<Rightarrow> [])"

definition buildImageResponsesBody :: "string \<Rightarrow> imageGenerationRequest \<Rightarrow> obj" where
  "buildImageResponsesBody configured req =
     (let content = JObj [(''type'', JStr ''input_text''), (''text'', JStr (ig_Prompt req))] #
            map (\<lambda>image. JObj [(''type'', JStr ''input_image''), (''image_url'', JStr (imageDataURL image))]) (ig_InputImages req)
      in [(''model'', JStr (imageBackingModel configured)),
          (''instructions'', JStr imageGenerationInstructions),
          (''input'', JArr [JObj [(''role'', JStr ''user''), (''content'', JArr content)]]),
          (''tools'', JArr [JObj (image_tool req)]),
          (''tool_choice'', JObj [(''type'', JStr ''image_generation'')]),
          (''stream'', JBool True),
          (''store'', JBool False)])"

definition Header_Del :: "header \<Rightarrow> string \<Rightarrow> header" where
  "Header_Del h key = AList.delete (CanonicalHeaderKey key) h"

definition image_id_step :: "string \<Rightarrow> string \<times> header \<Rightarrow> string \<times> header" where
  "image_id_step key st =
     ((if fst st = [] then TrimSpace (Header_Get (snd st) key) else fst st), Header_Del (snd st) key)"

definition imageUpstreamRequest :: "header \<Rightarrow> nat \<Rightarrow> header" where
  "imageUpstreamRequest r index =
     (let (requestID, h) = fold image_id_step [''x-client-request-id'', ''x-request-id'', ''session_id''] ([], r)
      in if requestID \<noteq> [] then Header_Set h ''x-client-request-id'' (requestID @ ''-image-'' @ itoa (index + 1)) else h)"

section \<open>Well-formed requests\<close>

definition size_ok :: "string \<Rightarrow> bool" where
  "size_ok text \<longleftrightarrow> text = ''auto'' \<or>
     (\<exists>w h width height. text = w @ ''x'' @ h \<and> Atoi w = Some width \<and> Atoi h = Some height \<and> size_allowed width height)"

definition image_request_ok :: "imageGenerationRequest \<Rightarrow> bool" where
  "image_request_ok req \<longleftrightarrow>
     ig_Model req \<noteq> [] \<and> TrimSpace (ig_Prompt req) \<noteq> [] \<and>
     1 \<le> ig_Count req \<and> ig_Count req \<le> maxImageCount \<and> (ig_Stream req \<longrightarrow> ig_Count req = 1) \<and>
     0 \<le> ig_PartialImages req \<and> ig_PartialImages req \<le> maxPartialImages \<and> (0 < ig_PartialImages req \<longrightarrow> ig_Stream req) \<and>
     (\<forall>c. ig_OutputCompression req = Some c \<longrightarrow> 0 \<le> c \<and> c \<le> 100) \<and>
     (ig_Size req = [] \<or> size_ok (ig_Size req)) \<and>
     ig_Quality req \<in> insert [] (set (image_enum ''quality'')) \<and>
     ig_OutputFormat req \<in> insert [] (set (image_enum ''output_format'')) \<and>
     ig_Background req \<in> insert [] (set (image_enum ''background'')) \<and>
     ig_Moderation req \<in> insert [] (set (image_enum ''moderation'')) \<and>
     ig_InputFidelity req \<in> insert [] (set (image_enum ''input_fidelity'')) \<and>
     \<not> (ig_Background req = ''transparent'' \<and> ig_OutputFormat req = ''jpeg'')"

lemma Split_two: "Split sep t = [w, h] \<Longrightarrow> t = w @ sep # h"
proof (induction t arbitrary: w)
  case (Cons c t)
  show ?case
  proof (cases "c = sep")
    case True
    then have "w = []" "Split sep t = [h]" using Cons.prems by auto
    moreover have "Split sep t = [h] \<Longrightarrow> t = h"
    proof (induction t arbitrary: h)
      case (Cons c t)
      then show ?case by (cases "c = sep") (auto split: list.splits)
    qed simp
    ultimately show ?thesis using True by simp
  next
    case False
    then show ?thesis using Cons by (auto split: list.splits)
  qed
qed simp

lemma check_image_size_ok: "check_image_size quote text = Inr sz \<Longrightarrow> sz = text \<and> size_ok text"
proof (cases "text = ''auto''")
  case False
  assume ok: "check_image_size quote text = Inr sz"
  obtain w h where s: "Split CHR ''x'' text = [w, h]"
    using ok False by (auto simp: check_image_size_def split: list.splits)
  obtain width height where a: "Atoi w = Some width" "Atoi h = Some height"
    using ok False s by (auto simp: check_image_size_def split: option.splits)
  have "sz = text \<and> size_allowed width height"
    using ok False s a by (auto simp: check_image_size_def size_allowed_def Let_def max_def min_def split: if_splits)
  moreover have "text = w @ ''x'' @ h" using Split_two [OF s] by simp
  ultimately show ?thesis using a unfolding size_ok_def by blast
qed (simp add: check_image_size_def size_ok_def)

lemma optionalImageSize_ok: "optionalImageSize quote body = Inr sz \<Longrightarrow> sz = [] \<or> size_ok sz"
  by (auto simp: optionalImageSize_def dest: check_image_size_ok split: if_splits option.splits)

lemma optionalImageEnum_ok: "optionalImageEnum quote body key allowed = Inr v \<Longrightarrow> v \<in> insert [] (set allowed)"
  by (auto simp: optionalImageEnum_def split: if_splits option.splits)

lemma int_between_ok: "int_between body key lo hi err = Inr n \<Longrightarrow> n = None \<or> (\<exists>k. n = Some k \<and> lo \<le> k \<and> k \<le> hi)"
  by (auto simp: int_between_def split: if_splits option.splits)

lemma image_field_ok:
  "image_model_field body = Inr m \<Longrightarrow> m \<noteq> []"
  "image_prompt_field body = Inr p \<Longrightarrow> TrimSpace p \<noteq> []"
  by (auto simp: image_model_field_def image_prompt_field_def defaultImageModel_def split: if_splits option.splits)

lemma final_checks_ok:
  "final_checks req = Inr r \<longleftrightarrow> r = req \<and> (ig_Stream req \<longrightarrow> ig_Count req = 1) \<and>
     \<not> (ig_Background req = ''transparent'' \<and> ig_OutputFormat req = ''jpeg'')"
  by (auto simp: final_checks_def)

lemma generation_request_ok:
  assumes "parseImageGenerationRequest quote body = Inr req"
  shows "image_request_ok req \<and> ig_InputImages req = [] \<and> ig_Mask req = None"
proof -
  obtain model prompt n sz quality fmt background moderation compression stream partial where
    f: "image_model_field body = Inr model" "image_prompt_field body = Inr prompt"
      "int_between body ''n'' 1 maxImageCount (''n must be an integer between 1 and '' @ Itoa maxImageCount) = Inr n"
      "optionalImageSize quote body = Inr sz" "optionalImageEnum quote body ''quality'' (image_enum ''quality'') = Inr quality"
      "optionalImageEnum quote body ''output_format'' (image_enum ''output_format'') = Inr fmt"
      "optionalImageEnum quote body ''background'' (image_enum ''background'') = Inr background"
      "optionalImageEnum quote body ''moderation'' (image_enum ''moderation'') = Inr moderation"
      "int_between body ''output_compression'' 0 100 ''output_compression must be an integer between 0 and 100'' = Inr compression"
      "image_stream_field body = Inr stream"
      "int_between body ''partial_images'' 0 maxPartialImages (''partial_images must be an integer between 0 and '' @ Itoa maxPartialImages) = Inr partial"
      "\<not> (partial \<noteq> None \<and> \<not> stream)"
      "final_checks \<lparr>ig_Model = model, ig_Prompt = prompt, ig_Count = (case n of Some k \<Rightarrow> k | None \<Rightarrow> 1), ig_Size = sz, ig_Quality = quality,
        ig_OutputFormat = fmt, ig_Background = background, ig_Moderation = moderation, ig_OutputCompression = compression,
        ig_Stream = stream, ig_PartialImages = (case partial of Some k \<Rightarrow> k | None \<Rightarrow> 0), ig_Action = ''generate'',
        ig_InputImages = [], ig_Mask = None, ig_InputFidelity = []\<rparr> = Inr req"
    using assms unfolding parseImageGenerationRequest_def bind_ok_Inr if_Inl_Inr by blast
  note ints = int_between_ok [OF f(3)] int_between_ok [OF f(9)] int_between_ok [OF f(11)]
  show ?thesis
    using f(12,13) ints image_field_ok(1) [OF f(1)] image_field_ok(2) [OF f(2)] optionalImageSize_ok [OF f(4)]
      f(5-8) [THEN optionalImageEnum_ok]
    by (auto simp: image_request_ok_def final_checks_ok maxImageCount_def maxPartialImages_def split: option.splits)
qed

subsection \<open>Forms\<close>

definition input_ok :: "nat \<Rightarrow> imageInput \<Rightarrow> bool" where
  "input_ok mx i \<longleftrightarrow> im_Data i \<noteq> [] \<and> length (im_Data i) < mx \<and> 0 < im_Width i \<and> 0 < im_Height i \<and>
     im_MIME i \<in> {''image/png'', ''image/jpeg'', ''image/webp''}"

lemma decoded_config_ok: "decoded_config dec data mime err = Ok (m, w, h) \<Longrightarrow> m = mime \<and> 0 < w \<and> 0 < h"
  by (auto simp: decoded_config_def split: option.splits prod.splits if_splits)

lemma rasterImageConfig_ok:
  "rasterImageConfig png jpeg data = Ok (mime, w, h) \<Longrightarrow> 0 < w \<and> 0 < h \<and> mime \<in> {''image/png'', ''image/jpeg'', ''image/webp''}"
  by (auto simp: rasterImageConfig_def webPConfig_def outcome_bind_Ok dest: decoded_config_ok split: if_splits prod.splits)

lemma raster_ok: "readMultipartRaster dec part mx png = Inr i \<Longrightarrow> input_ok mx i"
  by (auto simp: readMultipartRaster_def input_ok_def dest!: rasterImageConfig_ok
      split: prod.splits option.splits read_error.splits if_splits outcome.splits)

definition form_ok :: "form_data \<Rightarrow> bool" where
  "form_ok fd \<longleftrightarrow> length (fd_images fd) \<le> maxImageReferences \<and> (\<forall>i\<in>set (fd_images fd). input_ok maxImageInputBytes i) \<and>
     (\<forall>m. fd_mask fd = Some m \<longrightarrow> input_ok maxImageMaskBytes m)"

lemma add_part_ok: "add_part dec p fd = Inr fd' \<Longrightarrow> form_ok fd \<Longrightarrow> form_ok fd'"
  by (auto simp: add_part_def form_ok_def Let_def readMultipartMask_def readMultipartImage_def dest: raster_ok
      split: if_splits sum.splits prod.splits)

lemma read_form_ok: "read_form dec ps e fd = Inr fd' \<Longrightarrow> form_ok fd \<Longrightarrow> form_ok fd'"
proof (induction dec ps e fd rule: read_form.induct)
  case (4 dec p ps e fd)
  then show ?case by (auto simp: bind_ok_Inr dest: add_part_ok)
qed simp_all

definition enums_ok :: "imageGenerationRequest \<Rightarrow> bool" where
  "enums_ok req \<longleftrightarrow>
     ig_Quality req \<in> insert [] (set (image_enum ''quality'')) \<and>
     ig_OutputFormat req \<in> insert [] (set (image_enum ''output_format'')) \<and>
     ig_Background req \<in> insert [] (set (image_enum ''background'')) \<and>
     ig_Moderation req \<in> insert [] (set (image_enum ''moderation'')) \<and>
     ig_InputFidelity req \<in> insert [] (set (image_enum ''input_fidelity''))"

text \<open>What one round of the loop over the enumerated fields does.\<close>

definition apply_enum :: "form_data \<Rightarrow> string \<Rightarrow> imageGenerationRequest \<Rightarrow> imageGenerationRequest" where
  "apply_enum fd key req = (if field fd key = [] then req else set_enum key (field fd key) req)"

definition enum_valid :: "form_data \<Rightarrow> string \<Rightarrow> bool" where
  "enum_valid fd key \<longleftrightarrow> field fd key = [] \<or> field fd key \<in> set (image_enum key)"

lemma edit_enum_Inr: "edit_enum quote fd key req = Inr r \<longleftrightarrow> enum_valid fd key \<and> r = apply_enum fd key req"
  by (auto simp: edit_enum_def apply_enum_def enum_valid_def plain_def optionalImageEnum_def ohas_def oget_def as_str_def Let_def)

lemma edit_enums_Inr:
  "edit_enums quote fd ks req = Inr r \<longleftrightarrow> (\<forall>k\<in>set ks. enum_valid fd k) \<and> r = fold (apply_enum fd) ks req"
  by (induction ks arbitrary: req) (auto simp: bind_ok_Inr edit_enum_Inr)

lemma set_enum_simps:
  "set_enum ''quality'' v = ig_Quality_update (\<lambda>_. v)" "set_enum ''output_format'' v = ig_OutputFormat_update (\<lambda>_. v)"
  "set_enum ''background'' v = ig_Background_update (\<lambda>_. v)" "set_enum ''moderation'' v = ig_Moderation_update (\<lambda>_. v)"
  "set_enum ''input_fidelity'' v = ig_InputFidelity_update (\<lambda>_. v)"
  by (rule ext, simp add: set_enum_def)+

definition enum_keys :: "string set" where
  "enum_keys = {''quality'', ''output_format'', ''background'', ''moderation'', ''input_fidelity''}"

lemma set_enum_other: "k \<notin> enum_keys \<Longrightarrow> set_enum k v r = r"
  by (simp add: enum_keys_def set_enum_def)

lemma set_enum_commute: "x \<noteq> y \<Longrightarrow> set_enum x v (set_enum y w r) = set_enum y w (set_enum x v r)"
proof (cases "x \<in> enum_keys \<and> y \<in> enum_keys")
  case True
  then have "x \<in> enum_keys" "y \<in> enum_keys" by simp_all
  then show "x \<noteq> y \<Longrightarrow> set_enum x v (set_enum y w r) = set_enum y w (set_enum x v r)"
    unfolding enum_keys_def by (elim insertE emptyE) (simp_all only: set_enum_simps, simp_all)
qed (auto simp: set_enum_other)

lemma set_enum_ok:
  assumes "v \<in> set (image_enum k)" "enums_ok req"
  shows "enums_ok (set_enum k v req)"
proof (cases "k \<in> enum_keys")
  case True
  then show ?thesis
    using assms unfolding enum_keys_def by (elim insertE emptyE) (simp_all add: set_enum_simps enums_ok_def)
qed (use assms in \<open>simp add: set_enum_other\<close>)

lemma set_enum_rest:
  "ig_Model (set_enum k v req) = ig_Model req" "ig_Prompt (set_enum k v req) = ig_Prompt req"
  "ig_Count (set_enum k v req) = ig_Count req" "ig_Size (set_enum k v req) = ig_Size req"
  "ig_InputImages (set_enum k v req) = ig_InputImages req" "ig_Mask (set_enum k v req) = ig_Mask req"
  "ig_Action (set_enum k v req) = ig_Action req"
  by (simp_all add: set_enum_def)

lemma apply_enum_commute: "apply_enum fd x \<circ> apply_enum fd y = apply_enum fd y \<circ> apply_enum fd x"
  by (cases "x = y") (simp_all add: fun_eq_iff apply_enum_def set_enum_commute)

lemma edit_enums_order:
  assumes "mset ks = mset ks'"
  shows "edit_enums quote fd ks req = Inr r \<longleftrightarrow> edit_enums quote fd ks' req = Inr r"
proof -
  have "fold (apply_enum fd) ks = fold (apply_enum fd) ks'"
    by (rule fold_multiset_equiv [OF apply_enum_commute assms])
  then show ?thesis using mset_eq_setD [OF assms] by (simp add: edit_enums_Inr)
qed

text \<open>Everything but the five enumerated fields.\<close>

definition same_rest :: "imageGenerationRequest \<Rightarrow> imageGenerationRequest \<Rightarrow> bool" where
  "same_rest a b \<longleftrightarrow> ig_Model a = ig_Model b \<and> ig_Prompt a = ig_Prompt b \<and> ig_Count a = ig_Count b \<and> ig_Size a = ig_Size b \<and>
     ig_InputImages a = ig_InputImages b \<and> ig_Mask a = ig_Mask b \<and> ig_Action a = ig_Action b"

lemma apply_enum_ok:
  "enum_valid fd k \<Longrightarrow> enums_ok req \<Longrightarrow> enums_ok (apply_enum fd k req)"
  "same_rest (apply_enum fd k req) req"
  by (auto simp: apply_enum_def enum_valid_def set_enum_ok same_rest_def set_enum_rest)

lemma fold_apply_enum:
  "(\<forall>k\<in>set ks. enum_valid fd k) \<Longrightarrow> enums_ok req \<Longrightarrow> enums_ok (fold (apply_enum fd) ks req)"
  "same_rest (fold (apply_enum fd) ks req) req"
proof (induction ks arbitrary: req)
  case (Cons k ks)
  {
    case 1
    then show ?case using Cons.IH(1) apply_enum_ok(1) by simp
  next
    case 2
    then show ?case using Cons.IH(2) [of "apply_enum fd k req"] apply_enum_ok(2) [of fd k req] by (simp add: same_rest_def)
  }
qed (simp_all add: same_rest_def)

lemma form_int_ok: "form_int fd key lo hi = Inr n \<Longrightarrow> n = None \<or> (\<exists>k. n = Some k \<and> lo \<le> k \<and> k \<le> hi)"
  by (auto simp: form_int_def parseFormInt_def bind_ok_Inr Let_def split: if_splits option.splits)

lemma plain_Inr [simp]: "plain r = Inr v \<longleftrightarrow> r = Inr v"
  by (cases r) (simp_all add: plain_def)

lemma edit_request_ok:
  assumes "edit_request quote order fd = Inr req" "form_ok fd"
  shows "image_request_ok req \<and> ig_InputImages req = fd_images fd \<and> ig_Mask req = fd_mask fd \<and> fd_images fd \<noteq> [] \<and> mask_fits fd"
proof -
  let ?model = "TrimSpace (field fd ''model'')"
  let ?req0 = "edit_defaults\<lparr>ig_InputImages := fd_images fd, ig_Mask := fd_mask fd, ig_Prompt := field fd ''prompt'',
     ig_Model := (if ?model \<noteq> [] then ?model else defaultImageModel)\<rparr>"
  have pre: "fd_images fd \<noteq> []" "mask_fits fd" "TrimSpace (field fd ''prompt'') \<noteq> []"
    using assms(1) by (auto simp: edit_request_def split: if_splits)
  obtain n sz req1 compression stream partial where
    f: "form_int fd ''n'' 1 maxImageCount = Inr n"
      "(if field fd ''size'' = [] then Inr ''auto'' else plain (optionalImageSize quote [(''size'', JStr (field fd ''size''))])) = Inr sz"
      "edit_enums quote fd order (?req0\<lparr>ig_Count := (case n of Some k \<Rightarrow> k | None \<Rightarrow> 1), ig_Size := sz\<rparr>) = Inr req1"
      "form_int fd ''output_compression'' 0 100 = Inr compression" "form_stream fd = Inr stream"
      "form_int fd ''partial_images'' 0 maxPartialImages = Inr partial" "\<not> (partial \<noteq> None \<and> \<not> stream)"
      "final_checks (req1\<lparr>ig_OutputCompression := compression, ig_Stream := stream,
         ig_PartialImages := (case partial of Some k \<Rightarrow> k | None \<Rightarrow> 0)\<rparr>) = Inr req"
    using assms(1) pre unfolding edit_request_def Let_def
    by (simp only: if_False bind_ok_Inr if_Inl_Inr plain_Inr) blast
  have sz: "sz = [] \<or> size_ok sz"
    using f(2) optionalImageSize_ok by (auto simp: size_ok_def split: if_splits)
  have e0: "enums_ok (?req0\<lparr>ig_Count := (case n of Some k \<Rightarrow> k | None \<Rightarrow> 1), ig_Size := sz\<rparr>)"
    by (simp add: enums_ok_def edit_defaults_def image_enum_def)
  have r1: "enums_ok req1" "same_rest req1 (?req0\<lparr>ig_Count := (case n of Some k \<Rightarrow> k | None \<Rightarrow> 1), ig_Size := sz\<rparr>)"
    using f(3) fold_apply_enum(1) [OF _ e0] fold_apply_enum(2) by (auto simp: edit_enums_Inr)
  have n: "1 \<le> ig_Count req1" "ig_Count req1 \<le> maxImageCount"
    using r1(2) form_int_ok [OF f(1)] by (auto simp: same_rest_def maxImageCount_def)
  have r: "req = req1\<lparr>ig_OutputCompression := compression, ig_Stream := stream,
         ig_PartialImages := (case partial of Some k \<Rightarrow> k | None \<Rightarrow> 0)\<rparr>"
      "stream \<longrightarrow> ig_Count req1 = 1" "\<not> (ig_Background req1 = ''transparent'' \<and> ig_OutputFormat req1 = ''jpeg'')"
    using f(8) by (auto simp: final_checks_ok)
  have rest: "ig_Model req1 \<noteq> []" "ig_Prompt req1 = field fd ''prompt''" "ig_Size req1 = sz"
      "ig_InputImages req1 = fd_images fd" "ig_Mask req1 = fd_mask fd"
    using r1(2) by (simp_all add: same_rest_def defaultImageModel_def)
  have partial: "0 \<le> (case partial of Some k \<Rightarrow> k | None \<Rightarrow> 0) \<and> (case partial of Some k \<Rightarrow> k | None \<Rightarrow> 0) \<le> maxPartialImages \<and>
      (0 < (case partial of Some k \<Rightarrow> k | None \<Rightarrow> 0) \<longrightarrow> stream)"
    using form_int_ok [OF f(6)] f(7) by (auto simp: maxPartialImages_def)
  have "\<forall>c. compression = Some c \<longrightarrow> 0 \<le> c \<and> c \<le> 100" using form_int_ok [OF f(4)] by auto
  then have "image_request_ok req"
    using r1(1) r(2,3) n sz pre(3) partial rest unfolding image_request_ok_def r(1) enums_ok_def by simp
  then show ?thesis using pre(1,2) rest r(1) by simp
qed

section \<open>Properties\<close>

text \<open>Every image request that a parser accepts is well formed: one to four images, exactly one when
  streaming; partial images only when streaming and at most three; compression within 0 to 100; each
  enumerated option one of its values or unset; a size that is \<open>auto\<close> or within the supported bounds; no
  transparent JPEG; a prompt that is not blank. An edit has one to five images, each non-empty, below
  50 MiB, of a recognised type and with positive dimensions, and its mask, if any, is below 4 MiB and
  has the dimensions of the first image.\<close>

theorem image_requests_well_formed:
  "(parseImageGenerationRequest quote body = Inr req \<longrightarrow> image_request_ok req \<and> ig_InputImages req = []) \<and>
   (parseImageEditRequest quote dec order len boundary parts fin = Inr req \<longrightarrow>
      image_request_ok req \<and> ig_InputImages req \<noteq> [] \<and> length (ig_InputImages req) \<le> maxImageReferences \<and>
      (\<forall>i\<in>set (ig_InputImages req). input_ok maxImageInputBytes i) \<and>
      (\<forall>m. ig_Mask req = Some m \<longrightarrow> input_ok maxImageMaskBytes m \<and>
         im_Width m = im_Width (hd (ig_InputImages req)) \<and> im_Height m = im_Height (hd (ig_InputImages req))))"
proof (intro conjI impI)
  assume "parseImageGenerationRequest quote body = Inr req"
  from generation_request_ok [OF this] show "image_request_ok req" "ig_InputImages req = []" by simp_all
next
  assume "parseImageEditRequest quote dec order len boundary parts fin = Inr req"
  then obtain fd where fd: "read_form dec parts fin \<lparr>fd_images = [], fd_mask = None, fd_fields = []\<rparr> = Inr fd"
      "edit_request quote order fd = Inr req"
    by (auto simp: parseImageEditRequest_def bind_ok_Inr split: if_splits)
  have ok: "form_ok fd" using read_form_ok [OF fd(1)] by (simp add: form_ok_def)
  note e = edit_request_ok [OF fd(2) ok]
  show "image_request_ok req" "ig_InputImages req \<noteq> []" using e by simp_all
  show "length (ig_InputImages req) \<le> maxImageReferences" "\<forall>i\<in>set (ig_InputImages req). input_ok maxImageInputBytes i"
    using e ok by (simp_all add: form_ok_def)
  show "\<forall>m. ig_Mask req = Some m \<longrightarrow> input_ok maxImageMaskBytes m \<and>
      im_Width m = im_Width (hd (ig_InputImages req)) \<and> im_Height m = im_Height (hd (ig_InputImages req))"
    using e ok by (auto simp: form_ok_def mask_fits_def)
qed

theorem image_requests_well_formed_witness:
  "\<exists>req. parseImageGenerationRequest id [(''prompt'', JStr ''cat''), (''n'', JNumber ''2''), (''size'', JStr ''auto'')] = Inr req \<and>
     image_request_ok req"
proof -
  let ?b = "[(''prompt'', JStr ''cat''), (''n'', JNumber ''2''), (''size'', JStr ''auto'')]"
  have "case parseImageGenerationRequest id ?b of Inl _ \<Rightarrow> False | Inr _ \<Rightarrow> True" by code_simp
  then obtain req where r: "parseImageGenerationRequest id ?b = Inr req" by (auto split: sum.splits)
  then show ?thesis
    using image_requests_well_formed [of id ?b req "(\<lambda>_. None, \<lambda>_. None)" "[]" 0 None "[]" FormEOF] by blast
qed

text \<open>Which edit requests are accepted, and what they become, does not depend on the order in which the
  code ranges over its map of enumerated fields; only the error of a rejected form does.\<close>

theorem image_edit_order_irrelevant:
  assumes "mset order = mset order'"
  shows "parseImageEditRequest quote dec order len boundary parts fin = Inr req \<longleftrightarrow>
    parseImageEditRequest quote dec order' len boundary parts fin = Inr req"
proof -
  have "edit_request quote order fd = Inr req \<longleftrightarrow> edit_request quote order' fd = Inr req" for fd
    unfolding edit_request_def Let_def by (simp add: bind_ok_Inr if_Inl_Inr edit_enums_order [OF assms])
  then show ?thesis by (simp add: parseImageEditRequest_def bind_ok_Inr)
qed

theorem image_edit_order_irrelevant_witness:
  "\<forall>req. parseImageEditRequest id (\<lambda>_. None, \<lambda>_. None) [''quality'', ''background''] 0 (Some ''b'') [] FormEOF = Inr req \<longleftrightarrow>
     parseImageEditRequest id (\<lambda>_. None, \<lambda>_. None) [''background'', ''quality''] 0 (Some ''b'') [] FormEOF = Inr req"
  by (rule allI, rule image_edit_order_irrelevant) simp

text \<open>A sign survives in a size: \<open>strconv.Atoi\<close> accepts it and the text is passed on as it came, where form
  integers must be canonical.\<close>

lemma signed_size_accepted: "check_image_size quote ''+1024x1024'' = Inr ''+1024x1024''"
  by (simp add: check_image_size_def Atoi_def is_digit_def digit_val_def)

end
