(* ===== verification/ImageStream.thy ===== *)
theory ImageStream
  imports ImageRequest Handlers ChatProtocol
begin

text \<open>
  Answers of the image endpoints, \<^verbatim>\<open>src/images.go\<close>: reading the upstream event stream of an image
  generation, the usage totals, and the handlers that generate several images one after the other or
  stream one with its previews. Each upstream call of a request meets its own environment.
\<close>

section \<open>Definitions\<close>

definition maxImageSSEBytes :: nat where "maxImageSSEBytes = 64 * 1024 * 1024"
definition maxImageSSEEventBytes :: nat where "maxImageSSEEventBytes = 64 * 1024 * 1024"
definition maxImageSSEEvents :: nat where "maxImageSSEEvents = 512"

record generatedImage =
  gi_Base64 :: string
  gi_RevisedPrompt :: string

record imageGenerationResult =
  ir_Image :: generatedImage
  ir_Usage :: "obj option"
  ir_Metadata :: "(string \<times> string) list"

subsection \<open>Values of events\<close>

fun nestedString :: "obj \<Rightarrow> string list \<Rightarrow> string" where
  "nestedString m [] = []"
| "nestedString m [key] = (case oget m key of JStr s \<Rightarrow> TrimSpace s | _ \<Rightarrow> [])"
| "nestedString m (key # k2 # path) = (case oget m key of JObj n \<Rightarrow> nestedString n (k2 # path) | _ \<Rightarrow> [])"

definition imageGenerationEventError :: "obj \<Rightarrow> string \<Rightarrow> string" where
  "imageGenerationEventError event fallback =
     (let m1 = nestedString event [''response'', ''error'', ''message'']; m2 = nestedString event [''error'', ''message''];
          m3 = stringField event ''message''
      in if m1 \<noteq> [] then m1 else if m2 \<noteq> [] then m2 else if m3 \<noteq> [] then m3 else fallback)"

definition imageGenerationResponseError :: "obj \<Rightarrow> string \<Rightarrow> string" where
  "imageGenerationResponseError response fallback =
     (let m = nestedString response [''error'', ''message''] in if m \<noteq> [] then m else fallback)"

definition image_call :: "json \<Rightarrow> obj option" where
  "image_call v =
     (case as_obj v of Some item \<Rightarrow> if stringField item ''type'' = ''image_generation_call'' then Some item else None | None \<Rightarrow> None)"

definition imageOutputItems :: "json \<Rightarrow> obj list" where
  "imageOutputItems v = (case as_arr v of None \<Rightarrow> [] | Some vs \<Rightarrow> List.map_filter image_call vs)"

fun image_error_text :: "image_error \<Rightarrow> string" where
  "image_error_text PayloadTooLarge = ''image payload exceeded size limit''"
| "image_error_text NotCanonical = ''image payload is not canonical base64''"
| "image_error_text MalformedBase64 = ''image payload is malformed or noncanonical base64''"

definition decodeImageItem :: "(string \<Rightarrow> string) \<Rightarrow> obj \<Rightarrow> string + generatedImage" where
  "decodeImageItem quote item =
     (let status = stringField item ''status''
      in if status \<noteq> [] \<and> status \<noteq> ''completed'' then Inl (''image generation call has status '' @ quote status)
         else (case as_str (oget item ''result'') of
                 None \<Rightarrow> Inl ''image generation call missing result''
               | Some payload \<Rightarrow>
                   (if payload = [] then Inl ''image generation call missing result''
                    else (case validateImageBase64 payload of
                            Some err \<Rightarrow> Inl (image_error_text err)
                          | None \<Rightarrow> Inr \<lparr>gi_Base64 = payload,
                              gi_RevisedPrompt = (case as_str (oget item ''revised_prompt'') of Some r \<Rightarrow> r | None \<Rightarrow> [])\<rparr>))))"

definition validImageMetadata :: "(string \<Rightarrow> string) \<Rightarrow> string \<Rightarrow> string \<Rightarrow> bool" where
  "validImageMetadata quote key v \<longleftrightarrow>
     (if key = ''background'' \<or> key = ''output_format'' \<or> key = ''quality'' then v \<in> set (image_enum key)
      else if key = ''size'' then (\<exists>s. optionalImageSize quote [(''size'', JStr v)] = Inr s)
      else False)"

definition metadata_keys :: "string list" where
  "metadata_keys = [''background'', ''output_format'', ''quality'', ''size'']"

definition imageResultMetadata :: "(string \<Rightarrow> string) \<Rightarrow> obj \<Rightarrow> obj \<Rightarrow> (string \<times> string) list" where
  "imageResultMetadata quote item response =
     List.map_filter (\<lambda>key.
       if validImageMetadata quote key (stringField item key) then Some (key, stringField item key)
       else if validImageMetadata quote key (stringField response key) then Some (key, stringField response key)
       else None) metadata_keys"

subsection \<open>The stream\<close>

record 'o image_state =
  is_items :: "obj list"
  is_completed :: "obj option"
  is_events :: nat
  is_sink :: 'o

text \<open>\<open>onPartial\<close>: called with a preview and its index; it may fail. A nil callback does nothing.\<close>

type_synonym 'o on_partial = "string \<Rightarrow> int \<Rightarrow> 'o \<Rightarrow> string option \<times> 'o"

definition no_partial :: "'o on_partial" where
  "no_partial payload index o' = (None, o')"

definition partial_event :: "'o on_partial \<Rightarrow> obj \<Rightarrow> 'o image_state \<Rightarrow> sse_error option \<times> 'o image_state" where
  "partial_event onPartial event st =
     (case as_str (oget event ''partial_image_b64'') of
        None \<Rightarrow> (Some (ConsumerError ''partial image missing payload''), st)
      | Some payload \<Rightarrow>
          (case validateImageBase64 payload of
             Some err \<Rightarrow> (Some (ConsumerError (''invalid partial image: '' @ image_error_text err)), st)
           | None \<Rightarrow>
               (case exactAnyInt (oget event ''partial_image_index'') of
                  None \<Rightarrow> (Some (ConsumerError ''partial image index is invalid''), st)
                | Some index \<Rightarrow>
                    (if index < 0 \<or> index \<ge> maxPartialImages then (Some (ConsumerError ''partial image index is invalid''), st)
                     else (case onPartial payload index (is_sink st) of
                             (Some err, o') \<Rightarrow> (Some (ConsumerError err), st\<lparr>is_sink := o'\<rparr>)
                           | (None, o') \<Rightarrow> (None, st\<lparr>is_sink := o'\<rparr>))))))"

definition image_event :: "'o on_partial \<Rightarrow> obj \<Rightarrow> 'o image_state \<Rightarrow> sse_error option \<times> 'o image_state" where
  "image_event onPartial event st =
     (let ty = event_type event
      in if ty = [] then (Some (ConsumerError ''SSE event missing type''), st)
         else if ty = ''response.failed'' \<or> ty = ''error''
         then (Some (ConsumerError (imageGenerationEventError event ''image generation failed'')), st)
         else if ty = ''response.incomplete'' then
           (let reason = nestedString event [''response'', ''incomplete_details'', ''reason'']
            in (Some (ConsumerError (''image generation response incomplete: '' @ (if reason = [] then ''unknown'' else reason))), st))
         else if ty = ''response.image_generation_call.partial_image'' then partial_event onPartial event st
         else if ty = ''response.completed'' then
           (case as_obj (oget event ''response'') of
              None \<Rightarrow> (Some (ConsumerError ''response.completed missing response''), st)
            | Some response \<Rightarrow> (Some SSEComplete, st\<lparr>is_completed := Some response\<rparr>))
         else if ty = ''response.output_item.done'' then
           (None, (case image_call (oget event ''item'') of Some item \<Rightarrow> st\<lparr>is_items := is_items st @ [item]\<rparr> | None \<Rightarrow> st))
         else (None, st))"

definition image_consume :: "golib \<Rightarrow> 'o on_partial \<Rightarrow> 'o image_state consumer" where
  "image_consume lib onPartial data0 st =
     (let data = TrimSpace data0
      in if data = [] \<or> data = ''[DONE]'' then (None, st)
         else (let st1 = st\<lparr>is_events := Suc (is_events st)\<rparr>
               in if is_events st1 > maxImageSSEEvents then (Some (ConsumerError ''response exceeded event limit''), st1)
                  else (case unmarshal_obj lib data of
                          None \<Rightarrow> (Some (ConsumerError ''malformed SSE event''), st1)
                        | Some event \<Rightarrow> image_event onPartial event st1)))"

text \<open>\<open>io.LimitedReader\<close>: the reads of a body cut off after \<open>n\<close> bytes, where the reader reports EOF.\<close>

fun limit_reads :: "nat \<Rightarrow> string list \<Rightarrow> string \<times> bool \<Rightarrow> string list \<times> string \<times> bool" where
  "limit_reads n [] (final, eof) = (if length final < n then ([], final, eof) else ([], take n final, True))"
| "limit_reads n (c # cs) fin =
     (if length c < n then (let (cs', fin') = limit_reads (n - length c) cs fin in (c # cs', fin'))
      else ([], take n c, True))"

text \<open>How many bytes \<open>readSSE\<close> takes from a reader: all reads up to the one whose events stop it.\<close>

fun bytes_taken :: "'c consumer \<Rightarrow> sseFramer \<Rightarrow> 'c \<Rightarrow> string list \<Rightarrow> string \<times> bool \<Rightarrow> nat" where
  "bytes_taken consume f c (chunk # chunks) fin =
     length chunk + (case sse_feed consume f c chunk of
                       (Some err, f', c') \<Rightarrow> 0
                     | (None, f', c') \<Rightarrow> bytes_taken consume f' c' chunks fin)"
| "bytes_taken consume f c [] (final, eof) = length final"

definition image_result :: "(string \<Rightarrow> string) \<Rightarrow> obj \<Rightarrow> obj list \<Rightarrow> string + imageGenerationResult" where
  "image_result quote response doneItems =
     (let status = stringField response ''status''
      in if status \<noteq> [] \<and> status \<noteq> ''completed''
         then Inl (imageGenerationResponseError response (''completed response has status '' @ quote status))
         else (let out = imageOutputItems (oget response ''output''); items = (if out = [] then doneItems else out)
               in (case items of
                     [] \<Rightarrow> Inl ''completed response did not contain an image''
                   | item # _ \<Rightarrow>
                       (case decodeImageItem quote item of
                          Inl err \<Rightarrow> Inl err
                        | Inr image' \<Rightarrow> Inr \<lparr>ir_Image = image', ir_Usage = as_obj (oget response ''usage''),
                                           ir_Metadata = imageResultMetadata quote item response\<rparr>))))"

definition parseImageSSEStream ::
    "golib \<Rightarrow> (string \<Rightarrow> string) \<Rightarrow> 'o on_partial \<Rightarrow> 'o \<Rightarrow> string list \<times> string \<times> bool \<Rightarrow> (string + imageGenerationResult) \<times> 'o" where
  "parseImageSSEStream lib quote onPartial sink body =
     (let (chunks, fin) = limit_reads (maxImageSSEBytes + 1) (fst body) (snd body);
          st0 = \<lparr>is_items = [], is_completed = None, is_events = 0, is_sink = sink\<rparr>;
          (err, st) = readSSE maxImageSSEEventBytes (image_consume lib onPartial) st0 chunks fin;
          taken = bytes_taken (image_consume lib onPartial) (new_framer maxImageSSEEventBytes) st0 chunks fin
      in (case err of
            Some e \<Rightarrow> (Inl (sse_error_text e), is_sink st)
          | None \<Rightarrow>
              (if taken \<ge> maxImageSSEBytes + 1 then (Inl ''response exceeded size limit'', is_sink st)
               else (case is_completed st of
                       None \<Rightarrow> (Inl ''stream closed before response.completed'', is_sink st)
                     | Some response \<Rightarrow> (image_result quote response (is_items st), is_sink st)))))"

definition parseImageGenerationSSE :: "golib \<Rightarrow> (string \<Rightarrow> string) \<Rightarrow> string list \<times> string \<times> bool \<Rightarrow> string + imageGenerationResult" where
  "parseImageGenerationSSE lib quote body = fst (parseImageSSEStream lib quote no_partial () body)"

subsection \<open>Usage\<close>

definition usage_number :: "json \<Rightarrow> int option" where
  "usage_number v =
     (case v of
        JNumber s \<Rightarrow> (case Atoi s of Some n \<Rightarrow> if n \<ge> 0 then Some n else None | None \<Rightarrow> None)
      | JFloat q \<Rightarrow> if q \<ge> 0 \<and> q = of_int (int64_of_float (Fin q)) then Some (int64_of_float (Fin q)) else None
      | _ \<Rightarrow> None)"

definition mergeNumericUsageField :: "obj \<Rightarrow> string \<Rightarrow> obj \<Rightarrow> obj" where
  "mergeNumericUsageField src key dst =
     (case usage_number (oget src key) of
        None \<Rightarrow> dst
      | Some n \<Rightarrow> oset dst key (JInt64 (wrap64 ((case oget dst key of JInt64 c \<Rightarrow> c | _ \<Rightarrow> 0) + n))))"

definition usage_counts :: "string list" where
  "usage_counts = [''input_tokens'', ''output_tokens'', ''total_tokens'', ''prompt_tokens'', ''completion_tokens'']"

definition usage_groups :: "string list" where
  "usage_groups = [''input_tokens_details'', ''output_tokens_details'', ''prompt_tokens_details'', ''completion_tokens_details'']"

definition usage_details :: "string list" where
  "usage_details = [''cached_tokens'', ''cache_write_tokens'', ''reasoning_tokens'', ''image_tokens'', ''text_tokens'']"

definition merge_group :: "obj \<Rightarrow> string \<Rightarrow> obj \<Rightarrow> obj" where
  "merge_group src key dst =
     (case as_obj (oget src key) of
        None \<Rightarrow> dst
      | Some typed \<Rightarrow>
          (let nested0 = (case as_obj (oget dst key) of Some n \<Rightarrow> n | None \<Rightarrow> []);
               nested = fold (mergeNumericUsageField typed) usage_details nested0
           in if nested = [] then odel dst key else oset dst key (JObj nested)))"

definition mergeNumericUsage :: "obj \<Rightarrow> obj \<Rightarrow> obj" where
  "mergeNumericUsage src dst = fold (merge_group src) usage_groups (fold (mergeNumericUsageField src) usage_counts dst)"

definition aggregateImageUsage :: "obj list \<Rightarrow> obj option" where
  "aggregateImageUsage usages =
     (let result = fold mergeNumericUsage usages [] in if usages = [] \<or> result = [] then None else Some result)"

subsection \<open>Generating images\<close>

text \<open>What an image request meets: its \<open>http_io\<close>, and for the upstream call number \<open>i\<close> the slot, the
  upstream and the delivery of the body in \<open>ii_call i\<close>. \<open>ii_backing\<close> is the configured backing model.\<close>

record image_io =
  ii_http :: http_io
  ii_call :: "nat \<Rightarrow> http_io"
  ii_backing :: string
  ii_flusher :: bool
  ii_ctxErr :: "nat \<Rightarrow> string option"
  ii_marshalErr :: string
  ii_created :: "nat \<Rightarrow> int"
  ii_contentLength :: int
  ii_boundary :: "string option"
  ii_parts :: "form_part list"
  ii_formEnd :: form_end
  ii_decoders :: image_decoders
  ii_order :: "string list"

abbreviation ii_lib :: "image_io \<Rightarrow> golib" where
  "ii_lib io \<equiv> hi_lib (ii_http io)"

abbreviation ii_quote :: "image_io \<Rightarrow> string \<Rightarrow> string" where
  "ii_quote io \<equiv> br_quote (hi_reader (ii_http io))"

definition image_info :: "image_io \<Rightarrow> requestInfo" where
  "image_info io =
     (let model = imageBackingModel (ii_backing io)
      in empty_info\<lparr>ri_Model := model, ri_NormalizedModel := model, ri_Stream := True\<rparr>)"

definition image_dispatch ::
    "image_io \<Rightarrow> nat \<Rightarrow> string \<Rightarrow> obj \<Rightarrow> accountPool \<Rightarrow> (dispatchFailure + http_response) \<times> accountPool \<times> upstream_call list" where
  "image_dispatch io i encoded body pool =
     dispatchUpstream (ii_lib io) (base_cfg (ii_http io)) (hi_dispatch (ii_call io i)) encoded (image_info io) body
       (imageUpstreamRequest (hi_header (ii_http io)) i) pool"

type_synonym image_step = "(dispatchFailure + imageGenerationResult) \<times> pending \<times> accountPool \<times> handler_event list"

definition image_body_failure :: "nat \<Rightarrow> string \<Rightarrow> string \<Rightarrow> dispatchFailure" where
  "image_body_failure status message body = (failure status message)\<lparr>df_body := body\<rparr>"

definition generate_answer :: "image_io \<Rightarrow> nat \<Rightarrow> http_response \<Rightarrow> dispatchFailure + imageGenerationResult" where
  "generate_answer io i resp =
     (if \<not> success_status resp
      then Inl (image_body_failure (rs_StatusCode resp) ''upstream image generation failed'' (read_limited (ii_call io i) (64 * 1024) resp))
      else (case parseImageGenerationSSE (ii_lib io) (ii_quote io) (hi_cut (ii_call io i) (rs_Body resp)) of
              Inl err \<Rightarrow> Inl (failure 502 ''invalid upstream image response'')
            | Inr result \<Rightarrow> Inr result))"

definition generateOneImage :: "image_io \<Rightarrow> imageGenerationRequest \<Rightarrow> nat \<Rightarrow> pending \<Rightarrow> accountPool \<Rightarrow> image_step" where
  "generateOneImage io req i entry pool =
     (case hi_slot (ii_call io i) of
        Some (err, now) \<Rightarrow> (Inl (acquireUpstreamSlot_failure err now), entry, pool, [])
      | None \<Rightarrow>
          (let body = buildImageResponsesBody (ii_backing io) req
           in (case lib_Marshal (ii_lib io) (JObj body) of
                 None \<Rightarrow> (Inl (failure 400 ''invalid image request body''), entry, pool, [Acquired_slot, Released_slot])
               | Some encoded \<Rightarrow>
                   (case image_dispatch io i encoded body pool of
                      (Inl fail, pool', calls) \<Rightarrow> (Inl fail, entry, pool', Acquired_slot # map Sent calls @ [Released_slot])
                    | (Inr resp, pool', calls) \<Rightarrow>
                        (generate_answer io i resp, markUpstreamStatus (rs_StatusCode resp) entry, pool',
                         Acquired_slot # map Sent calls @ [Released_slot])))))"

text \<open>The loop over the images of a request; it stops at the first failure.\<close>

fun generate_images ::
    "image_io \<Rightarrow> imageGenerationRequest \<Rightarrow> nat \<Rightarrow> nat \<Rightarrow> pending \<Rightarrow> accountPool \<Rightarrow>
     (dispatchFailure + imageGenerationResult list) \<times> pending \<times> accountPool \<times> handler_event list" where
  "generate_images io req i 0 entry pool = (Inr [], entry, pool, [])"
| "generate_images io req i (Suc n) entry pool =
     (case generateOneImage io req i entry pool of
        (Inl fail, entry', pool', tr) \<Rightarrow> (Inl fail, entry', pool', tr)
      | (Inr result, entry', pool', tr) \<Rightarrow>
          (case generate_images io req (Suc i) n entry' pool' of
             (Inl fail, entry'', pool'', tr') \<Rightarrow> (Inl fail, entry'', pool'', tr @ tr')
           | (Inr results, entry'', pool'', tr') \<Rightarrow> (Inr (result # results), entry'', pool'', tr @ tr')))"

definition image_json :: "generatedImage \<Rightarrow> json" where
  "image_json g =
     JObj ((''b64_json'', JStr (gi_Base64 g)) #
           (if gi_RevisedPrompt g \<noteq> [] then [(''revised_prompt'', JStr (gi_RevisedPrompt g))] else []))"

definition mark_image_usage :: "golib \<Rightarrow> obj option \<Rightarrow> pending \<Rightarrow> pending" where
  "mark_image_usage lib usage entry =
     (case usage of None \<Rightarrow> entry | Some u \<Rightarrow> markUsage (extractTokenUsage lib [(''usage'', JObj u)]) entry)"

definition image_results_answer :: "image_io \<Rightarrow> imageGenerationResult list \<Rightarrow> pending \<Rightarrow> answer \<times> pending" where
  "image_results_answer io results entry =
     (let usage = aggregateImageUsage (List.map_filter ir_Usage results);
          response = [(''created'', JInt (ii_created io 0)), (''data'', JArr (map (\<lambda>r. image_json (ir_Image r)) results))] @
                     (case usage of None \<Rightarrow> [] | Some u \<Rightarrow> [(''usage'', JObj u)])
      in (json_answer 200 [] (JObj response), markStatus 200 (mark_image_usage (ii_lib io) usage entry)))"

definition writeImageResults :: "image_io \<Rightarrow> imageGenerationRequest \<Rightarrow> pending \<Rightarrow> accountPool \<Rightarrow> handled" where
  "writeImageResults io req entry pool =
     (case generate_images io req 0 (nat (ig_Count req)) entry pool of
        (Inl fail, entry', pool', tr) \<Rightarrow>
          (let (ans, entry'') = fail_reply (ii_http io) fail ([], entry')
           in \<lparr>hd_answer = ans, hd_log = entry'', hd_pool = pool', hd_trace = tr\<rparr>)
      | (Inr results, entry', pool', tr) \<Rightarrow>
          (let (ans, entry'') = image_results_answer io results entry'
           in \<lparr>hd_answer = ans, hd_log = entry'', hd_pool = pool', hd_trace = tr\<rparr>))"

subsection \<open>Streaming one image\<close>

definition imageAPIEvent ::
    "string \<Rightarrow> string \<Rightarrow> imageGenerationRequest \<Rightarrow> int \<Rightarrow> obj option \<Rightarrow> (string \<times> string) list \<Rightarrow> int \<Rightarrow> obj" where
  "imageAPIEvent eventType payload req partialIndex usage metadata created =
     (let pick = (\<lambda>key fallback. case map_of metadata key of Some v \<Rightarrow> if v \<noteq> [] then v else fallback | None \<Rightarrow> fallback)
      in [(''type'', JStr eventType), (''b64_json'', JStr payload), (''created_at'', JInt created),
          (''background'', JStr (pick ''background'' (valueOr (ig_Background req) ''auto''))),
          (''output_format'', JStr (pick ''output_format'' (valueOr (ig_OutputFormat req) ''png''))),
          (''quality'', JStr (pick ''quality'' (valueOr (ig_Quality req) ''auto''))),
          (''size'', JStr (pick ''size'' (valueOr (ig_Size req) ''auto'')))] @
         (if partialIndex \<ge> 0 then [(''partial_image_index'', JInt partialIndex)] else []) @
         (case usage of None \<Rightarrow> [] | Some u \<Rightarrow> [(''usage'', JObj u)]))"

definition imageStreamError :: obj where
  "imageStreamError =
     [(''type'', JStr ''error''), (''error'', JObj [(''type'', JStr ''image_error''), (''code'', JStr ''upstream_image_error''),
        (''message'', JStr ''image request failed'')])]"

text \<open>The sink of a stream: the number of attempted events and the events that reached the client.\<close>

type_synonym image_sink = "nat \<times> obj list"

definition emit :: "image_io \<Rightarrow> obj \<Rightarrow> image_sink \<Rightarrow> string option \<times> image_sink" where
  "emit io event sink =
     (case sink of
        (n, out) \<Rightarrow>
          (case ii_ctxErr io n of
             Some err \<Rightarrow> (Some err, Suc n, out)
           | None \<Rightarrow>
               (case lib_Marshal (ii_lib io) (JObj event) of
                  None \<Rightarrow> (Some (ii_marshalErr io), Suc n, out)
                | Some enc \<Rightarrow>
                    (if hi_write (ii_http io) n then (None, Suc n, out @ [event]) else (Some ''write failed'', Suc n, out)))))"

definition event_bytes :: "golib \<Rightarrow> obj \<Rightarrow> string" where
  "event_bytes lib event =
     ''event: '' @ event_type event @ [nl] @ ''data: '' @ (case lib_Marshal lib (JObj event) of Some enc \<Rightarrow> enc | None \<Rightarrow> []) @ [nl, nl]"

definition emit_partial :: "image_io \<Rightarrow> imageGenerationRequest \<Rightarrow> string \<Rightarrow> image_sink on_partial" where
  "emit_partial io req eventPrefix payload index sink =
     emit io (imageAPIEvent (eventPrefix @ ''.partial_image'') payload req index None [] (ii_created io (fst sink))) sink"

definition stream_image_body ::
    "image_io \<Rightarrow> imageGenerationRequest \<Rightarrow> string \<Rightarrow> http_response \<Rightarrow> pending \<Rightarrow> obj list \<times> pending" where
  "stream_image_body io req eventPrefix resp entry =
     (case parseImageSSEStream (ii_lib io) (ii_quote io) (emit_partial io req eventPrefix) (0, [])
             (hi_cut (ii_call io 0) (rs_Body resp)) of
        (Inl err, sink) \<Rightarrow>
          (let entry' = markStreamError ''invalid upstream image response'' entry
           in if ii_ctxErr io (fst sink) = None then (snd (snd (emit io imageStreamError (Suc (fst sink), snd sink))), entry') else (snd sink, entry'))
      | (Inr result, sink) \<Rightarrow>
          (let usage = aggregateImageUsage [case ir_Usage result of Some u \<Rightarrow> u | None \<Rightarrow> []];
               entry' = mark_image_usage (ii_lib io) usage entry
           in (case emit io (imageAPIEvent (eventPrefix @ ''.completed'') (gi_Base64 (ir_Image result)) req (- 1) usage
                               (ir_Metadata result) (ii_created io (fst sink))) sink of
                 (Some err, sink') \<Rightarrow> (snd sink', markStreamError ''client disconnected'' entry')
               | (None, sink') \<Rightarrow> (snd sink', markStatus 200 entry'))))"

definition image_stream_header :: header where
  "image_stream_header =
     Header_Set (Header_Set (Header_Set [] ''Content-Type'' ''text/event-stream'') ''Cache-Control'' ''no-cache'') ''X-Accel-Buffering'' ''no''"

definition stream_answer ::
    "image_io \<Rightarrow> imageGenerationRequest \<Rightarrow> string \<Rightarrow> http_response \<Rightarrow> pending \<Rightarrow> answer \<times> pending" where
  "stream_answer io req eventPrefix resp entry0 =
     (let entry = markUpstreamStatus (rs_StatusCode resp) entry0
      in if \<not> success_status resp
         then fail_reply (ii_http io) (image_body_failure (rs_StatusCode resp) ''upstream image request failed''
                (read_limited (ii_call io 0) (64 * 1024) resp)) ([], entry)
         else if \<not> ii_flusher io
         then (writeProxyError 500 [] ''streaming unsupported'', markError 500 ''streaming unsupported'' entry)
         else (let (out, entry') = stream_image_body io req eventPrefix resp entry
               in (\<lparr>an_status = 200, an_header = image_stream_header, an_body = RawBody (concat (map (event_bytes (ii_lib io)) out))\<rparr>, entry')))"

definition streamOneImage :: "image_io \<Rightarrow> imageGenerationRequest \<Rightarrow> string \<Rightarrow> pending \<Rightarrow> accountPool \<Rightarrow> handled" where
  "streamOneImage io req eventPrefix entry pool =
     with_slot ((ii_http io)\<lparr>hi_slot := hi_slot (ii_call io 0)\<rparr>) entry (\<lambda>pool.
       let body = buildImageResponsesBody (ii_backing io) req
       in (case lib_Marshal (ii_lib io) (JObj body) of
             None \<Rightarrow> ((writeProxyError 400 [] ''invalid image request body'', markError 400 ''invalid image request body'' entry), pool, [])
           | Some encoded \<Rightarrow>
               (case image_dispatch io 0 encoded body pool of
                  (Inl fail, pool', calls) \<Rightarrow> (fail_reply (ii_http io) fail ([], entry), pool', calls)
                | (Inr resp, pool', calls) \<Rightarrow> (stream_answer io req eventPrefix resp entry, pool', calls)))) pool"

subsection \<open>Endpoints\<close>

definition serve_image :: "image_io \<Rightarrow> imageGenerationRequest \<Rightarrow> string \<Rightarrow> pending \<Rightarrow> accountPool \<Rightarrow> handled" where
  "serve_image io req eventPrefix entry pool =
     (if ig_Stream req then streamOneImage io req eventPrefix entry pool else writeImageResults io req entry pool)"

definition handleImageGenerations :: "image_io \<Rightarrow> accountPool \<Rightarrow> handled" where
  "handleImageGenerations io pool =
     (let h = ii_http io
      in if \<not> authorized h then unauthorized_reply h pool
         else (case decodeRequestBody (hi_reader h) (hi_body h) (Header_Get (hi_header h) ''Content-Encoding'') of
                 Inl err \<Rightarrow> reply (writeProxyError 400 [] err, markError 400 err (hi_log h)) pool
               | Inr body \<Rightarrow>
                   (case parseImageGenerationRequest (ii_quote io) body of
                      Inl err \<Rightarrow> reply (writeProxyError 400 [] err, markError 400 err (hi_log h)) pool
                    | Inr req \<Rightarrow>
                        serve_image io req ''image_generation''
                          (markImageRequest (ig_Model req) (ig_Stream req) (nat (ig_Count req)) (hi_log h)) pool)))"

definition handleImageEdits :: "image_io \<Rightarrow> accountPool \<Rightarrow> handled" where
  "handleImageEdits io pool =
     (let h = ii_http io
      in if \<not> authorized h then unauthorized_reply h pool
         else (case parseImageEditRequest (ii_quote io) (ii_decoders io) (ii_order io) (ii_contentLength io) (ii_boundary io)
                      (ii_parts io) (ii_formEnd io) of
                 Inl (big, err) \<Rightarrow>
                   (let status = (if big then 413 else 400)
                    in reply (writeProxyError status [] err, markError status err (hi_log h)) pool)
               | Inr req \<Rightarrow>
                   serve_image io req ''image_edit''
                     (markImageRequest (ig_Model req) (ig_Stream req) (length (ig_InputImages req)) (hi_log h)) pool))"

section \<open>Usage totals\<close>

text \<open>A count of a usage object, and a detail of one of its groups.\<close>

definition group_detail :: "obj \<Rightarrow> string \<Rightarrow> string \<Rightarrow> json" where
  "group_detail m g d = (case as_obj (oget m g) of Some n \<Rightarrow> oget n d | None \<Rightarrow> JNull)"

definition add_usage :: "int option \<Rightarrow> json \<Rightarrow> json" where
  "add_usage n v = (case n of None \<Rightarrow> v | Some k \<Rightarrow> JInt64 (wrap64 ((case v of JInt64 c \<Rightarrow> c | _ \<Rightarrow> 0) + k)))"

lemma oget_merge_field:
  "oget (mergeNumericUsageField src key dst) k = (if k = key then add_usage (usage_number (oget src key)) (oget dst key) else oget dst k)"
  by (simp add: mergeNumericUsageField_def add_usage_def split: option.split)

lemma oget_merge_fields:
  "distinct keys \<Longrightarrow> oget (fold (mergeNumericUsageField src) keys dst) k =
     (if k \<in> set keys then add_usage (usage_number (oget src k)) (oget dst k) else oget dst k)"
  by (induction keys arbitrary: dst) (auto simp: oget_merge_field)

lemma oget_merge_group: "k \<noteq> g \<Longrightarrow> oget (merge_group src g dst) k = oget dst k"
  by (simp add: merge_group_def Let_def split: option.split)

lemma oget_merge_groups: "k \<notin> set gs \<Longrightarrow> oget (fold (merge_group src) gs dst) k = oget dst k"
  by (induction gs arbitrary: dst) (simp_all add: oget_merge_group)

lemma usage_keys: "distinct usage_counts" "distinct usage_details" "distinct usage_groups" "set usage_counts \<inter> set usage_groups = {}"
  by (simp_all add: usage_counts_def usage_details_def usage_groups_def)

lemma oget_mergeNumericUsage:
  "k \<in> set usage_counts \<Longrightarrow> oget (mergeNumericUsage src dst) k = add_usage (usage_number (oget src k)) (oget dst k)"
  using usage_keys by (subst mergeNumericUsage_def, subst oget_merge_groups) (auto simp: oget_merge_fields)

lemma detail_merge_group:
  assumes "d \<in> set usage_details"
  shows "group_detail (merge_group src g dst) g d = add_usage (usage_number (group_detail src g d)) (group_detail dst g d)"
proof (cases "as_obj (oget src g)")
  case None
  then show ?thesis by (simp add: merge_group_def group_detail_def add_usage_def usage_number_def)
next
  case (Some typed)
  let ?base = "case as_obj (oget dst g) of Some n \<Rightarrow> n | None \<Rightarrow> []"
  let ?merged = "fold (mergeNumericUsageField typed) usage_details ?base"
  have "oget ?merged d = add_usage (usage_number (oget typed d)) (oget ?base d)"
    using assms usage_keys(2) by (simp add: oget_merge_fields)
  moreover have "oget ?base d = group_detail dst g d" by (simp add: group_detail_def oget_def split: option.split)
  moreover have "group_detail (merge_group src g dst) g d = oget ?merged d"
    using Some by (cases "?merged = []") (simp_all add: merge_group_def group_detail_def Let_def oget_def)
  ultimately show ?thesis using Some by (simp add: group_detail_def)
qed

lemma detail_merge_groups:
  "distinct gs \<Longrightarrow> d \<in> set usage_details \<Longrightarrow> group_detail (fold (merge_group src) gs dst) g d =
     (if g \<in> set gs then add_usage (usage_number (group_detail src g d)) (group_detail dst g d) else group_detail dst g d)"
proof (induction gs arbitrary: dst)
  case (Cons h gs)
  have "h \<noteq> g \<Longrightarrow> group_detail (merge_group src h dst) g d = group_detail dst g d"
    by (simp add: group_detail_def oget_merge_group)
  then show ?case using Cons by (cases "h = g") (simp_all add: detail_merge_group)
qed simp

lemma detail_mergeNumericUsage:
  assumes "d \<in> set usage_details" "g \<in> set usage_groups"
  shows "group_detail (mergeNumericUsage src dst) g d = add_usage (usage_number (group_detail src g d)) (group_detail dst g d)"
proof -
  have "g \<notin> set usage_counts" using assms(2) usage_keys(4) by blast
  then have "group_detail (fold (mergeNumericUsageField src) usage_counts dst) g d = group_detail dst g d"
    by (simp add: group_detail_def oget_merge_fields usage_keys)
  then show ?thesis
    using assms usage_keys(3) by (simp add: mergeNumericUsage_def detail_merge_groups)
qed

text \<open>Adding up a list of numbers the way the totals do.\<close>

definition usage_total :: "int option list \<Rightarrow> json" where
  "usage_total ns = (if List.map_filter id ns = [] then JNull else JInt64 (wrap64 (sum_list (List.map_filter id ns))))"

lemma fold_add_usage: "fold add_usage ns JNull = usage_total ns"
proof (induction ns rule: rev_induct)
  case (snoc n ns)
  show ?case using snoc by (cases n) (auto simp: usage_total_def add_usage_def List.map_filter_def wrap64_add)
qed (simp add: usage_total_def List.map_filter_simps)

lemma fold_usage:
  assumes "\<And>src dst. P (mergeNumericUsage src dst) = add_usage (Q src) (P dst)"
  shows "P (fold mergeNumericUsage us dst) = fold add_usage (map Q us) (P dst)"
  by (induction us arbitrary: dst) (simp_all add: assms)

section \<open>Valid images\<close>

abbreviation canonical :: "string \<Rightarrow> bool" where
  "canonical payload \<equiv> validateImageBase64 payload = None"

lemma decodeImageItem_ok: "decodeImageItem quote item = Inr g \<Longrightarrow> canonical (gi_Base64 g)"
  by (auto simp: decodeImageItem_def Let_def split: if_splits option.splits)

lemma image_result_ok: "image_result quote response items = Inr r \<Longrightarrow> canonical (gi_Base64 (ir_Image r))"
  by (auto simp: image_result_def Let_def dest: decodeImageItem_ok split: if_splits list.splits sum.splits)

lemma parse_result_ok:
  assumes "parseImageSSEStream lib quote onPartial sink body = (Inr r, sink')"
  shows "canonical (gi_Base64 (ir_Image r))"
proof -
  obtain chunks fin where l: "limit_reads (maxImageSSEBytes + 1) (fst body) (snd body) = (chunks, fin)"
    by (cases "limit_reads (maxImageSSEBytes + 1) (fst body) (snd body)")
  let ?st0 = "\<lparr>is_items = [], is_completed = None, is_events = 0, is_sink = sink\<rparr>"
  obtain err st where r: "readSSE maxImageSSEEventBytes (image_consume lib onPartial) ?st0 chunks fin = (err, st)" by fastforce
  show ?thesis
    using assms unfolding parseImageSSEStream_def Let_def l r case_prod_conv
    by (auto dest: image_result_ok split: option.splits if_splits)
qed

section \<open>The event protocol\<close>

definition preview :: "string \<Rightarrow> obj \<Rightarrow> bool" where
  "preview pre ev \<longleftrightarrow> event_type ev = pre @ ''.partial_image'' \<and>
     (\<exists>i. oget ev ''partial_image_index'' = JInt i \<and> 0 \<le> i \<and> i < maxPartialImages) \<and>
     (\<exists>p. oget ev ''b64_json'' = JStr p \<and> canonical p)"

definition previews_sent :: "string \<Rightarrow> image_sink image_state \<Rightarrow> bool" where
  "previews_sent pre st \<longleftrightarrow> (\<forall>ev\<in>set (snd (is_sink st)). preview pre ev)"

lemma api_event_fields:
  "event_type (imageAPIEvent ty payload req i usage md created) = ty"
  "oget (imageAPIEvent ty payload req i usage md created) ''b64_json'' = JStr payload"
  "0 \<le> i \<Longrightarrow> oget (imageAPIEvent ty payload req i None md created) ''partial_image_index'' = JInt i"
  by (simp_all add: imageAPIEvent_def event_type_def oget_def Let_def)

lemma emit_sink: "emit io ev sink = (err, sink') \<Longrightarrow> snd sink' = snd sink \<or> (err = None \<and> snd sink' = snd sink @ [ev])"
  by (auto simp: emit_def split: prod.splits option.splits if_splits)

lemma emit_ok: "emit io ev sink = (None, sink') \<Longrightarrow> snd sink' = snd sink @ [ev]"
  by (auto simp: emit_def split: prod.splits option.splits if_splits)

lemma partial_event_previews:
  assumes "previews_sent pre st" "partial_event (emit_partial io req pre) ev st = (err, st')"
  shows "previews_sent pre st'"
proof (cases "st' = st")
  case False
  obtain payload where pl: "oget ev ''partial_image_b64'' = JStr payload" "canonical payload"
    using assms(2) False by (auto simp: partial_event_def split: option.splits)
  obtain index where ix: "exactAnyInt (oget ev ''partial_image_index'') = Some index" "0 \<le> index" "index < maxPartialImages"
    using assms(2) False pl by (auto simp: partial_event_def not_le split: option.splits if_splits)
  obtain e sink where em: "emit_partial io req pre payload index (is_sink st) = (e, sink)"
    by (cases "emit_partial io req pre payload index (is_sink st)")
  have "st' = st\<lparr>is_sink := sink\<rparr>"
    using assms(2) pl ix em by (cases e) (auto simp: partial_event_def as_str_def)
  then have p: "canonical payload" "0 \<le> index" "index < maxPartialImages"
      "emit_partial io req pre payload index (is_sink st) = (e, is_sink st')"
    using pl ix em by simp_all
  let ?ev = "imageAPIEvent (pre @ ''.partial_image'') payload req index None [] (ii_created io (fst (is_sink st)))"
  have "preview pre ?ev" using p(1-3) by (auto simp: preview_def api_event_fields)
  moreover have "snd (is_sink st') = snd (is_sink st) \<or> snd (is_sink st') = snd (is_sink st) @ [?ev]"
    using p(4) emit_sink [of io ?ev "is_sink st" e "is_sink st'"] unfolding emit_partial_def by blast
  ultimately show ?thesis using assms(1) by (auto simp: previews_sent_def)
qed (use assms(1) in simp)

lemma image_consume_previews:
  assumes "previews_sent pre st" "image_consume lib (emit_partial io req pre) data st = (err, st')"
  shows "previews_sent pre st'"
proof -
  have same: "previews_sent pre (st\<lparr>is_events := n\<rparr>)" "previews_sent pre (st\<lparr>is_events := n, is_items := xs\<rparr>)"
      "previews_sent pre (st\<lparr>is_events := n, is_completed := c\<rparr>)" for n xs c
    using assms(1) by (simp_all add: previews_sent_def)
  show ?thesis
    using assms same partial_event_previews [OF same(1)]
    by (auto simp: image_consume_def image_event_def Let_def split: if_splits option.splits)
qed

interpretation image_previews: consumer_contract "image_consume lib (emit_partial io req pre)" "previews_sent pre" "\<lambda>_. previews_sent pre"
  by unfold_locales (auto dest: image_consume_previews)

lemma parse_previews:
  assumes "parseImageSSEStream lib quote (emit_partial io req pre) (n, []) body = (res, sink)"
  shows "\<forall>ev\<in>set (snd sink). preview pre ev"
proof -
  obtain chunks fin where l: "limit_reads (maxImageSSEBytes + 1) (fst body) (snd body) = (chunks, fin)"
    by (cases "limit_reads (maxImageSSEBytes + 1) (fst body) (snd body)")
  let ?st0 = "\<lparr>is_items = [], is_completed = None, is_events = 0, is_sink = (n, [])\<rparr>"
  obtain err st where r: "readSSE maxImageSSEEventBytes (image_consume lib (emit_partial io req pre)) ?st0 chunks fin = (err, st)" by fastforce
  have "previews_sent pre ?st0" by (simp add: previews_sent_def)
  from image_previews.readSSE_result [OF this r] have "previews_sent pre st" by blast
  moreover have "sink = is_sink st"
    using assms unfolding parseImageSSEStream_def Let_def l r case_prod_conv by (auto split: option.splits if_splits)
  ultimately show ?thesis by (simp add: previews_sent_def)
qed

section \<open>Several images\<close>

abbreviation slot_bracket :: "upstream_call list \<Rightarrow> handler_event list" where
  "slot_bracket calls \<equiv> Acquired_slot # map Sent calls @ [Released_slot]"

lemma generateOneImage_cases:
  assumes "generateOneImage io req i entry pool = (res, entry', pool', tr)"
  shows "(tr = [] \<and> (\<exists>f. res = Inl f) \<or> (\<exists>calls. tr = slot_bracket calls)) \<and>
    (\<forall>r. res = Inr r \<longrightarrow> canonical (gi_Base64 (ir_Image r)))"
proof -
  have gen: "generate_answer io i resp = Inr r \<Longrightarrow> canonical (gi_Base64 (ir_Image r))" for resp r
    using parse_result_ok [of "ii_lib io" "ii_quote io" no_partial "()" "hi_cut (ii_call io i) (rs_Body resp)" r]
    by (cases "parseImageSSEStream (ii_lib io) (ii_quote io) no_partial () (hi_cut (ii_call io i) (rs_Body resp))")
      (auto simp: generate_answer_def parseImageGenerationSSE_def split: if_splits sum.splits)
  have nil: "\<exists>calls. [Acquired_slot, Released_slot] = slot_bracket calls" by (rule exI [of _ "[]"]) simp
  show ?thesis
    using assms gen nil
    by (auto simp: generateOneImage_def Let_def split: option.splits prod.splits sum.splits)
qed

lemma generate_images_ok:
  assumes "generate_images io req i n entry pool = (res, entry', pool', tr)"
  shows "(\<exists>css. length css \<le> n \<and> tr = concat (map slot_bracket css) \<and> (\<forall>rs. res = Inr rs \<longrightarrow> length css = n)) \<and>
    (\<forall>rs. res = Inr rs \<longrightarrow> length rs = n \<and> (\<forall>r\<in>set rs. canonical (gi_Base64 (ir_Image r))))"
  using assms
proof (induction n arbitrary: i entry pool res entry' pool' tr)
  case (Suc n)
  obtain r1 e1 p1 t1 where one: "generateOneImage io req i entry pool = (r1, e1, p1, t1)" by (metis prod_cases4)
  note c = generateOneImage_cases [OF one]
  show ?case
  proof (cases r1)
    case (Inl f)
    then have "res = Inl f" "tr = t1" using Suc.prems one by simp_all
    moreover have "\<exists>css. length css \<le> Suc n \<and> t1 = concat (map slot_bracket css)"
    proof (cases "t1 = []")
      case False
      then obtain calls where "t1 = slot_bracket calls" using c by blast
      then show ?thesis by (intro exI [of _ "[calls]"]) simp
    qed auto
    ultimately show ?thesis by simp
  next
    case (Inr r)
    then obtain calls where t1: "t1 = slot_bracket calls" using c by blast
    obtain r2 e2 p2 t2 where two: "generate_images io req (Suc i) n e1 p1 = (r2, e2, p2, t2)" by (metis prod_cases4)
    from Suc.IH [OF two] obtain css where css: "length css \<le> n" "t2 = concat (map slot_bracket css)" "\<forall>rs. r2 = Inr rs \<longrightarrow> length css = n"
      and rs: "\<forall>rs. r2 = Inr rs \<longrightarrow> length rs = n \<and> (\<forall>r\<in>set rs. canonical (gi_Base64 (ir_Image r)))" by blast
    have "tr = t1 @ t2" "res = (case r2 of Inl f \<Rightarrow> Inl f | Inr rs \<Rightarrow> Inr (r # rs))"
      using Suc.prems one two Inr by (auto split: sum.splits)
    moreover have "t1 @ t2 = concat (map slot_bracket (calls # css))" "length (calls # css) \<le> Suc n"
      using css t1 by simp_all
    moreover have "r2 = Inr rs \<Longrightarrow> length (calls # css) = Suc n" for rs using css(3) by simp
    ultimately show ?thesis using c Inr rs by - (rule conjI, rule exI [of _ "calls # css"], auto split: sum.splits)
  qed
qed auto

section \<open>Properties\<close>

text \<open>C17: A client that streams an image gets previews first, each with canonical base64 and an index from 0 to
  2, and then at most one closing event: the completed image, again canonical, or the error event.
  Nothing follows either of them, and an error never follows a completed image.\<close>

theorem image_stream_protocol:
  "\<exists>previews tail. fst (stream_image_body io req pre resp entry) = previews @ tail \<and> list_all (preview pre) previews \<and>
    (tail = [] \<or> tail = [imageStreamError] \<or>
     (\<exists>ev p. tail = [ev] \<and> event_type ev = pre @ ''.completed'' \<and> oget ev ''b64_json'' = JStr p \<and> canonical p))"
proof -
  let ?body = "hi_cut (ii_call io 0) (rs_Body resp)"
  obtain out entry' where run: "stream_image_body io req pre resp entry = (out, entry')" by fastforce
  obtain res sink where parse: "parseImageSSEStream (ii_lib io) (ii_quote io) (emit_partial io req pre) (0, []) ?body = (res, sink)"
    by (cases "parseImageSSEStream (ii_lib io) (ii_quote io) (emit_partial io req pre) (0, []) ?body")
  note previews = parse_previews [OF parse]
  show ?thesis
  proof (cases res)
    case (Inl err)
    obtain e sink' where em: "emit io imageStreamError (Suc (fst sink), snd sink) = (e, sink')"
      by (cases "emit io imageStreamError (Suc (fst sink), snd sink)")
    have "out = snd sink \<or> out = snd sink @ [imageStreamError]"
      using run emit_sink [OF em] by (auto simp: stream_image_body_def parse Inl em Let_def split: if_splits)
    then show ?thesis using previews run by - (rule exI [of _ "snd sink"], auto simp: list_all_iff)
  next
    case (Inr r)
    let ?usage = "aggregateImageUsage [case ir_Usage r of Some u \<Rightarrow> u | None \<Rightarrow> []]"
    let ?ev = "imageAPIEvent (pre @ ''.completed'') (gi_Base64 (ir_Image r)) req (- 1) ?usage (ir_Metadata r) (ii_created io (fst sink))"
    obtain e sink' where em: "emit io ?ev sink = (e, sink')" by (cases "emit io ?ev sink")
    have "out = snd sink'"
      using run by (auto simp: stream_image_body_def parse Inr em Let_def split: option.splits)
    then have "out = snd sink \<or> out = snd sink @ [?ev]" using emit_sink [OF em] by auto
    moreover have "canonical (gi_Base64 (ir_Image r))" by (rule parse_result_ok [OF parse [unfolded Inr]])
    ultimately show ?thesis
      using previews run by - (rule exI [of _ "snd sink"], auto simp: api_event_fields list_all_iff)
  qed
qed


text \<open>The usage of a request for several images is the sum over its images: each count, and each detail of
  each group, is the total of the values that are non-negative integers, modulo 2^64, and is absent
  when no image reports one.\<close>

theorem image_usage_is_total:
  "(k \<in> set usage_counts \<longrightarrow>
      oget (fold mergeNumericUsage us []) k = usage_total (map (\<lambda>u. usage_number (oget u k)) us)) \<and>
   (g \<in> set usage_groups \<and> d \<in> set usage_details \<longrightarrow>
      group_detail (fold mergeNumericUsage us []) g d = usage_total (map (\<lambda>u. usage_number (group_detail u g d)) us))"
proof (intro conjI impI)
  assume k: "k \<in> set usage_counts"
  show "oget (fold mergeNumericUsage us []) k = usage_total (map (\<lambda>u. usage_number (oget u k)) us)"
    using fold_usage [of "\<lambda>m. oget m k" "\<lambda>u. usage_number (oget u k)" us "[]"] oget_mergeNumericUsage [OF k]
    by (simp add: fold_add_usage oget_def)
next
  assume gd: "g \<in> set usage_groups \<and> d \<in> set usage_details"
  show "group_detail (fold mergeNumericUsage us []) g d = usage_total (map (\<lambda>u. usage_number (group_detail u g d)) us)"
    using fold_usage [of "\<lambda>m. group_detail m g d" "\<lambda>u. usage_number (group_detail u g d)" us "[]"]
      detail_mergeNumericUsage gd
    by (simp add: fold_add_usage group_detail_def oget_def)
qed

theorem image_usage_is_total_witness:
  "oget (fold mergeNumericUsage [[(''input_tokens'', JFloat 3)], [(''input_tokens'', JFloat 4)]] []) ''input_tokens'' = JInt64 7"
proof -
  let ?us = "[[(''input_tokens'', JFloat 3)], [(''input_tokens'', JFloat 4)]]"
  have "usage_total (map (\<lambda>u. usage_number (oget u ''input_tokens'')) ?us) = JInt64 7"
    by (simp add: usage_total_def usage_number_def oget_def trunc_rat_def List.map_filter_def wrap64_def)
  then show ?thesis using image_usage_is_total [of "''input_tokens''" ?us] by (simp add: usage_counts_def)
qed

end
