(* ===== verification/WebSocket.thy ===== *)
theory WebSocket
  imports Handlers Failover
begin

text \<open>
  The handshake of a responses WebSocket, \<^verbatim>\<open>src/websocket.go\<close>: \<open>handleResponsesWebSocket\<close> up to the
  upgrade of the client, the failover loop of \<open>dialResponsesWebSocket\<close> and the headers it dials with.
  The loop is an instance of the shared failover loop. The WebSocket library, the clock, the
  credentials and the catalogs are the record \<open>ws_env\<close>.
\<close>

section \<open>Definitions\<close>

definition responsesWebSocketBeta :: string where
  "responsesWebSocketBeta = ''responses_websockets=2026-02-06''"

definition responsesWebSocketResponseHeaders :: "string list" where
  "responsesWebSocketResponseHeaders =
     [''x-codex-turn-state'', ''x-models-etag'', ''x-reasoning-included'', ''openai-model'']"

definition isWebSocketUpgrade :: "header \<Rightarrow> bool" where
  "isWebSocketUpgrade r \<longleftrightarrow>
     EqualFold (TrimSpace (Header_Get r ''Upgrade'')) ''websocket'' \<and> headerHasToken (Header_Get r ''Connection'') ''upgrade''"

subsection \<open>Headers of the upstream handshake\<close>

definition passed_headers :: "string list" where
  "passed_headers =
     [codexBetaFeaturesHeader, ''x-codex-turn-metadata'', ''x-codex-parent-thread-id'', ''x-codex-window-id'',
      ''x-codex-installation-id'', ''x-responsesapi-include-timing-metrics'', ''x-openai-internal-codex-responses-lite'',
      ''x-openai-subagent'', ''x-openai-memgen-request'', ''x-client-request-id'', ''traceparent'', ''tracestate'']"

definition pass_header :: "header \<Rightarrow> string \<Rightarrow> header \<Rightarrow> header" where
  "pass_header r key headers =
     (let values = Header_Values r key
      in if length values > 0 then AList.update (CanonicalHeaderKey key) values headers else headers)"

definition ws_identity :: "config \<Rightarrow> header \<Rightarrow> header" where
  "ws_identity cfg h =
     (let h1 = Header_Set h ''originator'' (valueOr (TrimSpace (cfg_upstreamOriginator cfg)) ''codex-auth-broker'')
      in if Header_Get h1 ''originator'' = ''codex-auth-broker''
         then Header_Set h1 ''User-Agent'' (''codex-auth-broker/'' @ valueOr (cfg_version cfg) ''dev'')
         else Header_Set h1 ''User-Agent'' (Header_Get h1 ''originator'' @ ''/'' @ cfg_modelsClientVersion cfg))"

definition responsesWebSocketHeaders :: "config \<Rightarrow> header \<Rightarrow> accessMaterial \<Rightarrow> header" where
  "responsesWebSocketHeaders cfg r access =
     (let h1 = Header_Set [] ''Authorization'' (''Bearer '' @ am_AccessToken access);
          h2 = Header_Set h1 ''chatgpt-account-id'' (am_AccountID access);
          h3 = fold (pass_header r) passed_headers (ws_identity cfg h2);
          h4 = setCacheRoutingHeaders h3 r (cfg_promptCacheKey cfg);
          routingHint = normalizeCodexRoutingHint (Header_Get r codexRoutingHintHeader);
          h5 = (if routingHint \<noteq> [] then Header_Set h4 codexRoutingHintHeader routingHint else h4)
      in Header_Set h5 ''OpenAI-Beta'' (mergeHeaderToken (Header_Get r ''OpenAI-Beta'') responsesWebSocketBeta))"

text \<open>A priority hint is downgraded for an account whose catalog does not advertise the tier.\<close>

definition dial_header :: "config \<Rightarrow> header \<Rightarrow> accessMaterial \<Rightarrow> upstreamModel list option \<Rightarrow> header" where
  "dial_header cfg r access catalog =
     (let headers = responsesWebSocketHeaders cfg r access;
          hint = Header_Get headers codexRoutingHintHeader
      in if HasSuffix hint '';tier=priority''
         then (let model = TrimPrefix (TrimSuffix hint '';tier=priority'') ''model=''
               in if \<not> accountSupportsTier catalog model ''priority''
                  then Header_Set headers codexRoutingHintHeader (buildCodexRoutingHint model []) else headers)
         else headers)"

subsection \<open>Dialing\<close>

text \<open>A dial that fails may come with the response of the rejected handshake.\<close>

record ws_env =
  we_ctx :: "nat \<Rightarrow> string option"
  we_now :: "nat \<Rightarrow> gotime"
  we_current :: "nat \<Rightarrow> nat \<Rightarrow> string + accessMaterial"
  we_ctxAuth :: "nat \<Rightarrow> string option"
  we_authNow :: "nat \<Rightarrow> gotime \<times> gotime"
  we_catalog :: "nat \<Rightarrow> nat \<Rightarrow> upstreamModel list option"
  we_dial :: "nat \<Rightarrow> nat \<Rightarrow> (string \<times> http_response option) + http_response"
  we_dialNow :: "nat \<Rightarrow> gotime"
  we_accept :: bool

record ws_call =
  wc_account :: nat
  wc_header :: header
  wc_reply :: "(string \<times> http_response option) + http_response"

datatype dial_error = AllCoolingDown | DialError string

type_synonym dial_state = "http_response option \<times> dial_error option"

type_synonym dial_result = "(http_response option \<times> dial_error) + (nat \<times> http_response)"

definition dial_send ::
    "golib \<Rightarrow> ws_env \<Rightarrow> nat \<Rightarrow> nat \<Rightarrow> header \<Rightarrow> accountPool \<Rightarrow> (dial_state, dial_result) outcome \<times> accountPool \<times> ws_call list" where
  "dial_send lib env k i headers p1 =
     (let reply = we_dial env k i;
          call = \<lparr>wc_account = i, wc_header = headers, wc_reply = reply\<rparr>
      in (case reply of
            Inr response \<Rightarrow> (Answer (Inr (i, response)), clearAt i p1, [call])
          | Inl (err, None) \<Rightarrow> (Answer (Inl (None, DialError err)), p1, [call])
          | Inl (err, Some response) \<Rightarrow>
              (if rs_StatusCode response \<noteq> 429 then (Answer (Inl (Some response, DialError err)), p1, [call])
               else (let body = take (64 * 1024) (rs_Body response);
                         dialNow = we_dialNow env k;
                         until = fst (deriveCooldown lib (Some (Header_Get (rs_Header response))) body dialNow)
                     in (Again (Some response, Some (DialError err)), coolAt i dialNow until p1, [call])))))"

definition dial_attempt ::
    "golib \<Rightarrow> config \<Rightarrow> ws_env \<Rightarrow> header \<Rightarrow> nat \<Rightarrow> dial_state \<Rightarrow> accountPool \<Rightarrow>
     (dial_state, dial_result) outcome \<times> accountPool \<times> ws_call list" where
  "dial_attempt lib cfg env r k st pool =
     (case we_ctx env k of
        Some err \<Rightarrow> (Answer (Inl (None, DialError err)), pool, [])
      | None \<Rightarrow>
          (case pick pool (we_now env k) of
             (Inl _, p1) \<Rightarrow> (Stop, p1, [])
           | (Inr i, p1) \<Rightarrow>
               (case we_current env k i of
                  Inl err \<Rightarrow>
                    (case we_ctxAuth env k of
                       Some ctxErr \<Rightarrow> (Answer (Inl (None, DialError ctxErr)), p1, [])
                     | None \<Rightarrow>
                         (Again (fst st, Some (DialError err)),
                          coolAt i (fst (we_authNow env k)) (snd (we_authNow env k) + authErrorCooldown) p1, []))
                | Inr access \<Rightarrow> dial_send lib env k i (dial_header cfg r access (we_catalog env k i)) p1)))"

definition dial_final :: "dial_state \<Rightarrow> accountPool \<Rightarrow> dial_result" where
  "dial_final st pool = Inl (fst st, case snd st of Some err \<Rightarrow> err | None \<Rightarrow> AllCoolingDown)"

definition dialResponsesWebSocket ::
    "golib \<Rightarrow> config \<Rightarrow> ws_env \<Rightarrow> header \<Rightarrow> accountPool \<Rightarrow> dial_result \<times> accountPool \<times> ws_call list" where
  "dialResponsesWebSocket lib cfg env r pool =
     (let n = pool_size pool
      in if n = 0 then (Inl (None, DialError ''no Codex accounts configured''), pool, [])
         else failover (dial_attempt lib cfg env r) dial_final n 0 (None, None) pool)"

subsection \<open>The handler up to the upgrade\<close>

definition ws_failure :: "http_io \<Rightarrow> dispatchFailure \<Rightarrow> answer" where
  "ws_failure io fail = fst (fail_reply io fail ([], None))"

definition dial_failure_answer :: "http_io \<Rightarrow> accountPool \<Rightarrow> http_response option \<Rightarrow> dial_error \<Rightarrow> answer" where
  "dial_failure_answer io pool response err =
     (let status = (case response of
                      Some resp \<Rightarrow> if rs_StatusCode resp \<ge> 400 then rs_StatusCode resp else 502
                    | None \<Rightarrow> 502)
      in if err = AllCoolingDown \<or> status = 429
         then ws_failure io ((failure 429 ''all Codex accounts are cooling down'')\<lparr>df_retryAfter := soonestReset pool\<rparr>)
         else writeProxyError status [] ''upstream WebSocket handshake failed'')"

definition upgrade_header :: "header \<Rightarrow> header" where
  "upgrade_header response =
     fold (\<lambda>key w. let value = Header_Get response key in if value \<noteq> [] then Header_Set w key value else w)
       responsesWebSocketResponseHeaders []"

datatype ws_handshake = Refused answer | Aborted | Connected nat header

datatype ws_event = Slot_taken | Dialed ws_call | Slot_returned

definition handleResponsesWebSocket :: "http_io \<Rightarrow> ws_env \<Rightarrow> accountPool \<Rightarrow> ws_handshake \<times> accountPool \<times> ws_event list" where
  "handleResponsesWebSocket io env pool =
     (if \<not> authorized io then (Refused (writeProxyError 401 [] ''unauthorized''), pool, [])
      else if \<not> isWebSocketUpgrade (hi_header io)
      then (Refused (writeProxyError 426 [] ''use a WebSocket Upgrade request or POST /v1/responses''), pool, [])
      else (case hi_slot io of
              Some (err, now) \<Rightarrow> (Refused (ws_failure io (acquireUpstreamSlot_failure err now)), pool, [])
            | None \<Rightarrow>
                (case dialResponsesWebSocket (lib_of io) (base_cfg io) env (hi_header io) pool of
                   (Inl (response, err), pool', calls) \<Rightarrow>
                     (Refused (dial_failure_answer io pool' response err), pool',
                      Slot_taken # map Dialed calls @ [Slot_returned])
                 | (Inr (i, response), pool', calls) \<Rightarrow>
                     (if \<not> we_accept env then (Aborted, pool', Slot_taken # map Dialed calls @ [Slot_returned])
                      else (Connected i (upgrade_header (rs_Header response)), pool', Slot_taken # map Dialed calls)))))"

section \<open>Attempts\<close>

definition dial_limited :: "ws_call \<Rightarrow> bool" where
  "dial_limited c \<longleftrightarrow> (\<exists>err resp. wc_reply c = Inl (err, Some resp) \<and> rs_StatusCode resp = 429)"

lemma dial_send_cases:
  assumes "dial_send lib env k i h p1 = (out, p2, calls)"
  obtains (up) resp call where "we_dial env k i = Inr resp" "out = Answer (Inr (i, resp))" "p2 = clearAt i p1"
      "calls = [call]" "call = \<lparr>wc_account = i, wc_header = h, wc_reply = Inr resp\<rparr>"
  | (failed) err resp call where "we_dial env k i = Inl (err, resp)" "out = Answer (Inl (resp, DialError err))" "p2 = p1"
      "\<And>r. resp = Some r \<Longrightarrow> rs_StatusCode r \<noteq> 429"
      "calls = [call]" "call = \<lparr>wc_account = i, wc_header = h, wc_reply = Inl (err, resp)\<rparr>"
  | (limited) err resp call until where "we_dial env k i = Inl (err, Some resp)" "rs_StatusCode resp = 429"
      "out = Again (Some resp, Some (DialError err))" "p2 = coolAt i (we_dialNow env k) until p1"
      "we_dialNow env k + minCooldown \<le> until"
      "calls = [call]" "call = \<lparr>wc_account = i, wc_header = h, wc_reply = Inl (err, Some resp)\<rparr>"
proof (cases "we_dial env k i")
  case (Inr resp)
  then show thesis using assms by (intro up) (auto simp: dial_send_def)
next
  case (Inl er)
  obtain err r where er: "er = (err, r)" by (cases er)
  show thesis
  proof (cases "\<exists>resp. r = Some resp \<and> rs_StatusCode resp = 429")
    case False
    have "dial_send lib env k i h p1 =
        (Answer (Inl (r, DialError err)), p1, [\<lparr>wc_account = i, wc_header = h, wc_reply = Inl (err, r)\<rparr>])"
      using False Inl er by (cases r) (simp_all add: dial_send_def)
    then show thesis using assms False Inl er by (intro failed [of err r]) auto
  next
    case True
    then obtain resp where resp: "r = Some resp" "rs_StatusCode resp = 429" by blast
    show thesis
      by (rule limited [of err resp "fst (deriveCooldown lib (Some (Header_Get (rs_Header resp))) (take (64 * 1024) (rs_Body resp)) (we_dialNow env k))"])
        (use assms Inl er resp deriveCooldown_sane in \<open>auto simp: dial_send_def Let_def sane_deadline_def\<close>)
  qed
qed

interpretation dial: failover_loop "dial_attempt lib cfg env r" dial_limited
proof
  fix k s p p1 s1 x calls
  let ?at = "dial_attempt lib cfg env r k s p"
  show "?at = (Stop, p1, calls) \<Longrightarrow> calls = []"
    by (auto simp: dial_attempt_def split: option.splits prod.splits sum.splits elim: dial_send_cases)
  show "?at = (Answer x, p1, calls) \<Longrightarrow> length calls \<le> 1"
    by (auto simp: dial_attempt_def split: option.splits prod.splits sum.splits elim: dial_send_cases)
  show "?at = (Again s1, p1, calls) \<Longrightarrow> length calls \<le> 1 \<and> (\<forall>c\<in>set calls. dial_limited c)"
    by (auto simp: dial_attempt_def dial_limited_def split: option.splits prod.splits sum.splits elim: dial_send_cases)
qed

section \<open>Header blocks\<close>

lemma Header_Values_Set:
  "Header_Values (Header_Set h k v) k' = (if CanonicalHeaderKey k' = CanonicalHeaderKey k then [v] else Header_Values h k')"
  by (simp add: Header_Values_def Header_Set_def)

lemma Header_Get_Values: "Header_Get h k = (case Header_Values h k of [] \<Rightarrow> [] | v # _ \<Rightarrow> v)"
  by (auto simp: Header_Get_def Header_Values_def split: option.split list.split)

lemma Header_Values_pass:
  "CanonicalHeaderKey k \<notin> CanonicalHeaderKey ` set ks \<Longrightarrow> Header_Values (fold (pass_header r) ks h) k = Header_Values h k"
proof (induction ks arbitrary: h)
  case (Cons x ks)
  then have "Header_Values (pass_header r x h) k = Header_Values h k"
    by (auto simp: pass_header_def Header_Values_def Let_def)
  then show ?case using Cons by simp
qed simp

definition header_keys :: "header \<Rightarrow> string set" where
  "header_keys h = set (map fst h)"

lemma header_keys_simps [simp]:
  "header_keys [] = {}"
  "header_keys (AList.update k vs h) = insert k (header_keys h)"
  "header_keys (Header_Set h x v) = insert (CanonicalHeaderKey x) (header_keys h)"
  by (simp_all add: header_keys_def Header_Set_def dom_update)

lemma keys_pass: "header_keys (fold (pass_header r) ks h) \<subseteq> CanonicalHeaderKey ` set ks \<union> header_keys h"
proof (induction ks arbitrary: h)
  case (Cons x ks)
  have "header_keys (pass_header r x h) \<subseteq> insert (CanonicalHeaderKey x) (header_keys h)"
    by (auto simp: pass_header_def Let_def)
  then show ?case using Cons [of "pass_header r x h"] by auto
qed simp

definition routing_keys :: "string list" where
  "routing_keys = [''session-id'', ''thread-id'', ''x-codex-turn-state'']"

lemma setCacheRoutingHeaders_frame:
  "CanonicalHeaderKey k \<notin> CanonicalHeaderKey ` set routing_keys \<Longrightarrow>
     Header_Values (setCacheRoutingHeaders h r key) k = Header_Values h k"
  "header_keys (setCacheRoutingHeaders h r key) \<subseteq> CanonicalHeaderKey ` set routing_keys \<union> header_keys h"
  by (auto simp: setCacheRoutingHeaders_def routing_keys_def Let_def Header_Values_Set)

lemma ws_identity_frame:
  "CanonicalHeaderKey k \<notin> CanonicalHeaderKey ` {''originator'', ''User-Agent''} \<Longrightarrow>
     Header_Values (ws_identity cfg h) k = Header_Values h k"
  "header_keys (ws_identity cfg h) \<subseteq> CanonicalHeaderKey ` {''originator'', ''User-Agent''} \<union> header_keys h"
  by (auto simp: ws_identity_def Let_def Header_Values_Set)

text \<open>Every header the broker ever sends with the handshake.\<close>

definition dial_keys :: "string list" where
  "dial_keys = [''Authorization'', ''chatgpt-account-id'', ''originator'', ''User-Agent'', codexRoutingHintHeader, ''OpenAI-Beta''] @
     routing_keys @ passed_headers"

lemma own_keys:
  assumes "k \<in> {''Authorization'', ''chatgpt-account-id''}"
  shows "CanonicalHeaderKey k \<notin> CanonicalHeaderKey ` set (codexRoutingHintHeader # ''OpenAI-Beta'' # routing_keys @ passed_headers)"
    "CanonicalHeaderKey k \<notin> CanonicalHeaderKey ` {''originator'', ''User-Agent''}"
proof -
  have "list_all (\<lambda>x. x \<notin> set (map CanonicalHeaderKey
      (''originator'' # ''User-Agent'' # codexRoutingHintHeader # ''OpenAI-Beta'' # routing_keys @ passed_headers)))
      (map CanonicalHeaderKey [''Authorization'', ''chatgpt-account-id''])"
    by code_simp
  then show "CanonicalHeaderKey k \<notin> CanonicalHeaderKey ` set (codexRoutingHintHeader # ''OpenAI-Beta'' # routing_keys @ passed_headers)"
    "CanonicalHeaderKey k \<notin> CanonicalHeaderKey ` {''originator'', ''User-Agent''}"
    using assms by auto
qed

lemma Authorization_not_account: "CanonicalHeaderKey ''Authorization'' \<noteq> CanonicalHeaderKey ''chatgpt-account-id''"
  by code_simp

definition own_headers :: "accessMaterial \<Rightarrow> header" where
  "own_headers access =
     Header_Set (Header_Set [] ''Authorization'' (''Bearer '' @ am_AccessToken access)) ''chatgpt-account-id'' (am_AccountID access)"

definition client_headers :: "config \<Rightarrow> header \<Rightarrow> header \<Rightarrow> header" where
  "client_headers cfg r h =
     setCacheRoutingHeaders (fold (pass_header r) passed_headers (ws_identity cfg h)) r (cfg_promptCacheKey cfg)"

lemma client_headers_frame:
  assumes "k \<in> {''Authorization'', ''chatgpt-account-id''}"
  shows "Header_Values (client_headers cfg r h) k = Header_Values h k"
  using own_keys [OF assms]
  by (simp add: client_headers_def setCacheRoutingHeaders_frame Header_Values_pass ws_identity_frame image_Un)

lemma client_headers_keys:
  "header_keys (client_headers cfg r h) \<subseteq> CanonicalHeaderKey ` set dial_keys \<union> header_keys h"
proof -
  let ?h3 = "fold (pass_header r) passed_headers (ws_identity cfg h)"
  have "header_keys ?h3 \<subseteq> CanonicalHeaderKey ` set dial_keys \<union> header_keys h"
    using keys_pass [of r passed_headers "ws_identity cfg h"] ws_identity_frame(2) [of cfg h]
    by (auto simp: dial_keys_def)
  moreover have "header_keys (client_headers cfg r h) \<subseteq> CanonicalHeaderKey ` set routing_keys \<union> header_keys ?h3"
    unfolding client_headers_def by (rule setCacheRoutingHeaders_frame(2))
  moreover have "CanonicalHeaderKey ` set routing_keys \<subseteq> CanonicalHeaderKey ` set dial_keys"
    by (rule image_mono) (auto simp: dial_keys_def)
  ultimately show ?thesis by blast
qed

lemma dial_header_shape:
  obtains hints where "set (map fst hints) \<subseteq> {codexRoutingHintHeader, ''OpenAI-Beta''}"
    and "dial_header cfg r access catalog = fold (\<lambda>(k, v) h. Header_Set h k v) hints (client_headers cfg r (own_headers access))"
proof -
  let ?h4 = "client_headers cfg r (own_headers access)"
  let ?put = "fold (\<lambda>(k, v) h. Header_Set h k v)"
  obtain hints where base: "responsesWebSocketHeaders cfg r access = ?put hints ?h4"
      "set (map fst hints) \<subseteq> {codexRoutingHintHeader, ''OpenAI-Beta''}"
  proof (rule that)
    let ?hint = "normalizeCodexRoutingHint (Header_Get r codexRoutingHintHeader)"
    let ?beta = "mergeHeaderToken (Header_Get r ''OpenAI-Beta'') responsesWebSocketBeta"
    let ?hints = "(if ?hint \<noteq> [] then [(codexRoutingHintHeader, ?hint)] else []) @ [(''OpenAI-Beta'', ?beta)]"
    show "responsesWebSocketHeaders cfg r access = ?put ?hints ?h4"
      by (simp add: responsesWebSocketHeaders_def client_headers_def own_headers_def Let_def)
    show "set (map fst ?hints) \<subseteq> {codexRoutingHintHeader, ''OpenAI-Beta''}" by auto
  qed
  have "dial_header cfg r access catalog = ?put hints ?h4 \<or>
      (\<exists>v. dial_header cfg r access catalog = Header_Set (?put hints ?h4) codexRoutingHintHeader v)"
    unfolding dial_header_def Let_def base(1) by auto
  then show thesis
  proof
    assume "dial_header cfg r access catalog = ?put hints ?h4"
    then show thesis using that base(2) by blast
  next
    assume "\<exists>v. dial_header cfg r access catalog = Header_Set (?put hints ?h4) codexRoutingHintHeader v"
    then obtain v where "dial_header cfg r access catalog = ?put (hints @ [(codexRoutingHintHeader, v)]) ?h4" by auto
    then show thesis using that [of "hints @ [(codexRoutingHintHeader, v)]"] base(2) by simp
  qed
qed

lemma put_headers:
  "CanonicalHeaderKey k \<notin> CanonicalHeaderKey ` set (map fst hints) \<Longrightarrow>
     Header_Values (fold (\<lambda>(k, v) h. Header_Set h k v) hints h) k = Header_Values h k"
  "header_keys (fold (\<lambda>(k, v) h. Header_Set h k v) hints h) = CanonicalHeaderKey ` set (map fst hints) \<union> header_keys h"
  by (induction hints arbitrary: h) (auto simp: Header_Values_Set)

lemma dial_header_own:
  "Header_Values (dial_header cfg r access catalog) ''Authorization'' = [''Bearer '' @ am_AccessToken access]"
  "Header_Values (dial_header cfg r access catalog) ''chatgpt-account-id'' = [am_AccountID access]"
proof -
  obtain hints where h: "set (map fst hints) \<subseteq> {codexRoutingHintHeader, ''OpenAI-Beta''}"
    "dial_header cfg r access catalog = fold (\<lambda>(k, v) h. Header_Set h k v) hints (client_headers cfg r (own_headers access))"
    by (rule dial_header_shape)
  have eq: "Header_Values (dial_header cfg r access catalog) k = Header_Values (own_headers access) k"
    if k: "k \<in> {''Authorization'', ''chatgpt-account-id''}" for k
  proof -
    have "CanonicalHeaderKey k \<notin> CanonicalHeaderKey ` {codexRoutingHintHeader, ''OpenAI-Beta''}"
      using own_keys(1) [OF k] by simp
    then have "CanonicalHeaderKey k \<notin> CanonicalHeaderKey ` set (map fst hints)" using h(1) by blast
    then show ?thesis unfolding h(2) by (subst put_headers(1)) (simp_all only: client_headers_frame [OF k] not_False_eq_True)
  qed
  show "Header_Values (dial_header cfg r access catalog) ''Authorization'' = [''Bearer '' @ am_AccessToken access]"
    "Header_Values (dial_header cfg r access catalog) ''chatgpt-account-id'' = [am_AccountID access]"
    using Authorization_not_account by (simp_all add: eq own_headers_def Header_Values_Set)
qed

lemma dial_header_keys: "header_keys (dial_header cfg r access catalog) \<subseteq> CanonicalHeaderKey ` set dial_keys"
proof -
  obtain hints where h: "set (map fst hints) \<subseteq> {codexRoutingHintHeader, ''OpenAI-Beta''}"
    "dial_header cfg r access catalog = fold (\<lambda>(k, v) h. Header_Set h k v) hints (client_headers cfg r (own_headers access))"
    by (rule dial_header_shape)
  have "CanonicalHeaderKey ` set (map fst hints) \<subseteq> CanonicalHeaderKey ` set dial_keys"
    using h(1) by (intro image_mono) (auto simp: dial_keys_def)
  moreover have "header_keys (own_headers access) \<subseteq> CanonicalHeaderKey ` set dial_keys"
    by (simp add: own_headers_def dial_keys_def)
  ultimately show ?thesis
    using client_headers_keys [of cfg r "own_headers access"] unfolding h(2) put_headers(2) by blast
qed

lemma upgrade_header_keys: "header_keys (upgrade_header response) \<subseteq> CanonicalHeaderKey ` set responsesWebSocketResponseHeaders"
proof -
  have "header_keys (fold (\<lambda>key w. let value = Header_Get response key in if value \<noteq> [] then Header_Set w key value else w) ks w)
      \<subseteq> CanonicalHeaderKey ` set ks \<union> header_keys w" for ks w
  proof (induction ks arbitrary: w)
    case (Cons k ks)
    show ?case
      using Cons [of "if Header_Get response k \<noteq> [] then Header_Set w k (Header_Get response k) else w"]
      by (auto simp: Let_def split: if_splits)
  qed simp
  from this [of responsesWebSocketResponseHeaders "[]"] show ?thesis by (simp add: upgrade_header_def)
qed

section \<open>Who is dialed\<close>

text \<open>What every dial of the broker carries.\<close>

definition dial_sound :: "config \<Rightarrow> ws_env \<Rightarrow> header \<Rightarrow> ws_call \<Rightarrow> bool" where
  "dial_sound cfg env r c \<longleftrightarrow>
     (\<exists>k access. we_current env k (wc_account c) = Inr access \<and>
        wc_header c = dial_header cfg r access (we_catalog env k (wc_account c)))"

lemma dial_attempt_sound:
  assumes "dial_attempt lib cfg env r k s p = (out, p1, calls)"
  shows "\<forall>c\<in>set calls. dial_sound cfg env r c"
proof -
  have sent: "\<forall>c\<in>set calls. wc_account c = i \<and> wc_header c = h"
    if "dial_send lib env k i h p0 = (out, p1, calls)" for i h p0
    using that by (rule dial_send_cases) auto
  show ?thesis
    using assms sent unfolding dial_sound_def
    by (auto simp: dial_attempt_def split: option.splits prod.splits sum.splits)
qed

lemma dial_calls:
  assumes "dialResponsesWebSocket lib cfg env r pool = (res, pool', calls)"
  shows "length calls \<le> pool_size pool \<and> (\<forall>c\<in>set (butlast calls). dial_limited c) \<and> (\<forall>c\<in>set calls. dial_sound cfg env r c)"
proof (cases "pool_size pool = 0")
  case False
  then have l: "failover (dial_attempt lib cfg env r) dial_final (pool_size pool) 0 (None, None) pool = (res, pool', calls)"
    using assms by (simp add: dialResponsesWebSocket_def Let_def)
  from dial.failover_calls [OF l] failover_all_calls [OF _ l, of "dial_sound cfg env r"] dial_attempt_sound
  show ?thesis by blast
qed (use assms in \<open>simp add: dialResponsesWebSocket_def\<close>)

text \<open>Answers of the handler.\<close>

lemma handshake_cases:
  assumes "handleResponsesWebSocket io env pool = (out, pool', tr)"
  obtains (refused) a where "out = Refused a" "tr = []"
  | (dialed) res calls where "authorized io" "isWebSocketUpgrade (hi_header io)" "hi_slot io = None"
      "dialResponsesWebSocket (lib_of io) (base_cfg io) env (hi_header io) pool = (res, pool', calls)"
      "(\<exists>i response. res = Inr (i, response) \<and> out = Connected i (upgrade_header (rs_Header response)) \<and> tr = Slot_taken # map Dialed calls) \<or>
       (\<forall>i w. out \<noteq> Connected i w) \<and> tr = Slot_taken # map Dialed calls @ [Slot_returned]"
proof (cases "authorized io \<and> isWebSocketUpgrade (hi_header io) \<and> hi_slot io = None")
  case False
  then show thesis using assms refused by (auto simp: handleResponsesWebSocket_def split: if_splits option.splits)
next
  case True
  obtain res p1 calls where d: "dialResponsesWebSocket (lib_of io) (base_cfg io) env (hi_header io) pool = (res, p1, calls)"
    by (metis prod_cases3)
  then show thesis
    using assms True by (intro dialed [of res calls]) (auto simp: handleResponsesWebSocket_def split: sum.splits if_splits)
qed

section \<open>Failover\<close>

text \<open>The session is not canceled, every handshake succeeds or is rate-limited, and the loop takes less
  than the shortest cooldown.\<close>

definition dial_calm :: "ws_env \<Rightarrow> gotime \<Rightarrow> gotime \<Rightarrow> bool" where
  "dial_calm env t0 T \<longleftrightarrow>
     (\<forall>k. we_ctx env k = None \<and> we_ctxAuth env k = None) \<and>
     (\<forall>k i err resp. we_dial env k i = Inl (err, resp) \<longrightarrow> (\<exists>r. resp = Some r \<and> rs_StatusCode r = 429)) \<and>
     (\<forall>k. t0 \<le> we_now env k \<and> we_now env k \<le> T \<and> t0 \<le> snd (we_authNow env k) \<and> t0 \<le> we_dialNow env k) \<and>
     t0 \<le> T \<and> T < t0 + minCooldown"

definition dial_serves :: "ws_env \<Rightarrow> nat \<Rightarrow> bool" where
  "dial_serves env j \<longleftrightarrow> (\<forall>k. (\<exists>access. we_current env k j = Inr access) \<and> (\<exists>resp. we_dial env k j = Inr resp))"

lemma dial_step:
  assumes calm: "dial_calm env t0 T" and serves: "dial_serves env j" and free: "j \<in> pool.free p t0"
  shows "case dial_attempt lib cfg env r k s p of
      (Stop, p1, calls) \<Rightarrow> False
    | (Answer x, p1, calls) \<Rightarrow> (\<exists>y. x = Inr y)
    | (Again s1, p1, calls) \<Rightarrow> j \<in> pool.free p1 t0 \<and> card (pool.free p1 T) < card (pool.free p T)"
proof -
  have t: "t0 \<le> we_now env k" "we_now env k \<le> T" "T < snd (we_authNow env k) + authErrorCooldown"
      "T < we_dialNow env k + minCooldown"
    using calm by (auto simp: dial_calm_def authErrorCooldown_def minCooldown_def) (smt (verit))+
  have ctx: "we_ctx env k = None" "we_ctxAuth env k = None" using calm by (simp_all add: dial_calm_def)
  obtain i p0 where pk: "pick p (we_now env k) = (Inr i, p0)" using free_not_refused [OF free t(1)] .
  note rotate = rotate_away [OF pk t(1,2) free]
  show ?thesis
  proof (cases "we_current env k i")
    case (Inl err)
    then have "i \<noteq> j" using serves by (metis Inl_Inr_False dial_serves_def)
    then show ?thesis using ctx Inl pk rotate [OF _ t(3), of "fst (we_authNow env k)"]
      by (simp add: dial_attempt_def)
  next
    case (Inr access)
    let ?h = "dial_header cfg r access (we_catalog env k i)"
    obtain out p2 calls where snd: "dial_send lib env k i ?h p0 = (out, p2, calls)"
      by (cases "dial_send lib env k i ?h p0")
    have at: "dial_attempt lib cfg env r k s p = (out, p2, calls)"
      using ctx Inr pk snd by (simp add: dial_attempt_def)
    show ?thesis
      using snd
    proof (cases rule: dial_send_cases)
      case (up resp call)
      then show ?thesis using at by simp
    next
      case (failed err resp call)
      then show ?thesis using calm unfolding dial_calm_def by blast
    next
      case (limited err resp call until)
      then have "i \<noteq> j" using serves by (metis Inl_Inr_False dial_serves_def)
      then show ?thesis using at limited rotate [of until "we_dialNow env k"] t(4) by simp
    qed
  qed
qed

lemma handshake_connects:
  assumes "dial_calm env t0 T" "dial_serves env j" "j < pool_size pool" "available (accounts pool ! j) t0"
    and "authorized io" "isWebSocketUpgrade (hi_header io)" "hi_slot io = None" "we_accept env"
  shows "\<exists>i w. fst (handleResponsesWebSocket io env pool) = Connected i w"
proof -
  let ?dial = "dialResponsesWebSocket (lib_of io) (base_cfg io) env (hi_header io) pool"
  have j: "j \<in> pool.free pool t0" using assms(3,4) by (simp add: pool.free_def)
  have T: "t0 \<le> T" using assms(1) by (simp add: dial_calm_def)
  have "\<exists>x. fst (failover (dial_attempt (lib_of io) (base_cfg io) env (hi_header io)) dial_final (pool_size pool) 0 (None, None) pool) = Inr x"
    by (rule failover_succeeds [where ready = "\<lambda>p. j \<in> pool.free p t0" and left = "\<lambda>p. card (pool.free p T)"])
      (use j T free_card_pos dial_step [OF assms(1,2)] pool.card_free_le in auto)
  then obtain x where "fst ?dial = Inr x" using assms(3) by (auto simp: dialResponsesWebSocket_def Let_def)
  then obtain i resp p calls where "?dial = (Inr (i, resp), p, calls)" by (metis prod.collapse)
  then show ?thesis using assms(5-8) by (auto simp: handleResponsesWebSocket_def)
qed

section \<open>Properties\<close>

text \<open>C11: Credentials stay inside the broker. An upstream handshake carries the token and the account id of
  the very account that is dialed and of no other, and otherwise only headers from a fixed list; what
  the client gets back with the upgrade are at most four headers about the model. Nothing is dialed
  for a client that is not authorized, only rate-limited handshakes are repeated, and the slot is
  given back unless the session is open.\<close>

theorem websocket_handshake_sealed:
  assumes "handleResponsesWebSocket io env pool = (out, pool', tr)"
  shows "(\<forall>c. Dialed c \<in> set tr \<longrightarrow> authorized io \<and> header_keys (wc_header c) \<subseteq> CanonicalHeaderKey ` set dial_keys \<and>
      (\<exists>k access. we_current env k (wc_account c) = Inr access \<and>
         Header_Values (wc_header c) ''Authorization'' = [''Bearer '' @ am_AccessToken access] \<and>
         Header_Values (wc_header c) ''chatgpt-account-id'' = [am_AccountID access])) \<and>
    (\<forall>i w. out = Connected i w \<longrightarrow> header_keys w \<subseteq> CanonicalHeaderKey ` set responsesWebSocketResponseHeaders) \<and>
    (tr = [] \<or> (\<exists>calls. (\<forall>c\<in>set (butlast calls). dial_limited c) \<and>
       tr = Slot_taken # map Dialed calls @ (if \<exists>i w. out = Connected i w then [] else [Slot_returned])))"
  using assms
proof (cases rule: handshake_cases)
  case (dialed res calls)
  note calls = dial_calls [OF dialed(4)]
  have shape: "tr = Slot_taken # map Dialed calls @ (if \<exists>i w. out = Connected i w then [] else [Slot_returned])"
    using dialed(5) by auto
  have sound: "dial_sound (base_cfg io) env (hi_header io) c" if "Dialed c \<in> set tr" for c
    using that calls unfolding shape by (auto split: if_splits)
  have "\<forall>i w. out = Connected i w \<longrightarrow> header_keys w \<subseteq> CanonicalHeaderKey ` set responsesWebSocketResponseHeaders"
    using dialed(5) upgrade_header_keys by auto
  then show ?thesis
    using sound calls shape dialed(1) dial_header_own dial_header_keys unfolding dial_sound_def by (metis (no_types, lifting))
qed simp

text \<open>A handshake reaches an account that can serve: if some account is out of its cooldown, has working
  credentials and accepts the handshake, the client gets a session, whatever the other accounts do, as
  long as they fail with a rate limit or for their credentials and the loop is quick and not canceled.\<close>

theorem websocket_reaches_serving_account:
  assumes "dial_calm env t0 T" "dial_serves env j" "j < pool_size pool" "available (accounts pool ! j) t0"
    and "authorized io" "isWebSocketUpgrade (hi_header io)" "hi_slot io = None" "we_accept env"
  shows "\<exists>i w. fst (handleResponsesWebSocket io env pool) = Connected i w"
  using assms by (rule handshake_connects)

section \<open>Witnesses\<close>

definition ws_witness_env :: ws_env where
  "ws_witness_env =
     \<lparr>we_ctx = \<lambda>_. None, we_now = \<lambda>_. seconds 10, we_current = \<lambda>_ _. Inr \<lparr>am_AccessToken = ''t'', am_AccountID = ''a''\<rparr>,
      we_ctxAuth = \<lambda>_. None, we_authNow = \<lambda>_. (seconds 10, seconds 10), we_catalog = \<lambda>_ _. None,
      we_dial = \<lambda>_ i. if i = 0 then Inl (''429'', Some \<lparr>rs_StatusCode = 429, rs_Header = [], rs_Body = []\<rparr>)
                      else Inr \<lparr>rs_StatusCode = 101, rs_Header = [(''Openai-Model'', [''gpt-5''])], rs_Body = []\<rparr>,
      we_dialNow = \<lambda>_. seconds 11, we_accept = True\<rparr>"

definition ws_witness_io :: http_io where
  "ws_witness_io =
     \<lparr>hi_lib = witness_lib,
      hi_cfg = config.extend witness_cfg \<lparr>cfg_models = [], cfg_modelsURL = [], cfg_alphaSearchURL = []\<rparr>,
      hi_auth = (None, True), hi_log = None,
      hi_header = [(''Upgrade'', [''websocket'']), (''Connection'', [''Upgrade''])], hi_body = [], hi_bodyErr = None,
      hi_reader = \<lparr>br_zstd = Inl, br_decode = \<lambda>s. Inl [], br_next = \<lambda>s. AtEOF, br_quote = id\<rparr>, hi_slot = None,
      hi_failNow = seconds 12, hi_dispatch = undefined, hi_cut = \<lambda>s. ([s], [], True), hi_write = \<lambda>_. True, hi_now = \<lambda>_. 0\<rparr>"

lemma ws_witness:
  "dial_calm ws_witness_env (seconds 10) (seconds 11)" "dial_serves ws_witness_env 1" "1 < pool_size witness_pool"
  "available (accounts witness_pool ! 1) (seconds 10)" "authorized ws_witness_io"
  "isWebSocketUpgrade (hi_header ws_witness_io)" "hi_slot ws_witness_io = None" "we_accept ws_witness_env"
proof -
  have "isWebSocketUpgrade [(''Upgrade'', [''websocket'']), (''Connection'', [''Upgrade''])]" by code_simp
  then show "isWebSocketUpgrade (hi_header ws_witness_io)" by (simp add: ws_witness_io_def)
  show "dial_calm ws_witness_env (seconds 10) (seconds 11)"
    unfolding dial_calm_def by (intro conjI allI) (auto simp: ws_witness_env_def minCooldown_def)
  show "1 < pool_size witness_pool" "available (accounts witness_pool ! 1) (seconds 10)"
    by (simp_all add: witness_pool_def newAccountPool_def pool_size_def available_def Let_def split: prod.split)
qed (simp_all add: dial_serves_def ws_witness_env_def authorized_def ws_witness_io_def)

theorem websocket_reaches_serving_account_witness:
  "\<exists>i w. fst (handleResponsesWebSocket ws_witness_io ws_witness_env witness_pool) = Connected i w"
  using ws_witness by (rule websocket_reaches_serving_account)

theorem websocket_handshake_sealed_witness:
  "\<exists>i w pool' tr. handleResponsesWebSocket ws_witness_io ws_witness_env witness_pool = (Connected i w, pool', tr) \<and>
     header_keys w \<subseteq> CanonicalHeaderKey ` set responsesWebSocketResponseHeaders"
proof -
  obtain i w pool' tr where h: "handleResponsesWebSocket ws_witness_io ws_witness_env witness_pool = (Connected i w, pool', tr)"
    using handshake_connects [OF ws_witness] by (cases "handleResponsesWebSocket ws_witness_io ws_witness_env witness_pool") auto
  have "header_keys w \<subseteq> CanonicalHeaderKey ` set responsesWebSocketResponseHeaders"
    using conjunct1 [OF conjunct2 [OF websocket_handshake_sealed [OF h]]] by simp
  then show ?thesis using h by (intro exI conjI)
qed

end
