(* ===== verification/Relay.thy ===== *)
theory Relay
  imports WebSocket
begin

text \<open>
  An open WebSocket session, \<^verbatim>\<open>src/websocket.go\<close>: the turn tracker, the normalisation of client events,
  the two pumps that copy messages, and the main goroutine that closes both sides and writes the last
  log entry. The pumps run concurrently, so the session is a machine: each goroutine is a program
  counter, and an event is what one of them does between two points where another may run. What the
  library, the clock and the catalogs answer comes with the event, so the properties hold for every
  schedule and every behaviour of the peers.
\<close>

section \<open>Definitions\<close>

subsection \<open>Messages\<close>

datatype message_type = MessageText | MessageBinary

text \<open>What \<open>conn.Reader\<close> gives: an error, or a message with the bytes its reader delivers and the error it
  ends with, if any.\<close>

datatype ws_read = ReaderError string | Message message_type string "string option"

datatype relay_error = ReadFailed string | InvalidCreate | WriteFailed string | AccountRateLimited

definition readWebSocketMessage :: "ws_read \<Rightarrow> relay_error + (message_type \<times> string)" where
  "readWebSocketMessage r =
     (case r of
        ReaderError err \<Rightarrow> Inl (ReadFailed err)
      | Message typ bytes fin \<Rightarrow>
          (let payload = take (maxRequestBodyBytes + 1) bytes
           in (case (if length bytes > maxRequestBodyBytes then None else fin) of
                 Some err \<Rightarrow> Inl (ReadFailed err)
               | None \<Rightarrow> (if length payload > maxRequestBodyBytes then Inl (ReadFailed ''WebSocket message too large'')
                         else Inr (typ, payload)))))"

subsection \<open>The session and one event's surroundings\<close>

record ws_session =
  wx_lib :: golib
  wx_cfg :: config
  wx_request :: http_request
  wx_account :: nat
  wx_split :: "string \<Rightarrow> string option"
  wx_format :: "gotime \<Rightarrow> string"
  wx_logLimit :: int

record turn_env =
  te_now :: gotime
  te_auth :: "clientIdentity option \<times> bool"
  te_catalog :: "upstreamModel list option"
  te_done :: gotime

subsection \<open>The turn tracker\<close>

text \<open>\<open>pending\<close>, and the entries that \<open>finish\<close> has handed to the store so far.\<close>

record webSocketTurnTracker =
  tk_pending :: pending
  tk_finished :: "requestLogEntry list"

definition tracker_finish :: "gotime \<Rightarrow> webSocketTurnTracker \<Rightarrow> webSocketTurnTracker" where
  "tracker_finish now t =
     t\<lparr>tk_finished := tk_finished t @ (case tk_pending t of None \<Rightarrow> [] | Some l \<Rightarrow> [finish_entry now l])\<rparr>"

definition tracker_begin ::
    "ws_session \<Rightarrow> turn_env \<Rightarrow> obj \<Rightarrow> requestInfo \<Rightarrow> webSocketTurnTracker \<Rightarrow> webSocketTurnTracker" where
  "tracker_begin x te body info t =
     (let t1 = (if tk_pending t \<noteq> None
                then tracker_finish (te_done te)
                       (t\<lparr>tk_pending := markError 502 ''another response.create arrived before the previous response completed''
                                         (tk_pending t)\<rparr>)
                else t);
          p0 = beginRequestLog (wx_split x) (wx_format x) (wx_logLimit x) (te_now te) (te_auth te) (wx_request x);
          p1 = markRequest (wx_lib x) body info (rq_Header (wx_request x)) p0;
          p2 = on_entry (\<lambda>e. e\<lparr>e_Method := ''WS'', e_Status := 200, e_UpstreamStatus := 101\<rparr>) p1
      in t1\<lparr>tk_pending := p2\<rparr>)"

definition webSocketEventStatus :: "golib \<Rightarrow> obj \<Rightarrow> int" where
  "webSocketEventStatus lib event =
     (case numericField lib event ''status'' of
        Some value \<Rightarrow> int64_of_float value
      | None \<Rightarrow>
          (case as_obj (oget event ''error'') of
             None \<Rightarrow> 0
           | Some errBody \<Rightarrow> (case numericField lib errBody ''status'' of Some value \<Rightarrow> int64_of_float value | None \<Rightarrow> 0)))"

definition webSocketEventHeaders :: "obj \<Rightarrow> header" where
  "webSocketEventHeaders event =
     foldl (\<lambda>h (key, value). case as_str value of Some text \<Rightarrow> Header_Set h key text | None \<Rightarrow> h) []
       (case as_obj (oget event ''headers'') of Some raw \<Rightarrow> raw | None \<Rightarrow> [])"

definition webSocketEventLogError :: "golib \<Rightarrow> obj \<Rightarrow> nat \<Rightarrow> string" where
  "webSocketEventLogError lib event status =
     (let summary = ''upstream WebSocket error status='' @ itoa status
      in (case as_obj (oget event ''error'') of
            None \<Rightarrow> summary
          | Some errorBody \<Rightarrow>
              (let attributes = safeErrorAttributes (lib_Sprint lib) errorBody
               in if attributes \<noteq> [] then summary @ '' ('' @ attributes @ '')'' else summary)))"

definition terminal_kinds :: "string list" where
  "terminal_kinds = [''response.completed'', ''response.done'', ''response.incomplete'', ''response.failed'', ''error'']"

definition rate_limit_event :: "golib \<Rightarrow> obj \<Rightarrow> bool" where
  "rate_limit_event lib event \<longleftrightarrow> stringField event ''type'' = ''error'' \<and> webSocketEventStatus lib event = 429"

text \<open>The marks of a terminal event on the pending entry.\<close>

definition mark_terminal :: "golib \<Rightarrow> obj \<Rightarrow> pending \<Rightarrow> pending" where
  "mark_terminal lib event l =
     (let kind = stringField event ''type'';
          l1 = (case as_obj (oget event ''response'') of
                  None \<Rightarrow> l
                | Some response \<Rightarrow>
                    recordAppliedServiceTier (extractServiceTier (Some response)) (markUsage (extractTokenUsage lib response) l))
      in if kind = ''response.failed'' \<or> kind = ''error''
         then (let status = (if webSocketEventStatus lib event = 429 then 429 else 502)
               in markError status (webSocketEventLogError lib event status) l1)
         else l1)"

definition observeServerEvent ::
    "ws_session \<Rightarrow> turn_env \<Rightarrow> string \<Rightarrow> webSocketTurnTracker \<times> accountPool \<Rightarrow> bool \<times> webSocketTurnTracker \<times> accountPool" where
  "observeServerEvent x te payload tp =
     (case unmarshal_obj (wx_lib x) payload of
        None \<Rightarrow> (False, tp)
      | Some event \<Rightarrow>
          (if stringField event ''type'' \<notin> set terminal_kinds then (False, tp)
           else (let (t, pool) = tp;
                     rateLimited = rate_limit_event (wx_lib x) event;
                     until = fst (deriveCooldown (wx_lib x) (Some (Header_Get (webSocketEventHeaders event))) payload (te_now te));
                     pool' = (if rateLimited then coolAt (wx_account x) (te_now te) until pool else pool)
                 in if tk_pending t = None then (rateLimited, t, pool')
                    else (rateLimited,
                          (tracker_finish (te_done te) (t\<lparr>tk_pending := mark_terminal (wx_lib x) event (tk_pending t)\<rparr>))
                            \<lparr>tk_pending := None\<rparr>,
                          pool'))))"

definition finishOpen :: "gotime \<Rightarrow> webSocketTurnTracker \<Rightarrow> webSocketTurnTracker" where
  "finishOpen now t =
     (if tk_pending t = None then t
      else (tracker_finish now (t\<lparr>tk_pending := markError 502 ''WebSocket closed before response completion'' (tk_pending t)\<rparr>))
             \<lparr>tk_pending := None\<rparr>)"

subsection \<open>Client events\<close>

text \<open>The event that goes upstream instead of a \<open>response.create\<close>.\<close>

definition create_event :: "ws_session \<Rightarrow> upstreamModel list option \<Rightarrow> obj \<Rightarrow> requestInfo \<times> obj" where
  "create_event x catalog event0 =
     (let (info, event) = normalizeResponsesBody (oset event0 ''stream'' (JBool True)) (wx_cfg x) (rq_Header (wx_request x))
      in (info,
          if stringField event ''service_tier'' = ''priority'' \<and>
             \<not> accountSupportsTier catalog (ri_NormalizedModel info) ''priority''
          then odel event ''service_tier'' else event))"

definition normalizeWebSocketClientEvent ::
    "ws_session \<Rightarrow> turn_env \<Rightarrow> string \<Rightarrow> webSocketTurnTracker \<Rightarrow> string option \<times> webSocketTurnTracker" where
  "normalizeWebSocketClientEvent x te payload t =
     (case unmarshal_obj (wx_lib x) payload of
        None \<Rightarrow> (None, t)
      | Some event0 \<Rightarrow>
          (if stringField event0 ''type'' \<noteq> ''response.create'' then (Some payload, t)
           else (let (info, event) = create_event x (te_catalog te) event0
                 in (lib_Marshal (wx_lib x) (JObj event), tracker_begin x te event info t))))"

subsection \<open>Goroutines\<close>

text \<open>A pump reads, holds a message it is about to write (with whether it ends the session after that), or
  has sent its error to the channel. The main goroutine waits for the first error, then for the second
  pump, then has finished.\<close>

datatype pump = Reading | Writing message_type string bool | Ended relay_error

datatype session_phase = Open | Draining relay_error | Closed relay_error

record relay =
  rl_client :: pump
  rl_server :: pump
  rl_phase :: session_phase
  rl_channel :: "relay_error list"
  rl_tracker :: webSocketTurnTracker
  rl_pool :: accountPool
  rl_upstream :: "(message_type \<times> string) list"
  rl_downstream :: "(message_type \<times> string) list"
  rl_close :: "(int \<times> string) option"
  rl_slot :: bool

definition relay_start :: "accountPool \<Rightarrow> relay" where
  "relay_start pool =
     \<lparr>rl_client = Reading, rl_server = Reading, rl_phase = Open, rl_channel = [],
      rl_tracker = \<lparr>tk_pending = None, tk_finished = []\<rparr>, rl_pool = pool, rl_upstream = [], rl_downstream = [],
      rl_close = None, rl_slot = True\<rparr>"

text \<open>\<open>closeWebSocketPeer\<close>: the close frame for \<open>status = websocket.CloseStatus(err)\<close>.\<close>

definition closeWebSocketPeer :: "int \<Rightarrow> int \<times> string" where
  "closeWebSocketPeer status0 =
     (let status = (if status0 < 0 \<or> status0 = 1005 \<or> status0 = 1006 \<or> status0 = 1015 then 1011 else status0)
      in (status, if status = 1011 then ''proxy connection closed'' else ''peer closed''))"

datatype relay_event =
    ClientReads turn_env ws_read
  | ClientWrites "string option"
  | ServerReads turn_env ws_read
  | ServerWrites "string option"
  | MainWakes bool int
  | MainFinishes gotime

definition client_ends :: "relay_error \<Rightarrow> relay \<Rightarrow> relay" where
  "client_ends err s = s\<lparr>rl_client := Ended err, rl_channel := rl_channel s @ [err]\<rparr>"

definition server_ends :: "relay_error \<Rightarrow> relay \<Rightarrow> relay" where
  "server_ends err s = s\<lparr>rl_server := Ended err, rl_channel := rl_channel s @ [err]\<rparr>"

definition client_message :: "ws_session \<Rightarrow> turn_env \<Rightarrow> message_type \<times> string \<Rightarrow> relay \<Rightarrow> relay" where
  "client_message x te m s =
     (let (typ, payload) = m
      in if typ = MessageText
         then (let (wire, t) = normalizeWebSocketClientEvent x te payload (rl_tracker s); s1 = s\<lparr>rl_tracker := t\<rparr>
               in (case wire of
                     None \<Rightarrow> client_ends InvalidCreate s1
                   | Some out \<Rightarrow> s1\<lparr>rl_client := Writing typ out False\<rparr>))
         else s\<lparr>rl_client := Writing typ payload False\<rparr>)"

definition server_message :: "ws_session \<Rightarrow> turn_env \<Rightarrow> message_type \<times> string \<Rightarrow> relay \<Rightarrow> relay" where
  "server_message x te m s =
     (let (typ, payload) = m
      in if typ = MessageText
         then (let (reconnect, t, pool) = observeServerEvent x te payload (rl_tracker s, rl_pool s)
               in s\<lparr>rl_tracker := t, rl_pool := pool, rl_server := Writing typ payload reconnect\<rparr>)
         else s\<lparr>rl_server := Writing typ payload False\<rparr>)"

text \<open>\<open>copyWebSocketClientToUpstream\<close>, \<open>copyWebSocketUpstreamToClient\<close> and the end of
  \<open>handleResponsesWebSocket\<close>; \<open>None\<close> where the goroutine cannot do that.\<close>

fun relay_step :: "ws_session \<Rightarrow> relay_event \<Rightarrow> relay \<Rightarrow> relay option" where
  "relay_step x (ClientReads te r) s =
     (if rl_client s \<noteq> Reading then None
      else (case readWebSocketMessage r of
              Inl err \<Rightarrow> Some (client_ends err s)
            | Inr m \<Rightarrow> Some (client_message x te m s)))"
| "relay_step x (ClientWrites res) s =
     (case rl_client s of
        Writing typ payload _ \<Rightarrow>
          (case res of
             Some err \<Rightarrow> Some (client_ends (WriteFailed err) s)
           | None \<Rightarrow> Some (s\<lparr>rl_client := Reading, rl_upstream := rl_upstream s @ [(typ, payload)]\<rparr>))
      | _ \<Rightarrow> None)"
| "relay_step x (ServerReads te r) s =
     (if rl_server s \<noteq> Reading then None
      else (case readWebSocketMessage r of
              Inl err \<Rightarrow> Some (server_ends err s)
            | Inr m \<Rightarrow> Some (server_message x te m s)))"
| "relay_step x (ServerWrites res) s =
     (case rl_server s of
        Writing typ payload reconnect \<Rightarrow>
          (case res of
             Some err \<Rightarrow> Some (server_ends (WriteFailed err) s)
           | None \<Rightarrow>
               (let s1 = s\<lparr>rl_downstream := rl_downstream s @ [(typ, payload)]\<rparr>
                in Some (if reconnect then server_ends AccountRateLimited s1 else s1\<lparr>rl_server := Reading\<rparr>)))
      | _ \<Rightarrow> None)"
| "relay_step x (MainWakes forced status) s =
     (case (rl_phase s, rl_channel s) of
        (Open, err # rest) \<Rightarrow>
          Some (s\<lparr>rl_phase := Draining err, rl_channel := rest,
                  rl_close := (if forced then None else Some (closeWebSocketPeer status))\<rparr>)
      | _ \<Rightarrow> None)"
| "relay_step x (MainFinishes now) s =
     (case (rl_phase s, rl_channel s) of
        (Draining err, _ # rest) \<Rightarrow>
          Some (s\<lparr>rl_phase := Closed err, rl_channel := rest, rl_tracker := finishOpen now (rl_tracker s), rl_slot := False\<rparr>)
      | _ \<Rightarrow> None)"

section \<open>The tracker\<close>

text \<open>The entry of a turn: a WebSocket request that was switched to, with one of three outcomes.\<close>

definition entry_ok :: "requestLogEntry \<Rightarrow> bool" where
  "entry_ok e \<longleftrightarrow> e_Method e = ''WS'' \<and> e_UpstreamStatus e = 101 \<and> e_Status e \<in> {200, 429, 502}"

definition pending_ok :: "pending \<Rightarrow> bool" where
  "pending_ok l \<longleftrightarrow> (case l of None \<Rightarrow> True | Some p \<Rightarrow> entry_ok (pl_Entry p))"

definition tracker_ok :: "webSocketTurnTracker \<Rightarrow> bool" where
  "tracker_ok t \<longleftrightarrow> pending_ok (tk_pending t) \<and> (\<forall>e\<in>set (tk_finished t). entry_ok e)"

definition turns :: "webSocketTurnTracker \<Rightarrow> nat" where
  "turns t = length (tk_finished t) + (if tk_pending t = None then 0 else 1)"

lemma on_entry_None [simp]: "on_entry f l = None \<longleftrightarrow> l = None"
  by (simp add: on_entry_def)

lemma marks_None [simp]:
  "markError st m l = None \<longleftrightarrow> l = None" "mark_terminal lib ev l = None \<longleftrightarrow> l = None"
  by (auto simp: markError_def mark_terminal_def recordAppliedServiceTier_def markAppliedServiceTier_def markUsage_def
      Let_def split: option.splits)

lemma pending_ok_on_entry: "(\<And>e. entry_ok e \<Longrightarrow> entry_ok (f e)) \<Longrightarrow> pending_ok l \<Longrightarrow> pending_ok (on_entry f l)"
  by (simp add: pending_ok_def on_entry_def split: option.splits)

lemma pending_ok_markError: "st \<in> {429, 502} \<Longrightarrow> pending_ok l \<Longrightarrow> pending_ok (markError st m l)"
  unfolding markError_def by (rule pending_ok_on_entry) (auto simp: entry_ok_def)

lemma pending_ok_mark_terminal: "pending_ok l \<Longrightarrow> pending_ok (mark_terminal lib ev l)"
proof -
  have usage: "pending_ok l \<Longrightarrow> pending_ok (recordAppliedServiceTier tier (markUsage u l))" for l tier u
    unfolding recordAppliedServiceTier_def markAppliedServiceTier_def markUsage_def
    by (intro pending_ok_on_entry) (auto simp: entry_ok_def)
  show "pending_ok l \<Longrightarrow> pending_ok (mark_terminal lib ev l)"
    by (simp add: mark_terminal_def Let_def usage pending_ok_markError split: option.split)
qed

lemma finish_entry_ok: "entry_ok (pl_Entry l) \<Longrightarrow> entry_ok (finish_entry now l)"
  by (auto simp: finish_entry_def entry_ok_def Let_def)

lemma tracker_finish:
  "tk_pending (tracker_finish now t) = tk_pending t"
  "length (tk_finished (tracker_finish now t)) = turns t"
  "tracker_ok t \<Longrightarrow> tracker_ok (tracker_finish now t)"
  by (auto simp: tracker_finish_def turns_def tracker_ok_def pending_ok_def finish_entry_ok split: option.splits)

lemma finish_marked:
  assumes "tracker_ok t" "pending_ok l" "l = None \<longleftrightarrow> tk_pending t = None"
  shows "tracker_ok (tracker_finish now (t\<lparr>tk_pending := l\<rparr>))" "length (tk_finished (tracker_finish now (t\<lparr>tk_pending := l\<rparr>))) = turns t"
  using assms tracker_finish(2,3) [where now = now and t = "t\<lparr>tk_pending := l\<rparr>"] by (auto simp: tracker_ok_def turns_def)

lemma replace_pending: "tracker_ok t \<Longrightarrow> pending_ok l \<Longrightarrow> tracker_ok (t\<lparr>tk_pending := l\<rparr>)"
  by (simp add: tracker_ok_def)

lemma begun_entry_ok:
  "pending_ok (on_entry (\<lambda>e. e\<lparr>e_Method := ''WS'', e_Status := 200, e_UpstreamStatus := 101\<rparr>) l)"
  by (simp add: pending_ok_def on_entry_def entry_ok_def split: option.split)

lemma tracker_begin:
  assumes "tracker_ok t"
  shows "tracker_ok (tracker_begin x te body info t)"
    and "wx_logLimit x \<noteq> 0 \<Longrightarrow> turns (tracker_begin x te body info t) = Suc (turns t)"
proof -
  let ?l = "markError 502 ''another response.create arrived before the previous response completed'' (tk_pending t)"
  define t1 where "t1 = (if tk_pending t \<noteq> None then tracker_finish (te_done te) (t\<lparr>tk_pending := ?l\<rparr>) else t)"
  define p0 where "p0 = beginRequestLog (wx_split x) (wx_format x) (wx_logLimit x) (te_now te) (te_auth te) (wx_request x)"
  have eq: "tracker_begin x te body info t =
      t1\<lparr>tk_pending := on_entry (\<lambda>e. e\<lparr>e_Method := ''WS'', e_Status := 200, e_UpstreamStatus := 101\<rparr>)
                         (markRequest (wx_lib x) body info (rq_Header (wx_request x)) p0)\<rparr>"
    by (simp add: tracker_begin_def t1_def p0_def Let_def)
  have l: "pending_ok ?l" using assms by (simp add: tracker_ok_def pending_ok_markError)
  have "tracker_ok t1" "length (tk_finished t1) = turns t"
    using finish_marked [OF assms l] assms by (auto simp: t1_def turns_def)
  then show "tracker_ok (tracker_begin x te body info t)"
    "wx_logLimit x \<noteq> 0 \<Longrightarrow> turns (tracker_begin x te body info t) = Suc (turns t)"
    unfolding eq by (simp_all add: replace_pending begun_entry_ok turns_def markRequest_def p0_def beginRequestLog_def Let_def)
qed

lemma observe_tracker:
  assumes "observeServerEvent x te payload (t, pool) = (reconnect, t', pool')" "tracker_ok t"
  shows "tracker_ok t'" "turns t' = turns t" "tk_pending t = None \<Longrightarrow> tk_pending t' = None"
proof -
  have marked: "tracker_ok ((tracker_finish now (t\<lparr>tk_pending := mark_terminal lib ev (tk_pending t)\<rparr>))\<lparr>tk_pending := None\<rparr>)"
      "turns ((tracker_finish now (t\<lparr>tk_pending := mark_terminal lib ev (tk_pending t)\<rparr>))\<lparr>tk_pending := None\<rparr>) = turns t" for now lib ev
  proof -
    have l: "pending_ok (mark_terminal lib ev (tk_pending t))" using assms(2) by (simp add: tracker_ok_def pending_ok_mark_terminal)
    show "tracker_ok ((tracker_finish now (t\<lparr>tk_pending := mark_terminal lib ev (tk_pending t)\<rparr>))\<lparr>tk_pending := None\<rparr>)"
      using finish_marked(1) [OF assms(2) l] by (simp add: replace_pending pending_ok_def)
    show "turns ((tracker_finish now (t\<lparr>tk_pending := mark_terminal lib ev (tk_pending t)\<rparr>))\<lparr>tk_pending := None\<rparr>) = turns t"
      using finish_marked(2) [OF assms(2) l] by (simp add: turns_def)
  qed
  show "tracker_ok t'" "turns t' = turns t" "tk_pending t = None \<Longrightarrow> tk_pending t' = None"
    using assms marked by (auto simp: observeServerEvent_def Let_def split: option.splits if_splits)
qed

lemma finishOpen_tracker:
  assumes "tracker_ok t"
  shows "tracker_ok (finishOpen now t)" "turns (finishOpen now t) = turns t" "tk_pending (finishOpen now t) = None"
proof -
  let ?l = "markError 502 ''WebSocket closed before response completion'' (tk_pending t)"
  have l: "pending_ok ?l" using assms by (simp add: tracker_ok_def pending_ok_markError)
  show "tracker_ok (finishOpen now t)" "turns (finishOpen now t) = turns t" "tk_pending (finishOpen now t) = None"
    using assms finish_marked [where now = now, OF assms l]
    by (auto simp: finishOpen_def turns_def intro: replace_pending simp: pending_ok_def)
qed

subsection \<open>What a client event becomes\<close>

definition creates :: "ws_session \<Rightarrow> string \<Rightarrow> bool" where
  "creates x payload \<longleftrightarrow>
     (case unmarshal_obj (wx_lib x) payload of None \<Rightarrow> False | Some event \<Rightarrow> stringField event ''type'' = ''response.create'')"

definition wire_payload :: "ws_session \<Rightarrow> turn_env \<Rightarrow> string \<Rightarrow> string option" where
  "wire_payload x te payload =
     (case unmarshal_obj (wx_lib x) payload of
        None \<Rightarrow> None
      | Some event \<Rightarrow>
          (if stringField event ''type'' \<noteq> ''response.create'' then Some payload
           else lib_Marshal (wx_lib x) (JObj (snd (create_event x (te_catalog te) event)))))"

lemma normalize_client_event:
  "\<exists>body info. normalizeWebSocketClientEvent x te payload t =
     (wire_payload x te payload, if creates x payload then tracker_begin x te body info t else t)"
  by (cases "unmarshal_obj (wx_lib x) payload")
    (auto simp: normalizeWebSocketClientEvent_def wire_payload_def creates_def split: prod.split)

section \<open>The machine\<close>

subsection \<open>The channel, the slot and the log\<close>

definition ended :: "pump \<Rightarrow> nat" where
  "ended p = (case p of Ended _ \<Rightarrow> 1 | _ \<Rightarrow> 0)"

definition received :: "session_phase \<Rightarrow> nat" where
  "received ph = (case ph of Open \<Rightarrow> 0 | Draining _ \<Rightarrow> 1 | Closed _ \<Rightarrow> 2)"

text \<open>A status that may appear in a close frame.\<close>

definition sendable_status :: "int \<Rightarrow> bool" where
  "sendable_status status \<longleftrightarrow> 0 \<le> status \<and> status \<notin> {1005, 1006, 1015}"

definition relay_ok :: "relay \<Rightarrow> bool" where
  "relay_ok s \<longleftrightarrow>
     ended (rl_client s) + ended (rl_server s) = length (rl_channel s) + received (rl_phase s) \<and>
     (rl_slot s \<longleftrightarrow> received (rl_phase s) < 2) \<and>
     (received (rl_phase s) = 2 \<longrightarrow> tk_pending (rl_tracker s) = None) \<and>
     tracker_ok (rl_tracker s) \<and>
     (\<forall>frame. rl_close s = Some frame \<longrightarrow> sendable_status (fst frame))"

lemma ended_simps [simp]: "ended Reading = 0" "ended (Writing a b c) = 0" "ended (Ended e) = 1"
  by (simp_all add: ended_def)

lemma received_simps [simp]: "received Open = 0" "received (Draining e) = 1" "received (Closed e) = 2"
  by (simp_all add: received_def)

lemma received_2: "received ph = 2 \<longleftrightarrow> (\<exists>e. ph = Closed e)"
  by (cases ph) simp_all

lemma ended_le: "ended p \<le> 1" "ended p = 1 \<longleftrightarrow> (\<exists>e. p = Ended e)"
  by (cases p; simp)+

lemma running_open:
  assumes "relay_ok s" "ended (rl_client s) + ended (rl_server s) < 2"
  shows "received (rl_phase s) < 2" "rl_slot s"
  using assms by (auto simp: relay_ok_def)

lemma closeWebSocketPeer_sendable: "sendable_status (fst (closeWebSocketPeer status))"
  by (simp add: closeWebSocketPeer_def sendable_status_def Let_def)

text \<open>What a message does to a state, in terms of the tracker.\<close>

lemma client_message_cases:
  obtains (create) body info where "creates x (snd m)" "fst m = MessageText"
      "client_message x te m s =
         (case wire_payload x te (snd m) of
            None \<Rightarrow> client_ends InvalidCreate (s\<lparr>rl_tracker := tracker_begin x te body info (rl_tracker s)\<rparr>)
          | Some out \<Rightarrow> s\<lparr>rl_tracker := tracker_begin x te body info (rl_tracker s), rl_client := Writing MessageText out False\<rparr>)"
  | (other) out where "\<not> (fst m = MessageText \<and> creates x (snd m))"
      "client_message x te m s = s\<lparr>rl_client := Writing (fst m) out False\<rparr>"
      "(fst m = MessageText \<and> wire_payload x te (snd m) = Some out) \<or> (fst m = MessageBinary \<and> out = snd m)"
  | (bad) "\<not> creates x (snd m)" "fst m = MessageText" "wire_payload x te (snd m) = None"
      "client_message x te m s = client_ends InvalidCreate s"
proof (cases "fst m")
  case MessageText
  from normalize_client_event obtain body info where n:
    "normalizeWebSocketClientEvent x te (snd m) (rl_tracker s) =
       (wire_payload x te (snd m), if creates x (snd m) then tracker_begin x te body info (rl_tracker s) else rl_tracker s)" by blast
  show thesis
  proof (cases "creates x (snd m)")
    case True
    then show thesis using create [of body info] n MessageText
      by (simp add: client_message_def case_prod_beta split: option.split)
  next
    case False
    then show thesis using other bad n MessageText
      by (cases "wire_payload x te (snd m)") (simp_all add: client_message_def case_prod_beta)
  qed
next
  case MessageBinary
  then show thesis using other [of "snd m"] by (simp add: client_message_def case_prod_beta)
qed

lemma server_message_cases:
  obtains (textual) reconnect t pool where "fst m = MessageText"
      "observeServerEvent x te (snd m) (rl_tracker s, rl_pool s) = (reconnect, t, pool)"
      "server_message x te m s = s\<lparr>rl_tracker := t, rl_pool := pool, rl_server := Writing MessageText (snd m) reconnect\<rparr>"
  | (binary) "fst m = MessageBinary" "server_message x te m s = s\<lparr>rl_server := Writing MessageBinary (snd m) False\<rparr>"
proof (cases "fst m")
  case MessageText
  obtain reconnect t pool where "observeServerEvent x te (snd m) (rl_tracker s, rl_pool s) = (reconnect, t, pool)"
    by (metis prod_cases3)
  then show thesis using textual MessageText by (simp add: server_message_def case_prod_beta)
next
  case MessageBinary
  then show thesis using binary by (simp add: server_message_def case_prod_beta)
qed

lemma ends_fields [simp]:
  "rl_client (client_ends e s) = Ended e" "rl_server (client_ends e s) = rl_server s"
  "rl_server (server_ends e s) = Ended e" "rl_client (server_ends e s) = rl_client s"
  "rl_channel (client_ends e s) = rl_channel s @ [e]" "rl_channel (server_ends e s) = rl_channel s @ [e]"
  "rl_phase (client_ends e s) = rl_phase s" "rl_phase (server_ends e s) = rl_phase s"
  "rl_tracker (client_ends e s) = rl_tracker s" "rl_tracker (server_ends e s) = rl_tracker s"
  "rl_pool (client_ends e s) = rl_pool s" "rl_pool (server_ends e s) = rl_pool s"
  "rl_upstream (client_ends e s) = rl_upstream s" "rl_upstream (server_ends e s) = rl_upstream s"
  "rl_downstream (client_ends e s) = rl_downstream s" "rl_downstream (server_ends e s) = rl_downstream s"
  "rl_slot (client_ends e s) = rl_slot s" "rl_slot (server_ends e s) = rl_slot s"
  "rl_close (client_ends e s) = rl_close s" "rl_close (server_ends e s) = rl_close s"
  by (simp_all add: client_ends_def server_ends_def)

lemma relay_step_elims:
  assumes "relay_step x ev s = Some t"
  obtains (client_fail) te r err where "ev = ClientReads te r" "rl_client s = Reading" "readWebSocketMessage r = Inl err"
      "t = client_ends err s"
  | (client_read) te r m where "ev = ClientReads te r" "rl_client s = Reading" "readWebSocketMessage r = Inr m"
      "t = client_message x te m s"
  | (client_unwritten) ty p b err where "ev = ClientWrites (Some err)" "rl_client s = Writing ty p b"
      "t = client_ends (WriteFailed err) s"
  | (client_written) ty p b where "ev = ClientWrites None" "rl_client s = Writing ty p b"
      "t = s\<lparr>rl_client := Reading, rl_upstream := rl_upstream s @ [(ty, p)]\<rparr>"
  | (server_fail) te r err where "ev = ServerReads te r" "rl_server s = Reading" "readWebSocketMessage r = Inl err"
      "t = server_ends err s"
  | (server_read) te r m where "ev = ServerReads te r" "rl_server s = Reading" "readWebSocketMessage r = Inr m"
      "t = server_message x te m s"
  | (server_unwritten) ty p b err where "ev = ServerWrites (Some err)" "rl_server s = Writing ty p b"
      "t = server_ends (WriteFailed err) s"
  | (server_written) ty p where "ev = ServerWrites None" "rl_server s = Writing ty p False"
      "t = s\<lparr>rl_downstream := rl_downstream s @ [(ty, p)], rl_server := Reading\<rparr>"
  | (server_limited) ty p where "ev = ServerWrites None" "rl_server s = Writing ty p True"
      "t = server_ends AccountRateLimited (s\<lparr>rl_downstream := rl_downstream s @ [(ty, p)]\<rparr>)"
  | (wakes) forced status err rest where "ev = MainWakes forced status" "rl_phase s = Open" "rl_channel s = err # rest"
      "t = s\<lparr>rl_phase := Draining err, rl_channel := rest, rl_close := (if forced then None else Some (closeWebSocketPeer status))\<rparr>"
  | (finishes) now err e rest where "ev = MainFinishes now" "rl_phase s = Draining err" "rl_channel s = e # rest"
      "t = s\<lparr>rl_phase := Closed err, rl_channel := rest, rl_tracker := finishOpen now (rl_tracker s), rl_slot := False\<rparr>"
proof (cases ev)
  case (ClientReads te r)
  then show thesis using assms client_fail client_read by (cases "readWebSocketMessage r") (auto split: if_splits)
next
  case (ClientWrites res)
  then show thesis using assms client_unwritten client_written by (cases res) (auto split: pump.splits)
next
  case (ServerReads te r)
  then show thesis using assms server_fail server_read by (cases "readWebSocketMessage r") (auto split: if_splits)
next
  case (ServerWrites res)
  then show thesis using assms server_unwritten server_written server_limited
    by (cases res) (auto simp: Let_def split: pump.splits if_splits)
next
  case (MainWakes forced status)
  then show thesis using assms wakes by (auto split: session_phase.splits list.splits)
next
  case (MainFinishes now)
  then show thesis using assms finishes by (auto split: session_phase.splits list.splits)
qed

lemma client_message_ok:
  assumes "relay_ok s" "rl_client s = Reading"
  shows "relay_ok (client_message x te m s)"
proof -
  note open_slot = running_open [OF assms(1)]
  have r: "received (rl_phase s) < 2" using assms ended_le(1) [of "rl_server s"] by (intro open_slot) simp
  show ?thesis
    using client_message_cases [of x m te s] assms r tracker_begin(1) [of "rl_tracker s"]
    by cases (auto simp: relay_ok_def split: option.splits)
qed

lemma server_message_ok:
  assumes "relay_ok s" "rl_server s = Reading"
  shows "relay_ok (server_message x te m s)"
  using server_message_cases [of m x te s]
proof cases
  case (textual reconnect t pool)
  have "tracker_ok (rl_tracker s)" using assms(1) by (simp add: relay_ok_def)
  from observe_tracker [OF textual(2) this] show ?thesis using assms textual(3) by (auto simp: relay_ok_def)
next
  case binary
  then show ?thesis using assms by (auto simp: relay_ok_def)
qed

interpretation relay: machine_invariant "relay_step x" relay_ok
proof
  fix s t :: relay and ev
  assume ok: "relay_ok s" and step: "relay_step x ev s = Some t"
  from step show "relay_ok t"
  proof (cases rule: relay_step_elims)
    case (client_read te r m)
    then show ?thesis using ok client_message_ok by simp
  next
    case (server_read te r m)
    then show ?thesis using ok server_message_ok by simp
  next
    case (wakes forced status err rest)
    then show ?thesis using ok closeWebSocketPeer_sendable [of status] by (auto simp: relay_ok_def)
  next
    case (finishes now err e rest)
    then show ?thesis using ok finishOpen_tracker [of "rl_tracker s" now] by (auto simp: relay_ok_def)
  qed (use ok in \<open>auto simp: relay_ok_def\<close>)
qed

lemma relay_start_ok: "relay_ok (relay_start pool)"
  by (simp add: relay_ok_def relay_start_def tracker_ok_def pending_ok_def)

subsection \<open>Messages in order\<close>

definition wire_message :: "ws_session \<Rightarrow> turn_env \<Rightarrow> message_type \<times> string \<Rightarrow> (message_type \<times> string) list" where
  "wire_message x te m =
     (case fst m of
        MessageBinary \<Rightarrow> [m]
      | MessageText \<Rightarrow> (case wire_payload x te (snd m) of None \<Rightarrow> [] | Some out \<Rightarrow> [(MessageText, out)]))"

text \<open>What the client's side of an event puts on the wire, and what its server's side delivers.\<close>

definition client_wire :: "ws_session \<Rightarrow> relay_event \<Rightarrow> (message_type \<times> string) list" where
  "client_wire x ev =
     (case ev of
        ClientReads te r \<Rightarrow> (case readWebSocketMessage r of Inl err \<Rightarrow> [] | Inr m \<Rightarrow> wire_message x te m)
      | _ \<Rightarrow> [])"

definition server_sent :: "relay_event \<Rightarrow> (message_type \<times> string) list" where
  "server_sent ev =
     (case ev of
        ServerReads te r \<Rightarrow> (case readWebSocketMessage r of Inl err \<Rightarrow> [] | Inr m \<Rightarrow> [m])
      | _ \<Rightarrow> [])"

definition in_flight :: "pump \<Rightarrow> (message_type \<times> string) list" where
  "in_flight p = (case p of Writing ty payload b \<Rightarrow> [(ty, payload)] | _ \<Rightarrow> [])"

text \<open>A direction of the relay: what was taken in is what was put out and at most one message more, the one
  in flight unless the pump has ended.\<close>

definition relayed :: "pump \<Rightarrow> (message_type \<times> string) list \<Rightarrow> (message_type \<times> string) list \<Rightarrow> bool" where
  "relayed p taken out \<longleftrightarrow>
     (\<exists>lost. taken = out @ lost \<and> length lost \<le> 1 \<and> ((\<forall>e. p \<noteq> Ended e) \<longrightarrow> lost = in_flight p))"

lemma relayed_simps [simp]:
  "relayed Reading taken out \<longleftrightarrow> taken = out"
  "relayed (Writing ty p b) taken out \<longleftrightarrow> taken = out @ [(ty, p)]"
  "relayed (Ended e) out out" "relayed (Ended e) (out @ [m]) out"
  by (auto simp: relayed_def in_flight_def)

lemma relayed_ended: "relayed p taken out \<Longrightarrow> relayed (Ended e) taken out"
  by (auto simp: relayed_def)

definition in_order :: "ws_session \<Rightarrow> relay_event list \<Rightarrow> relay \<Rightarrow> bool" where
  "in_order x es s \<longleftrightarrow>
     relayed (rl_client s) (concat (map (client_wire x) es)) (rl_upstream s) \<and>
     relayed (rl_server s) (concat (map server_sent es)) (rl_downstream s)"

lemma client_message_relayed:
  assumes "rl_client s = Reading"
  shows "relayed (rl_client (client_message x te m s)) (rl_upstream s @ wire_message x te m) (rl_upstream (client_message x te m s))"
    "rl_server (client_message x te m s) = rl_server s" "rl_downstream (client_message x te m s) = rl_downstream s"
proof -
  have nil: "relayed (Ended e) out out" for e out by (simp add: relayed_def)
  note c = client_message_cases [of x m te s]
  show "relayed (rl_client (client_message x te m s)) (rl_upstream s @ wire_message x te m) (rl_upstream (client_message x te m s))"
    using c assms by cases (auto simp: wire_message_def nil split: option.splits message_type.splits, (cases m, simp)+)
  show "rl_server (client_message x te m s) = rl_server s"
    using c by cases (auto split: option.splits)
  show "rl_downstream (client_message x te m s) = rl_downstream s"
    using c by cases (auto split: option.splits)
qed

lemma server_message_relayed:
  "\<exists>b. rl_server (server_message x te m s) = Writing (fst m) (snd m) b"
  "rl_downstream (server_message x te m s) = rl_downstream s"
  "rl_client (server_message x te m s) = rl_client s" "rl_upstream (server_message x te m s) = rl_upstream s"
proof -
  have "(\<exists>b. rl_server (server_message x te m s) = Writing (fst m) (snd m) b) \<and>
      rl_downstream (server_message x te m s) = rl_downstream s \<and>
      rl_client (server_message x te m s) = rl_client s \<and> rl_upstream (server_message x te m s) = rl_upstream s"
    using server_message_cases [of m x te s] by cases auto
  then show "\<exists>b. rl_server (server_message x te m s) = Writing (fst m) (snd m) b"
    "rl_downstream (server_message x te m s) = rl_downstream s"
    "rl_client (server_message x te m s) = rl_client s" "rl_upstream (server_message x te m s) = rl_upstream s" by blast+
qed

lemma run_in_order: "run_steps (relay_step x) es (relay_start pool) = Some s \<Longrightarrow> in_order x es s"
proof (induction rule: run_steps_induct)
  case start
  then show ?case by (simp add: in_order_def relay_start_def)
next
  case (step es s ev t)
  from step.hyps(2) show ?case
  proof (cases rule: relay_step_elims)
    case (client_read te r m)
    then show ?thesis using step.IH client_message_relayed [of s x te m]
      by (simp add: in_order_def client_wire_def server_sent_def)
  next
    case (server_read te r m)
    obtain b where "rl_server (server_message x te m s) = Writing (fst m) (snd m) b"
      using server_message_relayed(1) by blast
    then show ?thesis using step.IH server_read server_message_relayed(2-4) [of x te m s]
      by (simp add: in_order_def client_wire_def server_sent_def)
  qed (use step.IH in \<open>auto simp: in_order_def client_wire_def server_sent_def dest: relayed_ended\<close>)
qed

subsection \<open>Rate limits\<close>

definition limits :: "ws_session \<Rightarrow> message_type \<times> string \<Rightarrow> bool" where
  "limits x m \<longleftrightarrow> fst m = MessageText \<and>
     (case unmarshal_obj (wx_lib x) (snd m) of None \<Rightarrow> False | Some event \<Rightarrow> rate_limit_event (wx_lib x) event)"

lemma observe_reconnect:
  assumes "observeServerEvent x te payload (t, pool) = (reconnect, t', pool')"
  shows "reconnect = limits x (MessageText, payload)"
    and "limits x (MessageText, payload) \<Longrightarrow> \<exists>until. pool' = coolAt (wx_account x) (te_now te) until pool \<and> te_now te + minCooldown \<le> until"
    and "\<not> limits x (MessageText, payload) \<Longrightarrow> pool' = pool"
  using assms deriveCooldown_sane [of "te_now te" "wx_lib x" _ payload]
  by (auto simp: observeServerEvent_def limits_def rate_limit_event_def terminal_kinds_def sane_deadline_def Let_def
      split: option.splits if_splits)

lemma cool_deadline: "until \<le> cooldownUntil (cool a now until)" "cooldownUntil a \<le> cooldownUntil (cool a now until)"
  by (auto simp: cool_def Let_def)

definition benched_until :: "ws_session \<Rightarrow> relay_event \<Rightarrow> gotime \<Rightarrow> bool" where
  "benched_until x ev deadline \<longleftrightarrow>
     (case ev of
        ServerReads te r \<Rightarrow>
          (case readWebSocketMessage r of Inl err \<Rightarrow> True | Inr m \<Rightarrow> limits x m \<longrightarrow> te_now te + minCooldown \<le> deadline)
      | _ \<Rightarrow> True)"

definition limit_inv :: "ws_session \<Rightarrow> accountPool \<Rightarrow> relay_event list \<Rightarrow> relay \<Rightarrow> bool" where
  "limit_inv x pool es s \<longleftrightarrow>
     (\<forall>ty p b. rl_server s = Writing ty p b \<longrightarrow> b = limits x (ty, p)) \<and>
     (\<forall>m\<in>set (butlast (rl_downstream s)). \<not> limits x m) \<and>
     ((\<forall>e. rl_server s \<noteq> Ended e) \<longrightarrow> (\<forall>m\<in>set (rl_downstream s). \<not> limits x m)) \<and>
     pool_size (rl_pool s) = pool_size pool \<and>
     (\<forall>j. j \<noteq> wx_account x \<longrightarrow> accounts (rl_pool s) ! j = accounts pool ! j) \<and>
     (wx_account x < pool_size pool \<longrightarrow>
        (\<forall>ev\<in>set es. benched_until x ev (cooldownUntil (accounts (rl_pool s) ! wx_account x))))"

lemma benched_mono: "benched_until x ev d \<Longrightarrow> d \<le> d' \<Longrightarrow> benched_until x ev d'"
  by (auto simp: benched_until_def split: relay_event.splits sum.splits)

lemma server_message_pool:
  assumes "pool_size (rl_pool s) = n" "wx_account x < n"
    and t_def: "t = server_message x te m s"
  shows "cooldownUntil (accounts (rl_pool s) ! wx_account x) \<le> cooldownUntil (accounts (rl_pool t) ! wx_account x)"
    and "limits x m \<Longrightarrow> te_now te + minCooldown \<le> cooldownUntil (accounts (rl_pool t) ! wx_account x)"
proof -
  have "cooldownUntil (accounts (rl_pool s) ! wx_account x) \<le> cooldownUntil (accounts (rl_pool t) ! wx_account x) \<and>
    (limits x m \<longrightarrow> te_now te + minCooldown \<le> cooldownUntil (accounts (rl_pool t) ! wx_account x))"
    using server_message_cases [of m x te s]
  proof cases
    case (textual reconnect t' pool)
    then have m: "m = (MessageText, snd m)" by (metis prod.collapse)
    have pool: "rl_pool t = pool" using textual by (simp add: t_def)
    note o = observe_reconnect [OF textual(2)]
    show ?thesis
    proof (cases "limits x m")
      case True
      with o(2) m obtain until where u: "pool = coolAt (wx_account x) (te_now te) until (rl_pool s)" "te_now te + minCooldown \<le> until"
        by auto
      have "accounts pool ! wx_account x = cool (accounts (rl_pool s) ! wx_account x) (te_now te) until"
        using assms(1,2) by (simp add: u(1) coolAt_def pool_size_def)
      then show ?thesis using u(2) cool_deadline(1) [of until "accounts (rl_pool s) ! wx_account x" "te_now te"]
          cool_deadline(2) [of "accounts (rl_pool s) ! wx_account x" "te_now te" until] pool by simp
    next
      case False
      then show ?thesis using o(3) m pool by simp
    qed
  next
    case binary
    then show ?thesis by (simp add: t_def limits_def)
  qed
  then show "cooldownUntil (accounts (rl_pool s) ! wx_account x) \<le> cooldownUntil (accounts (rl_pool t) ! wx_account x)"
    "limits x m \<Longrightarrow> te_now te + minCooldown \<le> cooldownUntil (accounts (rl_pool t) ! wx_account x)" by blast+
qed

lemma server_message_frame:
  "pool_size (rl_pool (server_message x te m s)) = pool_size (rl_pool s)"
  "j \<noteq> wx_account x \<Longrightarrow> accounts (rl_pool (server_message x te m s)) ! j = accounts (rl_pool s) ! j"
  "rl_server (server_message x te m s) = Writing (fst m) (snd m) (limits x m)"
proof -
  have "pool_size (rl_pool (server_message x te m s)) = pool_size (rl_pool s) \<and>
      (j \<noteq> wx_account x \<longrightarrow> accounts (rl_pool (server_message x te m s)) ! j = accounts (rl_pool s) ! j) \<and>
      rl_server (server_message x te m s) = Writing (fst m) (snd m) (limits x m)" for j
    using server_message_cases [of m x te s]
  proof cases
    case (textual reconnect t' pool)
    then have m: "m = (MessageText, snd m)" by (metis prod.collapse)
    note o = observe_reconnect [OF textual(2)]
    have "pool = rl_pool s \<or> (\<exists>until. pool = coolAt (wx_account x) (te_now te) until (rl_pool s))" using o(2,3) by blast
    moreover have "reconnect = limits x m" using o(1) m by simp
    ultimately show ?thesis using textual by (auto simp: coolAt_def pool_size_def)
  next
    case binary
    then show ?thesis by (simp add: limits_def)
  qed
  then show "pool_size (rl_pool (server_message x te m s)) = pool_size (rl_pool s)"
    "j \<noteq> wx_account x \<Longrightarrow> accounts (rl_pool (server_message x te m s)) ! j = accounts (rl_pool s) ! j"
    "rl_server (server_message x te m s) = Writing (fst m) (snd m) (limits x m)" by blast+
qed

lemma client_message_pool: "rl_pool (client_message x te m s) = rl_pool s"
  using client_message_cases [of x m te s] by cases (auto split: option.splits)

lemma run_limit_inv: "run_steps (relay_step x) es (relay_start pool) = Some s \<Longrightarrow> limit_inv x pool es s"
proof (induction rule: run_steps_induct)
  case start
  then show ?case by (simp add: limit_inv_def relay_start_def)
next
  case (step es s ev t)
  from step.hyps(2) show ?case
  proof (cases rule: relay_step_elims)
    case (client_read te r m)
    then show ?thesis using step.IH client_message_pool [of x te m s] client_message_relayed(2,3) [of s x te m]
      by (simp add: limit_inv_def benched_until_def)
  next
    case (server_read te r m)
    let ?bench = "\<lambda>u. cooldownUntil (accounts (rl_pool u) ! wx_account x)"
    have "\<forall>e\<in>set (es @ [ev]). benched_until x e (?bench t)" if acct: "wx_account x < pool_size pool"
    proof -
      have size: "pool_size (rl_pool s) = pool_size pool" and old: "\<forall>e\<in>set es. benched_until x e (?bench s)"
        using step.IH acct by (simp_all add: limit_inv_def)
      note p = server_message_pool [OF size acct server_read(4)]
      have "benched_until x ev (?bench t)" using p(2) server_read(1,3) by (simp add: benched_until_def)
      then show ?thesis using old benched_mono [OF _ p(1)] by auto
    qed
    then show ?thesis using step.IH server_read server_message_frame [where x = x and te = te and m = m and s = s] server_message_relayed(2) [of x te m s]
      by (simp add: limit_inv_def)
  qed (use step.IH in \<open>auto simp: limit_inv_def benched_until_def butlast_append dest: in_set_butlastD\<close>)
qed

subsection \<open>Turns\<close>

definition turn_begins :: "ws_session \<Rightarrow> relay_event \<Rightarrow> bool" where
  "turn_begins x ev \<longleftrightarrow>
     (case ev of
        ClientReads te r \<Rightarrow>
          (case readWebSocketMessage r of Inl err \<Rightarrow> False | Inr m \<Rightarrow> fst m = MessageText \<and> creates x (snd m))
      | _ \<Rightarrow> False)"

lemma client_message_turns:
  assumes "tracker_ok (rl_tracker s)" "wx_logLimit x \<noteq> 0"
  shows "turns (rl_tracker (client_message x te m s)) =
    turns (rl_tracker s) + (if fst m = MessageText \<and> creates x (snd m) then 1 else 0)"
  using client_message_cases [of x m te s] assms
  by cases (auto simp: tracker_begin(2) split: option.split)

lemma server_message_turns:
  assumes "tracker_ok (rl_tracker s)"
  shows "turns (rl_tracker (server_message x te m s)) = turns (rl_tracker s)"
  using server_message_cases [of m x te s]
proof cases
  case (textual reconnect t pool)
  then show ?thesis using observe_tracker(2) [OF textual(2) assms] by simp
qed simp

lemma run_turns:
  assumes "wx_logLimit x \<noteq> 0"
  shows "run_steps (relay_step x) es (relay_start pool) = Some s \<Longrightarrow>
    turns (rl_tracker s) = length (filter (turn_begins x) es)"
proof (induction rule: run_steps_induct)
  case start
  then show ?case by (simp add: relay_start_def turns_def)
next
  case (step es s ev t)
  have ok: "tracker_ok (rl_tracker s)"
    using relay.run_inv [OF relay_start_ok step.hyps(1)] by (simp add: relay_ok_def)
  from step.hyps(2) show ?case
  proof (cases rule: relay_step_elims)
    case (client_read te r m)
    then show ?thesis using step.IH client_message_turns [OF ok assms] by (simp add: turn_begins_def)
  next
    case (server_read te r m)
    then show ?thesis using step.IH server_message_turns [OF ok] by (simp add: turn_begins_def)
  next
    case (finishes now err e rest)
    then show ?thesis using step.IH finishOpen_tracker(2) [OF ok] by (simp add: turn_begins_def)
  qed (use step.IH in \<open>auto simp: turn_begins_def\<close>)
qed

subsection \<open>Ending a session\<close>

text \<open>From any state a failing peer and the main goroutine close the session in a few steps.\<close>

lemma end_pumps:
  obtains fs u where "length fs \<le> 2" "run_steps (relay_step x) fs s = Some u"
    "ended (rl_client u) = 1" "ended (rl_server u) = 1" "rl_phase u = rl_phase s"
proof -
  let ?te = "\<lparr>te_now = 0, te_auth = (None, False), te_catalog = None, te_done = 0\<rparr>"
  obtain fs u where u: "length fs \<le> 1" "run_steps (relay_step x) fs s = Some u" "ended (rl_client u) = 1"
      "rl_server u = rl_server s" "rl_phase u = rl_phase s"
  proof (cases "rl_client s")
    case Reading
    then show thesis
      using that [of "[ClientReads ?te (ReaderError [])]"] by (simp add: readWebSocketMessage_def)
  next
    case (Writing ty p b)
    then show thesis using that [of "[ClientWrites (Some [])]"] by simp
  next
    case (Ended e)
    then show thesis using that [of "[]"] by simp
  qed
  obtain gs v where v: "length gs \<le> 1" "run_steps (relay_step x) gs u = Some v" "ended (rl_server v) = 1"
      "rl_client v = rl_client u" "rl_phase v = rl_phase u"
  proof (cases "rl_server u")
    case Reading
    then show thesis
      using that [of "[ServerReads ?te (ReaderError [])]"] by (simp add: readWebSocketMessage_def)
  next
    case (Writing ty p b)
    then show thesis using that [of "[ServerWrites (Some [])]"] by simp
  next
    case (Ended e)
    then show thesis using that [of "[]"] by simp
  qed
  show thesis using that [of "fs @ gs" v] u v by (simp add: run_steps_append)
qed

lemma drain_channel:
  assumes "relay_ok u" "ended (rl_client u) = 1" "ended (rl_server u) = 1"
  shows "\<exists>fs t. length fs \<le> 2 \<and> run_steps (relay_step x) fs u = Some t \<and> received (rl_phase t) = 2"
proof (cases "rl_phase u")
  case Open
  then have "length (rl_channel u) = Suc (Suc 0)" using assms by (simp add: relay_ok_def)
  then obtain a b where ch: "rl_channel u = [a, b]" by (auto simp: length_Suc_conv)
  show ?thesis by (rule exI [of _ "[MainWakes True 0, MainFinishes 0]"]) (simp add: Open ch)
next
  case (Draining err)
  then have "length (rl_channel u) = Suc 0" using assms by (simp add: relay_ok_def)
  then obtain a where ch: "rl_channel u = [a]" by (auto simp: length_Suc_conv)
  show ?thesis by (rule exI [of _ "[MainFinishes 0]"]) (simp add: Draining ch)
next
  case (Closed err)
  show ?thesis by (rule exI [of _ "[]"]) (simp add: Closed)
qed

lemma session_can_close:
  assumes "relay_ok s"
  shows "\<exists>fs t. length fs \<le> 4 \<and> run_steps (relay_step x) fs s = Some t \<and> (\<exists>err. rl_phase t = Closed err)"
proof -
  obtain fs u where u: "length fs \<le> 2" "run_steps (relay_step x) fs s = Some u"
    "ended (rl_client u) = 1" "ended (rl_server u) = 1" by (rule end_pumps)
  have "relay_ok u" by (rule relay.run_inv [OF assms u(2)])
  from drain_channel [OF this u(3,4)] obtain gs t where t: "length gs \<le> 2" "run_steps (relay_step x) gs u = Some t" "received (rl_phase t) = 2" by blast
  have "length (fs @ gs) \<le> 4" "run_steps (relay_step x) (fs @ gs) s = Some t"
    using u t by (simp_all add: run_steps_append)
  then show ?thesis using t(3) received_2 by blast
qed

subsection \<open>Normalised events\<close>

lemma wire_ok_drop_tier:
  assumes "wire_ok model tier b"
  shows "wire_ok model [] (odel b ''service_tier'')"
proof -
  have "input_items (odel b ''service_tier'') = input_items b" by (rule input_items_cong) simp
  moreover have "hasSystemOrDeveloperMessage (odel b ''service_tier'') = hasSystemOrDeveloperMessage b"
    using calculation by (simp add: hasSystemOrDeveloperMessage_def)
  moreover have "stringField (odel b ''service_tier'') ''instructions'' = stringField b ''instructions''"
    by (rule stringField_cong) simp
  ultimately show ?thesis using assms by (simp add: wire_ok_def tier_ok_def)
qed

lemma create_event_ok:
  assumes "create_event x catalog event = (info, wire)"
  shows "(\<exists>tier. wire_ok (ri_NormalizedModel info) tier wire) \<and>
    (stringField wire ''service_tier'' = ''priority'' \<longrightarrow> accountSupportsTier catalog (ri_NormalizedModel info) ''priority'')"
proof -
  obtain i b where n: "normalizeResponsesBody (oset event ''stream'' (JBool True)) (wx_cfg x) (rq_Header (wx_request x)) = (i, b)"
    by fastforce
  have ok: "wire_ok (ri_NormalizedModel i) (ri_ServiceTier i) b"
    using normalized_wire_ok [of "oset event ''stream'' (JBool True)" "wx_cfg x" "rq_Header (wx_request x)"] n by simp
  have "stringField (odel b ''service_tier'') ''service_tier'' = []" by (simp add: stringField_def)
  then show ?thesis
    using assms n ok wire_ok_drop_tier [OF ok] by (auto simp: create_event_def split: if_splits)
qed

section \<open>Properties\<close>

text \<open>C8: Every turn of a session is logged exactly once. At any moment the finished entries and the open one
  are as many as the response.create events the client sent; each entry is a WebSocket request with
  status 200, 429 or 502. When the session is closed both pumps have ended, no entry is open and the
  concurrency slot is free, and the slot is held until then.\<close>

theorem websocket_turns_logged:
  assumes "run_steps (relay_step x) es (relay_start pool) = Some s" "wx_logLimit x \<noteq> 0"
  shows "length (tk_finished (rl_tracker s)) + (if tk_pending (rl_tracker s) = None then 0 else 1)
      = length (filter (turn_begins x) es) \<and>
    (\<forall>e\<in>set (tk_finished (rl_tracker s)). e_Method e = ''WS'' \<and> e_UpstreamStatus e = 101 \<and> e_Status e \<in> {200, 429, 502}) \<and>
    (\<forall>err. rl_phase s = Closed err \<longrightarrow>
       tk_pending (rl_tracker s) = None \<and> (\<exists>e. rl_client s = Ended e) \<and> (\<exists>e. rl_server s = Ended e)) \<and>
    (rl_slot s \<longleftrightarrow> (\<forall>err. rl_phase s \<noteq> Closed err))"
proof -
  have ok: "relay_ok s" by (rule relay.run_inv [OF relay_start_ok assms(1)])
  have slot: "rl_slot s \<longleftrightarrow> (\<forall>err. rl_phase s \<noteq> Closed err)"
    using ok by (cases "rl_phase s") (auto simp: relay_ok_def)
  have closed: "tk_pending (rl_tracker s) = None \<and> (\<exists>e. rl_client s = Ended e) \<and> (\<exists>e. rl_server s = Ended e)"
    if "rl_phase s = Closed err" for err
  proof -
    have "ended (rl_client s) + ended (rl_server s) \<ge> 2" using ok that by (simp add: relay_ok_def)
    then have "ended (rl_client s) = 1" "ended (rl_server s) = 1"
      using ended_le(1) [of "rl_client s"] ended_le(1) [of "rl_server s"] by linarith+
    then show ?thesis using ok that ended_le(2) by (simp add: relay_ok_def)
  qed
  have "\<forall>e\<in>set (tk_finished (rl_tracker s)). e_Method e = ''WS'' \<and> e_UpstreamStatus e = 101 \<and> e_Status e \<in> {200, 429, 502}"
    using ok by (simp add: relay_ok_def tracker_ok_def entry_ok_def)
  then show ?thesis using run_turns [OF assms(2,1)] slot closed unfolding turns_def by blast
qed

text \<open>C9: The relay neither loses, repeats, reorders nor invents messages. What has been written to the upstream
  is what the client sent, in order, with every response.create normalised and everything else
  unchanged, and what has been written to the client is what the upstream sent, unchanged; in each
  direction at most the last message is still missing.\<close>

theorem websocket_relays_in_order:
  assumes "run_steps (relay_step x) es (relay_start pool) = Some s"
  shows "(\<exists>last. concat (map (client_wire x) es) = rl_upstream s @ last \<and> length last \<le> 1) \<and>
    (\<exists>last. concat (map server_sent es) = rl_downstream s @ last \<and> length last \<le> 1)"
  using run_in_order [OF assms] unfolding in_order_def relayed_def by blast

text \<open>C10: A rate limit ends the session and benches the account. An error event with status 429 is the last
  thing the client gets, and from the moment it is read the account of the session is out of
  rotation for at least the shortest cooldown, while the other accounts stay as they are.\<close>

theorem websocket_rate_limit_ends_session:
  assumes "run_steps (relay_step x) es (relay_start pool) = Some s"
  shows "(\<forall>m\<in>set (butlast (rl_downstream s)). \<not> limits x m) \<and>
    (rl_downstream s \<noteq> [] \<and> limits x (last (rl_downstream s)) \<longrightarrow> (\<exists>e. rl_server s = Ended e)) \<and>
    (\<forall>te r m. ServerReads te r \<in> set es \<and> readWebSocketMessage r = Inr m \<and> limits x m \<and> wx_account x < pool_size pool \<longrightarrow>
       te_now te + minCooldown \<le> cooldownUntil (accounts (rl_pool s) ! wx_account x)) \<and>
    (\<forall>j. j \<noteq> wx_account x \<longrightarrow> accounts (rl_pool s) ! j = accounts pool ! j)"
proof -
  note inv = run_limit_inv [OF assms]
  have "te_now te + minCooldown \<le> cooldownUntil (accounts (rl_pool s) ! wx_account x)"
    if "ServerReads te r \<in> set es" "readWebSocketMessage r = Inr m" "limits x m" "wx_account x < pool_size pool" for te r m
  proof -
    have "benched_until x (ServerReads te r) (cooldownUntil (accounts (rl_pool s) ! wx_account x))"
      using inv that(1,4) by (simp add: limit_inv_def)
    then show ?thesis using that(2,3) by (simp add: benched_until_def)
  qed
  moreover have "rl_downstream s \<noteq> [] \<and> limits x (last (rl_downstream s)) \<longrightarrow> (\<exists>e. rl_server s = Ended e)"
    using inv by (auto simp: limit_inv_def)
  ultimately show ?thesis using inv unfolding limit_inv_def by blast
qed

text \<open>A session can always be ended: in every reachable state, with whatever message half-way, at most four
  steps of failing reads and writes and of the main goroutine close it.\<close>

theorem websocket_session_closes:
  assumes "run_steps (relay_step x) es (relay_start pool) = Some s"
  shows "\<exists>fs t. length fs \<le> 4 \<and> run_steps (relay_step x) fs s = Some t \<and> (\<exists>err. rl_phase t = Closed err)"
  using relay.run_inv [OF relay_start_ok assms] by (rule session_can_close)

text \<open>What goes upstream for a response.create obeys the rules of the HTTP path: no parameter the backend
  rejects, every field it requires, and the priority tier only for a model and an account whose
  catalog advertises it.\<close>

theorem websocket_create_wire_ok:
  assumes "create_event x catalog event = (info, wire)"
  shows "(\<exists>tier. wire_ok (ri_NormalizedModel info) tier wire) \<and>
    (stringField wire ''service_tier'' = ''priority'' \<longrightarrow> accountSupportsTier catalog (ri_NormalizedModel info) ''priority'')"
  using assms by (rule create_event_ok)

section \<open>Witnesses\<close>

definition relay_lib :: golib where
  "relay_lib = witness_lib
     \<lparr>lib_Unmarshal := \<lambda>s.
        if s = ''create'' then Some (JObj [(''type'', JStr ''response.create'')])
        else if s = ''slow'' then Some (JObj [(''type'', JStr ''error''), (''status'', JFloat 429)])
        else None\<rparr>"

definition relay_witness :: ws_session where
  "relay_witness =
     \<lparr>wx_lib = relay_lib, wx_cfg = witness_cfg,
      wx_request = \<lparr>rq_Method = ''GET'', rq_Path = ''/v1/responses'', rq_RemoteAddr = ''h:1'', rq_Header = []\<rparr>,
      wx_account = 0, wx_split = \<lambda>_. None, wx_format = \<lambda>_. [], wx_logLimit = 10\<rparr>"

definition turn_witness :: turn_env where
  "turn_witness = \<lparr>te_now = seconds 10, te_auth = (None, True), te_catalog = None, te_done = seconds 11\<rparr>"

lemma read_small: "length p \<le> maxRequestBodyBytes \<Longrightarrow> readWebSocketMessage (Message ty p None) = Inr (ty, p)"
  by (simp add: readWebSocketMessage_def Let_def)

lemma read_create: "readWebSocketMessage (Message MessageText ''create'' None) = Inr (MessageText, ''create'')"
  by (rule read_small) (simp add: maxRequestBodyBytes_def)

lemma read_slow: "readWebSocketMessage (Message MessageText ''slow'' None) = Inr (MessageText, ''slow'')"
  by (rule read_small) (simp add: maxRequestBodyBytes_def)

lemma start_Reading [simp]: "rl_client (relay_start pool) = Reading" "rl_server (relay_start pool) = Reading"
  by (simp_all add: relay_start_def)

lemma type_field: "stringField ((''type'', JStr s) # rest) ''type'' = TrimSpace s"
  by (simp add: stringField_def oget_def)

lemma creates_witness: "creates relay_witness ''create''"
proof -
  have "TrimSpace ''response.create'' = ''response.create''" by code_simp
  then show ?thesis by (simp add: creates_def unmarshal_obj_def relay_witness_def relay_lib_def type_field)
qed

lemma limits_witness: "limits relay_witness (MessageText, ''slow'')"
proof -
  have "TrimSpace ''error'' = ''error''" by code_simp
  moreover have "webSocketEventStatus relay_lib [(''type'', JStr ''error''), (''status'', JFloat 429)] = 429" by code_simp
  ultimately show ?thesis
    by (simp add: limits_def unmarshal_obj_def relay_witness_def relay_lib_def type_field rate_limit_event_def)
qed

theorem websocket_turns_logged_witness:
  "\<exists>s. run_steps (relay_step relay_witness) [ClientReads turn_witness (Message MessageText ''create'' None)] (relay_start witness_pool) = Some s \<and>
     length (tk_finished (rl_tracker s)) + (if tk_pending (rl_tracker s) = None then 0 else 1) = 1"
proof -
  let ?es = "[ClientReads turn_witness (Message MessageText ''create'' None)]"
  obtain s where s: "run_steps (relay_step relay_witness) ?es (relay_start witness_pool) = Some s"
    by (simp add: read_create)
  have "filter (turn_begins relay_witness) ?es = ?es" by (simp add: turn_begins_def read_create creates_witness)
  moreover have "wx_logLimit relay_witness \<noteq> 0" by (simp add: relay_witness_def)
  ultimately show ?thesis using websocket_turns_logged [OF s] s by simp
qed

theorem websocket_relays_in_order_witness:
  "\<exists>s. run_steps (relay_step relay_witness) [ServerReads turn_witness (Message MessageText ''slow'' None)] (relay_start witness_pool) = Some s \<and>
     (\<exists>last. [(MessageText, ''slow'')] = rl_downstream s @ last \<and> length last \<le> 1)"
proof -
  let ?es = "[ServerReads turn_witness (Message MessageText ''slow'' None)]"
  obtain s where s: "run_steps (relay_step relay_witness) ?es (relay_start witness_pool) = Some s"
    by (simp add: read_slow)
  have "concat (map server_sent ?es) = [(MessageText, ''slow'')]" by (simp add: server_sent_def read_slow)
  then show ?thesis using conjunct2 [OF websocket_relays_in_order [OF s]] s by simp
qed

theorem websocket_rate_limit_ends_session_witness:
  "\<exists>s. run_steps (relay_step relay_witness) [ServerReads turn_witness (Message MessageText ''slow'' None)] (relay_start witness_pool) = Some s \<and>
     seconds 10 + minCooldown \<le> cooldownUntil (accounts (rl_pool s) ! 0)"
proof -
  let ?r = "Message MessageText ''slow'' None"
  obtain s where s: "run_steps (relay_step relay_witness) [ServerReads turn_witness ?r] (relay_start witness_pool) = Some s"
    by (simp add: read_slow)
  have acct: "wx_account relay_witness = 0" "te_now turn_witness = seconds 10" "0 < pool_size witness_pool"
    by (simp_all add: relay_witness_def turn_witness_def witness_pool_def newAccountPool_def pool_size_def Let_def split: prod.split)
  have "te_now turn_witness + minCooldown \<le> cooldownUntil (accounts (rl_pool s) ! wx_account relay_witness)"
    using websocket_rate_limit_ends_session [OF s] read_slow limits_witness acct by simp
  then show ?thesis using s acct by simp
qed

theorem websocket_session_closes_witness:
  "\<exists>fs t. length fs \<le> 4 \<and> run_steps (relay_step relay_witness) fs (relay_start witness_pool) = Some t \<and> (\<exists>err. rl_phase t = Closed err)"
  by (rule websocket_session_closes [of _ "[]"]) simp

theorem websocket_create_wire_ok_witness:
  "\<exists>tier. wire_ok (ri_NormalizedModel (fst (create_event relay_witness None []))) tier (snd (create_event relay_witness None []))"
proof -
  obtain info wire where e: "create_event relay_witness None [] = (info, wire)" by fastforce
  show ?thesis using websocket_create_wire_ok [OF e] e by simp
qed

end
