(* ===== verification/LiveSession.thy ===== *)
theory LiveSession
  imports LiveCalls Relay
begin

text \<open>
  The sideband of a realtime call, \<open>handleLiveWebSocket\<close> of \<^verbatim>\<open>src/realtime.go\<close>: its checks, the two
  handshakes, and the open session as a machine of two equal pumps and the handler. The event that a
  pump meets comes with the step, so the properties hold for every schedule and both peers.
\<close>

section \<open>Definitions\<close>

subsection \<open>The handler up to the open session\<close>

text \<open>What the handler meets beside the fields of every handler: the parts of the request that it logs, the
  identifier in the path and in the query, the clock of the lookup, \<open>url.PathEscape\<close>, the upstream
  handshake (\<open>None\<close> when it succeeds, else the status of the response, if there is one) and whether
  the client's handshake succeeds.\<close>

record live_ws_io = http_io +
  lw_split :: "string \<Rightarrow> string option"
  lw_format :: "gotime \<Rightarrow> string"
  lw_logLimit :: int
  lw_begun :: gotime
  lw_method :: string
  lw_remote :: string
  lw_pathID :: string
  lw_queryID :: string
  lw_now :: gotime
  lw_escape :: "string \<Rightarrow> string"
  lw_dial :: "string \<Rightarrow> header \<Rightarrow> nat option option"
  lw_accept :: bool

datatype live_handshake = LiveRefused answer | LiveAborted | LiveOpen liveCall

datatype live_event = Slot_acquired | Dialed_live nat string header | Slot_released

definition live_log :: "live_ws_io \<Rightarrow> pending" where
  "live_log io =
     beginRequestLog (lw_split io) (lw_format io) (lw_logLimit io) (lw_begun io) (hi_auth io)
       \<lparr>rq_Method = lw_method io, rq_Path = ''/v1/live/{call_id}'', rq_RemoteAddr = lw_remote io, rq_Header = hi_header io\<rparr>"

definition live_refuse :: "live_ws_io \<Rightarrow> dispatchFailure \<Rightarrow> live_handshake \<times> pending" where
  "live_refuse io fail =
     (let (ans, entry) = fail_reply (http_io.truncate io) fail ([], live_log io) in (LiveRefused ans, entry))"

text \<open>The part that runs with a slot.\<close>

definition live_connect :: "live_ws_io \<Rightarrow> liveCall \<Rightarrow> string \<Rightarrow> (live_handshake \<times> pending) \<times> live_event list" where
  "live_connect io call cid =
     (case de_current (hi_dispatch io) 0 (lc_account call) of
        Inl err \<Rightarrow> (live_refuse io (failure 502 ''Codex authentication failed''), [])
      | Inr access \<Rightarrow>
          (let headers = live_dial_header (base_cfg (http_io.truncate io)) access;
               endpoint = ''wss://api.openai.com/v1/live/'' @ lw_escape io cid;
               dialed = [Dialed_live (lc_account call) endpoint headers]
           in (case lw_dial io endpoint headers of
                 Some response \<Rightarrow>
                   (let status = (case response of Some st \<Rightarrow> if st \<ge> 400 then st else 502 | None \<Rightarrow> 502)
                    in (live_refuse io (failure status ''GPT-Live sideband handshake failed''), dialed))
               | None \<Rightarrow>
                   (if \<not> lw_accept io
                    then ((LiveAborted, markError 400 ''client WebSocket handshake failed'' (live_log io)), dialed)
                    else ((LiveOpen call, set_models liveModel (markStatus 101 (live_log io))), dialed)))))"

definition is_open :: "live_handshake \<Rightarrow> bool" where
  "is_open h \<longleftrightarrow> (case h of LiveOpen _ \<Rightarrow> True | _ \<Rightarrow> False)"

definition handleLiveWebSocket ::
    "live_ws_io \<Rightarrow> liveCallStore \<Rightarrow> (live_handshake \<times> pending) \<times> liveCallStore \<times> live_event list" where
  "handleLiveWebSocket io s =
     (if \<not> authorized (http_io.truncate io) then (live_refuse io (failure 401 ''unauthorized''), s, [])
      else (let cid = (if lw_pathID io = [] then lw_queryID io else lw_pathID io)
            in if cid = []
               then (live_refuse io (failure 400 ''create a WebRTC call with POST /v1/realtime/calls first, then connect with call_id; standalone subscription WebSockets are unavailable''), s, [])
               else (case live_lookup (lw_now io) cid (liveOwner (hi_lib io) (hi_header io)) s of
                       (Some (call, True), s') \<Rightarrow>
                         (if \<not> isWebSocketUpgrade (hi_header io)
                          then (live_refuse io (failure 426 ''WebSocket Upgrade required''), s', [])
                          else (case hi_slot io of
                                  Some (err, t) \<Rightarrow> (live_refuse io (acquireUpstreamSlot_failure err t), s', [])
                                | None \<Rightarrow>
                                    (let (r, dials) = live_connect io call cid
                                     in (r, s', Slot_acquired # dials @ (if is_open (fst r) then [] else [Slot_released])))))
                     | (_, s') \<Rightarrow> (live_refuse io (failure 404 ''call not found for this client or expired''), s', []))))"

subsection \<open>The open session\<close>

datatype direction = ToClient | ToUpstream

datatype copy_pump = AtRead | AtWrite "message_type \<times> string" | Stopped string

record link =
  lk_pump :: copy_pump
  lk_sent :: "(message_type \<times> string) list"

datatype live_phase = Relaying | Cancelled | Finished

text \<open>\<open>lv_errors\<close> is how many errors wait in the channel \<open>finished\<close>; \<open>lv_log\<close> the entry that the deferred
  \<open>finish\<close> hands to the store.\<close>

record live_state =
  lv_link :: "direction \<Rightarrow> link"
  lv_errors :: nat
  lv_phase :: live_phase
  lv_slot :: bool
  lv_log :: "requestLogEntry option"

definition live_start :: live_state where
  "live_start =
     \<lparr>lv_link = \<lambda>_. \<lparr>lk_pump = AtRead, lk_sent = []\<rparr>, lv_errors = 0, lv_phase = Relaying, lv_slot = True, lv_log = None\<rparr>"

datatype live_move =
    PumpReads direction "string + (message_type \<times> string)"
  | PumpWrites direction "string option"
  | HandlerWakes
  | HandlerReturns gotime

definition pump_stops :: "direction \<Rightarrow> string \<Rightarrow> live_state \<Rightarrow> live_state" where
  "pump_stops d err s =
     s\<lparr>lv_link := (lv_link s)(d := (lv_link s d)\<lparr>lk_pump := Stopped err\<rparr>), lv_errors := Suc (lv_errors s)\<rparr>"

text \<open>\<open>entry\<close> is the entry of the session.\<close>

fun live_step :: "pending \<Rightarrow> live_move \<Rightarrow> live_state \<Rightarrow> live_state option" where
  "live_step entry (PumpReads d r) s =
     (if lk_pump (lv_link s d) \<noteq> AtRead then None
      else (case r of
              Inl err \<Rightarrow> Some (pump_stops d err s)
            | Inr m \<Rightarrow> Some (s\<lparr>lv_link := (lv_link s)(d := (lv_link s d)\<lparr>lk_pump := AtWrite m\<rparr>)\<rparr>)))"
| "live_step entry (PumpWrites d res) s =
     (case lk_pump (lv_link s d) of
        AtWrite m \<Rightarrow>
          (case res of
             Some err \<Rightarrow> Some (pump_stops d err s)
           | None \<Rightarrow>
               Some (s\<lparr>lv_link := (lv_link s)(d := \<lparr>lk_pump = AtRead, lk_sent = lk_sent (lv_link s d) @ [m]\<rparr>)\<rparr>))
      | _ \<Rightarrow> None)"
| "live_step entry HandlerWakes s =
     (if lv_phase s = Relaying \<and> lv_errors s > 0
      then Some (s\<lparr>lv_phase := Cancelled, lv_errors := lv_errors s - 1\<rparr>) else None)"
| "live_step entry (HandlerReturns now) s =
     (if lv_phase s = Cancelled \<and> lv_errors s > 0
      then Some (s\<lparr>lv_phase := Finished, lv_errors := lv_errors s - 1, lv_slot := False,
                   lv_log := map_option (finish_entry now) entry\<rparr>) else None)"

section \<open>The handshake\<close>

lemma live_connect_trace:
  assumes "live_connect io call cid = (r, dials)"
  shows "dials = [] \<or> (\<exists>access. de_current (hi_dispatch io) 0 (lc_account call) = Inr access \<and>
      dials = [Dialed_live (lc_account call) (''wss://api.openai.com/v1/live/'' @ lw_escape io cid)
                 (live_dial_header (base_cfg (http_io.truncate io)) access)])"
  using assms by (auto simp: live_connect_def Let_def split: sum.splits option.splits if_splits)

lemma live_connect_open: "live_connect io call cid = ((LiveOpen c, l), dials) \<Longrightarrow> c = call \<and> dials \<noteq> []"
  by (auto simp: live_connect_def live_refuse_def Let_def split: sum.splits option.splits if_splits prod.splits)

lemma live_lookup_owner: "live_lookup now cid owner s = (Some (call, True), s') \<Longrightarrow>
    map_of (ls_calls s) cid = Some call \<and> lc_owner call = owner \<and> \<not> expired now call \<and> s' = s"
  by (auto simp: live_lookup_def split: option.splits if_splits)

text \<open>Error marks keep the path of an entry.\<close>

definition logged_path :: "pending \<Rightarrow> string option" where
  "logged_path l = map_option (\<lambda>p. e_Path (pl_Entry p)) l"

lemma logged_path_marks [simp]:
  "logged_path (markError st m l) = logged_path l" "logged_path (markStatus st l) = logged_path l"
  "logged_path (markUpstreamStatus st l) = logged_path l" "logged_path (set_models mo l) = logged_path l"
  "logged_path (markUpstreamHeaders hs l) = logged_path l"
  by (cases l; simp add: logged_path_def markError_def markStatus_def markUpstreamStatus_def set_models_def
      markUpstreamHeaders_def on_entry_def)+

lemma live_refuse_path: "live_refuse io fail = (h, l) \<Longrightarrow> logged_path l = logged_path (live_log io) \<and> \<not> is_open h"
  by (auto simp: live_refuse_def fail_reply_def writeDispatchFailure_def is_open_def Let_def split: prod.splits option.splits if_splits)

lemma live_log_path: "logged_path (live_log io) = (if lw_logLimit io = 0 then None else Some ''/v1/live/{call_id}'')"
  by (simp add: live_log_def logged_path_def beginRequestLog_def Let_def)

lemma handler_path:
  assumes "handleLiveWebSocket io s = ((h, l), s', tr)"
  shows "logged_path l = logged_path (live_log io)"
proof -
  have connect: "live_connect io call cid = ((h, l), dials) \<Longrightarrow> logged_path l = logged_path (live_log io)" for call cid dials
    by (auto simp: live_connect_def Let_def dest: live_refuse_path split: sum.splits option.splits if_splits)
  show ?thesis
    using assms by (auto simp: handleLiveWebSocket_def Let_def dest: live_refuse_path connect
        split: if_splits option.splits prod.splits bool.splits)
qed

lemma handler_calls:
  assumes "handleLiveWebSocket io s = ((h, l), s', tr)" "tr \<noteq> []"
  obtains call cid dials where "authorized (http_io.truncate io)" "map_of (ls_calls s) cid = Some call"
    "cid = (if lw_pathID io = [] then lw_queryID io else lw_pathID io)"
    "lc_owner call = liveOwner (hi_lib io) (hi_header io)" "\<not> expired (lw_now io) call" "hi_slot io = None"
    "live_connect io call cid = ((h, l), dials)" "tr = Slot_acquired # dials @ (if is_open h then [] else [Slot_released])"
  using assms
  by (auto simp: handleLiveWebSocket_def Let_def dest!: live_lookup_owner split: if_splits option.splits prod.splits bool.splits)

section \<open>The session\<close>

subsection \<open>Errors, phases and the log\<close>

definition stopped :: "link \<Rightarrow> nat" where
  "stopped l = (case lk_pump l of Stopped _ \<Rightarrow> 1 | _ \<Rightarrow> 0)"

definition taken :: "live_phase \<Rightarrow> nat" where
  "taken ph = (case ph of Relaying \<Rightarrow> 0 | Cancelled \<Rightarrow> 1 | Finished \<Rightarrow> 2)"

definition live_ok :: "pending \<Rightarrow> live_state \<Rightarrow> bool" where
  "live_ok entry s \<longleftrightarrow>
     stopped (lv_link s ToClient) + stopped (lv_link s ToUpstream) = lv_errors s + taken (lv_phase s) \<and>
     (lv_slot s \<longleftrightarrow> lv_phase s \<noteq> Finished) \<and>
     (if lv_phase s = Finished then \<exists>now. lv_log s = map_option (finish_entry now) entry else lv_log s = None)"

lemma stopped_simps [simp]:
  "lk_pump l = AtRead \<Longrightarrow> stopped l = 0" "lk_pump l = AtWrite m \<Longrightarrow> stopped l = 0" "lk_pump l = Stopped e \<Longrightarrow> stopped l = 1"
  by (simp_all add: stopped_def)

lemma taken_simps [simp]: "taken Relaying = 0" "taken Cancelled = 1" "taken Finished = 2"
  by (simp_all add: taken_def)

lemma stopped_le: "stopped l \<le> 1" "stopped l = 1 \<longleftrightarrow> (\<exists>e. lk_pump l = Stopped e)"
  by (cases "lk_pump l"; simp)+

lemma both_directions: "(\<forall>d. P d) \<longleftrightarrow> P ToClient \<and> P ToUpstream"
  by (metis direction.exhaust)

interpretation live: machine_invariant "live_step entry" "live_ok entry"
proof
  fix e s t
  assume inv: "live_ok entry s" and st: "live_step entry e s = Some t"
  have stops: "live_ok entry (pump_stops d err s)" if "stopped (lv_link s d) = 0" for d err
    using inv that by (cases d) (auto simp: live_ok_def pump_stops_def)
  show "live_ok entry t"
  proof (cases e)
    case (PumpReads d r)
    then have r: "lk_pump (lv_link s d) = AtRead" using st by (auto split: if_splits)
    show ?thesis
    proof (cases r)
      case (Inl err)
      then show ?thesis using PumpReads r st stops [of d err] by simp
    next
      case (Inr m)
      then have t: "t = s\<lparr>lv_link := (lv_link s)(d := (lv_link s d)\<lparr>lk_pump := AtWrite m\<rparr>)\<rparr>" using PumpReads r st by simp
      show ?thesis using inv r unfolding t by (cases d) (simp_all add: live_ok_def)
    qed
  next
    case (PumpWrites d res)
    then obtain m where m: "lk_pump (lv_link s d) = AtWrite m" using st by (auto split: copy_pump.splits)
    show ?thesis
    proof (cases res)
      case (Some err)
      then show ?thesis using PumpWrites m st stops [of d err] by simp
    next
      case None
      then have t: "t = s\<lparr>lv_link := (lv_link s)(d := \<lparr>lk_pump = AtRead, lk_sent = lk_sent (lv_link s d) @ [m]\<rparr>)\<rparr>"
        using PumpWrites m st by simp
      show ?thesis using inv m unfolding t by (cases d) (simp_all add: live_ok_def)
    qed
  next
    case HandlerWakes
    then show ?thesis using inv st by (auto simp: live_ok_def split: if_splits)
  next
    case (HandlerReturns now)
    then show ?thesis using inv st by (auto simp: live_ok_def split: if_splits)
  qed
qed

lemma live_start_ok: "live_ok entry live_start"
  by (simp add: live_ok_def live_start_def)

subsection \<open>Order\<close>

text \<open>The messages a pump has read.\<close>

definition read_in :: "direction \<Rightarrow> live_move \<Rightarrow> (message_type \<times> string) list" where
  "read_in d e = (case e of PumpReads d' (Inr m) \<Rightarrow> if d' = d then [m] else [] | _ \<Rightarrow> [])"

definition carried :: "link \<Rightarrow> (message_type \<times> string) list \<Rightarrow> bool" where
  "carried l ms \<longleftrightarrow>
     (case lk_pump l of AtRead \<Rightarrow> ms = lk_sent l | AtWrite m \<Rightarrow> ms = lk_sent l @ [m]
      | Stopped _ \<Rightarrow> \<exists>rest. ms = lk_sent l @ rest \<and> length rest \<le> 1)"

lemma carried_stop:
  "carried l ms \<Longrightarrow> carried (l\<lparr>lk_pump := Stopped err\<rparr>) ms"
  by (cases "lk_pump l") (auto simp: carried_def)

lemma live_step_link:
  assumes "live_step entry e s = Some t"
  obtains (same) "lv_link t d = lv_link s d" "read_in d e = []"
    | (stops) err where "lv_link t d = (lv_link s d)\<lparr>lk_pump := Stopped err\<rparr>" "read_in d e = []"
    | (reads) m where "lk_pump (lv_link s d) = AtRead" "lv_link t d = (lv_link s d)\<lparr>lk_pump := AtWrite m\<rparr>" "read_in d e = [m]"
    | (writes) m where "lk_pump (lv_link s d) = AtWrite m" "read_in d e = []"
        "lv_link t d = \<lparr>lk_pump = AtRead, lk_sent = lk_sent (lv_link s d) @ [m]\<rparr>"
proof (cases e)
  case (PumpReads d' r)
  then have r: "lk_pump (lv_link s d') = AtRead" using assms by (auto split: if_splits)
  show thesis
  proof (cases "d' = d")
    case True
    then show thesis using PumpReads r assms stops reads by (cases r) (auto simp: read_in_def pump_stops_def)
  next
    case False
    then show thesis using PumpReads r assms same by (cases r) (auto simp: read_in_def pump_stops_def)
  qed
next
  case (PumpWrites d' res)
  then obtain m where m: "lk_pump (lv_link s d') = AtWrite m" using assms by (auto split: copy_pump.splits)
  show thesis
  proof (cases "d' = d")
    case True
    then show thesis using PumpWrites m assms stops writes by (cases res) (auto simp: read_in_def pump_stops_def)
  next
    case False
    then show thesis using PumpWrites m assms same by (cases res) (auto simp: read_in_def pump_stops_def)
  qed
next
  case HandlerWakes
  then show thesis using assms same by (auto simp: read_in_def split: if_splits)
next
  case (HandlerReturns now)
  then show thesis using assms same by (auto simp: read_in_def split: if_splits)
qed

lemma live_step_carried:
  assumes "live_step entry e s = Some t" "carried (lv_link s d) ms"
  shows "carried (lv_link t d) (ms @ read_in d e)"
  using assms(1)
proof (cases rule: live_step_link [where d = d])
  case (stops err)
  then show ?thesis using carried_stop [OF assms(2)] by simp
qed (use assms(2) in \<open>simp_all add: carried_def\<close>)

lemma live_run_carried:
  assumes "run_steps (live_step entry) es live_start = Some s"
  shows "carried (lv_link s d) (concat (map (read_in d) es))"
  using assms
proof (induction rule: run_steps_induct)
  case start
  show ?case by (simp add: carried_def live_start_def)
next
  case (step es s e t)
  then show ?case using live_step_carried [OF step(2,3)] by simp
qed

section \<open>Properties\<close>

text \<open>C26: The sideband of a call belongs to the client that made the call. The upstream is dialed only for an
  authorized client that owns a registered call which has not expired, with the identifier of that
  call and the credentials of the account that made it; the slot is taken before and given back
  unless the session opens; and the logged path never contains the identifier.\<close>

theorem live_sideband_bound_to_owner:
  assumes "handleLiveWebSocket io s = ((h, l), s', tr)"
  shows "(\<forall>acct url hs. Dialed_live acct url hs \<in> set tr \<longrightarrow>
      authorized (http_io.truncate io) \<and>
      (\<exists>cid call access. map_of (ls_calls s) cid = Some call \<and> lc_owner call = liveOwner (hi_lib io) (hi_header io) \<and>
         \<not> expired (lw_now io) call \<and> lc_account call = acct \<and> url = ''wss://api.openai.com/v1/live/'' @ lw_escape io cid \<and>
         de_current (hi_dispatch io) 0 acct = Inr access \<and> hs = live_dial_header (base_cfg (http_io.truncate io)) access)) \<and>
    (tr = [] \<and> \<not> is_open h \<or>
     (\<exists>dials. length dials \<le> 1 \<and> hi_slot io = None \<and> tr = Slot_acquired # dials @ (if is_open h then [] else [Slot_released]))) \<and>
    logged_path l \<in> {None, Some ''/v1/live/{call_id}''}"
proof (cases "tr = []")
  case True
  have "\<not> is_open h" using assms True
    by (auto simp: handleLiveWebSocket_def Let_def dest: live_refuse_path split: if_splits option.splits prod.splits bool.splits)
  then show ?thesis using True handler_path [OF assms] by (simp add: live_log_path)
next
  case False
  obtain call cid dials where c: "authorized (http_io.truncate io)" "map_of (ls_calls s) cid = Some call"
    "lc_owner call = liveOwner (hi_lib io) (hi_header io)" "\<not> expired (lw_now io) call" "hi_slot io = None"
    "live_connect io call cid = ((h, l), dials)" "tr = Slot_acquired # dials @ (if is_open h then [] else [Slot_released])"
    by (rule handler_calls [OF assms False])
  have d: "dials = [] \<or> (\<exists>access. de_current (hi_dispatch io) 0 (lc_account call) = Inr access \<and>
      dials = [Dialed_live (lc_account call) (''wss://api.openai.com/v1/live/'' @ lw_escape io cid)
                 (live_dial_header (base_cfg (http_io.truncate io)) access)])"
    by (rule live_connect_trace [OF c(6)])
  then have one: "length dials \<le> 1" by auto
  have "\<exists>access. hs = live_dial_header (base_cfg (http_io.truncate io)) access \<and> de_current (hi_dispatch io) 0 acct = Inr access \<and>
      acct = lc_account call \<and> url = ''wss://api.openai.com/v1/live/'' @ lw_escape io cid" if "Dialed_live acct url hs \<in> set tr" for acct url hs
    using that d c(7) by (auto split: if_splits)
  then show ?thesis using c(1-5,7) one handler_path [OF assms] by (simp add: live_log_path) blast
qed

definition live_witness :: live_ws_io where
  "live_witness =
     http_io.extend (ws_witness_io\<lparr>hi_dispatch := (hi_dispatch ws_witness_io)\<lparr>de_current := \<lambda>_ _. Inr \<lparr>am_AccessToken = ''t'', am_AccountID = ''a''\<rparr>\<rparr>\<rparr>)
       \<lparr>lw_split = \<lambda>_. None, lw_format = \<lambda>_. [], lw_logLimit = 10, lw_begun = 0, lw_method = ''GET'', lw_remote = [],
        lw_pathID = ''rtc_1'', lw_queryID = [], lw_now = 5, lw_escape = id, lw_dial = \<lambda>_ _. None, lw_accept = True\<rparr>"

definition live_witness_store :: liveCallStore where
  "live_witness_store =
     \<lparr>ls_calls = [(''rtc_1'', \<lparr>lc_account = 0, lc_owner = liveOwner (hi_lib ws_witness_io) (hi_header ws_witness_io), lc_expires = 9\<rparr>)],
      ls_pending = 0\<rparr>"

theorem live_sideband_bound_to_owner_witness:
  "\<exists>h l s' tr. handleLiveWebSocket live_witness live_witness_store = ((h, l), s', tr) \<and> is_open h \<and>
     logged_path l \<in> {None, Some ''/v1/live/{call_id}''}"
proof -
  have up: "isWebSocketUpgrade (hi_header ws_witness_io)" by code_simp
  obtain h l s' tr where e: "handleLiveWebSocket live_witness live_witness_store = ((h, l), s', tr)"
    by (metis surj_pair)
  have "is_open h"
    using e up by (auto simp: Let_def handleLiveWebSocket_def live_witness_def http_io.extend_def http_io.truncate_def authorized_def
        live_lookup_def live_witness_store_def expired_def live_connect_def is_open_def ws_witness_io_def split: prod.splits)
  then show ?thesis using e live_sideband_bound_to_owner [OF e] by blast
qed

text \<open>An open sideband is a transparent pipe. In each direction the peer has received the messages that were
  read, unchanged and in order, except at most the last one; the slot is held until the session is
  over; and then both pumps have stopped and the entry of the session has been logged, not before.\<close>

theorem live_session_transparent:
  assumes "run_steps (live_step entry) es live_start = Some s"
  shows "(\<forall>d. \<exists>rest. concat (map (read_in d) es) = lk_sent (lv_link s d) @ rest \<and> length rest \<le> 1) \<and>
    (lv_slot s \<longleftrightarrow> lv_phase s \<noteq> Finished) \<and>
    (lv_phase s \<noteq> Finished \<longrightarrow> lv_log s = None) \<and>
    (lv_phase s = Finished \<longrightarrow> (\<exists>now. lv_log s = map_option (finish_entry now) entry) \<and>
       (\<forall>d. \<exists>err. lk_pump (lv_link s d) = Stopped err))"
proof -
  have inv: "live_ok entry s" by (rule live.run_inv [OF live_start_ok assms])
  have sent: "\<exists>rest. concat (map (read_in d) es) = lk_sent (lv_link s d) @ rest \<and> length rest \<le> 1" for d
    using live_run_carried [OF assms, of d] by (auto simp: carried_def split: copy_pump.splits)
  have "\<forall>d. \<exists>err. lk_pump (lv_link s d) = Stopped err" if "lv_phase s = Finished"
  proof -
    have "stopped (lv_link s ToClient) + stopped (lv_link s ToUpstream) \<ge> 2" using inv that by (simp add: live_ok_def)
    then have "stopped (lv_link s ToClient) = 1" "stopped (lv_link s ToUpstream) = 1"
      using stopped_le(1) [of "lv_link s ToClient"] stopped_le(1) [of "lv_link s ToUpstream"] by linarith+
    then show ?thesis using stopped_le(2) both_directions by simp
  qed
  then show ?thesis using inv sent by (auto simp: live_ok_def split: if_splits)
qed

theorem live_session_transparent_witness:
  "\<exists>s. run_steps (live_step None) [PumpReads ToClient (Inr (MessageText, ''hi'')), PumpWrites ToClient None] live_start = Some s \<and>
     lk_sent (lv_link s ToClient) = [(MessageText, ''hi'')]"
proof -
  let ?es = "[PumpReads ToClient (Inr (MessageText, ''hi'')), PumpWrites ToClient None]"
  obtain s where s: "run_steps (live_step None) ?es live_start = Some s" "lk_sent (lv_link s ToClient) = [(MessageText, ''hi'')]"
    by (simp add: live_start_def)
  show ?thesis using live_session_transparent [OF s(1)] s by blast
qed

end
