(* ===== verification/Durations.thy ===== *)
theory Durations
  imports Broker_Prelude
begin

text \<open>
  Texts of durations, as the flags of \<^verbatim>\<open>src/main.go\<close> use them: \<open>time.Duration.String\<close> gives a flag its
  default and \<open>time.ParseDuration\<close> reads it back. The library's fraction is a float product; here it is
  exact, which agrees whenever the fraction has no more digits than the unit has zeros, so on every
  text that \<open>String\<close> writes.
\<close>

section \<open>Definitions\<close>

subsection \<open>\<open>String\<close>\<close>

text \<open>\<open>fmtFrac\<close>: the last \<open>prec\<close> decimal digits as a fraction without trailing zeros, in front of what is
  already written, and the remaining number.\<close>

fun fmtFrac :: "nat \<Rightarrow> nat \<Rightarrow> string \<Rightarrow> string \<times> nat" where
  "fmtFrac 0 v ds = (if ds = [] then [] else CHR ''.'' # ds, v)"
| "fmtFrac (Suc prec) v ds =
     fmtFrac prec (v div 10) (if ds \<noteq> [] \<or> v mod 10 \<noteq> 0 then digit_char (v mod 10) # ds else [])"

definition micro_sign :: string where
  "micro_sign = [CHR 0xC2, CHR 0xB5]"

definition scaled :: "nat \<Rightarrow> nat \<Rightarrow> string \<Rightarrow> string" where
  "scaled prec u unit = (let (frac, v) = fmtFrac prec u [] in itoa v @ frac @ unit)"

definition clock_text :: "nat \<Rightarrow> string \<Rightarrow> string" where
  "clock_text s frac =
     (let m = s div 60; h = m div 60
      in (if m > 0 then (if h > 0 then itoa h @ ''h'' else []) @ itoa (m mod 60) @ ''m'' else []) @
         itoa (s mod 60) @ frac @ ''s'')"

definition time_text :: "nat \<Rightarrow> string" where
  "time_text u =
     (if u < 1000000000
      then (if u = 0 then ''0s'' else if u < 1000 then scaled 0 u ''ns''
            else if u < 1000000 then scaled 3 u (micro_sign @ ''s'') else scaled 6 u ''ms'')
      else (let (frac, s) = fmtFrac 9 u [] in clock_text s frac))"

definition Duration_String :: "duration \<Rightarrow> string" where
  "Duration_String d = (if d < 0 then CHR ''-'' # time_text (nat \<bar>d\<bar>) else time_text (nat \<bar>d\<bar>))"

subsection \<open>\<open>ParseDuration\<close>\<close>

text \<open>\<open>leadingInt\<close> fails on overflow; \<open>leadingFraction\<close> ignores the digits that no longer fit.\<close>

fun leadingInt :: "nat \<Rightarrow> string \<Rightarrow> (nat \<times> string) option" where
  "leadingInt x [] = Some (x, [])"
| "leadingInt x (c # s) =
     (if \<not> is_digit c then Some (x, c # s)
      else if x > 2 ^ 63 div 10 then None
      else (let y = x * 10 + digit_val c in if y > 2 ^ 63 then None else leadingInt y s))"

fun leadingFraction :: "nat \<Rightarrow> nat \<Rightarrow> bool \<Rightarrow> string \<Rightarrow> nat \<times> nat \<times> string" where
  "leadingFraction x scale overflow [] = (x, scale, [])"
| "leadingFraction x scale overflow (c # s) =
     (if \<not> is_digit c then (x, scale, c # s)
      else if overflow \<or> x > (2 ^ 63 - 1) div 10 then leadingFraction x scale True s
      else (let y = x * 10 + digit_val c
            in if y > 2 ^ 63 then leadingFraction x scale True s else leadingFraction y (scale * 10) False s))"

definition duration_unit :: "string \<Rightarrow> nat option" where
  "duration_unit =
     map_of [(''ns'', 1), (''us'', 1000), (micro_sign @ ''s'', 1000), ([CHR 0xCE, CHR 0xBC] @ ''s'', 1000), (''ms'', 1000000),
       (''s'', 1000000000), (''m'', 60000000000), (''h'', 3600000000000)]"

definition number_char :: "char \<Rightarrow> bool" where
  "number_char c \<longleftrightarrow> c = CHR ''.'' \<or> is_digit c"

text \<open>One number with its unit: its value in nanoseconds and the text after it.\<close>

definition duration_term :: "string \<Rightarrow> (nat \<times> string) option" where
  "duration_term s =
     (if s = [] \<or> \<not> number_char (hd s) then None
      else (case leadingInt 0 s of
              None \<Rightarrow> None
            | Some (v, s1) \<Rightarrow>
                (let pre = length s1 \<noteq> length s;
                     dot = s1 \<noteq> [] \<and> hd s1 = CHR ''.'';
                     (f, scale, s2) = (if dot then leadingFraction 0 1 False (tl s1) else (0, 1, s1));
                     post = dot \<and> length s2 \<noteq> length (tl s1);
                     u = takeWhile (\<lambda>c. \<not> number_char c) s2;
                     rest = dropWhile (\<lambda>c. \<not> number_char c) s2
                 in if \<not> pre \<and> \<not> post then None
                    else if u = [] then None
                    else (case duration_unit u of
                            None \<Rightarrow> None
                          | Some unit \<Rightarrow>
                              (if v > 2 ^ 63 div unit then None
                               else (let w = v * unit + f * unit div scale
                                     in if f > 0 \<and> w > 2 ^ 63 then None else Some (w, rest)))))))"

lemma leadingInt_shorter: "leadingInt x s = Some (v, s') \<Longrightarrow> length s' \<le> length s"
  by (induction x s rule: leadingInt.induct) (auto simp: Let_def split: if_splits)

lemma leadingFraction_shorter: "leadingFraction x k b s = (v, k', s') \<Longrightarrow> length s' \<le> length s"
  by (induction x k b s rule: leadingFraction.induct) (auto simp: Let_def split: if_splits)

lemma duration_term_shorter:
  assumes "duration_term s = Some (v, rest)"
  shows "length rest < length s"
proof -
  obtain n s1 where s1: "leadingInt 0 s = Some (n, s1)"
    using assms by (auto simp: duration_term_def split: if_splits option.splits)
  obtain f scale s2 where s2: "(if s1 \<noteq> [] \<and> hd s1 = CHR ''.'' then leadingFraction 0 1 False (tl s1) else (0, 1, s1)) = (f, scale, s2)"
    by (cases "if s1 \<noteq> [] \<and> hd s1 = CHR ''.'' then leadingFraction 0 1 False (tl s1) else (0, 1, s1)") auto
  let ?u = "takeWhile (\<lambda>c. \<not> number_char c) s2"
  have "?u \<noteq> [] \<and> rest = dropWhile (\<lambda>c. \<not> number_char c) s2"
    using assms unfolding duration_term_def s1 option.case case_prod_conv Let_def s2
    by (auto split: if_splits option.splits)
  then have "length rest < length s2"
    using arg_cong [OF takeWhile_dropWhile_id [of "\<lambda>c. \<not> number_char c" s2], of length] by (cases ?u) auto
  moreover have "length s2 \<le> length s1"
    using s2 leadingFraction_shorter [of 0 1 False "tl s1"] by (cases s1) (auto split: if_splits)
  ultimately show ?thesis using leadingInt_shorter [OF s1] by linarith
qed

function duration_terms :: "nat \<Rightarrow> string \<Rightarrow> nat option" where
  "duration_terms d s =
     (if s = [] then Some d
      else (case duration_term s of
              None \<Rightarrow> None
            | Some (v, rest) \<Rightarrow>
                (if (d + v) mod 2 ^ 64 > 2 ^ 63 then None else duration_terms ((d + v) mod 2 ^ 64) rest)))"
  by pat_completeness auto
termination
  by (relation "measure (\<lambda>(d, s). length s)") (auto dest: duration_term_shorter)

declare duration_terms.simps [simp del]

definition ParseDuration :: "string \<Rightarrow> duration option" where
  "ParseDuration s =
     (let neg = HasPrefix s ''-''; t = (if HasPrefix s ''-'' \<or> HasPrefix s ''+'' then tl s else s)
      in if t = ''0'' then Some 0
         else if t = [] then None
         else (case duration_terms 0 t of
                 None \<Rightarrow> None
               | Some d \<Rightarrow> (if neg then Some (- int d) else if d > 2 ^ 63 - 1 then None else Some (int d))))"

section \<open>Reading what was written\<close>

subsection \<open>Numbers\<close>

definition digits_val :: "string \<Rightarrow> nat" where
  "digits_val = foldl (\<lambda>x c. x * 10 + digit_val c) 0"

lemma digits_foldl: "foldl (\<lambda>x c. x * 10 + digit_val c) x ds = x * 10 ^ length ds + digits_val ds"
proof (induction ds arbitrary: x)
  case (Cons c ds)
  show ?case using Cons [of "x * 10 + digit_val c"] Cons [of "digit_val c"] by (simp add: digits_val_def algebra_simps)
qed (simp add: digits_val_def)

lemma digits_val_Cons: "digits_val (c # ds) = digit_val c * 10 ^ length ds + digits_val ds"
  using digits_foldl [of "digit_val c" ds] by (simp add: digits_val_def)

lemma digits_val_itoa: "digits_val (itoa n) = n"
proof (induction n rule: itoa.induct)
  case (1 n)
  then show ?case by (subst itoa.simps) (auto simp: digits_val_def)
qed

lemma digits_val_bound: "list_all is_digit ds \<Longrightarrow> digits_val ds < 10 ^ length ds"
proof (induction ds)
  case (Cons c ds)
  have "digit_val c \<le> 9" using Cons.prems by (auto simp: is_digit_def digit_val_def)
  then have "digit_val c * 10 ^ length ds \<le> 9 * 10 ^ length ds" by (rule mult_le_mono1)
  moreover have "digits_val ds < 10 ^ length ds" using Cons by simp
  ultimately have "digit_val c * 10 ^ length ds + digits_val ds < 10 * 10 ^ length ds" by linarith
  then show ?case by (simp only: digits_val_Cons list.size add_0_right add_Suc_right power_Suc)
qed (simp add: digits_val_def)

definition no_digit :: "string \<Rightarrow> bool" where
  "no_digit s \<longleftrightarrow> s = [] \<or> \<not> is_digit (hd s)"

lemma leadingInt_digits:
  assumes "list_all is_digit ds" "no_digit rest" "x * 10 ^ length ds + digits_val ds \<le> 2 ^ 63"
  shows "leadingInt x (ds @ rest) = Some (x * 10 ^ length ds + digits_val ds, rest)"
  using assms
proof (induction ds arbitrary: x)
  case Nil
  then show ?case by (cases rest) (auto simp: no_digit_def digits_val_def)
next
  case (Cons c ds)
  let ?y = "x * 10 + digit_val c"
  have y: "?y * 10 ^ length ds + digits_val ds = x * 10 ^ length (c # ds) + digits_val (c # ds)"
    by (simp add: digits_val_Cons algebra_simps)
  have "?y \<le> ?y * 10 ^ length ds + digits_val ds" by (simp add: trans_le_add1)
  also note y
  also note Cons.prems(3)
  finally have "?y \<le> 2 ^ 63" .
  moreover from this have "x \<le> 2 ^ 63 div 10" by simp
  ultimately have "leadingInt x ((c # ds) @ rest) = leadingInt ?y (ds @ rest)" using Cons.prems by simp
  also have "\<dots> = Some (?y * 10 ^ length ds + digits_val ds, rest)"
    by (rule Cons.IH) (use Cons.prems in \<open>simp_all only: y list.pred_inject\<close>)
  finally show ?case by (simp only: y)
qed

lemma leadingFraction_digits:
  assumes "list_all is_digit ds" "no_digit rest" "x * 10 ^ length ds + digits_val ds < 2 ^ 63"
  shows "leadingFraction x k False (ds @ rest) = (x * 10 ^ length ds + digits_val ds, k * 10 ^ length ds, rest)"
  using assms
proof (induction ds arbitrary: x k)
  case Nil
  then show ?case by (cases rest) (auto simp: no_digit_def digits_val_def)
next
  case (Cons c ds)
  let ?y = "x * 10 + digit_val c"
  have y: "?y * 10 ^ length ds + digits_val ds = x * 10 ^ length (c # ds) + digits_val (c # ds)"
    by (simp add: digits_val_Cons algebra_simps)
  have "?y \<le> ?y * 10 ^ length ds + digits_val ds" by (simp add: trans_le_add1)
  also note y
  also note Cons.prems(3)
  finally have "?y < 2 ^ 63" .
  moreover from this have "x \<le> (2 ^ 63 - 1) div 10" by simp
  ultimately have "leadingFraction x k False ((c # ds) @ rest) = leadingFraction ?y (k * 10) False (ds @ rest)"
    using Cons.prems by simp
  also have "\<dots> = (?y * 10 ^ length ds + digits_val ds, (k * 10) * 10 ^ length ds, rest)"
    by (rule Cons.IH) (use Cons.prems in \<open>simp_all only: y list.pred_inject\<close>)
  finally show ?case by (simp only: y mult.assoc list.size add_0_right add_Suc_right power_Suc)
qed

text \<open>What \<open>fmtFrac\<close> writes: nothing, or a dot and the digits of the fraction.\<close>

lemma fmtFrac_value:
  assumes "fmtFrac prec v ds = (frac, w)" "list_all is_digit ds"
  obtains es where "frac = (if es = [] then [] else CHR ''.'' # es)" "list_all is_digit es"
    "length es \<le> prec + length ds" "w = v div 10 ^ prec"
    "digits_val es * 10 ^ (prec + length ds - length es) = (v mod 10 ^ prec) * 10 ^ length ds + digits_val ds"
  using assms
proof (induction prec v ds arbitrary: thesis rule: fmtFrac.induct)
  case (1 v ds)
  show ?case by (rule "1.prems"(1) [of ds]) (use "1.prems"(2,3) in auto)
next
  case (2 prec v ds)
  let ?ds = "if ds \<noteq> [] \<or> v mod 10 \<noteq> 0 then digit_char (v mod 10) # ds else []"
  have r: "fmtFrac prec (v div 10) ?ds = (frac, w)" using "2.prems" by simp
  have d: "list_all is_digit ?ds" using "2.prems" by simp
  show ?case
  proof (rule "2.IH" [OF _ r d])
    fix es
    assume es: "frac = (if es = [] then [] else CHR ''.'' # es)" "list_all is_digit es" "length es \<le> prec + length ?ds"
      "w = v div 10 div 10 ^ prec"
      "digits_val es * 10 ^ (prec + length ?ds - length es) = (v div 10 mod 10 ^ prec) * 10 ^ length ?ds + digits_val ?ds"
    have split: "v mod 10 ^ Suc prec = 10 * (v div 10 mod 10 ^ prec) + v mod 10"
      by (simp add: mod_mult2_eq)
    have "digits_val es * 10 ^ (Suc prec + length ds - length es) = (v mod 10 ^ Suc prec) * 10 ^ length ds + digits_val ds"
    proof (cases "ds \<noteq> [] \<or> v mod 10 \<noteq> 0")
      case True
      then show ?thesis using es(5) split by (simp add: digits_val_Cons algebra_simps)
    next
      case False
      then have "Suc prec + length ds - length es = Suc (prec - length es)" using es(3) by simp
      then show ?thesis using False es(5) split by (simp add: digits_val_def)
    qed
    then show thesis
      using es by (intro "2.prems"(1) [of es]) (auto simp: div_mult2_eq split: if_splits)
  qed
qed

subsection \<open>Terms\<close>

text \<open>A unit as \<open>String\<close> writes it, and the digits it can have behind the dot.\<close>

definition written_unit :: "string \<Rightarrow> nat \<Rightarrow> nat \<Rightarrow> bool" where
  "written_unit u unit prec \<longleftrightarrow>
     duration_unit u = Some unit \<and> u \<noteq> [] \<and> list_all (\<lambda>c. \<not> number_char c) u \<and> 10 ^ prec dvd unit \<and> prec \<le> 9"

definition next_number :: "string \<Rightarrow> bool" where
  "next_number s \<longleftrightarrow> s = [] \<or> is_digit (hd s)"

lemma dot_char: "\<not> is_digit CHR ''.''" "number_char CHR ''.''" "is_digit c \<Longrightarrow> number_char c"
  by (simp_all add: is_digit_def number_char_def)

lemma no_digit_simps: "\<not> number_char c \<Longrightarrow> no_digit (c # s)" "no_digit (CHR ''.'' # s)"
  by (auto simp: no_digit_def number_char_def dot_char)

lemma unit_split:
  assumes "list_all (\<lambda>c. \<not> number_char c) u" "next_number rest"
  shows "takeWhile (\<lambda>c. \<not> number_char c) (u @ rest) = u" "dropWhile (\<lambda>c. \<not> number_char c) (u @ rest) = rest"
proof -
  have r: "rest = [] \<or> number_char (hd rest)" using assms(2) dot_char(3) by (auto simp: next_number_def)
  show "takeWhile (\<lambda>c. \<not> number_char c) (u @ rest) = u"
    using assms(1) r by (induction u) (cases rest; auto)+
  show "dropWhile (\<lambda>c. \<not> number_char c) (u @ rest) = rest"
    using assms(1) r by (induction u) (cases rest; auto)+
qed

lemma duration_term_written:
  assumes "written_unit u unit prec" "next_number rest"
    and frac: "frac = (if es = [] then [] else CHR ''.'' # es)" "list_all is_digit es" "length es \<le> prec"
    and fits: "n * unit + digits_val es * unit div 10 ^ length es \<le> 2 ^ 63"
  shows "duration_term (itoa n @ frac @ u @ rest) = Some (n * unit + digits_val es * unit div 10 ^ length es, rest)"
proof -
  have u: "duration_unit u = Some unit" "u \<noteq> []" "list_all (\<lambda>c. \<not> number_char c) u"
    and prec: "prec \<le> 9" "10 ^ prec dvd unit"
    using assms(1) by (simp_all add: written_unit_def)
  have unit: "0 < unit" using u(1) by (auto simp: duration_unit_def micro_sign_def split: if_splits)
  let ?s = "itoa n @ frac @ u @ rest"
  have digits: "list_all is_digit (itoa n)" by (auto simp: list_all_iff dest: itoa_digits)
  have start: "?s \<noteq> []" "number_char (hd ?s)"
    using itoa_neq_Nil [of n] digits dot_char(3) by (cases "itoa n"; simp)+
  have no_digit: "no_digit (u @ rest)" "no_digit (frac @ u @ rest)"
    using u(2,3) frac(1) no_digit_simps by (cases u; cases es; simp)+
  have "n * 1 \<le> n * unit" using unit by (intro mult_le_mono2) simp
  then have n: "n \<le> 2 ^ 63" "n \<le> 2 ^ 63 div unit"
    using fits unit by (linarith, simp add: less_eq_div_iff_mult_less_eq)
  have int: "leadingInt 0 ?s = Some (n, frac @ u @ rest)"
    using leadingInt_digits [OF digits no_digit(2), of 0] n(1) by (simp add: digits_val_itoa)
  let ?dot = "frac @ u @ rest \<noteq> [] \<and> hd (frac @ u @ rest) = CHR ''.''"
  have "digits_val es < 10 ^ length es" by (rule digits_val_bound [OF frac(2)])
  also have "10 ^ length es \<le> (10 :: nat) ^ 9" using frac(3) prec(1) by (intro power_increasing) auto
  finally have small: "digits_val es < 2 ^ 63" by simp
  have fraction: "(if ?dot then leadingFraction 0 1 False (tl (frac @ u @ rest)) else (0, 1, frac @ u @ rest)) =
      (digits_val es, 10 ^ length es, u @ rest)"
  proof (cases es)
    case Nil
    have "hd (u @ rest) \<noteq> CHR ''.''" using u(2,3) dot_char(2) by (cases u) auto
    then show ?thesis using Nil frac(1) by (simp add: digits_val_def)
  next
    case (Cons c cs)
    then have "(if ?dot then leadingFraction 0 1 False (tl (frac @ u @ rest)) else (0, 1, frac @ u @ rest)) =
        leadingFraction 0 1 False (es @ u @ rest)" using frac(1) by simp
    then show ?thesis using leadingFraction_digits [OF frac(2) no_digit(1), of 0 1] small by simp
  qed
  have "length (frac @ u @ rest) \<noteq> length ?s" using itoa_neq_Nil [of n] by simp
  then show ?thesis
    unfolding duration_term_def int option.case case_prod_conv Let_def fraction unit_split [OF u(3) assms(2)]
    using start u(1,2) n(2) fits by simp
qed

lemma duration_terms_step:
  assumes "duration_term s = Some (v, rest)" "d + v \<le> 2 ^ 63"
  shows "duration_terms d s = duration_terms (d + v) rest"
proof -
  have "s \<noteq> []" using assms(1) by (auto simp: duration_term_def)
  moreover have "(d + v) mod 2 ^ 64 = d + v" using assms(2) by simp
  ultimately show ?thesis using assms by (subst duration_terms.simps) simp
qed

lemma duration_terms_done [simp]: "duration_terms d [] = Some d"
  by (simp add: duration_terms.simps)

lemma written_units:
  "written_unit ''ns'' 1 0" "written_unit (micro_sign @ ''s'') 1000 3" "written_unit ''ms'' 1000000 6"
  "written_unit ''s'' 1000000000 9" "written_unit ''m'' 60000000000 0" "written_unit ''h'' 3600000000000 0"
  by (simp_all add: written_unit_def duration_unit_def micro_sign_def number_char_def is_digit_def)

text \<open>A number without a fraction, and a number with the fraction that \<open>fmtFrac\<close> writes.\<close>

lemma read_whole:
  assumes "written_unit u unit prec" "next_number rest" "n * unit \<le> 2 ^ 63"
  shows "duration_term (itoa n @ u @ rest) = Some (n * unit, rest)"
  using duration_term_written [OF assms(1,2), of "[]" "[]" n] assms(3) by (simp add: digits_val_def)

lemma read_scaled:
  assumes "written_unit u (10 ^ prec) prec" "fmtFrac prec v [] = (frac, w)" "n * 10 ^ prec + v mod 10 ^ prec \<le> 2 ^ 63"
  shows "duration_term (itoa n @ frac @ u) = Some (n * 10 ^ prec + v mod 10 ^ prec, []) \<and> w = v div 10 ^ prec"
proof -
  have "list_all is_digit ([] :: string)" by simp
  from assms(2) this obtain es where es: "frac = (if es = [] then [] else CHR ''.'' # es)" "list_all is_digit es" "length es \<le> prec + length ([] :: string)"
    "w = v div 10 ^ prec" "digits_val es * 10 ^ (prec + length ([] :: string) - length es) = (v mod 10 ^ prec) * 10 ^ length ([] :: string) + digits_val []"
    by (rule fmtFrac_value)
  have len: "length es \<le> prec" using es(3) by simp
  have "(10 :: nat) ^ prec = 10 ^ (prec - length es) * 10 ^ length es"
    using len by (simp flip: power_add)
  then have "digits_val es * 10 ^ prec div 10 ^ length es = digits_val es * 10 ^ (prec - length es)"
    by (simp flip: mult.assoc)
  also have "\<dots> = v mod 10 ^ prec" using es(5) by (simp add: digits_val_def)
  finally have val: "digits_val es * 10 ^ prec div 10 ^ length es = v mod 10 ^ prec" .
  have "next_number []" by (simp add: next_number_def)
  from duration_term_written [OF assms(1) this es(1,2) len, of n] show ?thesis
    using assms(3) es(4) by (simp add: val)
qed

lemma itoa_next: "next_number (itoa n @ s)"
proof -
  have "list_all is_digit (itoa n)" by (auto simp: list_all_iff dest: itoa_digits)
  then show ?thesis using itoa_neq_Nil [of n] by (cases "itoa n") (auto simp: next_number_def)
qed

lemma read_scaled_text:
  assumes "written_unit u (10 ^ prec) prec" "v \<le> 2 ^ 63"
  shows "duration_terms 0 (scaled prec v u) = Some v"
proof -
  obtain frac w where f: "fmtFrac prec v [] = (frac, w)" by fastforce
  have "v div 10 ^ prec * 10 ^ prec + v mod 10 ^ prec = v" by (rule div_mult_mod_eq)
  with read_scaled [OF assms(1) f, of "v div 10 ^ prec"] assms(2)
  have "duration_term (scaled prec v u) = Some (v, [])" by (simp add: scaled_def f)
  then show ?thesis using assms(2) by (simp add: duration_terms_step)
qed

lemma read_clock_text:
  assumes "u \<le> 2 ^ 63" "fmtFrac 9 u [] = (frac, s)"
  shows "duration_terms 0 (clock_text s frac) = Some u"
proof -
  let ?sec = "s mod 60 * 10 ^ 9 + u mod 10 ^ 9"
  let ?S = "itoa (s mod 60) @ frac @ ''s''"
  have w: "written_unit ''s'' (10 ^ 9) 9" using written_units(4) by simp
  have s: "s = u div 10 ^ 9"
    using read_scaled [OF w assms(2), of 0] by simp
  have parts: "u = s div 60 div 60 * 3600000000000 + (s div 60 mod 60 * 60000000000 + ?sec)"
  proof -
    have add: "v = t * 1000000000 + f \<Longrightarrow> t = a * 60 + r \<Longrightarrow> a = h * 60 + k \<Longrightarrow>
        v = h * 3600000000000 + (k * 60000000000 + (r * 10 ^ 9 + f))" for v t f a r h k :: nat by simp
    have "u = s * 1000000000 + u mod 10 ^ 9" using div_mult_mod_eq [of u "10 ^ 9"] unfolding s by simp
    moreover have "s = s div 60 * 60 + s mod 60" "s div 60 = s div 60 div 60 * 60 + s div 60 mod 60" by simp_all
    ultimately show ?thesis by (rule add)
  qed
  have sec: "duration_terms d ?S = Some (d + ?sec)" if "d + ?sec \<le> 2 ^ 63" for d
  proof -
    have "?sec \<le> 2 ^ 63" using that by linarith
    then have "duration_term ?S = Some (?sec, [])" by (rule conjunct1 [OF read_scaled [OF w assms(2)]])
    then show ?thesis using that by (simp add: duration_terms_step)
  qed
  have min: "duration_terms d (itoa k @ ''m'' @ ?S) = Some (d + (k * 60000000000 + ?sec))"
    if "d + (k * 60000000000 + ?sec) \<le> 2 ^ 63" for d k
  proof -
    have "duration_term (itoa k @ ''m'' @ ?S) = Some (k * 60000000000, ?S)"
      by (rule read_whole [OF written_units(5) itoa_next]) (use that in linarith)
    then show ?thesis using that sec [of "d + k * 60000000000"] by (simp add: duration_terms_step add.assoc)
  qed
  have hour: "duration_terms 0 (itoa h @ ''h'' @ itoa k @ ''m'' @ ?S) = Some (h * 3600000000000 + (k * 60000000000 + ?sec))"
    if "h * 3600000000000 + (k * 60000000000 + ?sec) \<le> 2 ^ 63" for h k
  proof -
    have "duration_term (itoa h @ ''h'' @ itoa k @ ''m'' @ ?S) = Some (h * 3600000000000, itoa k @ ''m'' @ ?S)"
      by (rule read_whole [OF written_units(6) itoa_next]) (use that in linarith)
    then show ?thesis using that min [of "h * 3600000000000" k] by (simp add: duration_terms_step)
  qed
  consider "s div 60 = 0" | "s div 60 > 0" "s div 60 div 60 = 0" | "s div 60 > 0" "s div 60 div 60 > 0" by linarith
  then show ?thesis
  proof cases
    case 1
    then have "clock_text s frac = ?S" "u = ?sec" using parts by (simp_all add: clock_text_def)
    then show ?thesis using sec [of 0] assms(1) by simp
  next
    case 2
    then have "clock_text s frac = itoa (s div 60 mod 60) @ ''m'' @ ?S" "u = s div 60 mod 60 * 60000000000 + ?sec"
      using parts by (simp_all add: clock_text_def)
    then show ?thesis using min [of 0 "s div 60 mod 60"] assms(1) by simp
  next
    case 3
    then have "clock_text s frac = itoa (s div 60 div 60) @ ''h'' @ itoa (s div 60 mod 60) @ ''m'' @ ?S"
      by (simp add: clock_text_def Let_def)
    then show ?thesis using hour [of "s div 60 div 60" "s div 60 mod 60"] parts assms(1) by simp
  qed
qed

lemma clock_text_shape: "\<exists>n t. clock_text s frac = itoa n @ t \<and> t \<noteq> []"
  unfolding clock_text_def Let_def by auto

lemma time_text_read:
  assumes "u \<le> 2 ^ 63" "u \<noteq> 0"
  obtains n t where "time_text u = itoa n @ t" "t \<noteq> []" "duration_terms 0 (time_text u) = Some u"
proof -
  obtain frac s where f: "fmtFrac 9 u [] = (frac, s)" by fastforce
  have "time_text u \<in> {scaled 0 u ''ns'', scaled 3 u (micro_sign @ ''s''), scaled 6 u ''ms'', clock_text s frac}"
    using assms(2) by (simp add: time_text_def f)
  then consider "time_text u = scaled 0 u ''ns''" | "time_text u = scaled 3 u (micro_sign @ ''s'')" | "time_text u = scaled 6 u ''ms''"
    | "time_text u = clock_text s frac"
    by blast
  then show thesis
  proof cases
    case 1
    then show thesis using that read_scaled_text [of "''ns''" 0 u] written_units(1) assms(1)
      by (cases "fmtFrac 0 u []") (simp add: scaled_def)
  next
    case 2
    then show thesis using that read_scaled_text [of "micro_sign @ ''s''" 3 u] written_units(2) assms(1)
      by (cases "fmtFrac 3 u []") (simp add: scaled_def)
  next
    case 3
    then show thesis using that read_scaled_text [of "''ms''" 6 u] written_units(3) assms(1)
      by (cases "fmtFrac 6 u []") (simp add: scaled_def)
  next
    case 4
    then show thesis using that clock_text_shape [of s frac] read_clock_text [OF assms(1) f] by auto
  qed
qed

lemma text_starts_with_digit:
  assumes "duration_terms 0 (itoa n @ s) = Some v" "s \<noteq> []"
  shows "ParseDuration (CHR ''-'' # itoa n @ s) = Some (- int v)"
    "v < 2 ^ 63 \<Longrightarrow> ParseDuration (itoa n @ s) = Some (int v)"
proof -
  have "list_all is_digit (itoa n)" by (auto simp: list_all_iff dest: itoa_digits)
  then obtain c cs where n: "itoa n = c # cs" "is_digit c" using itoa_neq_Nil [of n] by (cases "itoa n") auto
  have c: "c \<noteq> CHR ''-''" "c \<noteq> CHR ''+''" using n(2) by (auto simp: is_digit_def)
  have "itoa n @ s \<noteq> ''0''" "itoa n @ s \<noteq> []" using n assms(2) by auto
  then show "ParseDuration (CHR ''-'' # itoa n @ s) = Some (- int v)"
    "v < 2 ^ 63 \<Longrightarrow> ParseDuration (itoa n @ s) = Some (int v)"
    using assms n c by (simp_all add: ParseDuration_def Let_def)
qed

lemma Duration_roundtrip:
  assumes "- (2 ^ 63) \<le> d" "d < 2 ^ 63"
  shows "ParseDuration (Duration_String d) = Some d"
proof (cases "d = 0")
  case True
  have "duration_terms 0 (itoa 0 @ ''s'') = Some 0"
    using read_whole [OF written_units(4), of "[]" 0] by (simp add: next_number_def duration_terms_step)
  moreover have "itoa 0 = ''0''" by code_simp
  ultimately show ?thesis
    using text_starts_with_digit(2) [of 0 "''s''" 0] True by (simp add: Duration_String_def time_text_def)
next
  case False
  let ?u = "nat \<bar>d\<bar>"
  have u: "?u \<le> 2 ^ 63" "?u \<noteq> 0" using assms False by auto
  have pos: "?u < 2 ^ 63" if "\<not> d < 0" using assms that by simp
  obtain n t where t: "time_text ?u = itoa n @ t" "t \<noteq> []" "duration_terms 0 (time_text ?u) = Some ?u"
    by (rule time_text_read [OF u])
  then have "duration_terms 0 (itoa n @ t) = Some ?u" by simp
  from text_starts_with_digit [OF this t(2)] show ?thesis
    using t(1) pos by (cases "d < 0") (simp_all add: Duration_String_def)
qed

lemma duration_terms_bound: "duration_terms d s = Some v \<Longrightarrow> d \<le> 2 ^ 63 \<Longrightarrow> v \<le> 2 ^ 63"
proof (induction d s rule: duration_terms.induct)
  case (1 d s)
  show ?case
  proof (cases "s = []")
    case False
    obtain w rest where t: "duration_term s = Some (w, rest)" "(d + w) mod 2 ^ 64 \<le> 2 ^ 63"
      "duration_terms ((d + w) mod 2 ^ 64) rest = Some v"
      using "1.prems"(1) False by (subst (asm) duration_terms.simps) (auto split: option.splits if_splits)
    show ?thesis by (rule "1.IH" [OF False t(1) refl _ t(3,2)]) (use t(2) in simp)
  qed (use 1 in \<open>simp add: duration_terms.simps\<close>)
qed

lemma ParseDuration_range:
  assumes "ParseDuration s = Some d"
  shows "- (2 ^ 63) \<le> d \<and> d < 2 ^ 63"
proof -
  let ?t = "if HasPrefix s ''-'' \<or> HasPrefix s ''+'' then tl s else s"
  have "d = 0 \<or> (\<exists>v. duration_terms 0 ?t = Some v \<and> (d = - int v \<or> d = int v \<and> v \<le> 2 ^ 63 - 1))"
    using assms by (auto simp: ParseDuration_def Let_def split: option.splits if_splits)
  then show ?thesis using duration_terms_bound [of 0 ?t] by auto
qed

end
