(* ===== verification/Config.thy ===== *)
theory Config
  imports Durations Keys ImageRequest
begin

text \<open>
  Configuration, \<^verbatim>\<open>src/main.go\<close> with the path helpers of \<^verbatim>\<open>src/util.go\<close>: environment, flags, the pool of
  credential files, secrets, and the checks a configuration has to pass. The operating system is the
  record \<open>system\<close>: environment, directories, symbolic links, the identity of files and their contents.
  Paths follow the rules of Unix.
\<close>

section \<open>Definitions\<close>

subsection \<open>Paths\<close>

text \<open>\<open>filepath.Clean\<close>, on the components of a path; the stack holds the components kept so far, last
  one first.\<close>

definition clean_step :: "bool \<Rightarrow> string list \<Rightarrow> string \<Rightarrow> string list" where
  "clean_step rooted stack c =
     (if c = [] \<or> c = ''.'' then stack
      else if c = ''..''
      then (case stack of
              [] \<Rightarrow> if rooted then [] else [''..'']
            | d # ds \<Rightarrow> if d = ''..'' then ''..'' # stack else ds)
      else c # stack)"

definition Clean :: "string \<Rightarrow> string" where
  "Clean p =
     (if p = [] then ''.''
      else (let rooted = (hd p = CHR ''/'');
                cleaned = Join (rev (foldl (clean_step rooted) [] (Split CHR ''/'' p))) ''/''
            in if rooted then CHR ''/'' # cleaned else if cleaned = [] then ''.'' else cleaned))"

text \<open>\<open>filepath.Join\<close>\<close>

definition Path_Join :: "string list \<Rightarrow> string" where
  "Path_Join elems = (let es = dropWhile (\<lambda>e. e = []) elems in if es = [] then [] else Clean (Join es ''/''))"

text \<open>An error of the file system: whether \<open>os.IsNotExist\<close> holds of it, and its text.\<close>

type_synonym os_error = "bool \<times> string"

record system =
  sy_env :: "string \<Rightarrow> string option"
  sy_home :: "string + string"
  sy_cwd :: "string + string"
  sy_eval :: "string \<Rightarrow> os_error + string"
  sy_stat :: "string \<Rightarrow> os_error + nat"
  sy_windows :: bool
  sy_files :: "string \<Rightarrow> file_state"

datatype flag_error =
    BadFlagSyntax string | HelpRequested | FlagNotDefined string | FlagNeedsArgument string | InvalidFlagValue string string

datatype config_error =
    InvalidSetting string
  | FlagsRejected flag_error
  | UnexpectedArguments string
  | SystemError string
  | DuplicateAuthFile string
  | SecretUnreadable file_error
  | SecretEmpty string
  | Rejected string

definition home_path :: "system \<Rightarrow> string list \<Rightarrow> string" where
  "home_path sys elems =
     (case sy_home sys of
        Inr home \<Rightarrow> Path_Join (if home = [] then elems else home # elems)
      | Inl _ \<Rightarrow> Path_Join elems)"

definition defaultAuthFile :: "system \<Rightarrow> string" where
  "defaultAuthFile sys = home_path sys [''.codex'', ''auth.json'']"

definition defaultRequestLogFile :: "system \<Rightarrow> string" where
  "defaultRequestLogFile sys = home_path sys [''.codex-auth-broker'', ''requests.jsonl'']"

definition expandPath :: "system \<Rightarrow> string \<Rightarrow> config_error + string" where
  "expandPath sys path =
     (if path = [] \<or> hd path \<noteq> CHR ''~'' then Inr path
      else (case sy_home sys of
              Inl err \<Rightarrow> Inl (SystemError err)
            | Inr home \<Rightarrow>
                (if path = ''~'' then Inr home
                 else if HasPrefix path ''~/'' then Inr (Path_Join [home, drop 2 path])
                 else Inr path)))"

text \<open>\<open>filepath.Abs\<close>\<close>

definition Path_Abs :: "system \<Rightarrow> string \<Rightarrow> config_error + string" where
  "Path_Abs sys path =
     (if HasPrefix path ''/'' then Inr (Clean path)
      else (case sy_cwd sys of Inl err \<Rightarrow> Inl (SystemError err) | Inr cwd \<Rightarrow> Inr (Path_Join [cwd, path])))"

definition canonicalAuthPath :: "system \<Rightarrow> string \<Rightarrow> config_error + string" where
  "canonicalAuthPath sys path =
     bind_ok (expandPath sys (TrimSpace path)) (\<lambda>expanded.
       if expanded = [] then Inl (Rejected ''auth file path must not be empty'')
       else bind_ok (Path_Abs sys expanded) (\<lambda>absolute0.
         let absolute = Clean absolute0
         in (case sy_eval sys absolute of
               Inr resolved \<Rightarrow> Inr resolved
             | Inl (notExist, err) \<Rightarrow> (if notExist then Inr absolute else Inl (SystemError err)))))"

definition readSecretFile :: "system \<Rightarrow> string \<Rightarrow> config_error + string" where
  "readSecretFile sys path =
     bind_ok (expandPath sys path) (\<lambda>expanded.
       (case readPrivateFile (sy_windows sys) (sy_files sys expanded) of
          Inl err \<Rightarrow> Inl (SecretUnreadable err)
        | Inr (raw, _) \<Rightarrow>
            (let secret = TrimSpace raw in if secret = [] then Inl (SecretEmpty expanded) else Inr secret)))"

subsection \<open>Integers on the command line\<close>

text \<open>\<open>strconv.ParseInt(s, 0, 64)\<close>: a base prefix, and underscores between digits.\<close>

definition base_digit :: "char \<Rightarrow> nat option" where
  "base_digit c =
     (let d = ascii_lower c
      in if is_digit c then Some (digit_val c)
         else if 97 \<le> byte d \<and> byte d \<le> 122 then Some (byte d - 87) else None)"

fun based_val :: "nat \<Rightarrow> nat \<Rightarrow> string \<Rightarrow> nat option" where
  "based_val base acc [] = Some acc"
| "based_val base acc (c # s) =
     (if c = CHR ''_'' then based_val base acc s
      else (case base_digit c of
              None \<Rightarrow> None
            | Some d \<Rightarrow> (if d \<ge> base then None else based_val base (acc * base + d) s)))"

text \<open>\<open>underscoreOK\<close>; \<open>last\<close> is the kind of the previous byte: start, digit (or base prefix), underscore,
  other.\<close>

datatype last_byte = AtStart | AfterDigit | AfterUnderscore | AfterOther

fun underscore_run :: "bool \<Rightarrow> last_byte \<Rightarrow> string \<Rightarrow> bool" where
  "underscore_run hex l [] \<longleftrightarrow> l \<noteq> AfterUnderscore"
| "underscore_run hex l (c # s) \<longleftrightarrow>
     (if is_digit c \<or> (hex \<and> 97 \<le> byte (ascii_lower c) \<and> byte (ascii_lower c) \<le> 102) then underscore_run hex AfterDigit s
      else if c = CHR ''_'' then l = AfterDigit \<and> underscore_run hex AfterUnderscore s
      else l \<noteq> AfterUnderscore \<and> underscore_run hex AfterOther s)"

definition base_prefix :: "string \<Rightarrow> char option" where
  "base_prefix s =
     (case s of
        a # b # _ \<Rightarrow> (if a = CHR ''0'' \<and> ascii_lower b \<in> set ''box'' then Some (ascii_lower b) else None)
      | _ \<Rightarrow> None)"

definition underscoreOK :: "string \<Rightarrow> bool" where
  "underscoreOK s =
     (case base_prefix s of
        Some b \<Rightarrow> underscore_run (b = CHR ''x'') AfterDigit (drop 2 s)
      | None \<Rightarrow> underscore_run False AtStart s)"

definition ParseUint0 :: "string \<Rightarrow> nat option" where
  "ParseUint0 s =
     (if s = [] then None
      else (let (base, ds) =
              (if hd s \<noteq> CHR ''0'' then (10, s)
               else (case (if length s \<ge> 3 then base_prefix s else None) of
                       Some b \<Rightarrow> (if b = CHR ''b'' then 2 else if b = CHR ''o'' then 8 else 16, drop 2 s)
                     | None \<Rightarrow> (8, tl s)))
            in (case based_val base 0 ds of
                  None \<Rightarrow> None
                | Some n \<Rightarrow> (if CHR ''_'' \<in> set ds \<and> \<not> underscoreOK s then None else Some n))))"

definition ParseInt0 :: "string \<Rightarrow> int option" where
  "ParseInt0 s =
     (let neg = HasPrefix s ''-''; ds = (if HasPrefix s ''-'' \<or> HasPrefix s ''+'' then tl s else s)
      in (case ParseUint0 ds of
            None \<Rightarrow> None
          | Some n \<Rightarrow>
              (let v = (if neg then - int n else int n) in if - (2 ^ 63) \<le> v \<and> v < 2 ^ 63 then Some v else None)))"

subsection \<open>The configuration\<close>

text \<open>\<open>config\<close> of the request normalisation with the remaining fields of the struct, then the variables
  that only the flags write.\<close>

record settings = config +
  cf_listen :: string
  cf_authFile :: string
  cf_authFiles :: "string list"
  cf_apiKey :: string
  cf_apiKeyFile :: string
  cf_keysFile :: string
  cf_promptCacheRetention :: string
  cf_refreshSkew :: duration
  cf_modelsURL :: string
  cf_usageURL :: string
  cf_alphaSearchURL :: string
  cf_models :: "string list"
  cf_imageResponsesModel :: string
  cf_timeout :: duration
  cf_shutdownTimeout :: duration
  cf_requestLogLimit :: int
  cf_requestLogFile :: string
  cf_requestLogMaxBytes :: int
  cf_maxConcurrent :: int

record flag_vars = settings +
  fv_skew :: string
  fv_timeout :: string
  fv_shutdown :: string
  fv_models :: string
  fv_authFiles :: string

definition Getenv :: "system \<Rightarrow> string \<Rightarrow> string" where
  "Getenv sys key = (case sy_env sys key of Some v \<Rightarrow> v | None \<Rightarrow> [])"

definition envOr :: "system \<Rightarrow> string \<Rightarrow> string \<Rightarrow> string" where
  "envOr sys key fallback = (let value = TrimSpace (Getenv sys key) in if value \<noteq> [] then value else fallback)"

definition defaultShutdownTimeout :: duration where
  "defaultShutdownTimeout = seconds 30"

definition defaultRequestLogMaxBytes :: int where
  "defaultRequestLogMaxBytes = 64 * 1024 * 1024"

definition default_config :: "string \<Rightarrow> system \<Rightarrow> flag_vars" where
  "default_config version sys =
     \<lparr>cfg_promptCacheKey = envOr sys ''CODEX_AUTH_BROKER_PROMPT_CACHE_KEY'' [],
      cfg_upstreamOriginator = envOr sys ''CODEX_AUTH_BROKER_UPSTREAM_ORIGINATOR'' ''codex_cli_rs'',
      cfg_modelsClientVersion = envOr sys ''CODEX_AUTH_BROKER_MODELS_CLIENT_VERSION'' ''0.162.1'',
      cfg_version = version,
      cfg_upstreamURL = envOr sys ''CODEX_AUTH_BROKER_UPSTREAM_RESPONSES_URL'' ''https://chatgpt.com/backend-api/codex/responses'',
      cf_listen = envOr sys ''CODEX_AUTH_BROKER_LISTEN'' ''127.0.0.1:8317'',
      cf_authFile = envOr sys ''CODEX_AUTH_FILE'' (defaultAuthFile sys),
      cf_authFiles = [],
      cf_apiKey = envOr sys ''CODEX_AUTH_BROKER_API_KEY'' [],
      cf_apiKeyFile = envOr sys ''CODEX_AUTH_BROKER_API_KEY_FILE'' [],
      cf_keysFile = envOr sys ''CODEX_AUTH_BROKER_KEYS_FILE'' [],
      cf_promptCacheRetention = envOr sys ''CODEX_AUTH_BROKER_PROMPT_CACHE_RETENTION'' [],
      cf_refreshSkew = minutes 10,
      cf_modelsURL = envOr sys ''CODEX_AUTH_BROKER_MODELS_URL'' ''https://chatgpt.com/backend-api/codex/models'',
      cf_usageURL = envOr sys ''CODEX_AUTH_BROKER_USAGE_URL'' ''https://chatgpt.com/backend-api/wham/usage'',
      cf_alphaSearchURL = envOr sys ''CODEX_AUTH_BROKER_ALPHA_SEARCH_URL'' ''https://chatgpt.com/backend-api/codex/alpha/search'',
      cf_models = [],
      cf_imageResponsesModel = envOr sys ''CODEX_AUTH_BROKER_IMAGE_RESPONSES_MODEL'' imageResponsesModel,
      cf_timeout = minutes 10,
      cf_shutdownTimeout = defaultShutdownTimeout,
      cf_requestLogLimit = 1000,
      cf_requestLogFile = defaultRequestLogFile sys,
      cf_requestLogMaxBytes = defaultRequestLogMaxBytes,
      cf_maxConcurrent = 8,
      fv_skew = [], fv_timeout = [], fv_shutdown = [], fv_models = [], fv_authFiles = []\<rparr>"

text \<open>A variable that is parsed when it is not blank.\<close>

definition env_parsed ::
    "system \<Rightarrow> string \<Rightarrow> (string \<Rightarrow> 'a option) \<Rightarrow> ('a \<Rightarrow> flag_vars \<Rightarrow> flag_vars) \<Rightarrow> flag_vars \<Rightarrow> config_error + flag_vars" where
  "env_parsed sys key parse upd cfg =
     (let value = TrimSpace (Getenv sys key)
      in if value = [] then Inr cfg
         else (case parse value of None \<Rightarrow> Inl (InvalidSetting key) | Some x \<Rightarrow> Inr (upd x cfg)))"

definition env_config :: "string \<Rightarrow> system \<Rightarrow> config_error + flag_vars" where
  "env_config version sys =
     (let cfg0 = default_config version sys;
          cfg = (case sy_env sys ''CODEX_AUTH_BROKER_REQUEST_LOG_FILE'' of
                   Some value \<Rightarrow> cfg0\<lparr>cf_requestLogFile := TrimSpace value\<rparr> | None \<Rightarrow> cfg0)
      in bind_ok (env_parsed sys ''CODEX_AUTH_BROKER_REQUEST_LOG_MAX_BYTES'' Atoi (\<lambda>n c. c\<lparr>cf_requestLogMaxBytes := n\<rparr>) cfg)
        (\<lambda>c1. bind_ok (env_parsed sys ''CODEX_AUTH_BROKER_REFRESH_SKEW'' ParseDuration (\<lambda>d c. c\<lparr>cf_refreshSkew := d\<rparr>) c1)
        (\<lambda>c2. let models = TrimSpace (Getenv sys ''CODEX_AUTH_BROKER_MODELS'');
                   c3 = (if models \<noteq> [] then c2\<lparr>cf_models := splitCSV models\<rparr> else c2)
               in bind_ok (env_parsed sys ''CODEX_AUTH_BROKER_REQUEST_LOG_LIMIT'' Atoi (\<lambda>n c. c\<lparr>cf_requestLogLimit := n\<rparr>) c3)
        (\<lambda>c4. env_parsed sys ''CODEX_AUTH_BROKER_MAX_CONCURRENT'' Atoi (\<lambda>n c. c\<lparr>cf_maxConcurrent := n\<rparr>) c4))))"

definition flag_defaults :: "system \<Rightarrow> flag_vars \<Rightarrow> flag_vars" where
  "flag_defaults sys cfg =
     cfg\<lparr>fv_skew := Duration_String (cf_refreshSkew cfg),
         fv_timeout := Duration_String (cf_timeout cfg),
         fv_shutdown := envOr sys ''CODEX_AUTH_BROKER_SHUTDOWN_TIMEOUT'' (Duration_String (cf_shutdownTimeout cfg)),
         fv_models := Join (cf_models cfg) '','',
         fv_authFiles := envOr sys ''CODEX_AUTH_FILES'' []\<rparr>"

subsection \<open>Flags\<close>

type_synonym flag_setter = "string \<Rightarrow> flag_vars \<Rightarrow> flag_vars option"

definition string_flags :: "(string \<times> (string \<Rightarrow> flag_vars \<Rightarrow> flag_vars)) list" where
  "string_flags =
     [(''listen'', \<lambda>v c. c\<lparr>cf_listen := v\<rparr>),
      (''auth-file'', \<lambda>v c. c\<lparr>cf_authFile := v\<rparr>),
      (''auth-files'', \<lambda>v c. c\<lparr>fv_authFiles := v\<rparr>),
      (''api-key'', \<lambda>v c. c\<lparr>cf_apiKey := v\<rparr>),
      (''api-key-file'', \<lambda>v c. c\<lparr>cf_apiKeyFile := v\<rparr>),
      (''keys-file'', \<lambda>v c. c\<lparr>cf_keysFile := v\<rparr>),
      (''prompt-cache-key'', \<lambda>v c. c\<lparr>cfg_promptCacheKey := v\<rparr>),
      (''prompt-cache-retention'', \<lambda>v c. c\<lparr>cf_promptCacheRetention := v\<rparr>),
      (''upstream-responses-url'', \<lambda>v c. c\<lparr>cfg_upstreamURL := v\<rparr>),
      (''models-url'', \<lambda>v c. c\<lparr>cf_modelsURL := v\<rparr>),
      (''usage-url'', \<lambda>v c. c\<lparr>cf_usageURL := v\<rparr>),
      (''alpha-search-url'', \<lambda>v c. c\<lparr>cf_alphaSearchURL := v\<rparr>),
      (''upstream-originator'', \<lambda>v c. c\<lparr>cfg_upstreamOriginator := v\<rparr>),
      (''models'', \<lambda>v c. c\<lparr>fv_models := v\<rparr>),
      (''image-responses-model'', \<lambda>v c. c\<lparr>cf_imageResponsesModel := v\<rparr>),
      (''refresh-skew'', \<lambda>v c. c\<lparr>fv_skew := v\<rparr>),
      (''timeout'', \<lambda>v c. c\<lparr>fv_timeout := v\<rparr>),
      (''shutdown-timeout'', \<lambda>v c. c\<lparr>fv_shutdown := v\<rparr>),
      (''request-log-file'', \<lambda>v c. c\<lparr>cf_requestLogFile := v\<rparr>)]"

definition int_flags :: "(string \<times> (int \<Rightarrow> flag_vars \<Rightarrow> flag_vars)) list" where
  "int_flags =
     [(''request-log-limit'', \<lambda>v c. c\<lparr>cf_requestLogLimit := v\<rparr>),
      (''max-concurrent'', \<lambda>v c. c\<lparr>cf_maxConcurrent := v\<rparr>),
      (''request-log-max-bytes'', \<lambda>v c. c\<lparr>cf_requestLogMaxBytes := v\<rparr>)]"

definition flag_table :: "string \<Rightarrow> flag_setter option" where
  "flag_table name =
     (case map_of string_flags name of
        Some upd \<Rightarrow> Some (\<lambda>v c. Some (upd v c))
      | None \<Rightarrow>
          (case map_of int_flags name of
             Some upd \<Rightarrow> Some (\<lambda>v c. map_option (\<lambda>n. upd n c) (ParseInt0 v))
           | None \<Rightarrow> None))"

text \<open>\<open>FlagSet.Parse\<close>: the names that were set, the variables, and the arguments left over.\<close>

fun parse_flags :: "string list \<Rightarrow> string list \<Rightarrow> flag_vars \<Rightarrow> flag_error + (string list \<times> flag_vars \<times> string list)" where
  "parse_flags [] names c = Inr (names, c, [])"
| "parse_flags (s # args) names c =
     (if length s < 2 \<or> hd s \<noteq> CHR ''-'' then Inr (names, c, s # args)
      else if s = ''--'' then Inr (names, c, args)
      else (let name0 = (if s ! 1 = CHR ''-'' then drop 2 s else drop 1 s)
            in if name0 = [] \<or> hd name0 = CHR ''-'' \<or> hd name0 = CHR ''='' then Inl (BadFlagSyntax s)
               else (case Cut CHR ''='' name0 of
                       (name, value, hasValue) \<Rightarrow>
                         (case flag_table name of
                            None \<Rightarrow> Inl (if name = ''help'' \<or> name = ''h'' then HelpRequested else FlagNotDefined name)
                          | Some set_flag \<Rightarrow>
                              (if hasValue
                               then (case set_flag value c of
                                       None \<Rightarrow> Inl (InvalidFlagValue value name)
                                     | Some c' \<Rightarrow> parse_flags args (name # names) c')
                               else (case args of
                                       [] \<Rightarrow> Inl (FlagNeedsArgument name)
                                     | v # rest \<Rightarrow>
                                         (case set_flag v c of
                                            None \<Rightarrow> Inl (InvalidFlagValue v name)
                                          | Some c' \<Rightarrow> parse_flags rest (name # names) c')))))))"

definition explicit_keys :: "string list \<Rightarrow> flag_vars \<Rightarrow> config_error + flag_vars" where
  "explicit_keys names c =
     (let explicitAPIKey = ''api-key'' \<in> set names; explicitAPIKeyFile = ''api-key-file'' \<in> set names
      in if explicitAPIKey \<and> explicitAPIKeyFile
         then Inl (Rejected ''api-key and api-key-file cannot both be set explicitly'')
         else (let c1 = (if explicitAPIKey then c\<lparr>cf_apiKeyFile := []\<rparr> else c)
               in Inr (if explicitAPIKeyFile then c1\<lparr>cf_apiKey := []\<rparr> else c1)))"

subsection \<open>Credential files and secrets\<close>

text \<open>\<open>seen\<close>: the canonical path of every file so far and, when it exists, its identity.\<close>

definition same_file :: "string \<times> nat option \<Rightarrow> string \<times> nat option \<Rightarrow> bool" where
  "same_file a b \<longleftrightarrow> fst a = fst b \<or> (snd a \<noteq> None \<and> snd a = snd b)"

definition stat_file :: "system \<Rightarrow> string \<Rightarrow> config_error + nat option" where
  "stat_file sys ef =
     (case sy_stat sys ef of
        Inr ident \<Rightarrow> Inr (Some ident)
      | Inl (notExist, err) \<Rightarrow> (if notExist then Inr None else Inl (SystemError err)))"

fun auth_files :: "system \<Rightarrow> string list \<Rightarrow> (string \<times> nat option) list \<Rightarrow> config_error + (string \<times> nat option) list" where
  "auth_files sys [] seen = Inr seen"
| "auth_files sys (f # fs) seen =
     bind_ok (canonicalAuthPath sys f) (\<lambda>ef.
     bind_ok (stat_file sys ef) (\<lambda>ident.
       if \<exists>p\<in>set seen. same_file (ef, ident) p then Inl (DuplicateAuthFile f)
       else auth_files sys fs (seen @ [(ef, ident)])))"

definition credential_files :: "system \<Rightarrow> flag_vars \<Rightarrow> config_error + flag_vars" where
  "credential_files sys c =
     (let files0 = splitCSV (fv_authFiles c); files = (if files0 = [] then [cf_authFile c] else files0)
      in bind_ok (auth_files sys files []) (\<lambda>seen.
           Inr (c\<lparr>cf_authFiles := map fst seen, cf_authFile := fst (hd seen)\<rparr>)))"

definition load_secrets :: "system \<Rightarrow> flag_vars \<Rightarrow> config_error + flag_vars" where
  "load_secrets sys c =
     bind_ok (if TrimSpace (cf_apiKey c) = [] \<and> TrimSpace (cf_apiKeyFile c) \<noteq> []
              then bind_ok (readSecretFile sys (cf_apiKeyFile c)) (\<lambda>secret. Inr (c\<lparr>cf_apiKey := secret\<rparr>))
              else Inr c) (\<lambda>c1.
     bind_ok (expandPath sys (cf_keysFile c1)) (\<lambda>expandedKeys.
       Inr (c1\<lparr>cf_keysFile := expandedKeys, cf_models := splitCSV (fv_models c1)\<rparr>)))"

subsection \<open>Checks\<close>

text \<open>A duration that is parsed, then checked not to be negative.\<close>

definition parsed_duration :: "string \<Rightarrow> string \<Rightarrow> config_error + duration" where
  "parsed_duration name value =
     (case ParseDuration value of
        None \<Rightarrow> Inl (InvalidSetting name)
      | Some d \<Rightarrow> (if d < 0 then Inl (Rejected (name @ '' must be zero or greater'')) else Inr d))"

definition check_ranges :: "flag_vars \<Rightarrow> config_error + flag_vars" where
  "check_ranges c =
     (let retention = TrimSpace (cf_promptCacheRetention c)
      in if retention \<noteq> [] \<and> retention \<noteq> ''in_memory'' \<and> retention \<noteq> ''24h''
         then Inl (Rejected ''prompt-cache-retention must be empty, in_memory, or 24h'')
         else if cf_requestLogMaxBytes c < 0 then Inl (Rejected ''request-log-max-bytes must be zero or greater'')
         else if cf_requestLogLimit c < 0 then Inl (Rejected ''request-log-limit must be zero or greater'')
         else if cf_maxConcurrent c < 0 then Inl (Rejected ''max-concurrent must be zero (unlimited) or greater'')
         else Inr c)"

definition check_settings :: "flag_vars \<Rightarrow> config_error + flag_vars" where
  "check_settings c =
     bind_ok (parsed_duration ''refresh-skew'' (fv_skew c)) (\<lambda>skew.
     bind_ok (parsed_duration ''timeout'' (fv_timeout c)) (\<lambda>timeout.
       let model = TrimSpace (cf_imageResponsesModel c)
       in if model = [] then Inl (Rejected ''image-responses-model must not be empty'')
          else bind_ok (parsed_duration ''shutdown-timeout'' (fv_shutdown c)) (\<lambda>shutdown.
            check_ranges (c\<lparr>cf_refreshSkew := skew, cf_timeout := timeout, cf_imageResponsesModel := model,
                            cf_shutdownTimeout := shutdown\<rparr>))))"

definition loadConfig :: "string \<Rightarrow> system \<Rightarrow> string list \<Rightarrow> config_error + settings" where
  "loadConfig version sys args =
     bind_ok (env_config version sys) (\<lambda>cfg.
       (case parse_flags args [] (flag_defaults sys cfg) of
          Inl err \<Rightarrow> Inl (FlagsRejected err)
        | Inr (names, c, rest) \<Rightarrow>
            (if rest \<noteq> [] then Inl (UnexpectedArguments (Join rest '' ''))
             else bind_ok (explicit_keys names c) (\<lambda>c1.
                  bind_ok (credential_files sys c1) (\<lambda>c2.
                  bind_ok (load_secrets sys c2) (\<lambda>c3.
                  bind_ok (check_settings c3) (\<lambda>c4. Inr (settings.truncate c4))))))))"

section \<open>Flags as they are written\<close>

text \<open>An option with one dash or two, its value after an equals sign or as the next argument.\<close>

datatype flag_arg = FlagArg (fa_double: bool) (fa_equals: bool) (fa_name: string) (fa_value: string)

fun flag_args :: "flag_arg \<Rightarrow> string list" where
  "flag_args (FlagArg double equals n v) =
     (let d = (if double then ''--'' else ''-'') in if equals then [d @ n @ ''='' @ v] else [d @ n, v])"

definition known_flag :: "flag_arg \<Rightarrow> bool" where
  "known_flag a \<longleftrightarrow> flag_table (fa_name a) \<noteq> None"

definition set_flag_arg :: "flag_arg \<Rightarrow> flag_vars \<Rightarrow> flag_error + flag_vars" where
  "set_flag_arg a c =
     (case flag_table (fa_name a) of
        None \<Rightarrow> Inl (FlagNotDefined (fa_name a))
      | Some f \<Rightarrow> (case f (fa_value a) c of None \<Rightarrow> Inl (InvalidFlagValue (fa_value a) (fa_name a)) | Some c' \<Rightarrow> Inr c'))"

fun set_flag_args :: "flag_arg list \<Rightarrow> flag_vars \<Rightarrow> flag_error + flag_vars" where
  "set_flag_args [] c = Inr c"
| "set_flag_args (a # as) c = bind_ok (set_flag_arg a c) (set_flag_args as)"

lemma flag_table_names: "flag_table n = Some f \<Longrightarrow> n \<in> set (map fst string_flags @ map fst int_flags)"
  unfolding flag_table_def
  by (cases "map_of string_flags n"; cases "map_of int_flags n"; force dest: map_of_SomeD)

lemma flag_name_ok:
  assumes "flag_table n = Some f"
  shows "n \<noteq> []" "hd n \<noteq> CHR ''-''" "hd n \<noteq> CHR ''=''" "CHR ''='' \<notin> set n"
proof -
  have "list_all (\<lambda>n. n \<noteq> [] \<and> hd n \<noteq> CHR ''-'' \<and> hd n \<noteq> CHR ''='' \<and> CHR ''='' \<notin> set n)
      (map fst string_flags @ map fst int_flags)"
    by (simp add: string_flags_def int_flags_def)
  then show "n \<noteq> []" "hd n \<noteq> CHR ''-''" "hd n \<noteq> CHR ''=''" "CHR ''='' \<notin> set n"
    using flag_table_names [OF assms] by (auto simp: list_all_iff)
qed

lemma Cut_equals:
  "CHR ''='' \<notin> set n \<Longrightarrow> Cut CHR ''='' (n @ ''='' @ v) = (n, v, True)"
  "CHR ''='' \<notin> set n \<Longrightarrow> Cut CHR ''='' n = (n, [], False)"
proof -
  have "CHR ''='' \<notin> set n \<Longrightarrow> takeWhile (\<lambda>c. c \<noteq> CHR ''='') (n @ CHR ''='' # v) = n \<and>
      dropWhile (\<lambda>c. c \<noteq> CHR ''='') (n @ CHR ''='' # v) = CHR ''='' # v"
    by (induction n) auto
  then show "CHR ''='' \<notin> set n \<Longrightarrow> Cut CHR ''='' (n @ ''='' @ v) = (n, v, True)"
    "CHR ''='' \<notin> set n \<Longrightarrow> Cut CHR ''='' n = (n, [], False)"
    by (simp_all add: Cut_def)
qed

lemma parse_flag_arg:
  assumes "flag_table n = Some f"
  shows "parse_flags (flag_args (FlagArg double equals n v) @ rest) names c =
    (case f v c of None \<Rightarrow> Inl (InvalidFlagValue v n) | Some c' \<Rightarrow> parse_flags rest (n # names) c')"
proof -
  note ok = flag_name_ok [OF assms]
  obtain x xs where n: "n = x # xs" using ok(1) by (cases n) auto
  have x: "x \<noteq> CHR ''-''" "x \<noteq> CHR ''=''" using ok(2,3) n by auto
  note cut = Cut_equals [OF ok(4)]
  show ?thesis using assms cut x unfolding n by (cases double; cases equals) (simp_all add: Let_def)
qed

lemma parse_flag_args:
  assumes "list_all known_flag opts"
  shows "parse_flags (concat (map flag_args opts)) names c =
    bind_ok (set_flag_args opts c) (\<lambda>c'. Inr (rev (map fa_name opts) @ names, c', []))"
  using assms
proof (induction opts arbitrary: names c)
  case (Cons a opts)
  obtain double equals n v where a: "a = FlagArg double equals n v" by (cases a)
  obtain f where f: "flag_table n = Some f" using Cons.prems by (auto simp: a known_flag_def)
  show ?case
  proof (cases "f v c")
    case None
    then show ?thesis using parse_flag_arg [OF f] by (simp add: a set_flag_arg_def f del: flag_args.simps)
  next
    case (Some c')
    then show ?thesis
      using parse_flag_arg [OF f] Cons by (simp add: a set_flag_arg_def f del: flag_args.simps)
  qed
qed simp

text \<open>The last value of an option, if it is given at all.\<close>

fun given :: "flag_arg list \<Rightarrow> string \<Rightarrow> string option" where
  "given [] n = None"
| "given (a # as) n =
     (case given as n of Some v \<Rightarrow> Some v | None \<Rightarrow> if fa_name a = n then Some (fa_value a) else None)"

definition chosen :: "flag_arg list \<Rightarrow> string \<Rightarrow> string \<Rightarrow> string" where
  "chosen opts n fallback = (case given opts n of Some v \<Rightarrow> v | None \<Rightarrow> fallback)"

text \<open>A field that one option writes and no other touches.\<close>

locale flag_field =
  fixes proj :: "flag_vars \<Rightarrow> string" and option_name :: string
  assumes sets: "flag_table n = Some f \<Longrightarrow> f v c = Some c' \<Longrightarrow> proj c' = (if n = option_name then v else proj c)"
begin

lemma set_one: "set_flag_arg a c = Inr c' \<Longrightarrow> proj c' = (if fa_name a = option_name then fa_value a else proj c)"
  by (auto simp: set_flag_arg_def split: option.splits dest: sets)

lemma set_all: "set_flag_args opts c = Inr c' \<Longrightarrow> proj c' = chosen opts option_name (proj c)"
  by (induction opts arbitrary: c) (auto simp: ok_iff chosen_def dest: set_one split: option.splits)

end

lemma flag_fieldI:
  assumes "list_all (\<lambda>(n, upd). \<forall>v c. proj (upd v c) = (if n = opt then v else proj c)) string_flags"
    and "list_all (\<lambda>(n, upd). n \<noteq> opt \<and> (\<forall>k c. proj (upd k c) = proj c)) int_flags"
  shows "flag_field proj opt"
proof
  fix n f v c c'
  assume f: "flag_table n = Some f" "f v c = Some c'"
  consider upd where "(n, upd) \<in> set string_flags" "c' = upd v c" | upd k where "(n, upd) \<in> set int_flags" "c' = upd k c"
    using f by (auto simp: flag_table_def split: option.splits dest: map_of_SomeD)
  then show "proj c' = (if n = opt then v else proj c)"
    using assms by cases (fastforce simp: list_all_iff)+
qed

interpretation listen: flag_field cf_listen "''listen''"
  by (rule flag_fieldI) (simp_all add: string_flags_def int_flags_def)

interpretation upstream: flag_field cfg_upstreamURL "''upstream-responses-url''"
  by (rule flag_fieldI) (simp_all add: string_flags_def int_flags_def)

interpretation cacheKey: flag_field cfg_promptCacheKey "''prompt-cache-key''"
  by (rule flag_fieldI) (simp_all add: string_flags_def int_flags_def)

interpretation skew: flag_field fv_skew "''refresh-skew''"
  by (rule flag_fieldI) (simp_all add: string_flags_def int_flags_def)

interpretation timeout: flag_field fv_timeout "''timeout''"
  by (rule flag_fieldI) (simp_all add: string_flags_def int_flags_def)

interpretation shutdown: flag_field fv_shutdown "''shutdown-timeout''"
  by (rule flag_fieldI) (simp_all add: string_flags_def int_flags_def)

interpretation pool_files: flag_field fv_authFiles "''auth-files''"
  by (rule flag_fieldI) (simp_all add: string_flags_def int_flags_def)

section \<open>Loading\<close>

lemma loadConfig_cases:
  assumes "loadConfig version sys args = Inr cfg"
  obtains cfg0 names c c1 c2 c3 c4 where "env_config version sys = Inr cfg0"
    "parse_flags args [] (flag_defaults sys cfg0) = Inr (names, c, [])" "explicit_keys names c = Inr c1"
    "credential_files sys c1 = Inr c2" "load_secrets sys c2 = Inr c3" "check_settings c3 = Inr c4" "cfg = settings.truncate c4"
proof -
  obtain cfg0 where cfg0: "env_config version sys = Inr cfg0" using assms by (auto simp: loadConfig_def ok_iff)
  obtain names c rest where parsed: "parse_flags args [] (flag_defaults sys cfg0) = Inr (names, c, rest)"
    using assms cfg0 by (cases "parse_flags args [] (flag_defaults sys cfg0)") (auto simp: loadConfig_def)
  then show thesis using assms that cfg0 parsed by (auto simp: loadConfig_def ok_iff split: if_splits)
qed

lemma truncate_fields [simp]:
  "cf_listen (settings.truncate c) = cf_listen c" "cfg_upstreamURL (settings.truncate c) = cfg_upstreamURL c"
  "cfg_promptCacheKey (settings.truncate c) = cfg_promptCacheKey c" "cf_refreshSkew (settings.truncate c) = cf_refreshSkew c"
  "cf_timeout (settings.truncate c) = cf_timeout c" "cf_shutdownTimeout (settings.truncate c) = cf_shutdownTimeout c"
  "cf_authFile (settings.truncate c) = cf_authFile c" "cf_authFiles (settings.truncate c) = cf_authFiles c"
  "cf_apiKey (settings.truncate c) = cf_apiKey c" "cf_apiKeyFile (settings.truncate c) = cf_apiKeyFile c"
  "cf_imageResponsesModel (settings.truncate c) = cf_imageResponsesModel c"
  "cf_promptCacheRetention (settings.truncate c) = cf_promptCacheRetention c"
  "cf_requestLogLimit (settings.truncate c) = cf_requestLogLimit c"
  "cf_requestLogMaxBytes (settings.truncate c) = cf_requestLogMaxBytes c"
  "cf_maxConcurrent (settings.truncate c) = cf_maxConcurrent c" "cf_models (settings.truncate c) = cf_models c"
  by (simp_all add: settings.truncate_def)

subsection \<open>Credential files\<close>

definition files_ok :: "(string \<times> nat option) list \<Rightarrow> bool" where
  "files_ok seen \<longleftrightarrow> (\<forall>i j. i < j \<longrightarrow> j < length seen \<longrightarrow> \<not> same_file (seen ! j) (seen ! i))"

lemma files_ok_snoc:
  "files_ok seen \<Longrightarrow> (\<forall>p\<in>set seen. \<not> same_file x p) \<Longrightarrow> files_ok (seen @ [x])"
  by (auto simp: files_ok_def nth_append less_Suc_eq)

lemma auth_files_ok:
  assumes "auth_files sys fs seen = Inr out" "files_ok seen" "list_all (\<lambda>p. stat_file sys (fst p) = Inr (snd p)) seen"
  shows "files_ok out \<and> list_all (\<lambda>p. stat_file sys (fst p) = Inr (snd p)) out \<and> length out = length seen + length fs"
  using assms
proof (induction fs arbitrary: seen)
  case (Cons f fs)
  from Cons.prems(1) obtain ef ident where ef: "stat_file sys ef = Inr ident" "\<forall>p\<in>set seen. \<not> same_file (ef, ident) p"
    "auth_files sys fs (seen @ [(ef, ident)]) = Inr out"
    by (auto simp: ok_iff)
  then show ?case using Cons.IH [OF ef(3) files_ok_snoc] Cons.prems by simp
qed simp

lemma credential_files_ok:
  assumes "credential_files sys c = Inr c'"
  shows "cf_authFiles c' \<noteq> []" "cf_authFile c' = hd (cf_authFiles c')" "distinct (cf_authFiles c')"
    "i < j \<Longrightarrow> j < length (cf_authFiles c') \<Longrightarrow> sy_stat sys (cf_authFiles c' ! i) = Inr a \<Longrightarrow>
       sy_stat sys (cf_authFiles c' ! j) = Inr b \<Longrightarrow> a \<noteq> b"
    "\<exists>fs a. c' = c\<lparr>cf_authFiles := fs, cf_authFile := a\<rparr>"
proof -
  obtain fs seen where s: "auth_files sys fs [] = Inr seen" "fs \<noteq> []"
    "c' = c\<lparr>cf_authFiles := map fst seen, cf_authFile := fst (hd seen)\<rparr>"
  proof -
    let ?fs = "if splitCSV (fv_authFiles c) = [] then [cf_authFile c] else splitCSV (fv_authFiles c)"
    have "\<exists>seen. auth_files sys ?fs [] = Inr seen \<and> Inr (c\<lparr>cf_authFiles := map fst seen, cf_authFile := fst (hd seen)\<rparr>) = (Inr c' :: config_error + flag_vars)"
      using assms unfolding credential_files_def Let_def bind_ok_Inr .
    moreover have "?fs \<noteq> []" by simp
    ultimately show thesis using that by blast
  qed
  have ok: "files_ok seen" "list_all (\<lambda>p. stat_file sys (fst p) = Inr (snd p)) seen" "length seen = length fs"
    using auth_files_ok [OF s(1)] by (simp_all add: files_ok_def)
  have "seen \<noteq> []" using ok(3) s(2) by auto
  then show "cf_authFiles c' \<noteq> []" "cf_authFile c' = hd (cf_authFiles c')" using s(3) by (simp_all add: hd_map)
  show "distinct (cf_authFiles c')"
    unfolding s(3) using ok(1) by (auto simp: distinct_conv_nth files_ok_def same_file_def) (metis linorder_neqE_nat)
  show "a \<noteq> b" if "i < j" "j < length (cf_authFiles c')" "sy_stat sys (cf_authFiles c' ! i) = Inr a"
    "sy_stat sys (cf_authFiles c' ! j) = Inr b"
  proof -
    have stat: "stat_file sys (fst (seen ! k)) = Inr (snd (seen ! k))" if "k < length seen" for k
      using ok(2) that by (simp add: list_all_length)
    have len: "j < length seen" "i < length seen" using that(1,2) s(3) by simp_all
    have "snd (seen ! i) = Some a" "snd (seen ! j) = Some b"
      using stat [OF len(2)] stat [OF len(1)] that(3,4) len s(3) by (simp_all add: stat_file_def)
    moreover have "\<not> same_file (seen ! j) (seen ! i)" using ok(1) that(1) len by (simp add: files_ok_def)
    ultimately show ?thesis by (auto simp: same_file_def)
  qed
  show "\<exists>fs a. c' = c\<lparr>cf_authFiles := fs, cf_authFile := a\<rparr>" using s(3) by blast
qed

subsection \<open>Secrets, keys and checks\<close>

lemma explicit_keys_frame:
  assumes "explicit_keys names c = Inr c'"
  obtains k f where "c' = c\<lparr>cf_apiKey := k, cf_apiKeyFile := f\<rparr>"
proof -
  have "c' = c\<lparr>cf_apiKey := cf_apiKey c', cf_apiKeyFile := cf_apiKeyFile c'\<rparr>"
    using assms by (auto simp: explicit_keys_def Let_def split: if_splits)
  then show thesis by (rule that)
qed

lemma readSecretFile_secret: "readSecretFile sys path = Inr secret \<Longrightarrow> TrimSpace secret \<noteq> []"
proof -
  assume read: "readSecretFile sys path = Inr secret"
  obtain e where e: "expandPath sys path = Inr e" using read by (auto simp: readSecretFile_def ok_iff)
  then show "TrimSpace secret \<noteq> []"
    using read by (cases "readPrivateFile (sy_windows sys) (sy_files sys e)") (auto simp: readSecretFile_def Let_def split: if_splits)
qed

lemma load_secrets_ok:
  assumes "load_secrets sys c = Inr c'"
  shows "TrimSpace (cf_apiKeyFile c') \<noteq> [] \<Longrightarrow> TrimSpace (cf_apiKey c') \<noteq> []"
    "\<exists>k f ms. c' = c\<lparr>cf_apiKey := k, cf_keysFile := f, cf_models := ms\<rparr>"
    "cf_models c' = splitCSV (fv_models c)"
proof -
  obtain c1 where c1: "c1 = c \<and> (TrimSpace (cf_apiKey c) \<noteq> [] \<or> TrimSpace (cf_apiKeyFile c) = []) \<or>
      (\<exists>secret. TrimSpace secret \<noteq> [] \<and> c1 = c\<lparr>cf_apiKey := secret\<rparr>)"
    "\<exists>f. c' = c1\<lparr>cf_keysFile := f, cf_models := splitCSV (fv_models c1)\<rparr>"
    using assms by (auto simp: load_secrets_def ok_iff split: if_splits dest: readSecretFile_secret)
  then show "TrimSpace (cf_apiKeyFile c') \<noteq> [] \<Longrightarrow> TrimSpace (cf_apiKey c') \<noteq> []" "cf_models c' = splitCSV (fv_models c)"
    by auto
  have "c' = c\<lparr>cf_apiKey := cf_apiKey c', cf_keysFile := cf_keysFile c', cf_models := cf_models c'\<rparr>"
    using c1 by auto
  then show "\<exists>k f ms. c' = c\<lparr>cf_apiKey := k, cf_keysFile := f, cf_models := ms\<rparr>" by blast
qed

lemma parsed_duration_ok: "parsed_duration name v = Inr d \<longleftrightarrow> ParseDuration v = Some d \<and> 0 \<le> d"
  by (auto simp: parsed_duration_def split: option.splits)

lemma check_settings_ok:
  assumes "check_settings c = Inr c'"
  shows "ParseDuration (fv_skew c) = Some (cf_refreshSkew c')" "0 \<le> cf_refreshSkew c'"
    "ParseDuration (fv_timeout c) = Some (cf_timeout c')" "0 \<le> cf_timeout c'"
    "ParseDuration (fv_shutdown c) = Some (cf_shutdownTimeout c')" "0 \<le> cf_shutdownTimeout c'"
    "cf_imageResponsesModel c' = TrimSpace (cf_imageResponsesModel c)" "cf_imageResponsesModel c' \<noteq> []"
    "TrimSpace (cf_promptCacheRetention c') \<in> {[], ''in_memory'', ''24h''}"
    "0 \<le> cf_requestLogLimit c'" "0 \<le> cf_requestLogMaxBytes c'" "0 \<le> cf_maxConcurrent c'"
    "\<exists>a b m d. c' = c\<lparr>cf_refreshSkew := a, cf_timeout := b, cf_imageResponsesModel := m, cf_shutdownTimeout := d\<rparr>"
proof -
  obtain a b d where d: "parsed_duration ''refresh-skew'' (fv_skew c) = Inr a" "parsed_duration ''timeout'' (fv_timeout c) = Inr b"
    "parsed_duration ''shutdown-timeout'' (fv_shutdown c) = Inr d" "TrimSpace (cf_imageResponsesModel c) \<noteq> []"
    "check_ranges (c\<lparr>cf_refreshSkew := a, cf_timeout := b, cf_imageResponsesModel := TrimSpace (cf_imageResponsesModel c),
                     cf_shutdownTimeout := d\<rparr>) = Inr c'"
    using assms by (auto simp: check_settings_def Let_def ok_iff split: if_splits)
  have c': "c' = c\<lparr>cf_refreshSkew := a, cf_timeout := b, cf_imageResponsesModel := TrimSpace (cf_imageResponsesModel c),
      cf_shutdownTimeout := d\<rparr>"
    and r: "TrimSpace (cf_promptCacheRetention c) \<in> {[], ''in_memory'', ''24h''}"
    "0 \<le> cf_requestLogLimit c" "0 \<le> cf_requestLogMaxBytes c" "0 \<le> cf_maxConcurrent c"
    using d(5) by (auto simp: check_ranges_def Let_def split: if_splits)
  show "ParseDuration (fv_skew c) = Some (cf_refreshSkew c')" "0 \<le> cf_refreshSkew c'"
    "ParseDuration (fv_timeout c) = Some (cf_timeout c')" "0 \<le> cf_timeout c'"
    "ParseDuration (fv_shutdown c) = Some (cf_shutdownTimeout c')" "0 \<le> cf_shutdownTimeout c'"
    "cf_imageResponsesModel c' = TrimSpace (cf_imageResponsesModel c)" "cf_imageResponsesModel c' \<noteq> []"
    "TrimSpace (cf_promptCacheRetention c') \<in> {[], ''in_memory'', ''24h''}"
    "0 \<le> cf_requestLogLimit c'" "0 \<le> cf_requestLogMaxBytes c'" "0 \<le> cf_maxConcurrent c'"
    "\<exists>a b m d. c' = c\<lparr>cf_refreshSkew := a, cf_timeout := b, cf_imageResponsesModel := m, cf_shutdownTimeout := d\<rparr>"
    using d(1-4) r unfolding c' parsed_duration_ok by auto
qed

subsection \<open>The environment\<close>

lemma env_parsed_ok:
  "env_parsed sys key parse upd c = Inr c' \<longleftrightarrow>
     (if TrimSpace (Getenv sys key) = [] then c' = c
      else (\<exists>x. parse (TrimSpace (Getenv sys key)) = Some x \<and> c' = upd x c))"
  by (auto simp: env_parsed_def Let_def split: option.splits)

lemma env_parsed_frame:
  "env_parsed sys key parse upd c = Inr c' \<Longrightarrow> (\<And>x c. proj (upd x c) = proj c) \<Longrightarrow> proj c' = proj c"
  by (auto simp: env_parsed_ok split: if_splits)

text \<open>A field that no variable parsed into a number or a list writes.\<close>

lemma env_config_frame:
  assumes "env_config version sys = Inr c"
    and "\<And>x c. proj (cf_requestLogFile_update x c) = proj c" "\<And>x c. proj (cf_requestLogMaxBytes_update x c) = proj c"
    "\<And>x c. proj (cf_models_update x c) = proj c" "\<And>x c. proj (cf_requestLogLimit_update x c) = proj c"
    "\<And>x c. proj (cf_maxConcurrent_update x c) = proj c"
  obtains c1 c2 where "proj c1 = proj (default_config version sys)" "proj c = proj c2"
    "env_parsed sys ''CODEX_AUTH_BROKER_REFRESH_SKEW'' ParseDuration (\<lambda>d c. c\<lparr>cf_refreshSkew := d\<rparr>) c1 = Inr c2"
proof -
  let ?models = "TrimSpace (Getenv sys ''CODEX_AUTH_BROKER_MODELS'')"
  define c0 where "c0 = (case sy_env sys ''CODEX_AUTH_BROKER_REQUEST_LOG_FILE'' of
      Some value \<Rightarrow> (default_config version sys)\<lparr>cf_requestLogFile := TrimSpace value\<rparr> | None \<Rightarrow> default_config version sys)"
  obtain c1 c2 c3 where cs:
    "env_parsed sys ''CODEX_AUTH_BROKER_REQUEST_LOG_MAX_BYTES'' Atoi (\<lambda>n c. c\<lparr>cf_requestLogMaxBytes := n\<rparr>) c0 = Inr c1"
    "env_parsed sys ''CODEX_AUTH_BROKER_REFRESH_SKEW'' ParseDuration (\<lambda>d c. c\<lparr>cf_refreshSkew := d\<rparr>) c1 = Inr c2"
    "env_parsed sys ''CODEX_AUTH_BROKER_REQUEST_LOG_LIMIT'' Atoi (\<lambda>n c. c\<lparr>cf_requestLogLimit := n\<rparr>)
       (if ?models \<noteq> [] then c2\<lparr>cf_models := splitCSV ?models\<rparr> else c2) = Inr c3"
    "env_parsed sys ''CODEX_AUTH_BROKER_MAX_CONCURRENT'' Atoi (\<lambda>n c. c\<lparr>cf_maxConcurrent := n\<rparr>) c3 = Inr c"
    using assms(1) unfolding env_config_def Let_def bind_ok_Inr c0_def [symmetric] by blast
  have "proj c0 = proj (default_config version sys)" unfolding c0_def using assms(2) by (simp split: option.split)
  moreover have "proj c1 = proj c0" by (rule env_parsed_frame [OF cs(1)]) (simp add: assms(3))
  moreover have "proj c = proj c3" by (rule env_parsed_frame [OF cs(4)]) (simp add: assms(6))
  moreover have "proj c3 = proj (if ?models \<noteq> [] then c2\<lparr>cf_models := splitCSV ?models\<rparr> else c2)"
    by (rule env_parsed_frame [OF cs(3)]) (simp add: assms(5))
  moreover have "proj (if ?models \<noteq> [] then c2\<lparr>cf_models := splitCSV ?models\<rparr> else c2) = proj c2" by (simp add: assms(4))
  ultimately show thesis using that cs(2) by simp
qed

definition env_skew :: "system \<Rightarrow> duration option" where
  "env_skew sys =
     (let v = TrimSpace (Getenv sys ''CODEX_AUTH_BROKER_REFRESH_SKEW'') in if v = [] then Some (minutes 10) else ParseDuration v)"

lemma env_skew_range: "env_skew sys = Some d \<Longrightarrow> - (2 ^ 63) \<le> d \<and> d < 2 ^ 63"
  using ParseDuration_range by (auto simp: env_skew_def Let_def split: if_splits)

lemma default_durations:
  "cf_refreshSkew (default_config version sys) = minutes 10" "cf_timeout (default_config version sys) = minutes 10"
  "cf_shutdownTimeout (default_config version sys) = seconds 30"
  by (simp_all add: default_config_def defaultShutdownTimeout_def)

lemma env_config_same:
  assumes "env_config version sys = Inr c"
    and "\<And>x c. proj (cf_requestLogFile_update x c) = proj c" "\<And>x c. proj (cf_requestLogMaxBytes_update x c) = proj c"
    "\<And>x c. proj (cf_models_update x c) = proj c" "\<And>x c. proj (cf_requestLogLimit_update x c) = proj c"
    "\<And>x c. proj (cf_maxConcurrent_update x c) = proj c" "\<And>x c. proj (cf_refreshSkew_update x c) = proj c"
  shows "proj c = proj (default_config version sys)"
proof (rule env_config_frame [of version sys c proj, OF assms(1-6)])
  fix c1 c2
  assume "proj c1 = proj (default_config version sys)" "proj c = proj c2"
    and skew: "env_parsed sys ''CODEX_AUTH_BROKER_REFRESH_SKEW'' ParseDuration (\<lambda>d c. c\<lparr>cf_refreshSkew := d\<rparr>) c1 = Inr c2"
  moreover have "proj c2 = proj c1" by (rule env_parsed_frame [OF skew]) (simp add: assms(7))
  ultimately show ?thesis by simp
qed

lemmas env_config_kept =
  env_config_same [where proj = cf_listen, simplified] env_config_same [where proj = cfg_upstreamURL, simplified]
  env_config_same [where proj = cfg_promptCacheKey, simplified]
  env_config_same [where proj = cf_timeout, simplified, unfolded default_durations]
  env_config_same [where proj = cf_shutdownTimeout, simplified, unfolded default_durations]

lemma env_config_skew:
  assumes "env_config version sys = Inr c"
  shows "env_skew sys = Some (cf_refreshSkew c)"
  by (rule env_config_frame [OF assms, of cf_refreshSkew])
    (auto simp: env_parsed_ok env_skew_def Let_def default_durations split: if_splits)

section \<open>Properties\<close>

lemma flag_defaults_fields [simp]:
  "cf_listen (flag_defaults sys c) = cf_listen c" "cfg_upstreamURL (flag_defaults sys c) = cfg_upstreamURL c"
  "cfg_promptCacheKey (flag_defaults sys c) = cfg_promptCacheKey c"
  "fv_skew (flag_defaults sys c) = Duration_String (cf_refreshSkew c)"
  "fv_timeout (flag_defaults sys c) = Duration_String (cf_timeout c)"
  "fv_shutdown (flag_defaults sys c) = envOr sys ''CODEX_AUTH_BROKER_SHUTDOWN_TIMEOUT'' (Duration_String (cf_shutdownTimeout c))"
  by (simp_all add: flag_defaults_def)

text \<open>What the stages after the flags leave alone.\<close>

lemma late_stages_frame:
  assumes "explicit_keys names c = Inr c1" "credential_files sys c1 = Inr c2" "load_secrets sys c2 = Inr c3"
    and "check_settings c3 = Inr c4"
  shows "cf_listen c4 = cf_listen c" "cfg_upstreamURL c4 = cfg_upstreamURL c" "cfg_promptCacheKey c4 = cfg_promptCacheKey c"
    "fv_skew c3 = fv_skew c" "fv_timeout c3 = fv_timeout c" "fv_shutdown c3 = fv_shutdown c"
proof -
  from assms(1) obtain k f where 1: "c1 = c\<lparr>cf_apiKey := k, cf_apiKeyFile := f\<rparr>" by (rule explicit_keys_frame)
  obtain fs a where 2: "c2 = c1\<lparr>cf_authFiles := fs, cf_authFile := a\<rparr>" using credential_files_ok(5) [OF assms(2)] by blast
  obtain k' f' ms where 3: "c3 = c2\<lparr>cf_apiKey := k', cf_keysFile := f', cf_models := ms\<rparr>"
    using load_secrets_ok(2) [OF assms(3)] by blast
  obtain x y m d where 4: "c4 = c3\<lparr>cf_refreshSkew := x, cf_timeout := y, cf_imageResponsesModel := m, cf_shutdownTimeout := d\<rparr>"
    using check_settings_ok(13) [OF assms(4)] by blast
  show "cf_listen c4 = cf_listen c" "cfg_upstreamURL c4 = cfg_upstreamURL c" "cfg_promptCacheKey c4 = cfg_promptCacheKey c"
    "fv_skew c3 = fv_skew c" "fv_timeout c3 = fv_timeout c" "fv_shutdown c3 = fv_shutdown c"
    unfolding 4 3 2 1 by simp_all
qed

lemma config_safe:
  assumes "loadConfig version sys args = Inr cfg"
  shows "0 \<le> cf_refreshSkew cfg \<and> 0 \<le> cf_timeout cfg \<and> 0 \<le> cf_shutdownTimeout cfg \<and>
    0 \<le> cf_requestLogLimit cfg \<and> 0 \<le> cf_requestLogMaxBytes cfg \<and> 0 \<le> cf_maxConcurrent cfg \<and>
    TrimSpace (cf_promptCacheRetention cfg) \<in> {[], ''in_memory'', ''24h''} \<and>
    cf_imageResponsesModel cfg \<noteq> [] \<and> TrimSpace (cf_imageResponsesModel cfg) = cf_imageResponsesModel cfg \<and>
    cf_authFiles cfg \<noteq> [] \<and> cf_authFile cfg = hd (cf_authFiles cfg) \<and> distinct (cf_authFiles cfg) \<and>
    (\<forall>i j a b. i < j \<and> j < length (cf_authFiles cfg) \<and> sy_stat sys (cf_authFiles cfg ! i) = Inr a \<and>
       sy_stat sys (cf_authFiles cfg ! j) = Inr b \<longrightarrow> a \<noteq> b) \<and>
    (TrimSpace (cf_apiKeyFile cfg) \<noteq> [] \<longrightarrow> TrimSpace (cf_apiKey cfg) \<noteq> [])"
  using assms
proof (cases rule: loadConfig_cases)
  case (1 cfg0 names c c1 c2 c3 c4)
  obtain k f ms where s: "c3 = c2\<lparr>cf_apiKey := k, cf_keysFile := f, cf_models := ms\<rparr>" using load_secrets_ok(2) [OF 1(5)] by blast
  obtain x y m d where t: "c4 = c3\<lparr>cf_refreshSkew := x, cf_timeout := y, cf_imageResponsesModel := m, cf_shutdownTimeout := d\<rparr>"
    using check_settings_ok(13) [OF 1(6)] by blast
  have files: "cf_authFiles cfg = cf_authFiles c2" "cf_authFile cfg = cf_authFile c2"
    "cf_apiKey cfg = cf_apiKey c3" "cf_apiKeyFile cfg = cf_apiKeyFile c3"
    by (simp_all add: 1(7) t s)
  note ok = check_settings_ok [OF 1(6)]
  have ranges: "0 \<le> cf_refreshSkew cfg" "0 \<le> cf_timeout cfg" "0 \<le> cf_shutdownTimeout cfg" "0 \<le> cf_requestLogLimit cfg"
    "0 \<le> cf_requestLogMaxBytes cfg" "0 \<le> cf_maxConcurrent cfg" "TrimSpace (cf_promptCacheRetention cfg) \<in> {[], ''in_memory'', ''24h''}"
    "cf_imageResponsesModel cfg \<noteq> []" "TrimSpace (cf_imageResponsesModel cfg) = cf_imageResponsesModel cfg"
    unfolding 1(7) truncate_fields using ok(2,4,6,8-12) by (blast, blast, blast, blast, blast, blast, blast, blast) (simp add: ok(7))
  have "\<forall>i j a b. i < j \<and> j < length (cf_authFiles cfg) \<and> sy_stat sys (cf_authFiles cfg ! i) = Inr a \<and>
       sy_stat sys (cf_authFiles cfg ! j) = Inr b \<longrightarrow> a \<noteq> b"
    unfolding files using credential_files_ok(4) [OF 1(4)] by blast
  then show ?thesis
    using ranges credential_files_ok(1-3) [OF 1(4)] load_secrets_ok(1) [OF 1(5)] unfolding files by blast
qed

text \<open>A configuration that loads is safe to serve: durations and limits are in range, the cache
  retention is one of three values and an image model is set; there is at least one credential file,
  the first is the default one, and no two of them are the same path or the same file; and when a
  file for the client key is configured the key is not blank, so the broker is never open by mistake.\<close>

theorem loaded_config_safe:
  assumes "loadConfig version sys args = Inr cfg"
  shows "0 \<le> cf_refreshSkew cfg \<and> 0 \<le> cf_timeout cfg \<and> 0 \<le> cf_shutdownTimeout cfg \<and>
    0 \<le> cf_requestLogLimit cfg \<and> 0 \<le> cf_requestLogMaxBytes cfg \<and> 0 \<le> cf_maxConcurrent cfg \<and>
    TrimSpace (cf_promptCacheRetention cfg) \<in> {[], ''in_memory'', ''24h''} \<and>
    cf_imageResponsesModel cfg \<noteq> [] \<and> TrimSpace (cf_imageResponsesModel cfg) = cf_imageResponsesModel cfg \<and>
    cf_authFiles cfg \<noteq> [] \<and> cf_authFile cfg = hd (cf_authFiles cfg) \<and> distinct (cf_authFiles cfg) \<and>
    (\<forall>i j a b. i < j \<and> j < length (cf_authFiles cfg) \<and> sy_stat sys (cf_authFiles cfg ! i) = Inr a \<and>
       sy_stat sys (cf_authFiles cfg ! j) = Inr b \<longrightarrow> a \<noteq> b) \<and>
    (TrimSpace (cf_apiKeyFile cfg) \<noteq> [] \<longrightarrow> TrimSpace (cf_apiKey cfg) \<noteq> [])"
  by (rule config_safe [OF assms])

text \<open>The command line reads back as it was written: options with one dash or two, with the value after an
  equals sign or as the next argument, in any order and any number, assign their values from left to
  right and leave no argument over; the first value that its option does not accept is the error.\<close>

theorem flag_arguments_roundtrip:
  assumes "list_all known_flag opts"
  shows "parse_flags (concat (map flag_args opts)) [] c =
    bind_ok (set_flag_args opts c) (\<lambda>c'. Inr (rev (map fa_name opts), c', []))"
  using parse_flag_args [OF assms, of "[]" c] by simp


section \<open>Witnesses\<close>

definition witness_file :: file_state where
  "witness_file =
     \<lparr>f_openable = False, f_statable = False, f_regular = False, f_perm = 0, f_readable = False, f_content = [],
      f_mtime = 0, f_size = 0\<rparr>"

definition witness_system :: system where
  "witness_system =
     \<lparr>sy_env = \<lambda>_. None, sy_home = Inr ''/h'', sy_cwd = Inr ''/'', sy_eval = \<lambda>_. Inl (True, []), sy_stat = \<lambda>_. Inl (True, []),
      sy_windows = False, sy_files = \<lambda>_. witness_file\<rparr>"

lemma witness_env: "Getenv witness_system key = []" "envOr witness_system key fallback = fallback"
  by (simp_all add: Getenv_def envOr_def witness_system_def)

lemma witness_env_config: "env_config version witness_system = Inr (default_config version witness_system)"
proof -
  have "sy_env witness_system ''CODEX_AUTH_BROKER_REQUEST_LOG_FILE'' = None" by (simp add: witness_system_def)
  then show ?thesis by (simp add: env_config_def Let_def env_parsed_def witness_env)
qed

lemma witness_auth_path:
  "canonicalAuthPath witness_system (defaultAuthFile witness_system) = Inr ''/h/.codex/auth.json''"
  by code_simp

lemma default_flags_check:
  assumes "fv_skew c = Duration_String (minutes 10)" "fv_timeout c = Duration_String (minutes 10)"
    "fv_shutdown c = Duration_String (seconds 30)" "cf_imageResponsesModel c = imageResponsesModel"
    "cf_promptCacheRetention c = []" "cf_requestLogMaxBytes c = defaultRequestLogMaxBytes"
    "0 \<le> cf_requestLogLimit c" "0 \<le> cf_maxConcurrent c"
  shows "\<exists>c'. check_settings c = Inr c'"
proof -
  have "TrimSpace imageResponsesModel \<noteq> []" by code_simp
  then show ?thesis
    using assms Duration_roundtrip [of "minutes 10"] Duration_roundtrip [of "seconds 30"]
    by (simp add: check_settings_def parsed_duration_def check_ranges_def defaultRequestLogMaxBytes_def Let_def)
qed

definition listen_flag :: flag_arg where
  "listen_flag = FlagArg True True ''listen'' '':9''"

lemma listen_flag_known: "list_all known_flag [listen_flag]"
  by (simp add: known_flag_def listen_flag_def flag_table_def string_flags_def)

lemma listen_flag_set: "set_flag_args [listen_flag] c = Inr (c\<lparr>cf_listen := '':9''\<rparr>)"
  by (simp add: set_flag_arg_def listen_flag_def flag_table_def string_flags_def)

lemma listen_flag_parsed:
  "parse_flags (concat (map flag_args [listen_flag])) [] c = Inr ([''listen''], c\<lparr>cf_listen := '':9''\<rparr>, [])"
  unfolding parse_flag_args [OF listen_flag_known] listen_flag_set by (simp add: listen_flag_def)

lemma witness_config:
  "\<exists>cfg. loadConfig ''dev'' witness_system (concat (map flag_args [listen_flag])) = Inr cfg \<and> cf_keysFile cfg = []"
proof -
  let ?base = "default_config ''dev'' witness_system"
  let ?c = "(flag_defaults witness_system ?base)\<lparr>cf_listen := '':9''\<rparr>"
  have parsed: "parse_flags (concat (map flag_args [listen_flag])) [] (flag_defaults witness_system ?base) = Inr ([''listen''], ?c, [])"
    by (rule listen_flag_parsed)
  have keys: "explicit_keys [''listen''] ?c = Inr ?c" by (simp add: explicit_keys_def)
  have split: "splitCSV [] = []" by code_simp
  have "stat_file witness_system ''/h/.codex/auth.json'' = Inr None" by (simp add: stat_file_def witness_system_def)
  then have files: "credential_files witness_system ?c =
      Inr (?c\<lparr>cf_authFiles := [''/h/.codex/auth.json''], cf_authFile := ''/h/.codex/auth.json''\<rparr>)"
    using witness_auth_path split
    by (simp add: credential_files_def flag_defaults_def default_config_def witness_env)
  let ?filed = "?c\<lparr>cf_authFiles := [''/h/.codex/auth.json''], cf_authFile := ''/h/.codex/auth.json''\<rparr>"
  have secrets: "load_secrets witness_system ?filed = Inr (?filed\<lparr>cf_keysFile := [], cf_models := []\<rparr>)"
    using split by (simp add: load_secrets_def expandPath_def flag_defaults_def default_config_def witness_env)
  have "\<exists>c4. check_settings (?filed\<lparr>cf_keysFile := [], cf_models := []\<rparr>) = Inr c4"
    by (rule default_flags_check) (simp_all add: flag_defaults_def default_config_def witness_env defaultShutdownTimeout_def)
  then obtain c4 where c4: "check_settings (?filed\<lparr>cf_keysFile := [], cf_models := []\<rparr>) = Inr c4" ..
  have "cf_keysFile (settings.truncate c4) = []" using check_settings_ok(13) [OF c4] by (auto simp: settings.truncate_def)
  moreover from c4 have "loadConfig ''dev'' witness_system (concat (map flag_args [listen_flag])) = Inr (settings.truncate c4)"
    unfolding loadConfig_def witness_env_config bind_ok_simps parsed
    by (simp only: sum.case prod.case bind_ok_simps keys files secrets if_False not_True_eq_False refl simp_thms)
  ultimately show ?thesis by blast
qed

theorem loaded_config_safe_witness:
  "\<exists>cfg. loadConfig ''dev'' witness_system (concat (map flag_args [listen_flag])) = Inr cfg \<and> cf_authFiles cfg \<noteq> []"
proof -
  obtain cfg where c: "loadConfig ''dev'' witness_system (concat (map flag_args [listen_flag])) = Inr cfg"
    using witness_config by blast
  show ?thesis using loaded_config_safe [OF c] c by blast
qed

theorem flag_arguments_roundtrip_witness:
  "parse_flags (concat (map flag_args [listen_flag])) [] c = Inr ([''listen''], c\<lparr>cf_listen := '':9''\<rparr>, [])"
  unfolding flag_arguments_roundtrip [OF listen_flag_known] listen_flag_set by (simp add: listen_flag_def)


end
