(* ===== verification/Restart.thy ===== *)
theory Restart
  imports RequestStore
begin

text \<open>
  The request history across restarts: how \<open>runServe\<close> (\<^verbatim>\<open>src/main.go\<close>) fills the store from the history
  file, and what a restart gives back of what the broker recorded before it. Opening, scanning, the
  ring and appending are those of \<^verbatim>\<open>Persist\<close> and \<^verbatim>\<open>RequestStore\<close>.
\<close>

section \<open>Definitions\<close>

text \<open>What the disk answers at startup: the error of creating, opening or securing the file, its bytes, the
  operations on the open file, and the error of reading it.\<close>

record boot_io =
  bo_open :: "persist_error option"
  bo_bytes :: string
  bo_disk :: disk
  bo_load :: "persist_error option"

text \<open>\<open>path\<close> is \<open>cfg.requestLogFile\<close>.\<close>

definition open_history ::
    "codec \<Rightarrow> boot_io \<Rightarrow> string \<Rightarrow> int \<Rightarrow> int \<Rightarrow> pricing_table \<Rightarrow> persist_error + requestLogStore" where
  "open_history co io path limit maxBytes pricing =
     (let requests = (newRequestLogStore limit)\<lparr>st_pricing := Some pricing\<rparr>
      in if TrimSpace path \<noteq> [] \<and> limit > 0
         then (case bo_open io of
                 Some err \<Rightarrow> Inl err
               | None \<Rightarrow>
                   (case openRequestLogFileWithLimit co (bo_disk io) (bo_bytes io) (nat maxBytes) of
                      Inl err \<Rightarrow> Inl err
                    | Inr persist \<Rightarrow>
                        (case bo_load io of
                           Some err \<Rightarrow> Inl err
                         | None \<Rightarrow>
                             (let (restored, maxID) = loadEntries co (nat limit) persist
                              in Inr ((store_restore (co_lib co) restored maxID requests)\<lparr>st_persist := Some persist\<rparr>)))))
         else Inr requests)"

text \<open>The entry that \<open>add\<close> hands to the file.\<close>

definition numbered :: "codec \<Rightarrow> requestLogEntry \<Rightarrow> requestLogStore \<Rightarrow> requestLogEntry" where
  "numbered co e s =
     (priceEntry (st_pricing s) (sanitizeRequestLogEntry (co_lib co) e))\<lparr>e_ID := wrap64 (st_nextID s + 1)\<rparr>"

text \<open>Requests recorded one after the other, each of which the file accepts.\<close>

fun record_all :: "codec \<Rightarrow> (disk \<times> requestLogEntry) list \<Rightarrow> requestLogStore \<Rightarrow> requestLogStore option" where
  "record_all co [] s = Some s"
| "record_all co ((d, e) # es) s =
     (case st_persist s of
        None \<Rightarrow> None
      | Some f \<Rightarrow>
          (if fst (persist_append co d (numbered co e s) f) = None \<and> st_nextID s < 2 ^ 63 - 1
           then record_all co es (store_add co d e s) else None))"

section \<open>One record\<close>

abbreviation cleaned :: "codec \<Rightarrow> requestLogEntry \<Rightarrow> requestLogEntry" where
  "cleaned co \<equiv> sanitizeRequestLogEntry (co_lib co)"

lemma append_unlimited:
  assumes "codec_ok co" "fst (persist_append co d entry f) = None" "lf_maxBytes f = 0"
  shows "scan_bytes co (lf_bytes (snd (persist_append co d entry f))) = scan_bytes co (lf_bytes f) @ [cleaned co (cleaned co entry)]"
    "lf_maxBytes (snd (persist_append co d entry f)) = 0"
proof -
  obtain f' where f': "append_body co d entry f = (None, f')" "snd (persist_append co d entry f) = f'"
    using assms(2) by (auto simp: persist_append_def split: prod.splits option.splits)
  then obtain enc b f1 where enc: "co_encode co (cleaned co entry) = Some enc" and rep: "repairTail co d f = (Inr b, f1)"
    and w: "append_write co d (enc @ [nl]) b f1 = (None, f')"
    using assms(3) by (auto simp: append_body_def Let_def split: if_splits option.splits prod.splits sum.splits)
  note rs = repairTail_scan [OF assms(1) rep]
  have bytes: "f' = f1\<lparr>lf_bytes := lf_bytes f1 @ (if b then [nl] else []) @ enc @ [nl]\<rparr>"
    using w rs(5) assms(3) by (auto simp: append_write_def Let_def split: if_splits option.splits)
  have "scan_bytes co (lf_bytes f') = scan_bytes co ((lf_bytes f1 @ (if b then [nl] else [])) @ entry_line co (cleaned co entry))"
    using bytes enc by (simp add: entry_line_def)
  also have "\<dots> = scan_bytes co (lf_bytes f) @ [cleaned co (cleaned co entry)]"
    using scan_whole [OF rs(3) [OF refl], of co "entry_line co (cleaned co entry)"] rs(2) [OF refl]
      scan_entry_line(1) [OF assms(1), of "cleaned co entry"] enc by simp
  finally show "scan_bytes co (lf_bytes (snd (persist_append co d entry f))) = scan_bytes co (lf_bytes f) @ [cleaned co (cleaned co entry)]"
    using f'(2) by simp
  show "lf_maxBytes (snd (persist_append co d entry f)) = 0" using f'(2) bytes rs(5) assms(3) by simp
qed

section \<open>The store and its file\<close>

text \<open>What an entry of the file becomes when it is loaded, and how an entry in memory relates to the entry
  the file has for it: it was loaded from it, or written to it.\<close>

definition loaded :: "codec \<Rightarrow> pricing_table \<Rightarrow> requestLogEntry \<Rightarrow> requestLogEntry" where
  "loaded co pricing e = priceEntry (Some pricing) (cleaned co e)"

definition on_file :: "codec \<Rightarrow> pricing_table \<Rightarrow> requestLogEntry \<Rightarrow> requestLogEntry \<Rightarrow> bool" where
  "on_file co pricing m x \<longleftrightarrow> m = loaded co pricing x \<or> x = cleaned co (cleaned co m)"

lemma on_file_ID: "on_file co pricing m x \<Longrightarrow> e_ID m = e_ID x"
  by (auto simp: on_file_def loaded_def)

definition recorded :: "codec \<Rightarrow> nat \<Rightarrow> pricing_table \<Rightarrow> requestLogStore \<Rightarrow> bool" where
  "recorded co limit pricing s \<longleftrightarrow>
     st_limit s = limit \<and> st_pricing s = Some pricing \<and>
     (\<exists>f. st_persist s = Some f \<and> lf_maxBytes f = 0 \<and>
        list_all2 (on_file co pricing) (st_entries s) (lastn limit (scan_bytes co (lf_bytes f))) \<and>
        st_nextID s = foldl max 0 (map e_ID (scan_bytes co (lf_bytes f))))"

lemma list_all2_lastn: "list_all2 P xs ys \<Longrightarrow> list_all2 P (lastn n xs) (lastn n ys)"
  unfolding lastn_def by (metis list_all2_dropI list_all2_lengthD)

lemma foldl_max_le: "(a :: int) \<le> foldl max a xs"
  by (induction xs arbitrary: a) (auto intro: order_trans [OF max.cobounded1])

lemma recorded_add:
  assumes ok: "codec_ok co" and rec: "recorded co limit pricing s" and f: "st_persist s = Some f"
    and app: "fst (persist_append co d (numbered co e s) f) = None" and id: "st_nextID s < 2 ^ 63 - 1" and "0 < limit"
  shows "recorded co limit pricing (store_add co d e s)"
proof -
  have r: "st_limit s = limit" "st_pricing s = Some pricing" "lf_maxBytes f = 0"
    "list_all2 (on_file co pricing) (st_entries s) (lastn limit (scan_bytes co (lf_bytes f)))"
    "st_nextID s = foldl max 0 (map e_ID (scan_bytes co (lf_bytes f)))"
    using rec f by (auto simp: recorded_def)
  let ?e = "numbered co e s"
  let ?f = "snd (persist_append co d ?e f)"
  have "0 \<le> st_nextID s" unfolding r(5) by (rule foldl_max_le)
  then have next_id: "wrap64 (st_nextID s + 1) = st_nextID s + 1" using id by (intro wrap64_id) auto
  note scan = append_unlimited [OF ok app r(3)]
  have store: "st_entries (store_add co d e s) = lastn limit (st_entries s @ [?e])" "st_nextID (store_add co d e s) = st_nextID s + 1"
    "st_persist (store_add co d e s) = Some ?f"
    using assms(6) r(1) f next_id
    by (simp_all add: store_add_entries numbered_def store_add_fields) (simp add: store_add_def Let_def numbered_def)
  have new: "on_file co pricing ?e (cleaned co (cleaned co ?e))" by (simp add: on_file_def)
  have "list_all2 (on_file co pricing) (lastn limit (st_entries s @ [?e]))
      (lastn limit (lastn limit (scan_bytes co (lf_bytes f)) @ [cleaned co (cleaned co ?e)]))"
    using r(4) new by (intro list_all2_lastn list_all2_appendI) simp_all
  then have entries: "list_all2 (on_file co pricing) (st_entries (store_add co d e s)) (lastn limit (scan_bytes co (lf_bytes ?f)))"
    unfolding store scan lastn_append_lastn .
  have "e_ID ?e = st_nextID s + 1" by (simp add: numbered_def next_id)
  then have "st_nextID s + 1 = foldl max 0 (map e_ID (scan_bytes co (lf_bytes ?f)))"
    unfolding scan using r(5) by simp
  then show ?thesis using entries store scan(2) r(1,2) by (simp add: recorded_def store_add_fields)
qed

lemma record_all_recorded:
  assumes "codec_ok co" "0 < limit" "record_all co es s = Some t" "recorded co limit pricing s"
  shows "recorded co limit pricing t"
  using assms(3,4)
proof (induction es arbitrary: s)
  case (Cons x es)
  obtain d e where x: "x = (d, e)" by (cases x)
  obtain f where f: "st_persist s = Some f" "fst (persist_append co d (numbered co e s) f) = None"
    "st_nextID s < 2 ^ 63 - 1" "record_all co es (store_add co d e s) = Some t"
    using Cons.prems(1) by (auto simp: x split: option.splits if_splits)
  show ?case by (rule Cons.IH [OF f(4) recorded_add [OF assms(1) Cons.prems(2) f(1-3) assms(2)]])
qed simp

subsection \<open>Opening\<close>

lemma open_history_shape:
  assumes "open_history co io path limit 0 pricing = Inr s" "TrimSpace path \<noteq> []" "0 < limit"
  shows "recorded co (nat limit) pricing s"
    "st_entries s = map (loaded co pricing) (lastn (nat limit) (scan_bytes co (bo_bytes io)))"
    "st_nextID s = foldl max 0 (map e_ID (scan_bytes co (bo_bytes io)))"
proof -
  let ?f = "\<lparr>lf_open = True, lf_bytes = bo_bytes io, lf_maxBytes = 0, lf_lastError = []\<rparr>"
  let ?scan = "scan_bytes co (bo_bytes io)"
  let ?requests = "(newRequestLogStore limit)\<lparr>st_pricing := Some pricing\<rparr>"
  obtain entries maxID where l: "loadEntries co (nat limit) ?f = (entries, maxID)" by fastforce
  have s: "s = (store_restore (co_lib co) entries maxID ?requests)\<lparr>st_persist := Some ?f\<rparr>"
    using assms l by (auto simp: open_history_def openRequestLogFileWithLimit_def Let_def split: option.splits if_splits)
  have load: "entries = lastn (nat limit) ?scan" "maxID = foldl max 0 (map e_ID ?scan)"
    using l assms(3) by (simp_all add: loadEntries_def collect_lastn requestLogTailReader_def)
  have "0 \<le> maxID" unfolding load by (rule foldl_max_le)
  have empty: "?scan = []" if "entries = []" using that load(1) assms(3) by (cases ?scan) (auto simp: lastn_def)
  have fits: "length entries \<le> nat limit" unfolding load by simp
  show entries: "st_entries s = map (loaded co pricing) (lastn (nat limit) ?scan)"
    unfolding s load(1) [symmetric] using assms(3) fits
    by (cases "entries = []") (simp_all add: store_restore_def newRequestLogStore_def loaded_def Let_def)
  show ids: "st_nextID s = foldl max 0 (map e_ID ?scan)"
    unfolding s using assms(3) load(2) empty \<open>0 \<le> maxID\<close>
    by (cases "entries = []") (simp_all add: store_restore_def newRequestLogStore_def Let_def)
  have "list_all2 (on_file co pricing) (map (loaded co pricing) xs) xs" for xs
    by (induction xs) (simp_all add: on_file_def)
  moreover have "st_limit s = nat limit" "st_pricing s = Some pricing" "st_persist s = Some ?f"
    unfolding s using assms(3) by (auto simp: store_restore_def newRequestLogStore_def Let_def)
  ultimately show "recorded co (nat limit) pricing s" unfolding recorded_def using entries ids by simp
qed

section \<open>Properties\<close>


definition restart_entry :: requestLogEntry where
  "restart_entry =
     sanitizeRequestLogEntry witness_lib ((priceEntry (Some []) (sanitizeRequestLogEntry witness_lib empty_entry))\<lparr>e_ID := 1\<rparr>)"

definition restart_codec :: codec where
  "restart_codec =
     \<lparr>co_lib = witness_lib, co_encode = \<lambda>e. if e = restart_entry then Some ''{}'' else None,
      co_decode = \<lambda>l. if rev (dropWhile (\<lambda>c. c = cr) (rev l)) = ''{}'' then Some restart_entry else None\<rparr>"

lemma restart_codec_ok: "codec_ok restart_codec"
  by (auto simp: codec_ok_def restart_codec_def suffix_def maxEntryBytes_def)

definition boot_witness :: boot_io where
  "boot_witness = \<lparr>bo_open = None, bo_bytes = [], bo_disk = good_disk, bo_load = None\<rparr>"


end
