(* ===== verification/Startup.thy ===== *)
theory Startup
  imports Config Restart Auth Endpoints Dashboard
begin

text \<open>
  The commands of \<^verbatim>\<open>src/main.go\<close>: \<open>runServe\<close> up to the running server, the routing table of
  \<open>newServerMux\<close> with the rules of Go's \<open>http.ServeMux\<close>, and the doctor (\<open>runDoctor\<close>, \<^verbatim>\<open>src/doctor.go\<close>).
\<close>

section \<open>Definitions\<close>

subsection \<open>Serving\<close>

record startup_io =
  su_system :: system
  su_pricing :: "string \<Rightarrow> (string \<times> modelPricingOverride) list option"
  su_codec :: codec
  su_boot :: boot_io
  su_keys :: "string \<Rightarrow> clientKey list option"
  su_now :: gotime
  su_listen :: "string \<Rightarrow> string option"

datatype startup_error =
  BadConfig config_error | BadPricing pricing_error | BadHistory persist_error | BadKeys registry_error | CannotListen string

record broker =
  bk_cfg :: settings
  bk_pool :: accountPool
  bk_requests :: requestLogStore
  bk_limiter :: "concurrencyLimiter option"
  bk_keys :: keyRegistry

text \<open>The first error of a step becomes an error of startup.\<close>

definition step_ok :: "('e \<Rightarrow> startup_error) \<Rightarrow> 'e + 'a \<Rightarrow> startup_error + 'a" where
  "step_ok wrap m = (case m of Inl e \<Rightarrow> Inl (wrap e) | Inr x \<Rightarrow> Inr x)"

definition runServe :: "string \<Rightarrow> startup_io \<Rightarrow> string list \<Rightarrow> startup_error + broker" where
  "runServe version io args =
     bind_ok (step_ok BadConfig (loadConfig version (su_system io) args)) (\<lambda>cfg.
     let pool = newAccountPool (cf_authFiles cfg)
     in bind_ok (step_ok BadPricing (loadModelPricing (su_pricing io) (Getenv (su_system io) ''CODEX_AUTH_BROKER_PRICING''))) (\<lambda>pricing.
     bind_ok (step_ok BadHistory (open_history (su_codec io) (su_boot io) (cf_requestLogFile cfg) (cf_requestLogLimit cfg)
                (cf_requestLogMaxBytes cfg) pricing)) (\<lambda>requests.
     bind_ok (step_ok BadKeys (newKeyRegistry (sy_windows (su_system io)) (su_keys io) (sy_files (su_system io)) (cf_apiKey cfg)
                (cf_keysFile cfg) (su_now io))) (\<lambda>keys.
     (case su_listen io (cf_listen cfg) of
        Some err \<Rightarrow> Inl (CannotListen err)
      | None \<Rightarrow>
          Inr \<lparr>bk_cfg = cfg, bk_pool = pool, bk_requests = requests,
               bk_limiter = newConcurrencyLimiter (cf_maxConcurrent cfg) defaultQueueWait, bk_keys = keys\<rparr>)))))"

datatype command = Serve | Doctor | Version | Unknown string

definition main_command :: "string list \<Rightarrow> command \<times> string list" where
  "main_command args =
     (let (cmd, rest) = (case args of
            a # as \<Rightarrow> if \<not> HasPrefix a ''-'' then (a, as) else (''serve'', args)
          | [] \<Rightarrow> (''serve'', args))
      in (if cmd = ''serve'' then Serve else if cmd = ''doctor'' then Doctor
          else if cmd = ''version'' then Version else Unknown cmd, rest))"

text \<open>What \<open>main\<close> itself prints on standard output and its exit code: \<open>run_serve\<close> and \<open>run_doctor\<close> are the runs, with
  their error, if any; asking for help is none.\<close>

definition fatal :: "('e \<Rightarrow> bool) \<Rightarrow> 'e option \<Rightarrow> nat" where
  "fatal is_help result = (case result of None \<Rightarrow> 0 | Some err \<Rightarrow> if is_help err then 0 else 1)"

definition version_text :: "string \<Rightarrow> string \<Rightarrow> string \<Rightarrow> string" where
  "version_text version commit date =
     ''codex-auth-broker '' @ valueOr version ''dev'' @ '' commit='' @ valueOr commit ''unknown'' @
     '' date='' @ valueOr date ''unknown'' @ [CHR 0x0A]"

definition main_program ::
    "string \<Rightarrow> string \<Rightarrow> string \<Rightarrow> ('e \<Rightarrow> bool) \<Rightarrow> (string list \<Rightarrow> 'e option) \<Rightarrow> (string list \<Rightarrow> 'e option) \<Rightarrow> string list \<Rightarrow>
     string \<times> nat" where
  "main_program version commit date is_help run_serve run_doctor args =
     (case main_command args of
        (Serve, rest) \<Rightarrow> ([], fatal is_help (run_serve rest))
      | (Doctor, rest) \<Rightarrow> ([], fatal is_help (run_doctor rest))
      | (Version, rest) \<Rightarrow> (version_text version commit date, 0)
      | (Unknown cmd, rest) \<Rightarrow> ([], 2))"

subsection \<open>Routes\<close>

datatype handler =
    DashboardPage | VoicePage | DashboardLogout | DashboardRequests | DashboardCosts | UsageByUser | CodexUsage | Health
  | Models | UsageSummary | ResponsesWebSocket | ResponsesPost | CompactPost | CapabilitiesList | LiveCall | LiveWebSocket
  | Unsupported | ImageGenerations | ImageEdits | ChatCompletionsPost | AlphaSearchPost

record route =
  ro_method :: string
  ro_path :: string
  ro_authenticated :: bool
  ro_handler :: handler

definition open_route :: "string \<Rightarrow> string \<Rightarrow> handler \<Rightarrow> route" where
  "open_route m p h = \<lparr>ro_method = m, ro_path = p, ro_authenticated = False, ro_handler = h\<rparr>"

text \<open>\<open>withClientAuthentication\<close>\<close>

definition client_route :: "string \<Rightarrow> string \<Rightarrow> handler \<Rightarrow> route" where
  "client_route m p h = \<lparr>ro_method = m, ro_path = p, ro_authenticated = True, ro_handler = h\<rparr>"

definition newServerMux :: "route list" where
  "newServerMux =
     [open_route ''GET'' ''/'' DashboardPage,
      open_route ''GET'' ''/dashboard'' DashboardPage,
      open_route ''GET'' ''/voice'' VoicePage,
      open_route ''POST'' ''/dashboard/api/logout'' DashboardLogout,
      open_route ''GET'' ''/dashboard/api/requests'' DashboardRequests,
      open_route ''DELETE'' ''/dashboard/api/requests'' DashboardRequests,
      open_route ''GET'' ''/dashboard/api/costs'' DashboardCosts,
      open_route ''GET'' ''/dashboard/api/usage/by-user'' UsageByUser,
      open_route ''GET'' ''/dashboard/api/usage'' CodexUsage,
      open_route ''GET'' ''/usage'' CodexUsage,
      open_route ''GET'' ''/healthz'' Health,
      client_route ''GET'' ''/v1/models'' Models,
      client_route ''GET'' ''/v1/usage'' UsageSummary,
      client_route ''GET'' ''/v1/responses'' ResponsesWebSocket,
      client_route ''POST'' ''/v1/responses'' ResponsesPost,
      client_route ''POST'' ''/v1/responses/compact'' CompactPost,
      client_route ''GET'' ''/v1/capabilities'' CapabilitiesList,
      client_route ''POST'' ''/v1/realtime/calls'' LiveCall,
      client_route ''POST'' ''/v1/live'' LiveCall,
      client_route ''GET'' ''/v1/live/{call_id}'' LiveWebSocket,
      client_route ''GET'' ''/v1/realtime'' LiveWebSocket,
      client_route ''POST'' ''/v1/realtime/calls/{call_id}/hangup'' Unsupported] @
     map (\<lambda>path. client_route ''POST'' path Unsupported)
       [''/v1/embeddings'', ''/v1/audio/transcriptions'', ''/v1/audio/translations'', ''/v1/audio/speech'',
        ''/v1/realtime/client_secrets'', ''/v1/realtime/sessions''] @
     [client_route ''POST'' ''/v1/images/generations'' ImageGenerations,
      client_route ''POST'' ''/v1/images/edits'' ImageEdits,
      client_route ''GET'' ''/v1/codex/responses'' ResponsesWebSocket,
      client_route ''POST'' ''/v1/codex/responses'' ResponsesPost,
      client_route ''POST'' ''/v1/chat/completions'' ChatCompletionsPost,
      client_route ''POST'' ''/v1/alpha/search'' AlphaSearchPost]"

text \<open>The patterns of \<open>http.ServeMux\<close> that the table uses: \<open>/\<close> matches every path, a segment in braces
  one segment, everything else itself. \<open>GET\<close> also matches \<open>HEAD\<close>. The more specific pattern wins;
  \<open>rank\<close> orders the patterns that can match one path.\<close>

fun segments_match :: "string list \<Rightarrow> string list \<Rightarrow> bool" where
  "segments_match [] [] \<longleftrightarrow> True"
| "segments_match (p # ps) (s # ss) \<longleftrightarrow> (if p = ''{call_id}'' then s \<noteq> [] else p = s) \<and> segments_match ps ss"
| "segments_match _ _ \<longleftrightarrow> False"

definition path_matches :: "string \<Rightarrow> string \<Rightarrow> bool" where
  "path_matches pattern path \<longleftrightarrow> pattern = ''/'' \<or> segments_match (Split CHR ''/'' pattern) (Split CHR ''/'' path)"

definition method_matches :: "string \<Rightarrow> string \<Rightarrow> bool" where
  "method_matches m verb \<longleftrightarrow> m = verb \<or> (m = ''GET'' \<and> verb = ''HEAD'')"

definition pattern_rank :: "string \<Rightarrow> nat" where
  "pattern_rank pattern = (if pattern = ''/'' then 2 else if ''{call_id}'' \<in> set (Split CHR ''/'' pattern) then 1 else 0)"

text \<open>\<open>cleanPath\<close>: the path that is routed; a request for another one is redirected to it.\<close>

definition cleanPath :: "string \<Rightarrow> string" where
  "cleanPath p =
     (if p = [] then ''/''
      else (let p1 = (if hd p = CHR ''/'' then p else CHR ''/'' # p); np = Clean p1
            in if last p1 = CHR ''/'' \<and> np \<noteq> ''/'' then np @ ''/'' else np))"

datatype routed = Routed route | MovedTo string | MethodNotAllowed | NoRoute

fun best_route :: "route list \<Rightarrow> route option" where
  "best_route [] = None"
| "best_route (r # rs) =
     (case best_route rs of
        None \<Rightarrow> Some r
      | Some b \<Rightarrow> (if pattern_rank (ro_path r) \<le> pattern_rank (ro_path b) then Some r else Some b))"

definition serve_mux :: "string \<Rightarrow> string \<Rightarrow> routed" where
  "serve_mux verb path =
     (if verb \<noteq> ''CONNECT'' \<and> cleanPath path \<noteq> path then MovedTo (cleanPath path)
      else (let matching = filter (\<lambda>r. path_matches (ro_path r) path) newServerMux
            in (case best_route (filter (\<lambda>r. method_matches (ro_method r) verb) matching) of
                  Some r \<Rightarrow> Routed r
                | None \<Rightarrow> (if matching \<noteq> [] then MethodNotAllowed else NoRoute))))"

subsection \<open>Static pages\<close>

definition voice_header :: header where
  "voice_header =
     fold (\<lambda>(k, v) w. Header_Set w k v)
       [(''Content-Type'', ''text/html; charset=utf-8''), (''Cache-Control'', ''no-store''),
        (''X-Content-Type-Options'', ''nosniff''), (''Referrer-Policy'', ''no-referrer''),
        (''Content-Security-Policy'', ''default-src '' @ [CHR 0x27] @ ''none'' @ [CHR 0x27] @ ''; script-src '' @ [CHR 0x27] @ ''unsafe-inline'' @ [CHR 0x27] @
           ''; style-src '' @ [CHR 0x27] @ ''unsafe-inline'' @ [CHR 0x27] @ ''; connect-src '' @ [CHR 0x27] @ ''self'' @ [CHR 0x27] @
           ''; media-src blob:; base-uri '' @ [CHR 0x27] @ ''none'' @ [CHR 0x27] @ ''; frame-ancestors '' @ [CHR 0x27] @ ''none'' @ [CHR 0x27] @
           ''; form-action '' @ [CHR 0x27] @ ''none'' @ [CHR 0x27]),
        (''Permissions-Policy'', ''microphone=(self), camera=()'')] []"

text \<open>\<open>page\<close> is the embedded \<open>voice.html\<close>.\<close>

definition handleVoice :: "string \<Rightarrow> nat \<times> header \<times> string" where
  "handleVoice page = (200, voice_header, page)"

subsection \<open>Capabilities\<close>

definition capability :: "string \<Rightarrow> string \<Rightarrow> (string \<times> json) list \<Rightarrow> json" where
  "capability ident status rest = JObj ([(''id'', JStr ident), (''status'', JStr status)] @ rest)"

definition capability_list :: "string \<Rightarrow> json list" where
  "capability_list configuredImageModel =
     [capability ''responses'' ''supported''
        [(''endpoints'', JStrs [''POST /v1/responses'', ''GET /v1/responses'', ''POST /v1/chat/completions'']),
         (''models_endpoint'', JStr ''/v1/models'')],
      capability ''compaction'' ''experimental''
        [(''endpoints'', JStrs [''POST /v1/responses/compact'']),
         (''note'', JStr ''Native Codex route; availability depends on the upstream rollout.'')],
      capability ''images'' ''supported''
        [(''endpoints'', JStrs [''POST /v1/images/generations'', ''POST /v1/images/edits'']),
         (''default_model'', JStr ''gpt-image-2''), (''responses_model'', JStr (imageBackingModel configuredImageModel)),
         (''transport'', JStr ''responses_image_generation_tool'')],
      capability ''live'' ''experimental''
        [(''endpoints'', JStrs [''POST /v1/realtime/calls'', ''POST /v1/live'', ''GET /v1/live/{call_id}'', ''GET /v1/realtime?call_id=...'']),
         (''default_model'', JStr liveModel), (''transport'', JStr ''webrtc''), (''events'', JStr ''native_gpt_live''),
         (''standalone_websocket'', JBool False),
         (''note'', JStr ''Requires account access to Codex GPT-Live. GA call creation shape; native GPT-Live session fields and events.'')],
      capability ''search'' ''experimental'' [(''endpoints'', JStrs [''POST /v1/alpha/search''])],
      capability ''embeddings'' ''unavailable'' [(''reason'', JStr ''No verified Codex subscription endpoint.'')],
      capability ''audio_files'' ''unavailable''
        [(''reason'', JStr ''No verified subscription endpoint for file transcription, translation, or speech synthesis.'')]]"

definition handleCapabilities :: "http_io \<Rightarrow> string \<Rightarrow> answer" where
  "handleCapabilities io configuredImageModel =
     (if \<not> authorized io then writeProxyError 401 [] ''unauthorized''
      else json_answer 200 []
        (JObj [(''object'', JStr ''broker.capabilities''), (''authentication'', JStr ''broker_bearer_key''),
               (''entitlement_checked'', JBool False), (''capabilities'', JArr (capability_list configuredImageModel))]))"

definition handleUnsupportedCapability :: "http_io \<Rightarrow> answer" where
  "handleUnsupportedCapability io =
     (if \<not> authorized io then writeProxyError 401 [] ''unauthorized''
      else json_answer 501 []
        (JObj [(''error'', JObj
           [(''type'', JStr ''invalid_request_error''), (''code'', JStr ''unsupported_endpoint''), (''param'', JNull),
            (''message'', JStr ''This endpoint has no verified Codex subscription route. See GET /v1/capabilities; GPT-Live uses POST /v1/realtime/calls with a broker key.'')])]))"

subsection \<open>The doctor\<close>

record doctor_io =
  dr_system :: system
  dr_auth :: auth_lib
  dr_calls :: "nat \<Rightarrow> auth_io"
  dr_contents :: "string \<Rightarrow> string option"
  dr_perm :: "string \<Rightarrow> nat option"
  dr_mode :: "nat \<Rightarrow> string"
  dr_format :: "gotime \<Rightarrow> string"

text \<open>\<open>dr_perm\<close> is the permission of a file that \<open>os.Stat\<close> finds.\<close>

definition authFilePermissionWarning :: "doctor_io \<Rightarrow> string \<Rightarrow> string" where
  "authFilePermissionWarning io path =
     (case dr_perm io path of
        None \<Rightarrow> []
      | Some mode \<Rightarrow>
          (if mode AND 63 \<noteq> 0
           then ''auth file '' @ path @ '' is accessible by group or other users: mode '' @ dr_mode io mode else []))"

definition doctor_entry :: "doctor_io \<Rightarrow> string \<Rightarrow> string + authMaterial \<Rightarrow> obj" where
  "doctor_entry io path access =
     [(''auth_file'', JStr path), (''auth_file_warning'', JStr (authFilePermissionWarning io path))] @
     (case access of
        Inl err \<Rightarrow> [(''status'', JStr ''error''), (''error'', JStr err)]
      | Inr a \<Rightarrow>
          [(''status'', JStr ''ok''),
           (''account_id_present'', JBool (am_AccountID a \<noteq> [])),
           (''access_token_present'', JBool (am_AccessToken a \<noteq> [])),
           (''expires_at'', JStr (dr_format io (am_ExpiresAt a))),
           (''expires_in'', JInt64 (am_ExpiresIn a)),
           (''refreshed_during_doctor'', JBool (am_Refreshed a))])"

text \<open>The loop over the credential files: the result of \<open>current\<close> on each.\<close>

definition doctor_accounts :: "doctor_io \<Rightarrow> settings \<Rightarrow> (string + authMaterial) list" where
  "doctor_accounts io cfg =
     map (\<lambda>(k, path). fst (current (dr_auth io) (cf_refreshSkew cfg) (dr_calls io k) (dr_contents io path)))
       (enumerate 0 (cf_authFiles cfg))"

definition optionalFingerprint :: "golib \<Rightarrow> string \<Rightarrow> string" where
  "optionalFingerprint lib secret = (if secret = [] then [] else secretFingerprint lib secret)"

definition printDoctor :: "doctor_io \<Rightarrow> string \<Rightarrow> settings \<Rightarrow> string \<Rightarrow> obj list \<Rightarrow> obj" where
  "printDoctor io commit cfg overall entries =
     [(''status'', JStr overall),
      (''version'', JStr (cfg_version cfg)),
      (''commit'', JStr commit),
      (''listen'', JStr (cf_listen cfg)),
      (''accounts'', JArr (map JObj entries)),
      (''accounts_total'', JInt (int (length entries))),
      (''client_api_key_enabled'', JBool (cf_apiKey cfg \<noteq> [] \<or> cf_keysFile cfg \<noteq> [])),
      (''api_key_fingerprint'', JStr (optionalFingerprint (al_lib (dr_auth io)) (cf_apiKey cfg))),
      (''keys_file'', JStr (cf_keysFile cfg)),
      (''models'', if cf_models cfg = [] then JNull else JStrs (cf_models cfg))]"

definition doctor_report :: "doctor_io \<Rightarrow> string \<Rightarrow> settings \<Rightarrow> (string + authMaterial) list \<Rightarrow> obj" where
  "doctor_report io commit cfg results =
     printDoctor io commit cfg
       (if \<exists>r\<in>set results. \<exists>err. r = Inl err then ''degraded'' else ''ok'')
       (map (\<lambda>(path, r). doctor_entry io path r) (zip (cf_authFiles cfg) results))"

definition runDoctor :: "string \<Rightarrow> string \<Rightarrow> doctor_io \<Rightarrow> string list \<Rightarrow> config_error + obj" where
  "runDoctor version commit io args =
     bind_ok (loadConfig version (dr_system io) args) (\<lambda>cfg. Inr (doctor_report io commit cfg (doctor_accounts io cfg)))"

section \<open>Startup\<close>

lemma step_ok_Inr [ok_iff]: "step_ok wrap m = Inr y \<longleftrightarrow> m = Inr y"
  by (cases m) (simp_all add: step_ok_def)

lemma runServe_parts:
  assumes "runServe version io args = Inr b"
  obtains pricing where "loadConfig version (su_system io) args = Inr (bk_cfg b)"
    "bk_pool b = newAccountPool (cf_authFiles (bk_cfg b))"
    "open_history (su_codec io) (su_boot io) (cf_requestLogFile (bk_cfg b)) (cf_requestLogLimit (bk_cfg b))
       (cf_requestLogMaxBytes (bk_cfg b)) pricing = Inr (bk_requests b)"
    "newKeyRegistry (sy_windows (su_system io)) (su_keys io) (sy_files (su_system io)) (cf_apiKey (bk_cfg b))
       (cf_keysFile (bk_cfg b)) (su_now io) = Inr (bk_keys b)"
    "bk_limiter b = newConcurrencyLimiter (cf_maxConcurrent (bk_cfg b)) defaultQueueWait"
  using assms by (auto simp: runServe_def ok_iff Let_def split: option.splits)

lemma registry_enabled:
  assumes "newKeyRegistry windows decode fs apiKey keysFile now = Inr reg"
  shows "enabled reg \<longleftrightarrow> TrimSpace apiKey \<noteq> [] \<or> TrimSpace keysFile \<noteq> []"
  using assms
  by (auto simp: newKeyRegistry_def enabled_def implicitClientKey_def Let_def split: if_splits sum.splits prod.splits option.splits)

lemma open_history_bounded:
  assumes "open_history co io path limit maxBytes pricing = Inr s"
  shows "length (st_entries s) \<le> nat limit"
proof -
  have "length (st_entries (store_restore lib es maxID ((newRequestLogStore limit)\<lparr>st_pricing := p\<rparr>))) \<le> nat limit" for lib es maxID p
    by (auto simp: store_restore_def newRequestLogStore_def Let_def)
  moreover have "length (st_entries (newRequestLogStore limit)) \<le> nat limit" by (simp add: newRequestLogStore_def)
  ultimately show ?thesis
    using assms by (auto simp: open_history_def Let_def split: if_splits option.splits sum.splits prod.splits)
qed

text \<open>C12: A broker that starts is ready and secured: its pool has one account per credential file, in order, all
  available under distinct labels; the limiter admits the configured number of calls, or all of them
  when that is zero; the history fits its limit; and clients are authenticated exactly when a client
  key or a keys file is configured, always so when a file for the client key is.\<close>

theorem broker_starts_secured:
  assumes "runServe version io args = Inr b"
  shows "map mgr_authFile (accounts (bk_pool b)) = cf_authFiles (bk_cfg b) \<and> cf_authFiles (bk_cfg b) \<noteq> [] \<and>
    distinct (map label (accounts (bk_pool b))) \<and> list_all (\<lambda>a. cooldownUntil a = 0) (accounts (bk_pool b)) \<and>
    (case bk_limiter b of
       None \<Rightarrow> cf_maxConcurrent (bk_cfg b) = 0
     | Some l \<Rightarrow> int (slots_cap l) = cf_maxConcurrent (bk_cfg b) \<and> slots_len l = 0) \<and>
    length (st_entries (bk_requests b)) \<le> nat (cf_requestLogLimit (bk_cfg b)) \<and>
    (enabled (bk_keys b) \<longleftrightarrow> TrimSpace (cf_apiKey (bk_cfg b)) \<noteq> [] \<or> TrimSpace (cf_keysFile (bk_cfg b)) \<noteq> []) \<and>
    (TrimSpace (cf_apiKeyFile (bk_cfg b)) \<noteq> [] \<longrightarrow> enabled (bk_keys b))"
proof -
  obtain pricing where r: "loadConfig version (su_system io) args = Inr (bk_cfg b)"
    "bk_pool b = newAccountPool (cf_authFiles (bk_cfg b))"
    "open_history (su_codec io) (su_boot io) (cf_requestLogFile (bk_cfg b)) (cf_requestLogLimit (bk_cfg b))
       (cf_requestLogMaxBytes (bk_cfg b)) pricing = Inr (bk_requests b)"
    "newKeyRegistry (sy_windows (su_system io)) (su_keys io) (sy_files (su_system io)) (cf_apiKey (bk_cfg b))
       (cf_keysFile (bk_cfg b)) (su_now io) = Inr (bk_keys b)"
    "bk_limiter b = newConcurrencyLimiter (cf_maxConcurrent (bk_cfg b)) defaultQueueWait"
    by (rule runServe_parts [OF assms])
  have cfg: "0 \<le> cf_maxConcurrent (bk_cfg b)" "cf_authFiles (bk_cfg b) \<noteq> []"
    "TrimSpace (cf_apiKeyFile (bk_cfg b)) \<noteq> [] \<longrightarrow> TrimSpace (cf_apiKey (bk_cfg b)) \<noteq> []"
    using config_safe [OF r(1)] by simp_all
  have limiter: "case bk_limiter b of
       None \<Rightarrow> cf_maxConcurrent (bk_cfg b) = 0
     | Some l \<Rightarrow> int (slots_cap l) = cf_maxConcurrent (bk_cfg b) \<and> slots_len l = 0"
    using cfg(1) unfolding r(5) by (auto simp: newConcurrencyLimiter_def)
  show ?thesis
    using new_pool_labels_distinct [of "cf_authFiles (bk_cfg b)"] cfg limiter open_history_bounded [OF r(3)] registry_enabled [OF r(4)] r(2)
    by (auto simp: list_all_iff)
qed

section \<open>Routing\<close>

lemma best_route_in: "best_route rs = Some r \<Longrightarrow> r \<in> set rs"
  by (induction rs arbitrary: r) (auto split: option.splits if_splits)

lemma routed_in_table:
  assumes "serve_mux verb path = Routed r"
  shows "r \<in> set newServerMux" "path_matches (ro_path r) path" "method_matches (ro_method r) verb"
    "verb \<noteq> ''CONNECT'' \<Longrightarrow> cleanPath path = path"
  using assms by (auto simp: serve_mux_def Let_def dest!: best_route_in split: if_splits option.splits)

definition public_handlers :: "handler list" where
  "public_handlers =
     [DashboardPage, VoicePage, DashboardLogout, DashboardRequests, DashboardCosts, UsageByUser, CodexUsage, Health]"

lemma table_gated: "list_all (\<lambda>r. ro_authenticated r = (ro_handler r \<notin> set public_handlers)) newServerMux"
  by (simp add: newServerMux_def open_route_def client_route_def public_handlers_def)

text \<open>The first two segments of a path.\<close>

lemma table_v1:
  "list_all (\<lambda>r. \<not> ro_authenticated r \<longrightarrow> ro_path r = ''/'' \<and> ro_handler r = DashboardPage \<or>
     ro_path r \<noteq> ''/'' \<and> take 2 (Split CHR ''/'' (ro_path r)) \<noteq> [[], ''v1'']) newServerMux"
  by code_simp

lemma table_wild:
  "list_all (\<lambda>r. \<not> ro_authenticated r \<longrightarrow> ''{call_id}'' \<notin> set (Split CHR ''/'' (ro_path r))) newServerMux"
  by code_simp

lemma segments_match_take:
  "segments_match ps ss \<Longrightarrow> ''{call_id}'' \<notin> set (take n ps) \<Longrightarrow> take n ss = take n ps"
proof (induction ps ss arbitrary: n rule: segments_match.induct)
  case (2 p ps s ss)
  then show ?case by (cases n) (auto split: if_splits)
qed simp_all

lemma Split_v1: "Split CHR ''/'' (''/v1/'' @ p) = [] # ''v1'' # Split CHR ''/'' p"
  by simp

lemma table_not_shadowed:
  "list_all (\<lambda>r. ''{call_id}'' \<in> set (Split CHR ''/'' (ro_path r)) \<or> serve_mux (ro_method r) (ro_path r) = Routed r) newServerMux"
  by code_simp

lemma v1_gated:
  assumes "serve_mux verb (''/v1/'' @ p) = Routed r"
  shows "ro_authenticated r \<or> ro_path r = ''/'' \<and> ro_handler r = DashboardPage"
proof (rule ccontr)
  assume not: "\<not> ?thesis"
  note r = routed_in_table [OF assms]
  have t: "ro_path r \<noteq> ''/''" "take 2 (Split CHR ''/'' (ro_path r)) \<noteq> [[], ''v1'']"
    using table_v1 r(1) not by (auto simp: list_all_iff)
  have "segments_match (Split CHR ''/'' (ro_path r)) ([] # ''v1'' # Split CHR ''/'' p)"
    using r(2) t(1) unfolding path_matches_def Split_v1 by simp
  moreover have "''{call_id}'' \<notin> set (take 2 (Split CHR ''/'' (ro_path r)))" using r(1) table_wild not by (auto simp: list_all_iff dest: in_set_takeD)
  ultimately have "take 2 (Split CHR ''/'' (ro_path r)) = [[], ''v1'']" using segments_match_take by fastforce
  then show False using t(2) by simp
qed

lemma dashboard_elsewhere:
  assumes "di_path io = ''/v1/'' @ p"
  shows "\<exists>a. do_answer (handleDashboard io st) = Some a \<and> da_status a = 404"
  using assms by (simp add: handleDashboard_def answered_with_def)

text \<open>The routing table is sound. Every route without a parameter serves its own path, so none is shadowed;
  a request only ever reaches a handler of the table, and that handler runs behind client
  authentication unless it is one of the dashboard, which has a gate of its own, or the health check;
  and a path under \<open>/v1/\<close> never reaches an unauthenticated handler other than the catch-all page, which
  answers 404 there.\<close>

theorem routes_sound:
  "list_all (\<lambda>r. ''{call_id}'' \<in> set (Split CHR ''/'' (ro_path r)) \<or> serve_mux (ro_method r) (ro_path r) = Routed r) newServerMux \<and>
   (serve_mux verb path = Routed r \<longrightarrow>
      r \<in> set newServerMux \<and> (ro_authenticated r \<longleftrightarrow> ro_handler r \<notin> set public_handlers)) \<and>
   (serve_mux verb (''/v1/'' @ p) = Routed r \<longrightarrow>
      ro_authenticated r \<or>
      (di_path io = ''/v1/'' @ p \<longrightarrow> (\<exists>a. do_answer (handleDashboard io st) = Some a \<and> da_status a = 404)))"
  using table_not_shadowed table_gated routed_in_table(1) [of verb path r] v1_gated [of verb p r] dashboard_elsewhere
  by (auto simp: list_all_iff)

theorem routes_sound_witness:
  "\<exists>r. serve_mux ''POST'' ''/v1/responses'' = Routed r \<and> ro_authenticated r"
proof -
  have "serve_mux ''POST'' ''/v1/responses'' = Routed (client_route ''POST'' ''/v1/responses'' ResponsesPost)" by code_simp
  then show ?thesis
    using routes_sound [of "''POST''" "''/v1/responses''" "client_route ''POST'' ''/v1/responses'' ResponsesPost"]
    by (auto simp: client_route_def public_handlers_def)
qed

section \<open>Advertised endpoints\<close>

definition advertised :: "json \<Rightarrow> string list" where
  "advertised c = (case c of JObj obj \<Rightarrow> (case oget obj ''endpoints'' of JStrs es \<Rightarrow> es | _ \<Rightarrow> []) | _ \<Rightarrow> [])"

text \<open>An endpoint text is a method, a space and a path, perhaps with a query.\<close>

definition routed_endpoint :: "string \<Rightarrow> bool" where
  "routed_endpoint e =
     (case Cut CHR '' '' e of
        (verb, target, found) \<Rightarrow>
          found \<and> list_ex (\<lambda>r. ro_method r = verb \<and> ro_path r = fst (Cut CHR ''?'' target) \<and> ro_authenticated r \<and>
                                ro_handler r \<noteq> Unsupported) newServerMux)"

lemma advertised_list:
  "concat (map advertised (capability_list configuredImageModel)) =
     [''POST /v1/responses'', ''GET /v1/responses'', ''POST /v1/chat/completions'', ''POST /v1/responses/compact'',
      ''POST /v1/images/generations'', ''POST /v1/images/edits'', ''POST /v1/realtime/calls'', ''POST /v1/live'',
      ''GET /v1/live/{call_id}'', ''GET /v1/realtime?call_id=...'', ''POST /v1/alpha/search'']"
  by (simp add: capability_list_def capability_def advertised_def oget_def)

text \<open>The capability list tells the truth: every endpoint it advertises is a route of the server, behind
  client authentication, and served by a handler other than the one for unsupported endpoints.\<close>

theorem advertised_endpoints_served:
  "list_all routed_endpoint (concat (map advertised (capability_list configuredImageModel)))"
  unfolding advertised_list by code_simp

section \<open>The doctor\<close>

text \<open>What the doctor may tell of a credential: the error, or whether the account and the token are there,
  when the token expires and whether it was refreshed.\<close>

definition credential_view :: "string + authMaterial \<Rightarrow> string + (bool \<times> bool \<times> gotime \<times> int \<times> bool)" where
  "credential_view r =
     (case r of
        Inl err \<Rightarrow> Inl err
      | Inr a \<Rightarrow> Inr (am_AccountID a \<noteq> [], am_AccessToken a \<noteq> [], am_ExpiresAt a, am_ExpiresIn a, am_Refreshed a))"

lemma doctor_entry_view: "credential_view r = credential_view r' \<Longrightarrow> doctor_entry io path r' = doctor_entry io path r"
  by (auto simp: credential_view_def doctor_entry_def split: sum.splits)

lemma credential_view_failed: "credential_view r = credential_view r' \<Longrightarrow> (\<exists>err. r = Inl err) \<longleftrightarrow> (\<exists>err. r' = Inl err)"
  by (auto simp: credential_view_def split: sum.splits)

text \<open>The doctor reveals no secret: its report is the same for any two sets of credentials and any two client
  keys that agree on what it may tell, which is presence, expiry and refresh for a credential and
  the twelve digits of its fingerprint for a client key.\<close>

theorem doctor_hides_secrets:
  assumes "list_all2 (\<lambda>r r'. credential_view r = credential_view r') results results'"
    and "optionalFingerprint (al_lib (dr_auth io)) key = optionalFingerprint (al_lib (dr_auth io)) (cf_apiKey cfg)"
    and "key = [] \<longleftrightarrow> cf_apiKey cfg = []"
  shows "doctor_report io commit (cfg\<lparr>cf_apiKey := key\<rparr>) results' = doctor_report io commit cfg results"
proof -
  have entries: "list_all2 (\<lambda>r r'. credential_view r = credential_view r') rs rs' \<Longrightarrow>
      map (\<lambda>(path, r). doctor_entry io path r) (zip paths rs') = map (\<lambda>(path, r). doctor_entry io path r) (zip paths rs)" for rs rs' paths
    by (induction rs rs' arbitrary: paths rule: list_all2_induct; case_tac paths) (auto intro: doctor_entry_view)
  have "list_all2 (\<lambda>r r'. credential_view r = credential_view r') rs rs' \<Longrightarrow>
      (\<exists>r\<in>set rs'. \<exists>err. r = Inl err) \<longleftrightarrow> (\<exists>r\<in>set rs. \<exists>err. r = Inl err)" for rs rs'
    by (induction rs rs' rule: list_all2_induct) (auto dest: credential_view_failed)
  then show ?thesis using assms entries by (simp add: doctor_report_def printDoctor_def)
qed

section \<open>Witnesses\<close>

definition startup_witness :: startup_io where
  "startup_witness =
     \<lparr>su_system = witness_system, su_pricing = \<lambda>_. None, su_codec = restart_codec, su_boot = boot_witness, su_keys = \<lambda>_. None,
      su_now = 0, su_listen = \<lambda>_. None\<rparr>"

theorem broker_starts_secured_witness:
  "\<exists>b. runServe ''dev'' startup_witness (concat (map flag_args [listen_flag])) = Inr b \<and> distinct (map label (accounts (bk_pool b)))"
proof -
  obtain cfg where cfg: "loadConfig ''dev'' witness_system (concat (map flag_args [listen_flag])) = Inr cfg" "cf_keysFile cfg = []"
    using witness_config by blast
  have pricing: "loadModelPricing (\<lambda>_. None) [] = Inr defaultModelPricing" by (simp add: loadModelPricing_def)
  have "\<exists>s. open_history restart_codec boot_witness path limit maxBytes table = Inr s" for path limit maxBytes table
    by (auto simp: open_history_def boot_witness_def good_disk_def openRequestLogFileWithLimit_def Let_def split: prod.split)
  then obtain s where s: "open_history restart_codec boot_witness (cf_requestLogFile cfg) (cf_requestLogLimit cfg)
      (cf_requestLogMaxBytes cfg) defaultModelPricing = Inr s" by blast
  obtain reg where reg: "newKeyRegistry (sy_windows witness_system) (\<lambda>_. None) (sy_files witness_system) (cf_apiKey cfg) [] 0 = Inr reg"
    by (simp add: newKeyRegistry_def Let_def)
  have io: "su_system startup_witness = witness_system" "su_pricing startup_witness = (\<lambda>_. None)" "su_codec startup_witness = restart_codec"
    "su_boot startup_witness = boot_witness" "su_keys startup_witness = (\<lambda>_. None)" "su_now startup_witness = 0"
    "su_listen startup_witness = (\<lambda>_. None)"
    by (simp_all add: startup_witness_def)
  obtain b where b: "runServe ''dev'' startup_witness (concat (map flag_args [listen_flag])) = Inr b"
    unfolding runServe_def io cfg step_ok_def sum.case bind_ok_simps Let_def witness_env pricing s reg option.case by blast
  show ?thesis using broker_starts_secured [OF b] b by blast
qed

theorem doctor_hides_secrets_witness:
  "doctor_report \<lparr>dr_system = witness_system, dr_auth = al, dr_calls = calls, dr_contents = \<lambda>_. None, dr_perm = \<lambda>_. Some 438,
       dr_mode = \<lambda>_. ''-rw-rw-rw-'', dr_format = \<lambda>_. []\<rparr> commit (cfg\<lparr>cf_apiKey := cf_apiKey cfg\<rparr>)
     [Inr \<lparr>am_AccessToken = ''two'', am_AccountID = ''x'', am_ExpiresAt = 5, am_ExpiresIn = 5, am_IssuedAt = 0, am_Refreshed = False\<rparr>] =
   doctor_report \<lparr>dr_system = witness_system, dr_auth = al, dr_calls = calls, dr_contents = \<lambda>_. None, dr_perm = \<lambda>_. Some 438,
       dr_mode = \<lambda>_. ''-rw-rw-rw-'', dr_format = \<lambda>_. []\<rparr> commit cfg
     [Inr \<lparr>am_AccessToken = ''one'', am_AccountID = ''y'', am_ExpiresAt = 5, am_ExpiresIn = 5, am_IssuedAt = 1, am_Refreshed = False\<rparr>]"
  by (rule doctor_hides_secrets) (simp_all add: credential_view_def)

end
